(* ===== verification/Prelude.thy ===== *)
theory Prelude
  imports Main
begin

text \<open>
  Shared vocabulary of the development: database tables as lists of rows in insertion order,
  the three SQL shapes the store uses on them (a single-row read, a conditional update, an
  existence test), transaction results as sums, and the few \<^verbatim>\<open>strings\<close> functions of the Go
  standard library the code calls. Every lemma here is about lists, sums or strings alone.

  \<^item> A \<^verbatim>\<open>select ... where P\<close> that scans one row is \<open>row P t\<close>, whose \<open>None\<close> is pgx's
    \<^verbatim>\<open>ErrNoRows\<close>; an \<^verbatim>\<open>update ... set f where P\<close> is \<open>update_where P f t\<close>.
  \<^item> \<^verbatim>\<open>Store.WithOrg\<close> runs a function in a transaction and rolls back on an error: \<open>with_org\<close>.
\<close>

named_theorems frame \<open>which tables an operation leaves alone\<close>
named_theorems table_simps \<open>membership and lookup in updated tables\<close>

section \<open>Tables\<close>

definition row :: "('r \<Rightarrow> bool) \<Rightarrow> 'r list \<Rightarrow> 'r option" where
  "row P t = List.find P t"

definition update_where :: "('r \<Rightarrow> bool) \<Rightarrow> ('r \<Rightarrow> 'r) \<Rightarrow> 'r list \<Rightarrow> 'r list" where
  "update_where P f t = map (\<lambda>r. if P r then f r else r) t"

definition exists_row :: "('r \<Rightarrow> bool) \<Rightarrow> 'r list \<Rightarrow> bool" where
  "exists_row P t \<longleftrightarrow> (\<exists>r\<in>set t. P r)"

text \<open>The rows an update touched (\<^verbatim>\<open>RowsAffected\<close>).\<close>

definition rows_affected :: "('r \<Rightarrow> bool) \<Rightarrow> 'r list \<Rightarrow> nat" where
  "rows_affected P t = length (filter P t)"

lemma row_SomeD: "row P t = Some r \<Longrightarrow> r \<in> set t \<and> P r"
  by (auto simp: row_def find_Some_iff)

lemma row_None_iff: "row P t = None \<longleftrightarrow> (\<forall>r\<in>set t. \<not> P r)"
  by (auto simp: row_def find_None_iff)

lemma row_Some_ex: "r \<in> set t \<Longrightarrow> P r \<Longrightarrow> \<exists>r'. row P t = Some r'"
  by (cases "row P t") (auto simp: row_None_iff)

lemma row_Nil [simp]: "row P [] = None"
  by (simp add: row_def)

lemma row_Cons [simp]: "row P (r # t) = (if P r then Some r else row P t)"
  by (simp add: row_def)

lemma row_append [table_simps]:
  "row P (t @ u) = (case row P t of Some r \<Rightarrow> Some r | None \<Rightarrow> row P u)"
  by (induction t) auto

lemma update_where_Nil [simp]: "update_where P f [] = []"
  by (simp add: update_where_def)

lemma update_where_Cons [simp]:
  "update_where P f (r # t) = (if P r then f r else r) # update_where P f t"
  by (simp add: update_where_def)

lemma length_update_where [simp]: "length (update_where P f t) = length t"
  by (simp add: update_where_def)

lemma set_update_where [table_simps]:
  "r \<in> set (update_where P f t) \<longleftrightarrow>
     (\<exists>q\<in>set t. (P q \<and> r = f q) \<or> (\<not> P q \<and> r = q))"
  by (auto simp: update_where_def)

lemma update_whereE:
  assumes "r \<in> set (update_where P f t)"
  obtains (hit) q where "q \<in> set t" "P q" "r = f q" | (miss) "r \<in> set t" "\<not> P r"
  using assms by (auto simp: update_where_def split: if_splits)

lemma ball_update_where [table_simps]:
  "(\<forall>r\<in>set (update_where P f t). Q r) \<longleftrightarrow> (\<forall>r\<in>set t. if P r then Q (f r) else Q r)"
  by (auto simp: update_where_def)

lemma bex_update_where [table_simps]:
  "(\<exists>r\<in>set (update_where P f t). Q r) \<longleftrightarrow> (\<exists>r\<in>set t. if P r then Q (f r) else Q r)"
  by (auto simp: update_where_def)

lemma update_where_append [simp]:
  "update_where P f (t @ u) = update_where P f t @ update_where P f u"
  by (simp add: update_where_def)

lemma update_where_unmatched: "\<forall>r\<in>set t. \<not> P r \<Longrightarrow> update_where P f t = t"
  by (induction t) auto

lemma map_key_update_where:
  "(\<And>r. P r \<Longrightarrow> k (f r) = k r) \<Longrightarrow> map k (update_where P f t) = map k t"
  by (induction t) auto

lemma row_update_where_same:
  "(\<And>r. P r \<Longrightarrow> Q (f r) = Q r) \<Longrightarrow>
   row Q (update_where P f t) = map_option (\<lambda>r. if P r then f r else r) (row Q t)"
  by (induction t) auto

lemma exists_row_append [simp]: "exists_row P (t @ u) \<longleftrightarrow> exists_row P t \<or> exists_row P u"
  by (auto simp: exists_row_def)

lemma exists_row_Nil [simp]: "\<not> exists_row P []"
  by (simp add: exists_row_def)

lemma exists_row_Cons [simp]: "exists_row P (r # t) \<longleftrightarrow> P r \<or> exists_row P t"
  by (simp add: exists_row_def)

lemma exists_row_update_where:
  "(\<And>r. P r \<Longrightarrow> Q (f r) = Q r) \<Longrightarrow> exists_row Q (update_where P f t) = exists_row Q t"
  by (induction t) auto

text \<open>In a table whose key is unique, a row is the one its key finds.\<close>

lemma unique_key_row:
  assumes "distinct (map k t)" "r \<in> set t" "q \<in> set t" "k r = k q"
  shows "r = q"
  using assms by (auto simp: distinct_map inj_on_def)

lemma row_unique:
  assumes "distinct (map k t)" "r \<in> set t" "P r" "\<And>q. P q \<Longrightarrow> k q = k r"
  shows "row P t = Some r"
proof -
  obtain q where q: "row P t = Some q"
    using row_Some_ex[of r t P] assms(2,3) by blast
  then have "q \<in> set t" "P q" by (auto dest: row_SomeD)
  then have "q = r" using assms unique_key_row[of k t q r] by metis
  with q show ?thesis by simp
qed

text \<open>
  How a table moves: rows change in place along \<open>E\<close> and new rows, which satisfy \<open>B\<close>, are appended;
  no row is deleted.
\<close>

definition grows :: "('r \<Rightarrow> 'r \<Rightarrow> bool) \<Rightarrow> ('r \<Rightarrow> bool) \<Rightarrow> 'r list \<Rightarrow> 'r list \<Rightarrow> bool" where
  "grows E B t t' \<longleftrightarrow> (\<exists>u v. t' = u @ v \<and> list_all2 E t u \<and> list_all B v)"

lemma grows_refl [intro]: "(\<And>r. E r r) \<Longrightarrow> grows E B t t"
  unfolding grows_def by (rule exI[of _ t], rule exI[of _ "[]"]) (simp add: list_all2_refl)

lemma grows_mono: "grows E B t t' \<Longrightarrow> (\<And>r. B r \<Longrightarrow> C r) \<Longrightarrow> grows E C t t'"
  unfolding grows_def by (auto simp: list_all_iff)

lemma grows_append: "(\<And>r. E r r) \<Longrightarrow> grows E B t u \<Longrightarrow> list_all B v \<Longrightarrow> grows E B t (u @ v)"
  unfolding grows_def by (metis append.assoc list_all_append)

lemma grows_update:
  assumes "\<And>r. E r r" "\<And>r. r \<in> set t \<Longrightarrow> P r \<Longrightarrow> E r (f r)"
  shows "grows E B t (update_where P f t)"
  unfolding grows_def
  by (rule exI[of _ "update_where P f t"], rule exI[of _ "[]"])
     (use assms in \<open>auto simp: update_where_def list_all2_conv_all_nth\<close>)

lemma grows_cases:
  assumes "grows E B t t'" "r' \<in> set t'"
  obtains (moved) r where "r \<in> set t" "E r r'" | (new) "B r'"
proof -
  obtain u v where u: "t' = u @ v" "list_all2 E t u" "list_all B v"
    using assms(1) by (auto simp: grows_def)
  show thesis
  proof (cases "r' \<in> set u")
    case True
    then obtain i where "i < length u" "u ! i = r'" by (auto simp: in_set_conv_nth)
    then have "t ! i \<in> set t" "E (t ! i) r'" using u(2)
      by (auto dest: list_all2_lengthD list_all2_nthD2)
    then show thesis by (rule moved)
  next
    case False
    then have "r' \<in> set v" using assms(2) u(1) by simp
    then show thesis using u(3) new by (auto simp: list_all_iff)
  qed
qed

lemma grows_ex: "grows E B t t' \<Longrightarrow> r \<in> set t \<Longrightarrow> \<exists>r'\<in>set t'. E r r'"
proof -
  assume "grows E B t t'" "r \<in> set t"
  then obtain u v i where t': "t' = u @ v" "list_all2 E t u" "i < length t" "t ! i = r"
    by (auto simp: grows_def in_set_conv_nth)
  then have "E r (u ! i)" "u ! i \<in> set u"
    by (auto dest: list_all2_nthD list_all2_lengthD)
  with t'(1) show ?thesis by auto
qed

section \<open>Transactions\<close>

text \<open>
  \<^verbatim>\<open>func (s *Store) WithOrg(ctx, org, fn)\<close>: on an error of \<open>fn\<close> the deferred rollback undoes
  every statement, otherwise the transaction commits. A transaction body is a function from
  the database to an error or a result with the new database.
\<close>

definition with_org :: "('s \<Rightarrow> 'e + ('a \<times> 's)) \<Rightarrow> 's \<Rightarrow> ('e + 'a) \<times> 's" where
  "with_org f s = (case f s of Inl e \<Rightarrow> (Inl e, s) | Inr (x, s') \<Rightarrow> (Inr x, s'))"

text \<open>The database after a transaction, whatever it returned.\<close>

definition commit :: "('s \<Rightarrow> 'e + ('a \<times> 's)) \<Rightarrow> 's \<Rightarrow> 's" where
  "commit f s = snd (with_org f s)"

lemma with_org_rollback: "fst (with_org f s) = Inl e \<Longrightarrow> snd (with_org f s) = s"
  by (auto simp: with_org_def split: sum.splits prod.splits)

lemma commit_eq: "commit f s = (case f s of Inl e \<Rightarrow> s | Inr (x, s') \<Rightarrow> s')"
  by (auto simp: commit_def with_org_def split: sum.splits prod.splits)

lemma commit_induct:
  assumes "P s" "\<And>x s'. f s = Inr (x, s') \<Longrightarrow> P s'"
  shows "P (commit f s)"
  using assms by (auto simp: commit_eq split: sum.splits prod.splits)

section \<open>Strings\<close>

text \<open>
  Go strings are byte strings, so a \<^typ>\<open>char\<close> is a byte. \<^verbatim>\<open>TrimSpace\<close> and \<^verbatim>\<open>ToLower\<close> are
  modelled on ASCII (the Unicode spaces and letters beyond it are multi-byte and untouched).
\<close>

definition is_space :: "char \<Rightarrow> bool" where
  "is_space c \<longleftrightarrow> c \<in> {CHR '' '', CHR 0x09, CHR 0x0A, CHR 0x0B, CHR 0x0C, CHR 0x0D}"

definition trim_space :: "string \<Rightarrow> string" where
  "trim_space s = rev (dropWhile is_space (rev (dropWhile is_space s)))"

definition has_prefix :: "string \<Rightarrow> string \<Rightarrow> bool" where
  "has_prefix s p \<longleftrightarrow> take (length p) s = p"

fun contains_str :: "string \<Rightarrow> string \<Rightarrow> bool" where
  "contains_str [] p = (p = [])"
| "contains_str (c # s) p = (has_prefix (c # s) p \<or> contains_str s p)"

definition lower_char :: "char \<Rightarrow> char" where
  "lower_char c = (let n = of_char c :: nat in if 65 \<le> n \<and> n \<le> 90 then char_of (n + 32) else c)"

definition to_lower :: "string \<Rightarrow> string" where
  "to_lower s = map lower_char s"

lemma has_prefix_iff: "has_prefix s p \<longleftrightarrow> (\<exists>r. s = p @ r)"
  by (metis append_eq_conv_conj has_prefix_def)

lemma contains_str_iff: "contains_str s p \<longleftrightarrow> (\<exists>a b. s = a @ p @ b)"
proof (induction s)
  case Nil
  then show ?case by auto
next
  case (Cons c s)
  have "(\<exists>a b. c # s = a @ p @ b) \<longleftrightarrow> (\<exists>b. c # s = p @ b) \<or> (\<exists>a b. s = a @ p @ b)"
    by (metis Cons_eq_append_conv append_Cons)
  then show ?case using Cons.IH by (simp add: has_prefix_iff)
qed

section \<open>Lists\<close>

text \<open>\<^verbatim>\<open>coalesce(max(x), 0)\<close> over non-negative numbers.\<close>

definition max0 :: "int list \<Rightarrow> int" where
  "max0 xs = fold max xs 0"

lemma fold_max_ge: "a \<le> fold max xs (a :: int)"
  by (induction xs arbitrary: a) (auto intro: order_trans[OF max.cobounded2])

lemma fold_max_upper: "x \<in> set xs \<Longrightarrow> x \<le> fold max xs (a :: int)"
proof (induction xs arbitrary: a)
  case (Cons y ys)
  then show ?case using fold_max_ge[of "max y a" ys] by auto
qed simp

lemma max0_upper: "x \<in> set xs \<Longrightarrow> x \<le> max0 xs"
  by (simp add: max0_def fold_max_upper)

lemma max0_nonneg: "0 \<le> max0 xs"
  by (simp add: max0_def fold_max_ge)

end
