(* ===== verification/Json.thy ===== *)
theory Json
  imports Prelude Complex_Main
begin

text \<open>
  JSON documents as \<^verbatim>\<open>encoding/json\<close> presents them. A \<^verbatim>\<open>json.RawMessage\<close> is represented by its
  parse (\<open>None\<close> for absent, blank or malformed text); objects keep the order and the
  duplicates of their keys, because \<^verbatim>\<open>connectors.parse\<close> looks at them. A number is its literal:
  an integer literal, or a literal with a fraction or an exponent (\<open>DecLit m e\<close> is
  \<open>m * 10 ^ e\<close>). Decoding a number into \<^verbatim>\<open>any\<close> rounds it to a float64: \<open>f64\<close> is rounding to
  nearest, ties to even, with gradual underflow and \<open>None\<close> for an overflow, which
  \<^verbatim>\<open>Unmarshal\<close> reports as an error. \<open>None\<close> of a literal means nothing else.
\<close>

datatype jnum = IntLit int | DecLit int int

datatype json =
    JNull
  | JBool bool
  | JNum jnum
  | JStr string
  | JArr "json list"
  | JObj "(string \<times> json) list"

type_synonym jmap = "(string \<times> json) list"

section \<open>float64\<close>

definition num_rat :: "jnum \<Rightarrow> rat" where
  "num_rat n = (case n of
       IntLit i \<Rightarrow> of_int i
     | DecLit m e \<Rightarrow> if 0 \<le> e then of_int m * 10 ^ nat e else of_int m / 10 ^ nat (- e))"

definition round_half_even :: "rat \<Rightarrow> int" where
  "round_half_even q =
     (let f = \<lfloor>q\<rfloor>; r = q - of_int f
      in if r < 1/2 then f else if r > 1/2 then f + 1 else if even f then f else f + 1)"

fun bit_len :: "nat \<Rightarrow> nat" where
  "bit_len n = (if n = 0 then 0 else Suc (bit_len (n div 2)))"

declare bit_len.simps [simp del]

text \<open>The exponent \<open>k\<close> with \<open>2 ^ k \<le> q < 2 ^ (k + 1)\<close>, for positive \<open>q\<close>.\<close>

definition floor_log2 :: "rat \<Rightarrow> int" where
  "floor_log2 q =
     (if 1 \<le> q then int (bit_len (nat \<lfloor>q\<rfloor>)) - 1
      else - int (bit_len (nat (\<lceil>1 / q\<rceil> - 1))))"

definition pow2 :: "int \<Rightarrow> rat" where
  "pow2 e = (if 0 \<le> e then 2 ^ nat e else 1 / 2 ^ nat (- e))"

definition f64 :: "jnum \<Rightarrow> rat option" where
  "f64 n =
     (let q = num_rat n in
      if q = 0 then Some 0
      else let u = pow2 (max (- 1074) (floor_log2 \<bar>q\<bar> - 52));
               v = of_int (round_half_even (q / u)) * u
           in if pow2 1024 \<le> \<bar>v\<bar> then None else Some v)"

lemma round_half_even_of_int [simp]: "round_half_even (of_int i) = i"
  by (simp add: round_half_even_def)

lemma bit_len_bound: "n < 2 ^ k \<Longrightarrow> bit_len n \<le> k"
proof (induction k arbitrary: n)
  case 0
  then show ?case by (simp add: bit_len.simps)
next
  case (Suc k)
  then have "n div 2 < 2 ^ k" by simp
  with Suc.IH[of "n div 2"] show ?case by (subst bit_len.simps) simp
qed

text \<open>Integer literals below \<open>2 ^ 53\<close> are read exactly.\<close>

lemma f64_int_exact:
  assumes "\<bar>i\<bar> < 2 ^ 53"
  shows "f64 (IntLit i) = Some (of_int i)"
proof (cases "i = 0")
  case True
  then show ?thesis by (simp add: f64_def num_rat_def)
next
  case False
  let ?q = "of_int i :: rat"
  let ?e = "max (- 1074) (floor_log2 \<bar>?q\<bar> - 52)"
  have one: "1 \<le> \<bar>?q\<bar>" using False by (simp flip: of_int_abs)
  have "nat \<lfloor>\<bar>?q\<bar>\<rfloor> < 2 ^ 53" using assms by (simp flip: of_int_abs)
  then have "bit_len (nat \<lfloor>\<bar>?q\<bar>\<rfloor>) \<le> 53" by (rule bit_len_bound)
  then have "floor_log2 \<bar>?q\<bar> - 52 \<le> 0" using one by (simp add: floor_log2_def)
  then have e: "?e \<le> 0" by simp
  define k where "k = nat (- ?e)"
  have u: "pow2 ?e = 1 / 2 ^ k" using e by (auto simp: pow2_def k_def)
  have "?q / pow2 ?e = of_int (i * 2 ^ k)" by (simp add: u)
  then have "round_half_even (?q / pow2 ?e) = i * 2 ^ k"
    by (simp only: round_half_even_of_int)
  then have v: "of_int (round_half_even (?q / pow2 ?e)) * pow2 ?e = ?q" by (simp add: u)
  have "\<bar>?q\<bar> < 2 ^ 53" using assms by (metis of_int_abs of_int_less_iff of_int_numeral of_int_power)
  also have "(2 :: rat) ^ 53 \<le> 2 ^ 1024" by (rule power_increasing) simp_all
  finally have "\<not> pow2 1024 \<le> \<bar>?q\<bar>" by (simp add: pow2_def)
  then show ?thesis using False v by (simp add: f64_def num_rat_def Let_def)
qed

section \<open>Reading values\<close>

text \<open>\<^verbatim>\<open>integer\<close> of connectors.go on a decoded number: an integral float64 of at most 53 bits.\<close>

definition max_safe :: int where
  "max_safe = 9007199254740991"

definition json_integer :: "json \<Rightarrow> int option" where
  "json_integer v = (case v of
       JNum n \<Rightarrow> (case f64 n of
           None \<Rightarrow> None
         | Some x \<Rightarrow> if x \<noteq> of_int \<lfloor>x\<rfloor> \<or> x > of_int max_safe \<or> x < - of_int max_safe
                     then None else Some \<lfloor>x\<rfloor>)
     | _ \<Rightarrow> None)"

lemma json_integer_range:
  assumes "json_integer v = Some i"
  shows "\<bar>i\<bar> \<le> max_safe"
proof -
  obtain x where x: "x = of_int i" "\<not> x > of_int max_safe" "\<not> x < - (of_int max_safe :: rat)"
    using assms by (auto simp: json_integer_def split: json.splits option.splits if_splits)
  then have "i \<le> max_safe" "- max_safe \<le> i"
    by (simp_all add: not_less flip: of_int_minus)
  then show ?thesis by simp
qed

lemma json_integer_lit:
  assumes "\<bar>i\<bar> \<le> max_safe"
  shows "json_integer (JNum (IntLit i)) = Some i"
proof -
  have "\<bar>i\<bar> < 2 ^ 53" using assms by (simp add: max_safe_def)
  moreover have "\<not> (of_int i :: rat) > of_int max_safe" "\<not> (of_int i :: rat) < - of_int max_safe"
    using assms by (simp_all add: abs_le_iff flip: of_int_minus)
  ultimately show ?thesis by (simp add: json_integer_def f64_int_exact)
qed

text \<open>Decoding into a Go \<^verbatim>\<open>string\<close>, \<^verbatim>\<open>[]string\<close> or \<^verbatim>\<open>map\<close> field: null leaves the zero value.\<close>

definition get_str :: "json option \<Rightarrow> string option" where
  "get_str v = (case v of None \<Rightarrow> Some [] | Some JNull \<Rightarrow> Some [] | Some (JStr s) \<Rightarrow> Some s
                 | _ \<Rightarrow> None)"

definition get_strs :: "json option \<Rightarrow> string list option" where
  "get_strs v = (case v of
       None \<Rightarrow> Some []
     | Some JNull \<Rightarrow> Some []
     | Some (JArr xs) \<Rightarrow> those (map (\<lambda>x. get_str (Some x)) xs)
     | _ \<Rightarrow> None)"

text \<open>A \<^verbatim>\<open>*string\<close> field: the outer \<open>None\<close> is a decoding error, the inner one a nil pointer.\<close>

definition get_str_ptr :: "json option \<Rightarrow> string option option" where
  "get_str_ptr v = (case v of None \<Rightarrow> Some None | Some JNull \<Rightarrow> Some None
                     | Some (JStr s) \<Rightarrow> Some (Some s) | _ \<Rightarrow> None)"

definition as_map :: "json \<Rightarrow> jmap option" where
  "as_map v = (case v of JObj kvs \<Rightarrow> Some kvs | JNull \<Rightarrow> Some [] | _ \<Rightarrow> None)"

text \<open>\<^verbatim>\<open>d[k] = v\<close> on a Go map kept as an association list.\<close>

fun map_put :: "string \<Rightarrow> json \<Rightarrow> jmap \<Rightarrow> jmap" where
  "map_put k v [] = [(k, v)]"
| "map_put k v ((k', v') # m) = (if k' = k then (k, v) # m else (k', v') # map_put k v m)"

lemma map_of_map_put [simp]: "map_of (map_put k v m) = (map_of m)(k \<mapsto> v)"
  by (induction m) (auto simp: fun_eq_iff)

end
