(* ===== verification/Schema.thy ===== *)
theory Schema
  imports Json
begin

text \<open>
  The database: one record per table of \<^verbatim>\<open>migrations/\<close> as the store's Go structs read it, the
  enumerations their CHECK constraints fix, the errors the store returns, and the database as
  the list of its tables. Rows stand in insertion order; \<^verbatim>\<open>NULL\<close> columns are \<open>option\<close>s.
  Timestamps are integers (microseconds of the database clock, \<open>now\<close> in the operations).
  Identifiers come from \<^verbatim>\<open>platform.NewID\<close> (random), so operations take them as arguments and
  the primary keys reject a repeated one with \<open>Constraint\<close>, as PostgreSQL would.
\<close>

type_synonym id = string
type_synonym time = int

section \<open>Errors\<close>

text \<open>
  \<open>NoRows\<close> is \<^verbatim>\<open>pgx.ErrNoRows\<close> (\<^verbatim>\<open>store.ErrNotFound\<close>), \<open>Constraint\<close> a constraint the database
  rejects a statement with, \<open>Stale\<close>, \<open>Invalid\<close> and \<open>UnknownOp\<close> the connectors' sentinels
  \<^verbatim>\<open>ErrStale\<close>, \<^verbatim>\<open>ErrInvalid\<close> and \<^verbatim>\<open>ErrUnknown\<close>, and \<open>Msg\<close> any other \<^verbatim>\<open>errors.New\<close>. The sentinels are
  compared by identity (\<^verbatim>\<open>errors.Is\<close>), so \<open>Msg ''invalid operation''\<close> is not \<open>Invalid\<close>.
\<close>

datatype err =
    NoRows
  | Constraint
  | Stale
  | Invalid
  | UnknownOp
  | LoginUnusable
  | SessionInvalid
  | GateNotFound
  | GateNotRespondent
  | GateRevision
  | GateAlreadyResolved
  | GateInvalidResponse
  | GateInvalidSchema
  | NoActiveHarness
  | HarnessUnsupported
  | PublishError string
  | CapabilitiesMissing string "string list"
  | Msg string

section \<open>Rows\<close>

datatype role = Requester | Approver | Admin

record organization =
  og_id :: id
  og_name :: string

record principal =
  pr_id :: id
  pr_org :: id
  pr_name :: string
  pr_role :: role
  pr_active :: bool

record project =
  pj_id :: id
  pj_org :: id
  pj_name :: string
  pj_description :: string
  pj_version :: int

datatype task_status = TDraft | TReady | TInProgress | TInReview | TBlocked | TDone | TCancelled

record task =
  tk_id :: id
  tk_org :: id
  tk_title :: string
  tk_description :: string
  tk_status :: task_status
  tk_owner :: id
  tk_assignee :: "id option"
  tk_project :: "id option"
  tk_version :: int
  tk_created :: time

record task_dep =
  td_org :: id
  td_task :: id
  td_parent :: id

record agent =
  ag_id :: id
  ag_org :: id
  ag_name :: string
  ag_harness :: string
  ag_status :: string
  ag_owner :: id
  ag_capabilities :: "string list"
  ag_template :: "id option"
  ag_template_version :: "string option"
  ag_instructions :: string

record sim_record =
  sr_id :: id
  sr_org :: id
  sr_integration :: string
  sr_version :: int
  sr_data :: json

record operation =
  op_id :: id
  op_integration :: string
  op_action :: string
  op_key :: string
  op_target :: id
  op_version :: int
  op_payload :: "json option"

datatype proposal_status =
  PPendingEndorsement | PPendingApproval | PApproved | PRejected | PSuperseded | PExecuting | PDone
  | PNeedsAttention

record proposal =
  pp_id :: id
  pp_org :: id
  pp_task :: id
  pp_revision :: int
  pp_digest :: string
  pp_status :: proposal_status
  pp_summary :: string
  pp_operations :: "operation list"
  pp_created_by :: id
  pp_created :: time
  pp_failure :: string
  pp_origin :: string
  pp_origin_run :: id

datatype decision_kind = Endorse | Approve | Reject

record decision =
  dc_id :: id
  dc_org :: id
  dc_proposal :: id
  dc_actor :: id
  dc_kind :: decision_kind
  dc_revision :: int
  dc_digest :: string
  dc_reason :: string

datatype effect_state =
  EPrepared | EAuthorized | EDispatching | EAccepted | EApplied | EVerified | EUnknown
  | EFailedNoEffect | ENeedsAttention

record effect =
  ef_id :: id
  ef_org :: id
  ef_proposal :: id
  ef_operation :: id
  ef_integration :: string
  ef_action :: string
  ef_target :: id
  ef_expected :: int
  ef_payload :: "json option"
  ef_state :: effect_state
  ef_result :: "json option"
  ef_bop :: "id option"

record receipt =
  rc_id :: id
  rc_org :: id
  rc_effect :: id
  rc_kind :: string
  rc_outcome :: string
  rc_result :: json

datatype bop_status = BReserved | BDispatching | BVerified | BReleased | BUnknown

record business_op =
  bo_id :: id
  bo_org :: id
  bo_integration :: string
  bo_action :: string
  bo_key :: string
  bo_fingerprint :: string
  bo_proposal :: "id option"
  bo_status :: bop_status

datatype handoff_state = HOffered | HAccepted | HDeclined | HExpired | HCancelled | HClarification

record handoff =
  ho_id :: id
  ho_org :: id
  ho_task :: id
  ho_offered :: int
  ho_recipient :: id
  ho_role :: string
  ho_summary :: string
  ho_state :: handoff_state
  ho_created_by :: id
  ho_created :: time
  ho_expires :: "time option"
  ho_accepted_at :: "time option"
  ho_resolved_at :: "time option"
  ho_reason :: string
  ho_hop :: int

datatype run_status = RQueued | RRunning | RWaiting | RSucceeded | RFailed | RCancelled

record agent_run =
  ru_id :: id
  ru_org :: id
  ru_task :: id
  ru_agent :: id
  ru_harness :: string
  ru_release :: id
  ru_runner :: string
  ru_intent :: string
  ru_status :: run_status
  ru_proposal :: "id option"
  ru_summary :: string
  ru_failure :: string
  ru_created_by :: id
  ru_version :: int
  ru_created :: time
  ru_started :: "time option"
  ru_finished :: "time option"
  ru_token :: string
  ru_attempt :: int
  ru_gate :: "id option"
  ru_lease :: "time option"

datatype gate_status = GPending | GResolved | GCancelled | GExpired

record gate =
  gt_id :: id
  gt_org :: id
  gt_task :: id
  gt_run :: "id option"
  gt_kind :: string
  gt_prompt :: string
  gt_schema :: json
  gt_revision :: int
  gt_status :: gate_status
  gt_respondent :: id
  gt_response :: "json option"
  gt_responded_by :: "id option"
  gt_responded_at :: "time option"
  gt_created_by :: id
  gt_created :: time
  gt_version :: int

record release =
  rr_id :: id
  rr_org :: id
  rr_family :: string
  rr_kind :: string
  rr_version :: string
  rr_digest :: string
  rr_state :: string
  rr_manifest :: json
  rr_requested :: "string list"
  rr_granted :: "string list"
  rr_compat :: string
  rr_simulation :: bool
  rr_created_by :: id
  rr_revision :: int
  rr_created :: time
  rr_updated :: time

record event =
  ev_id :: id
  ev_org :: id
  ev_aggregate :: id
  ev_version :: int
  ev_type :: string
  ev_actor :: id
  ev_payload :: json

record position =
  po_id :: id
  po_org :: id
  po_name :: string
  po_parent :: "id option"
  po_version :: int
  po_created :: time

text \<open>A relationship holds in the half-open interval from \<open>re_from\<close> to \<open>re_to\<close>, without an end if \<open>None\<close>.\<close>

record relationship =
  re_id :: id
  re_org :: id
  re_subject :: id
  re_kind :: string
  re_object :: id
  re_from :: time
  re_to :: "time option"
  re_created_by :: id
  re_created :: time

datatype milestone_status = MPlanned | MActive | MMet | MCancelled

record milestone =
  mi_id :: id
  mi_org :: id
  mi_project :: id
  mi_name :: string
  mi_evidence :: string
  mi_committed :: "int option"
  mi_forecast :: "int option"
  mi_status :: milestone_status
  mi_met_at :: "time option"
  mi_met_evidence :: string
  mi_version :: int
  mi_created :: time

record milestone_dep =
  md_org :: id
  md_milestone :: id
  md_parent :: id

record agent_template =
  at_id :: id
  at_org :: id
  at_name :: string
  at_version :: string
  at_harness :: string
  at_description :: string
  at_capabilities :: "string list"
  at_instructions :: string
  at_status :: string
  at_created_by :: id
  at_revision :: int
  at_created :: time

record identity_link =
  il_issuer :: string
  il_subject :: string
  il_org :: id
  il_principal :: id
  il_created :: time
  il_created_by :: id
  il_active :: bool

record session =
  se_hash :: string
  se_org :: id
  se_principal :: id
  se_issuer :: string
  se_subject :: string
  se_csrf :: string
  se_expires :: time
  se_seen :: time
  se_revoked :: "time option"

record login =
  lt_hash :: string
  lt_verifier :: string
  lt_nonce :: string
  lt_return :: string
  lt_expires :: time
  lt_consumed :: "time option"

section \<open>The database\<close>

text \<open>
  \<open>proposal_jobs\<close> and \<open>run_jobs\<close> are River's queues of \<^verbatim>\<open>ProposalExecuteArgs\<close> and \<^verbatim>\<open>AgentRunArgs\<close>:
  the jobs inserted and not yet completed, as (organization, id) pairs.
\<close>

record db =
  organizations :: "organization list"
  principals :: "principal list"
  projects :: "project list"
  tasks :: "task list"
  task_deps :: "task_dep list"
  agents :: "agent list"
  sim_records :: "sim_record list"
  proposals :: "proposal list"
  decisions :: "decision list"
  effects :: "effect list"
  receipts :: "receipt list"
  business_ops :: "business_op list"
  handoffs :: "handoff list"
  agent_runs :: "agent_run list"
  gates :: "gate list"
  releases :: "release list"
  events :: "event list"
  positions :: "position list"
  relationships :: "relationship list"
  milestones :: "milestone list"
  milestone_deps :: "milestone_dep list"
  templates :: "agent_template list"
  identity_links :: "identity_link list"
  sessions :: "session list"
  logins :: "login list"
  proposal_jobs :: "(id \<times> id) list"
  run_jobs :: "(id \<times> id) list"

type_synonym 'a tx = "db \<Rightarrow> err + ('a \<times> db)"

definition empty_db :: db where
  "empty_db =
     \<lparr>organizations = [], principals = [], projects = [], tasks = [], task_deps = [], agents = [],
      sim_records = [], proposals = [], decisions = [], effects = [], receipts = [],
      business_ops = [], handoffs = [], agent_runs = [], gates = [], releases = [], events = [],
      positions = [], relationships = [], milestones = [], milestone_deps = [], templates = [],
      identity_links = [], sessions = [], logins = [],
      proposal_jobs = [], run_jobs = []\<rparr>"

section \<open>Reads several operations share\<close>

abbreviation find_task :: "id \<Rightarrow> id \<Rightarrow> db \<Rightarrow> task option" where
  "find_task org i s \<equiv> row (\<lambda>t. tk_org t = org \<and> tk_id t = i) (tasks s)"

abbreviation find_principal :: "id \<Rightarrow> id \<Rightarrow> db \<Rightarrow> principal option" where
  "find_principal org i s \<equiv> row (\<lambda>p. pr_org p = org \<and> pr_id p = i) (principals s)"

abbreviation find_proposal :: "id \<Rightarrow> id \<Rightarrow> db \<Rightarrow> proposal option" where
  "find_proposal org i s \<equiv> row (\<lambda>p. pp_org p = org \<and> pp_id p = i) (proposals s)"

abbreviation find_run :: "id \<Rightarrow> id \<Rightarrow> db \<Rightarrow> agent_run option" where
  "find_run org i s \<equiv> row (\<lambda>r. ru_org r = org \<and> ru_id r = i) (agent_runs s)"

abbreviation find_release :: "id \<Rightarrow> id \<Rightarrow> db \<Rightarrow> release option" where
  "find_release org i s \<equiv> row (\<lambda>r. rr_org r = org \<and> rr_id r = i) (releases s)"

abbreviation terminal_task :: "task_status \<Rightarrow> bool" where
  "terminal_task st \<equiv> st = TDone \<or> st = TCancelled"

text \<open>\<^verbatim>\<open>requireActivePrincipal\<close>.\<close>

definition require_active_principal :: "id \<Rightarrow> id \<Rightarrow> db \<Rightarrow> err + unit" where
  "require_active_principal org i s =
     (if i = [] then Inl (Msg ''principal is required'')
      else case find_principal org i s of
        None \<Rightarrow> Inl (Msg ''principal not found'')
      | Some p \<Rightarrow> if \<not> pr_active p then Inl (Msg ''principal is not active'') else Inr ())"

lemma require_active_principal_ok:
  "require_active_principal org i s = Inr () \<longleftrightarrow>
     i \<noteq> [] \<and> (\<exists>p. find_principal org i s = Some p \<and> pr_active p)"
  by (auto simp: require_active_principal_def split: option.splits)

end
