(* ===== verification/Connectors.thy ===== *)
theory Connectors
  imports Schema
begin

text \<open>
  \<^verbatim>\<open>internal/connectors/connectors.go\<close>: the simulator integrations. A connector is a manifest,
  a validation and a pure transformation of a record (\<^verbatim>\<open>Prepare\<close>); the registry maps an
  integration's name to its connector. The contract the store relies on is the locale
  \<open>connector_contract\<close>, interpreted for the three connectors and, for the whole registry, as
  \<open>registry_contract\<close>.
\<close>

section \<open>Manifests and maturity\<close>

datatype maturity = Unsupported | ReadOnly | PreparePreview | GovernedApply | VerifiedApply

text \<open>The levels are ordered: each claims strictly more than the one before.\<close>

fun maturity_rank :: "maturity \<Rightarrow> nat" where
  "maturity_rank Unsupported = 0"
| "maturity_rank ReadOnly = 1"
| "maturity_rank PreparePreview = 2"
| "maturity_rank GovernedApply = 3"
| "maturity_rank VerifiedApply = 4"

lemma maturity_rank_inj: "maturity_rank a = maturity_rank b \<Longrightarrow> a = b"
  by (cases a; cases b) simp_all

instantiation maturity :: linorder
begin

definition less_eq_maturity :: "maturity \<Rightarrow> maturity \<Rightarrow> bool" where
  "a \<le> b \<longleftrightarrow> maturity_rank a \<le> maturity_rank b"

definition less_maturity :: "maturity \<Rightarrow> maturity \<Rightarrow> bool" where
  "a < b \<longleftrightarrow> maturity_rank a < maturity_rank b"

instance
  by standard (auto simp: less_eq_maturity_def less_maturity_def intro: maturity_rank_inj)

end

record field =
  fd_name :: string
  fd_type :: string
  fd_required :: bool
  fd_note :: string

record op_maturity =
  om_action :: string
  om_maturity :: maturity
  om_evidence :: string

record manifest =
  mf_id :: string
  mf_name :: string
  mf_kind :: string
  mf_actions :: "string list"
  mf_simulation :: bool
  mf_fields :: "field list"
  mf_maturity :: "op_maturity list"

definition maturity_of :: "manifest \<Rightarrow> string \<Rightarrow> op_maturity" where
  "maturity_of m action =
     (case row (\<lambda>om. om_action om = action) (mf_maturity m) of
        Some om \<Rightarrow> om
      | None \<Rightarrow> \<lparr>om_action = action, om_maturity = Unsupported, om_evidence = []\<rparr>)"

definition all_maturities :: "manifest \<Rightarrow> op_maturity list" where
  "all_maturities m =
     map (maturity_of m) (mf_actions m)
     @ filter (\<lambda>om. om_action om \<notin> set (mf_actions m)) (mf_maturity m)"

section \<open>Operations on records\<close>

record crecord =
  cr_id :: id
  cr_version :: int
  cr_data :: jmap

record connector =
  cn_manifest :: manifest
  cn_validate :: "operation \<Rightarrow> err + unit"
  cn_prepare :: "crecord \<Rightarrow> operation \<Rightarrow> err + crecord"

definition check :: "manifest \<Rightarrow> operation \<Rightarrow> err + unit" where
  "check m op =
     (if op_integration op \<noteq> mf_id m then Inl UnknownOp
      else if op_action op \<in> set (mf_actions m) then Inr () else Inl UnknownOp)"

text \<open>The key loop of \<^verbatim>\<open>parse\<close>: every key allowed, none twice.\<close>

fun parse_keys :: "string list \<Rightarrow> string list \<Rightarrow> jmap \<Rightarrow> bool" where
  "parse_keys allowed seen [] = True"
| "parse_keys allowed seen ((k, v) # kvs) =
     (if k \<in> set seen \<or> k \<notin> set allowed then False else parse_keys allowed (k # seen) kvs)"

definition parse :: "json option \<Rightarrow> string list \<Rightarrow> err + jmap" where
  "parse raw allowed =
     (case raw of
        Some (JObj kvs) \<Rightarrow> if parse_keys allowed [] kvs then Inr kvs else Inl Invalid
      | _ \<Rightarrow> Inl Invalid)"

text \<open>\<^verbatim>\<open>clone\<close> and \<^verbatim>\<open>cloneValue\<close>: a deep copy, equal to its argument.\<close>

fun clone_value :: "json \<Rightarrow> json" where
  "clone_value (JObj kvs) = JObj (map (\<lambda>(k, v). (k, clone_value v)) kvs)"
| "clone_value (JArr xs) = JArr (map clone_value xs)"
| "clone_value v = v"

definition clone :: "jmap \<Rightarrow> jmap" where
  "clone m = map (\<lambda>(k, v). (k, clone_value v)) m"

definition prep :: "crecord \<Rightarrow> operation \<Rightarrow> manifest \<Rightarrow> (jmap \<Rightarrow> err + jmap) \<Rightarrow> err + crecord" where
  "prep cur op m fn =
     (case check m op of
        Inl e \<Rightarrow> Inl e
      | Inr _ \<Rightarrow>
          if op_target op = [] \<or> cr_id cur \<noteq> op_target op \<or> op_version op \<noteq> cr_version cur
          then Inl Stale
          else case fn (clone (cr_data cur)) of
            Inl e \<Rightarrow> Inl e
          | Inr d \<Rightarrow> Inr \<lparr>cr_id = cr_id cur, cr_version = cr_version cur + 1, cr_data = d\<rparr>)"

lemma clone_value_id [simp]: "clone_value v = v"
proof (induction v rule: clone_value.induct)
  case (1 kvs)
  have "map (\<lambda>(k, v). (k, clone_value v)) kvs = map id kvs"
    by (rule map_cong) (use 1 in auto)
  then show ?case by simp
next
  case (2 xs)
  then show ?case by (simp add: map_idI)
qed simp_all

lemma clone_id [simp]: "clone m = m"
  by (simp add: clone_def map_idI case_prod_beta)

section \<open>The three simulators\<close>

definition sim_maturity :: "string \<Rightarrow> op_maturity" where
  "sim_maturity a =
     \<lparr>om_action = a, om_maturity = PreparePreview,
      om_evidence = ''simulated: the effect is a row in the platform database, and no external provider is contacted''\<rparr>"

definition inventory_manifest :: manifest where
  "inventory_manifest =
     \<lparr>mf_id = ''inventory'', mf_name = ''Inventory simulator'', mf_kind = ''simulator'',
      mf_actions = [''adjust''], mf_simulation = True,
      mf_fields = [\<lparr>fd_name = ''delta'', fd_type = ''integer'', fd_required = True,
                    fd_note = ''signed change applied to the record's quantity''\<rparr>],
      mf_maturity = [sim_maturity ''adjust'']\<rparr>"

definition inventory_validate :: "operation \<Rightarrow> err + unit" where
  "inventory_validate op = check inventory_manifest op"

definition inventory_fn :: "json option \<Rightarrow> jmap \<Rightarrow> err + jmap" where
  "inventory_fn payload d =
     (case parse payload [''delta''] of
        Inl e \<Rightarrow> Inl e
      | Inr kvs \<Rightarrow>
         (case Option.bind (map_of kvs ''delta'') json_integer of
            None \<Rightarrow> Inl Invalid
          | Some delta \<Rightarrow>
             (case Option.bind (map_of d ''quantity'') json_integer of
                None \<Rightarrow> Inl Invalid
              | Some q \<Rightarrow>
                  if q < 0 \<or> q > max_safe \<or> delta > max_safe - q \<or> delta < - q then Inl Invalid
                  else Inr (map_put ''quantity'' (JNum (IntLit (q + delta))) d))))"

definition inventory_prepare :: "crecord \<Rightarrow> operation \<Rightarrow> err + crecord" where
  "inventory_prepare cur op = prep cur op inventory_manifest (inventory_fn (op_payload op))"

definition mail_manifest :: manifest where
  "mail_manifest =
     \<lparr>mf_id = ''mail'', mf_name = ''Mail simulator'', mf_kind = ''simulator'',
      mf_actions = [''send''], mf_simulation = True,
      mf_fields =
        [\<lparr>fd_name = ''recipients'', fd_type = ''array of string'', fd_required = True,
          fd_note = ''at least one address''\<rparr>,
         \<lparr>fd_name = ''subject'', fd_type = ''string'', fd_required = True, fd_note = []\<rparr>,
         \<lparr>fd_name = ''body'', fd_type = ''string'', fd_required = True, fd_note = []\<rparr>,
         \<lparr>fd_name = ''bcc'', fd_type = ''array of string'', fd_required = False,
          fd_note = ''use [] when empty''\<rparr>,
         \<lparr>fd_name = ''attachments'', fd_type = ''array of string'', fd_required = False,
          fd_note = ''use [] when empty''\<rparr>],
      mf_maturity = [sim_maturity ''send'']\<rparr>"

definition mail_validate :: "operation \<Rightarrow> err + unit" where
  "mail_validate op = check mail_manifest op"

definition mail_fn :: "json option \<Rightarrow> jmap \<Rightarrow> err + jmap" where
  "mail_fn payload d =
     (case parse payload [''recipients'', ''subject'', ''body'', ''bcc'', ''attachments''] of
        Inl e \<Rightarrow> Inl e
      | Inr kvs \<Rightarrow>
         (case (get_strs (map_of kvs ''recipients''), get_str (map_of kvs ''subject''),
                get_str (map_of kvs ''body''), get_strs (map_of kvs ''bcc''),
                get_strs (map_of kvs ''attachments'')) of
            (Some rs, Some sub, Some body, Some bcc, Some att) \<Rightarrow>
              if rs = [] \<or> sub = [] \<or> body = [] then Inl Invalid
              else Inr (map_put ''attachments'' (JArr (map JStr att))
                         (map_put ''bcc'' (JArr (map JStr bcc))
                           (map_put ''body'' (JStr body)
                             (map_put ''subject'' (JStr sub)
                               (map_put ''recipients'' (JArr (map JStr rs)) d)))))
          | _ \<Rightarrow> Inl Invalid))"

definition mail_prepare :: "crecord \<Rightarrow> operation \<Rightarrow> err + crecord" where
  "mail_prepare cur op = prep cur op mail_manifest (mail_fn (op_payload op))"

definition document_manifest :: manifest where
  "document_manifest =
     \<lparr>mf_id = ''documents'', mf_name = ''Documents simulator'', mf_kind = ''simulator'',
      mf_actions = [''update''], mf_simulation = True,
      mf_fields =
        [\<lparr>fd_name = ''title'', fd_type = ''string'', fd_required = False,
          fd_note = ''supply title and/or content''\<rparr>,
         \<lparr>fd_name = ''content'', fd_type = ''string'', fd_required = False,
          fd_note = ''supply title and/or content''\<rparr>],
      mf_maturity = [sim_maturity ''update'']\<rparr>"

definition document_validate :: "operation \<Rightarrow> err + unit" where
  "document_validate op = check document_manifest op"

definition document_fn :: "json option \<Rightarrow> jmap \<Rightarrow> err + jmap" where
  "document_fn payload d =
     (case parse payload [''title'', ''content''] of
        Inl e \<Rightarrow> Inl e
      | Inr kvs \<Rightarrow>
         (case (get_str_ptr (map_of kvs ''title''), get_str_ptr (map_of kvs ''content'')) of
            (Some t, Some c) \<Rightarrow>
              if t = None \<and> c = None then Inl Invalid
              else let d1 = (case t of Some x \<Rightarrow> map_put ''title'' (JStr x) d | None \<Rightarrow> d)
                   in Inr (case c of Some x \<Rightarrow> map_put ''content'' (JStr x) d1 | None \<Rightarrow> d1)
          | _ \<Rightarrow> Inl Invalid))"

definition document_prepare :: "crecord \<Rightarrow> operation \<Rightarrow> err + crecord" where
  "document_prepare cur op = prep cur op document_manifest (document_fn (op_payload op))"

section \<open>The registry\<close>

definition inventory_connector :: connector where
  "inventory_connector = \<lparr>cn_manifest = inventory_manifest, cn_validate = inventory_validate,
                          cn_prepare = inventory_prepare\<rparr>"

definition mail_connector :: connector where
  "mail_connector = \<lparr>cn_manifest = mail_manifest, cn_validate = mail_validate,
                     cn_prepare = mail_prepare\<rparr>"

definition document_connector :: connector where
  "document_connector = \<lparr>cn_manifest = document_manifest, cn_validate = document_validate,
                         cn_prepare = document_prepare\<rparr>"

type_synonym registry = "string \<Rightarrow> connector option"

definition new_registry :: registry where
  "new_registry i =
     (if i = ''inventory'' then Some inventory_connector
      else if i = ''mail'' then Some mail_connector
      else if i = ''documents'' then Some document_connector else None)"

text \<open>\<^verbatim>\<open>Registry.List\<close> ranges over a Go map, whose order is unspecified; this is one order.\<close>

definition registry_list :: "manifest list" where
  "registry_list = map cn_manifest [inventory_connector, mail_connector, document_connector]"

section \<open>The contract of a connector\<close>

text \<open>
  What the store relies on: a successful \<^verbatim>\<open>Prepare\<close> keeps the record's id, moves its version
  by one, and only happens for a validated operation bound to this record and version; a
  refusal is one of the three sentinels, and a version or target mismatch of a valid operation
  is always \<open>Stale\<close>.
\<close>

locale connector_contract =
  fixes c :: connector
  assumes prepare_ok:
      "cn_prepare c cur op = Inr nxt \<Longrightarrow>
         cr_id nxt = cr_id cur \<and> cr_version nxt = cr_version cur + 1 \<and>
         op_target op = cr_id cur \<and> op_version op = cr_version cur \<and> cn_validate c op = Inr ()"
    and prepare_error: "cn_prepare c cur op = Inl e \<Longrightarrow> e \<in> {Stale, Invalid, UnknownOp}"
    and prepare_stale:
      "cn_validate c op = Inr () \<Longrightarrow> cr_id cur \<noteq> op_target op \<or> cr_version cur \<noteq> op_version op \<Longrightarrow>
         cn_prepare c cur op = Inl Stale"
    and validate_error: "cn_validate c op = Inl e \<Longrightarrow> e = UnknownOp"
begin

text \<open>An operation cannot be prepared twice: the first success makes the second stale.\<close>

lemma second_is_stale:
  assumes "cn_prepare c cur op = Inr nxt" "cn_validate c op' = Inr ()"
    "op_version op' = op_version op"
  shows "cn_prepare c nxt op' = Inl Stale"
proof -
  from assms(1) have "cr_version nxt = op_version op + 1" using prepare_ok by force
  then have "cr_version nxt \<noteq> op_version op'" using assms(3) by simp
  with assms(2) show ?thesis by (simp add: prepare_stale)
qed

end

text \<open>A connector built by \<open>check\<close> and \<open>prep\<close> over a data function that only fails with
  \<open>Invalid\<close> meets the contract.\<close>

lemma check_error: "check m op = Inl e \<Longrightarrow> e = UnknownOp"
  by (auto simp: check_def split: if_splits)

lemma parse_error: "parse raw allowed = Inl e \<Longrightarrow> e = Invalid"
  by (auto simp: parse_def split: option.splits json.splits if_splits)

lemma check_prep_contract:
  assumes c: "cn_validate c = check m" "\<And>cur op. cn_prepare c cur op = prep cur op m (fn op)"
    and fn: "\<And>op d e. fn op d = Inl e \<Longrightarrow> e = Invalid"
  shows "connector_contract c"
proof
  show "cr_id nxt = cr_id cur \<and> cr_version nxt = cr_version cur + 1 \<and>
         op_target op = cr_id cur \<and> op_version op = cr_version cur \<and> cn_validate c op = Inr ()"
    if "cn_prepare c cur op = Inr nxt" for cur op nxt
    using that by (auto simp: c prep_def split: sum.splits if_splits)
  show "e \<in> {Stale, Invalid, UnknownOp}" if "cn_prepare c cur op = Inl e" for cur op e
    using that fn check_error by (fastforce simp: c prep_def split: sum.splits if_splits)
  show "cn_prepare c cur op = Inl Stale"
    if "cn_validate c op = Inr ()" "cr_id cur \<noteq> op_target op \<or> cr_version cur \<noteq> op_version op"
    for cur op
    using that by (auto simp: c prep_def)
  show "e = UnknownOp" if "cn_validate c op = Inl e" for op e
    using that by (simp add: c check_error)
qed

lemma inventory_fn_error: "inventory_fn payload d = Inl e \<Longrightarrow> e = Invalid"
  by (auto simp: inventory_fn_def dest: parse_error split: sum.splits option.splits if_splits)

lemma mail_fn_error: "mail_fn payload d = Inl e \<Longrightarrow> e = Invalid"
  by (auto simp: mail_fn_def dest: parse_error split: sum.splits option.splits if_splits prod.splits)

lemma document_fn_error: "document_fn payload d = Inl e \<Longrightarrow> e = Invalid"
  by (auto simp: document_fn_def Let_def dest: parse_error
      split: sum.splits option.splits if_splits prod.splits)

interpretation inventory: connector_contract inventory_connector
  by (rule check_prep_contract[where m = inventory_manifest
        and fn = "\<lambda>op. inventory_fn (op_payload op)"])
     (auto simp: inventory_connector_def inventory_validate_def inventory_prepare_def fun_eq_iff
       dest: inventory_fn_error)

interpretation mail: connector_contract mail_connector
  by (rule check_prep_contract[where m = mail_manifest and fn = "\<lambda>op. mail_fn (op_payload op)"])
     (auto simp: mail_connector_def mail_validate_def mail_prepare_def fun_eq_iff
       dest: mail_fn_error)

interpretation documents: connector_contract document_connector
  by (rule check_prep_contract[where m = document_manifest
        and fn = "\<lambda>op. document_fn (op_payload op)"])
     (auto simp: document_connector_def document_validate_def document_prepare_def fun_eq_iff
       dest: document_fn_error)

text \<open>A registry all of whose connectors keep the contract, the interface of the executor.\<close>

locale registry_contract =
  fixes reg :: registry
  assumes contract: "reg i = Some c \<Longrightarrow> connector_contract c"
begin

lemmas reg_prepare_ok = connector_contract.prepare_ok[OF contract]
lemmas reg_prepare_error = connector_contract.prepare_error[OF contract]
lemmas reg_second_is_stale = connector_contract.second_is_stale[OF contract]
lemmas reg_prepare_stale = connector_contract.prepare_stale[OF contract]

end

interpretation sims: registry_contract new_registry
  by (rule registry_contract.intro)
     (auto simp: new_registry_def inventory.connector_contract_axioms
       mail.connector_contract_axioms documents.connector_contract_axioms split: if_splits)

end
