(* ===== verification/BusinessOps.thy ===== *)
theory BusinessOps
  imports Connectors
begin

text \<open>
  \<^verbatim>\<open>internal/store/business_operations.go\<close>: the duplicate guard. A business operation is one real
  operation, named by its integration, action and business key within an organization; the row
  records which proposal holds it. The SHA-256 of a JSON text is a parameter \<open>H\<close> of the model, a
  function of the document (\<^verbatim>\<open>digest\<close> of store.go marshals a Go value and hashes the bytes).
\<close>

section \<open>Keys and fingerprints\<close>

definition is_alnum :: "char \<Rightarrow> bool" where
  "is_alnum c =
     (let n = of_char c :: nat
      in (65 \<le> n \<and> n \<le> 90) \<or> (97 \<le> n \<and> n \<le> 122) \<or> (48 \<le> n \<and> n \<le> 57))"

text \<open>\<^verbatim>\<open>businessKeyRE\<close>: \<^verbatim>\<open>^[A-Za-z0-9+][A-Za-z0-9._:/+@-]{0,199}$\<close>.\<close>

definition business_key_char :: "char \<Rightarrow> bool" where
  "business_key_char c \<longleftrightarrow> is_alnum c \<or> c \<in> set ''._:/+@-''"

definition validate_business_key :: "string \<Rightarrow> err + unit" where
  "validate_business_key k =
     (case k of
        [] \<Rightarrow> Inl (Msg ''invalid business key'')
      | c # cs \<Rightarrow>
          if (is_alnum c \<or> c = CHR ''+'') \<and> list_all business_key_char cs \<and> length cs \<le> 199
          then Inr () else Inl (Msg ''invalid business key''))"

text \<open>A nil \<^verbatim>\<open>RawMessage\<close> is marshalled as null.\<close>

definition raw_json :: "json option \<Rightarrow> json" where
  "raw_json p = (case p of None \<Rightarrow> JNull | Some v \<Rightarrow> v)"

definition operation_json :: "operation \<Rightarrow> json" where
  "operation_json op = JObj
     [(''id'', JStr (op_id op)), (''integration'', JStr (op_integration op)),
      (''action'', JStr (op_action op)), (''business_key'', JStr (op_key op)),
      (''target_id'', JStr (op_target op)),
      (''expected_version'', JNum (IntLit (op_version op))),
      (''payload'', raw_json (op_payload op))]"

definition digest_ops :: "(json \<Rightarrow> string) \<Rightarrow> operation list \<Rightarrow> string" where
  "digest_ops H ops = H (JArr (map operation_json ops))"

definition operation_fingerprint :: "(json \<Rightarrow> string) \<Rightarrow> operation \<Rightarrow> string" where
  "operation_fingerprint H op = H (JObj
     [(''Integration'', JStr (op_integration op)), (''Action'', JStr (op_action op)),
      (''Target'', JStr (op_target op)), (''Version'', JNum (IntLit (op_version op))),
      (''Payload'', raw_json (op_payload op))])"

section \<open>Reserving and releasing\<close>

abbreviation find_bop :: "id \<Rightarrow> operation \<Rightarrow> db \<Rightarrow> business_op option" where
  "find_bop org op s \<equiv>
     row (\<lambda>b. bo_org b = org \<and> bo_integration b = op_integration op \<and> bo_action b = op_action op \<and>
              bo_key b = op_key op) (business_ops s)"

text \<open>
  A held key moves on only when it was released, or when it is still reserved and the proposal
  holding it was rejected or superseded by a revision of the same task.
\<close>

definition rebindable :: "id \<Rightarrow> id \<Rightarrow> business_op \<Rightarrow> db \<Rightarrow> bool" where
  "rebindable org new_task b s =
     (bo_status b = BReleased \<or>
      (bo_status b = BReserved \<and>
       (case bo_proposal b of
          None \<Rightarrow> False
        | Some q \<Rightarrow> q \<noteq> [] \<and>
           (case find_proposal org q s of
              None \<Rightarrow> False
            | Some p \<Rightarrow> pp_status p = PRejected \<or>
                        (pp_status p = PSuperseded \<and> pp_task p = new_task)))))"

text \<open>The body of the loop; \<open>i\<close> is the identifier a new row would get.\<close>

definition reserve_one :: "(json \<Rightarrow> string) \<Rightarrow> id \<Rightarrow> id \<Rightarrow> id \<Rightarrow> operation \<Rightarrow> unit tx" where
  "reserve_one H org pid i op s =
     (case validate_business_key (op_key op) of
        Inl e \<Rightarrow> Inl e
      | Inr _ \<Rightarrow>
       (let fp = operation_fingerprint H op in
        case find_bop org op s of
          None \<Rightarrow>
            if exists_row (\<lambda>b. bo_id b = i) (business_ops s) \<or> find_proposal org pid s = None
            then Inl Constraint
            else Inr ((), s\<lparr>business_ops := business_ops s @
                   [\<lparr>bo_id = i, bo_org = org, bo_integration = op_integration op,
                     bo_action = op_action op, bo_key = op_key op, bo_fingerprint = fp,
                     bo_proposal = Some pid, bo_status = BReserved\<rparr>]\<rparr>)
        | Some b \<Rightarrow>
            if bo_fingerprint b \<noteq> fp
            then Inl (Msg (''business operation already reserved for this key with different content: '' @ bo_id b))
            else case find_proposal org pid s of
              None \<Rightarrow> Inl NoRows
            | Some p \<Rightarrow>
                if \<not> rebindable org (pp_task p) b s
                then Inl (Msg (''business operation already claimed by another task or dispatched: '' @ bo_id b))
                else Inr ((), s\<lparr>business_ops :=
                       update_where (\<lambda>x. bo_org x = org \<and> bo_id x = bo_id b)
                         (\<lambda>x. x\<lparr>bo_proposal := Some pid, bo_status := BReserved,
                                bo_fingerprint := fp\<rparr>) (business_ops s)\<rparr>)))"

fun reserve_business_operations ::
    "(json \<Rightarrow> string) \<Rightarrow> id \<Rightarrow> id \<Rightarrow> (operation \<times> id) list \<Rightarrow> unit tx" where
  "reserve_business_operations H org pid [] s = Inr ((), s)"
| "reserve_business_operations H org pid ((op, i) # ops) s =
     (case reserve_one H org pid i op s of
        Inl e \<Rightarrow> Inl e
      | Inr (_, s1) \<Rightarrow> reserve_business_operations H org pid ops s1)"

definition release_business_operations :: "id \<Rightarrow> id \<Rightarrow> db \<Rightarrow> db" where
  "release_business_operations org pid s =
     s\<lparr>business_ops := update_where
         (\<lambda>b. bo_org b = org \<and> bo_proposal b = Some pid \<and> bo_status b = BReserved)
         (\<lambda>b. b\<lparr>bo_status := BReleased\<rparr>) (business_ops s)\<rparr>"

section \<open>Keys\<close>

text \<open>The unique columns of a row and the key an operation of an organization names.\<close>

definition bop_key :: "business_op \<Rightarrow> id \<times> string \<times> string \<times> string" where
  "bop_key b = (bo_org b, bo_integration b, bo_action b, bo_key b)"

definition key_of :: "id \<Rightarrow> operation \<Rightarrow> id \<times> string \<times> string \<times> string" where
  "key_of org op = (org, op_integration op, op_action op, op_key op)"

text \<open>The unique constraints of the table.\<close>

definition bops_wf :: "db \<Rightarrow> bool" where
  "bops_wf s \<longleftrightarrow> distinct (map bo_id (business_ops s)) \<and> distinct (map bop_key (business_ops s))"

text \<open>Proposal \<open>pid\<close> holds the key of the operation with the given status.\<close>

definition holds_key :: "id \<Rightarrow> id \<Rightarrow> bop_status \<Rightarrow> operation \<Rightarrow> db \<Rightarrow> bool" where
  "holds_key org pid st op s \<longleftrightarrow>
     (\<exists>b\<in>set (business_ops s). bop_key b = key_of org op \<and> bo_proposal b = Some pid \<and> bo_status b = st)"

lemma find_bop_key: "find_bop org op s = Some b \<Longrightarrow> b \<in> set (business_ops s) \<and> bop_key b = key_of org op"
  by (auto dest!: row_SomeD simp: bop_key_def key_of_def)

lemma find_bop_None: "find_bop org op s = None \<longleftrightarrow> key_of org op \<notin> bop_key ` set (business_ops s)"
  by (auto simp: row_None_iff bop_key_def key_of_def)

lemma reserve_one_frame [frame]:
  "reserve_one H org pid i op s = Inr (x, s') \<Longrightarrow> s' = s\<lparr>business_ops := business_ops s'\<rparr>"
  by (auto simp: reserve_one_def Let_def split: sum.splits option.splits if_splits)

text \<open>The two ways a reservation succeeds.\<close>

lemma reserve_one_cases:
  assumes "reserve_one H org pid i op s = Inr (x, s')"
  obtains (fresh) "find_bop org op s = None" "\<not> exists_row (\<lambda>b. bo_id b = i) (business_ops s)"
      "business_ops s' = business_ops s @
         [\<lparr>bo_id = i, bo_org = org, bo_integration = op_integration op, bo_action = op_action op,
           bo_key = op_key op, bo_fingerprint = operation_fingerprint H op,
           bo_proposal = Some pid, bo_status = BReserved\<rparr>]"
    | (rebind) b p where "find_bop org op s = Some b" "find_proposal org pid s = Some p"
      "rebindable org (pp_task p) b s" "bo_fingerprint b = operation_fingerprint H op"
      "business_ops s' = update_where (\<lambda>x. bo_org x = org \<and> bo_id x = bo_id b)
         (\<lambda>x. x\<lparr>bo_proposal := Some pid, bo_status := BReserved,
                bo_fingerprint := operation_fingerprint H op\<rparr>) (business_ops s)"
proof (cases "find_bop org op s")
  case None
  with assms show ?thesis
    by (intro fresh) (auto simp: reserve_one_def Let_def split: sum.splits if_split_asm)
next
  case (Some b)
  with assms obtain p where "find_proposal org pid s = Some p"
    by (auto simp: reserve_one_def Let_def split: sum.splits option.splits if_split_asm)
  with Some assms show ?thesis
    by (intro rebind) (auto simp: reserve_one_def Let_def split: sum.splits if_split_asm)
qed

lemma reserve_one_wf:
  assumes "reserve_one H org pid i op s = Inr (x, s')" "bops_wf s"
  shows "bops_wf s'"
  using assms(1)
proof (cases rule: reserve_one_cases)
  case fresh
  then show ?thesis using assms(2)
    by (auto simp: bops_wf_def exists_row_def find_bop_None bop_key_def key_of_def)
next
  case (rebind b p)
  then show ?thesis using assms(2) by (simp add: bops_wf_def map_key_update_where bop_key_def)
qed

text \<open>A key that may not move keeps its row.\<close>

lemma reserve_one_keeps:
  assumes "reserve_one H org pid i op s = Inr (x, s')" "bops_wf s"
    "b \<in> set (business_ops s)" "find_proposal org pid s = Some p"
    "bo_org b \<noteq> org \<or> \<not> rebindable org (pp_task p) b s"
  shows "b \<in> set (business_ops s')"
  using assms(1)
proof (cases rule: reserve_one_cases)
  case fresh
  then show ?thesis using assms(3) by simp
next
  case (rebind b' p')
  have "b' \<in> set (business_ops s)" using rebind(1) by (auto dest: find_bop_key)
  then have "\<not> (bo_org b = org \<and> bo_id b = bo_id b')"
    using assms(2-5) rebind(2,3) unique_key_row[of bo_id "business_ops s" b b']
    by (auto simp: bops_wf_def)
  then show ?thesis using rebind(5) assms(3) by (auto simp: set_update_where)
qed

lemma reserve_one_holds:
  assumes "reserve_one H org pid i op s = Inr (x, s')"
  shows "holds_key org pid BReserved op s'"
  using assms
proof (cases rule: reserve_one_cases)
  case fresh
  then show ?thesis by (simp add: holds_key_def bop_key_def key_of_def)
next
  case (rebind b p)
  then have b: "b \<in> set (business_ops s)" "bop_key b = key_of org op" by (auto dest: find_bop_key)
  then show ?thesis
    unfolding holds_key_def rebind(5) bex_update_where
    by (intro bexI[of _ b]) (auto simp: bop_key_def key_of_def)
qed

text \<open>A proposal cannot take a key it already holds while it is neither rejected nor superseded.\<close>

lemma reserve_one_new_key:
  assumes "reserve_one H org pid i op s = Inr (x, s')" "bops_wf s" "pid \<noteq> []"
    "find_proposal org pid s = Some p" "pp_status p \<notin> {PRejected, PSuperseded}"
  shows "\<not> holds_key org pid BReserved op s"
proof
  assume "holds_key org pid BReserved op s"
  then obtain b where b: "b \<in> set (business_ops s)" "bop_key b = key_of org op"
      "bo_proposal b = Some pid" "bo_status b = BReserved"
    by (auto simp: holds_key_def)
  from assms(1) show False
  proof (cases rule: reserve_one_cases)
    case fresh
    then show False using b(1,2) imageI[OF b(1), of bop_key] by (simp add: find_bop_None)
  next
    case (rebind b' p')
    then have "b' = b"
      using find_bop_key[OF rebind(1)] b assms(2) unique_key_row[of bop_key "business_ops s" b' b]
      by (auto simp: bops_wf_def)
    then show False using rebind(3) b(3,4) assms(4,5) by (auto simp: rebindable_def)
  qed
qed

text \<open>What a whole reservation gives.\<close>

lemma reserve_frame [frame]:
  "reserve_business_operations H org pid ops s = Inr (x, s') \<Longrightarrow>
     s' = s\<lparr>business_ops := business_ops s'\<rparr>"
proof (induction ops arbitrary: s)
  case (Cons a ops)
  obtain op i where a: "a = (op, i)" by force
  from Cons.prems obtain u s1 where 1: "reserve_one H org pid i op s = Inr (u, s1)"
      "reserve_business_operations H org pid ops s1 = Inr (x, s')"
    by (auto simp: a split: sum.splits)
  obtain X Y where "s' = s1\<lparr>business_ops := X\<rparr>" "s1 = s\<lparr>business_ops := Y\<rparr>"
    using Cons.IH[OF 1(2)] reserve_one_frame[OF 1(1)] by blast
  then show ?case by simp
qed simp

lemma reserve_wf:
  "reserve_business_operations H org pid ops s = Inr (x, s') \<Longrightarrow> bops_wf s \<Longrightarrow> bops_wf s'"
proof (induction ops arbitrary: s)
  case (Cons a ops)
  then show ?case
    by (cases a) (auto split: sum.splits intro: Cons.IH reserve_one_wf)
qed simp

lemma rebindable_cong:
  "proposals s1 = proposals s \<Longrightarrow> rebindable org t b s1 = rebindable org t b s"
  by (simp add: rebindable_def cong: option.case_cong)

lemma reserve_keeps:
  assumes "reserve_business_operations H org pid ops s = Inr (x, s')" "bops_wf s"
    "b \<in> set (business_ops s)" "find_proposal org pid s = Some p"
    "bo_org b \<noteq> org \<or> \<not> rebindable org (pp_task p) b s"
  shows "b \<in> set (business_ops s')"
  using assms
proof (induction ops arbitrary: s)
  case (Cons a ops)
  obtain op i where a: "a = (op, i)" by force
  from Cons.prems(1) obtain u s1 where 1: "reserve_one H org pid i op s = Inr (u, s1)"
      "reserve_business_operations H org pid ops s1 = Inr (x, s')"
    by (auto simp: a split: sum.splits)
  obtain Y where s1: "s1 = s\<lparr>business_ops := Y\<rparr>" using reserve_one_frame[OF 1(1)] by blast
  show ?case
  proof (rule Cons.IH[OF 1(2)])
    show "bops_wf s1" by (rule reserve_one_wf[OF 1(1) Cons.prems(2)])
    show "b \<in> set (business_ops s1)" by (rule reserve_one_keeps[OF 1(1) Cons.prems(2-5)])
    show "find_proposal org pid s1 = Some p" using Cons.prems(4) by (simp add: s1)
    show "bo_org b \<noteq> org \<or> \<not> rebindable org (pp_task p) b s1"
      using Cons.prems(5) rebindable_cong[of s1 s org "pp_task p" b] by (simp add: s1)
  qed
qed simp

lemma holds_key_keeps:
  assumes "holds_key org pid BReserved op s" "pid \<noteq> []"
    "reserve_business_operations H org pid' ops s = Inr (x, s')" "bops_wf s"
    "find_proposal org pid' s = Some p'"
    "find_proposal org pid s = Some p" "pp_status p \<notin> {PRejected, PSuperseded}"
  shows "holds_key org pid BReserved op s'"
proof -
  obtain b where b: "b \<in> set (business_ops s)" "bop_key b = key_of org op"
      "bo_proposal b = Some pid" "bo_status b = BReserved"
    using assms(1) by (auto simp: holds_key_def)
  have "\<not> rebindable org (pp_task p') b s" using b(3,4) assms(6,7) by (auto simp: rebindable_def)
  then have "b \<in> set (business_ops s')" using reserve_keeps[OF assms(3,4) b(1) assms(5)] by blast
  with b show ?thesis by (auto simp: holds_key_def)
qed

text \<open>
  A proposal that reserves its operations ends up holding every one of their keys, and the keys
  are pairwise distinct.
\<close>

lemma reserve_holds:
  assumes "reserve_business_operations H org pid ops s = Inr (x, s')" "bops_wf s" "pid \<noteq> []"
    "find_proposal org pid s = Some p" "pp_status p \<notin> {PRejected, PSuperseded}"
  shows "(\<forall>op\<in>fst ` set ops. holds_key org pid BReserved op s' \<and> \<not> holds_key org pid BReserved op s) \<and>
         distinct (map (key_of org) (map fst ops))"
  using assms
proof (induction ops arbitrary: s)
  case (Cons a ops)
  obtain op i where a: "a = (op, i)" by force
  from Cons.prems(1) obtain u s1 where 1: "reserve_one H org pid i op s = Inr (u, s1)"
      "reserve_business_operations H org pid ops s1 = Inr (x, s')"
    by (auto simp: a split: sum.splits)
  obtain Y where s1: "s1 = s\<lparr>business_ops := Y\<rparr>" using reserve_one_frame[OF 1(1)] by blast
  have wf1: "bops_wf s1" by (rule reserve_one_wf[OF 1(1) Cons.prems(2)])
  have p1: "find_proposal org pid s1 = Some p" using Cons.prems(4) by (simp add: s1)
  have op1: "holds_key org pid BReserved op s1" by (rule reserve_one_holds[OF 1(1)])
  have new: "\<not> holds_key org pid BReserved op s"
    by (rule reserve_one_new_key[OF 1(1) Cons.prems(2-5)])
  have op2: "holds_key org pid BReserved op s'"
    by (rule holds_key_keeps[OF op1 Cons.prems(3) 1(2) wf1 p1 p1 Cons.prems(5)])
  have mono: "holds_key org pid BReserved op' s1" if h: "holds_key org pid BReserved op' s" for op'
  proof -
    obtain b where b: "b \<in> set (business_ops s)" "bop_key b = key_of org op'"
      "bo_proposal b = Some pid" "bo_status b = BReserved"
      using h by (auto simp: holds_key_def)
    have "\<not> rebindable org (pp_task p) b s"
      using b(3,4) Cons.prems(4,5) by (auto simp: rebindable_def)
    then have "b \<in> set (business_ops s1)"
      using reserve_one_keeps[OF 1(1) Cons.prems(2) b(1) Cons.prems(4)] by blast
    with b show ?thesis by (auto simp: holds_key_def)
  qed
  note IH = Cons.IH[OF 1(2) wf1 Cons.prems(3) p1 Cons.prems(5)]
  have "key_of org op \<notin> key_of org ` fst ` set ops"
  proof
    assume "key_of org op \<in> key_of org ` fst ` set ops"
    then obtain op' where "op' \<in> fst ` set ops" "key_of org op' = key_of org op"
      by (metis imageE)
    moreover from this have "holds_key org pid BReserved op' s1"
      using op1 by (simp add: holds_key_def)
    ultimately show False using IH by blast
  qed
  then show ?case using IH op2 new mono by (auto simp: a image_image)
qed simp

text \<open>Releasing touches only what the proposal still has reserved.\<close>

lemma release_frame [frame]:
  "release_business_operations org pid s =
     s\<lparr>business_ops := business_ops (release_business_operations org pid s)\<rparr>"
  by (simp add: release_business_operations_def)

lemma release_wf: "bops_wf s \<Longrightarrow> bops_wf (release_business_operations org pid s)"
  by (simp add: bops_wf_def release_business_operations_def map_key_update_where bop_key_def)

lemma release_keeps:
  assumes "b \<in> set (business_ops s)"
    "bo_org b \<noteq> org \<or> bo_proposal b \<noteq> Some pid \<or> bo_status b \<noteq> BReserved"
  shows "b \<in> set (business_ops (release_business_operations org pid s))"
  using assms by (auto simp: release_business_operations_def set_update_where)

end
