(* ===== verification/Graph.thy ===== *)
theory Graph
  imports Prelude
begin

text \<open>
  The cycle check of the store's dependency tables. PostgreSQL evaluates
  \<^verbatim>\<open>with recursive reach(id) as (select parent ... union select ... join reach)\<close> by keeping the
  rows found so far and a working set of the rows found last, until the working set is empty;
  \<open>reach\<close> is that loop. Task and milestone dependencies use the same query, so the guarantee is
  stated once, for any relation kept by an insertion that runs it, in the locale \<open>dep_graph\<close>.
  An edge is a pair of a child and a parent it depends on.
\<close>

definition parents_of :: "('a \<times> 'a) list \<Rightarrow> 'a list \<Rightarrow> 'a list" where
  "parents_of E xs = map snd (filter (\<lambda>e. fst e \<in> set xs) E)"

function reach_loop :: "('a \<times> 'a) list \<Rightarrow> 'a list \<Rightarrow> 'a list \<Rightarrow> 'a list" where
  "reach_loop E seen [] = seen"
| "reach_loop E seen (w # ws) =
     (let new = remdups (filter (\<lambda>y. y \<notin> set seen) (parents_of E (w # ws)))
      in reach_loop E (seen @ new) new)"
  by pat_completeness auto

text \<open>Every turn either adds a parent of the table to the rows found or empties the working set.\<close>

termination
proof (relation "measures [\<lambda>(E, seen, ws). card (set (map snd E) - set seen),
                           \<lambda>(E, seen, ws). length ws]")
  fix E :: "('a \<times> 'a) list" and seen w ws new
  assume new: "new = remdups (filter (\<lambda>y. y \<notin> set seen) (parents_of E (w # ws)))"
  show "((E, seen @ new, new), E, seen, w # ws)
          \<in> measures [\<lambda>(E, seen, ws). card (set (map snd E) - set seen),
                      \<lambda>(E, seen, ws). length ws]"
  proof (cases "new = []")
    case False
    then obtain y where "y \<in> set new" by (cases new) auto
    then have y: "y \<in> set (map snd E)" "y \<notin> set seen" by (auto simp: new parents_of_def)
    then have "set (map snd E) - set (seen @ new) \<subset> set (map snd E) - set seen"
      using \<open>y \<in> set new\<close> by auto
    then have "card (set (map snd E) - set (seen @ new)) < card (set (map snd E) - set seen)"
      by (intro psubset_card_mono) auto
    then show ?thesis by simp
  qed simp
qed simp

definition reach :: "('a \<times> 'a) list \<Rightarrow> 'a \<Rightarrow> 'a list" where
  "reach E x = (let init = remdups (parents_of E [x]) in reach_loop E init init)"

lemma set_parents_of: "set (parents_of E xs) = set E `` set xs"
  by (force simp: parents_of_def)

lemma reach_loop_sound:
  assumes "set ws \<subseteq> R" "set seen \<subseteq> R" "set E `` R \<subseteq> R"
  shows "set (reach_loop E seen ws) \<subseteq> R"
  using assms
proof (induction E seen ws rule: reach_loop.induct)
  case (2 E seen w ws)
  let ?new = "remdups (filter (\<lambda>y. y \<notin> set seen) (parents_of E (w # ws)))"
  have "set ?new \<subseteq> set E `` set (w # ws)" by (auto simp: set_parents_of)
  also have "\<dots> \<subseteq> R" using 2(2,4) by blast
  finally have new: "set ?new \<subseteq> R" .
  have "set (reach_loop E (seen @ ?new) ?new) \<subseteq> R"
    by (rule 2(1)) (use 2(2-) new in auto)
  then show ?case by (simp add: Let_def)
qed simp

lemma reach_loop_complete:
  assumes "set ws \<subseteq> set seen" "set E `` (set seen - set ws) \<subseteq> set seen"
  shows "set seen \<subseteq> set (reach_loop E seen ws) \<and>
         set E `` set (reach_loop E seen ws) \<subseteq> set (reach_loop E seen ws)"
  using assms
proof (induction E seen ws rule: reach_loop.induct)
  case (2 E seen w ws)
  let ?new = "remdups (filter (\<lambda>y. y \<notin> set seen) (parents_of E (w # ws)))"
  have new: "set ?new = set E `` set (w # ws) - set seen"
    by (auto simp: set_parents_of)
  have "set E `` (set (seen @ ?new) - set ?new) \<subseteq> set (seen @ ?new)"
    using 2(3) unfolding set_append new by blast
  then have "set (seen @ ?new) \<subseteq> set (reach_loop E (seen @ ?new) ?new) \<and>
     set E `` set (reach_loop E (seen @ ?new) ?new) \<subseteq> set (reach_loop E (seen @ ?new) ?new)"
    by (intro 2(1)) auto
  then show ?case by (simp add: Let_def)
qed auto

text \<open>The query computes the transitive closure.\<close>

lemma set_reach: "set (reach E x) = {y. (x, y) \<in> (set E)\<^sup>+}"
proof
  let ?init = "remdups (parents_of E [x])"
  have init: "set ?init = set E `` {x}" by (simp add: set_parents_of)
  show "set (reach E x) \<subseteq> {y. (x, y) \<in> (set E)\<^sup>+}"
    unfolding reach_def Let_def
    by (rule reach_loop_sound) (use init in \<open>auto intro: trancl_into_trancl\<close>)
  have c: "set ?init \<subseteq> set (reach E x) \<and> set E `` set (reach E x) \<subseteq> set (reach E x)"
    unfolding reach_def Let_def by (rule reach_loop_complete) auto
  show "{y. (x, y) \<in> (set E)\<^sup>+} \<subseteq> set (reach E x)"
  proof clarify
    fix y assume "(x, y) \<in> (set E)\<^sup>+"
    then show "y \<in> set (reach E x)"
      by (induction rule: trancl_induct) (use c init in blast)+
  qed
qed

lemma acyclic_insert_reach:
  assumes "acyclic (set E)" "t \<noteq> p" "t \<notin> set (reach E p)"
  shows "acyclic (insert (t, p) (set E))"
  using assms by (auto simp: acyclic_insert set_reach rtrancl_eq_or_trancl)

text \<open>
  A dependency table of a state \<open>'s\<close>, per organization \<open>'o\<close>, whose only insertion checks the
  query first. Other updates of the state leave the table alone, which is a fact of each client.
\<close>

definition graph_ok :: "('o \<Rightarrow> 's \<Rightarrow> ('a \<times> 'a) list) \<Rightarrow> 's \<Rightarrow> bool" where
  "graph_ok edges s \<longleftrightarrow> (\<forall>o1. acyclic (set (edges o1 s)))"

locale dep_graph =
  fixes edges :: "'o \<Rightarrow> 's \<Rightarrow> ('a \<times> 'a) list"
    and add :: "'o \<Rightarrow> 'a \<Rightarrow> 'a \<Rightarrow> 's \<Rightarrow> 'e + ('r \<times> 's)"
  assumes add_ok:
      "add o1 t p s = Inr (x, s') \<Longrightarrow> t \<noteq> p \<and> t \<notin> set (reach (edges o1 s) p)"
    and add_edges:
      "add o1 t p s = Inr (x, s') \<Longrightarrow> set (edges o1 s') = insert (t, p) (set (edges o1 s))"
    and add_others:
      "add o1 t p s = Inr (x, s') \<Longrightarrow> o2 \<noteq> o1 \<Longrightarrow> set (edges o2 s') = set (edges o2 s)"
begin

lemma add_keeps:
  assumes "graph_ok edges s" "add o1 t p s = Inr (x, s')"
  shows "graph_ok edges s'"
  unfolding graph_ok_def
proof
  fix o2
  show "acyclic (set (edges o2 s'))"
  proof (cases "o2 = o1")
    case True
    then show ?thesis
      using assms acyclic_insert_reach[of "edges o1 s" t p] add_ok add_edges
      by (metis graph_ok_def)
  next
    case False
    then show ?thesis using assms add_others by (metis graph_ok_def)
  qed
qed

lemma frame_keeps:
  "graph_ok edges s \<Longrightarrow> (\<And>o1. edges o1 s' = edges o1 s) \<Longrightarrow> graph_ok edges s'"
  by (simp add: graph_ok_def)

end

end
