(* ===== verification/Tasks.thy ===== *)
theory Tasks
  imports Schema Graph
begin

text \<open>
  Projects, tasks and their dependencies: \<^verbatim>\<open>internal/store/store.go\<close>, from \<^verbatim>\<open>CreateProject\<close> to
  \<^verbatim>\<open>CancelTask\<close>. Each operation is the body of its transaction. A read is a function of the
  database; row-level security restricts it to the organization of the transaction.
\<close>

section \<open>Projects\<close>

definition create_project :: "id \<Rightarrow> id \<Rightarrow> string \<Rightarrow> string \<Rightarrow> project tx" where
  "create_project org i name desc s =
     (if \<not> exists_row (\<lambda>x. og_id x = org) (organizations s)
         \<or> exists_row (\<lambda>p. pj_id p = i) (projects s)
      then Inl Constraint
      else let p = \<lparr>pj_id = i, pj_org = org, pj_name = name, pj_description = desc, pj_version = 1\<rparr>
           in Inr (p, s\<lparr>projects := projects s @ [p]\<rparr>))"

text \<open>\<^verbatim>\<open>order by created_at\<close>: the rows of a table stand in the order of their insertion.\<close>

definition list_projects :: "id \<Rightarrow> db \<Rightarrow> project list" where
  "list_projects org s = filter (\<lambda>p. pj_org p = org) (projects s)"

section \<open>Tasks\<close>

definition nullif_empty :: "string \<Rightarrow> string option" where
  "nullif_empty x = (if x = [] then None else Some x)"

text \<open>
  The foreign keys: the owner, and the assignee and the project when present, are rows of the
  same organization.
\<close>

definition create_task ::
    "id \<Rightarrow> id \<Rightarrow> string \<Rightarrow> string \<Rightarrow> id \<Rightarrow> id \<Rightarrow> id \<Rightarrow> time \<Rightarrow> task tx" where
  "create_task org i title desc owner assignee project now s =
     (if exists_row (\<lambda>t. tk_id t = i) (tasks s)
         \<or> find_principal org owner s = None
         \<or> (assignee \<noteq> [] \<and> find_principal org assignee s = None)
         \<or> (project \<noteq> [] \<and> \<not> exists_row (\<lambda>p. pj_org p = org \<and> pj_id p = project) (projects s))
      then Inl Constraint
      else let t = \<lparr>tk_id = i, tk_org = org, tk_title = title, tk_description = desc,
                    tk_status = TDraft, tk_owner = owner, tk_assignee = nullif_empty assignee,
                    tk_project = nullif_empty project, tk_version = 1, tk_created = now\<rparr>
           in Inr (t, s\<lparr>tasks := tasks s @ [t]\<rparr>))"

definition get_task :: "id \<Rightarrow> id \<Rightarrow> db \<Rightarrow> err + task" where
  "get_task org i s = (case find_task org i s of None \<Rightarrow> Inl NoRows | Some t \<Rightarrow> Inr t)"

definition list_tasks :: "id \<Rightarrow> db \<Rightarrow> task list" where
  "list_tasks org s = sort_key tk_created (filter (\<lambda>t. tk_org t = org) (tasks s))"

section \<open>Dependencies\<close>

definition dep_edges :: "id \<Rightarrow> db \<Rightarrow> (id \<times> id) list" where
  "dep_edges org s = map (\<lambda>d. (td_task d, td_parent d)) (filter (\<lambda>d. td_org d = org) (task_deps s))"

text \<open>
  The subquery \<^verbatim>\<open>exists (select 1 from task_dependencies d join tasks p ... p.status <> 'done')\<close>
  that the executor and \<^verbatim>\<open>enqueueEligibleChildren\<close> share.
\<close>

definition undone_parent :: "id \<Rightarrow> id \<Rightarrow> db \<Rightarrow> bool" where
  "undone_parent org task s =
     exists_row
       (\<lambda>d. td_org d = org \<and> td_task d = task \<and>
            exists_row (\<lambda>t. tk_org t = org \<and> tk_id t = td_parent d \<and> tk_status t \<noteq> TDone) (tasks s))
       (task_deps s)"

definition eligible_children :: "id \<Rightarrow> id \<Rightarrow> db \<Rightarrow> id list" where
  "eligible_children org parent s =
     remdups (map pp_id (filter
       (\<lambda>p. pp_org p = org \<and> pp_status p = PApproved \<and>
            exists_row (\<lambda>d. td_org d = org \<and> td_parent d = parent \<and> td_task d = pp_task p) (task_deps s) \<and>
            exists_row (\<lambda>t. tk_org t = org \<and> tk_id t = pp_task p \<and> \<not> terminal_task (tk_status t))
              (tasks s) \<and>
            \<not> undone_parent org (pp_task p) s)
       (proposals s)))"

definition enqueue_eligible_children :: "id \<Rightarrow> id \<Rightarrow> db \<Rightarrow> db" where
  "enqueue_eligible_children org parent s =
     s\<lparr>proposal_jobs := proposal_jobs s @ map (Pair org) (eligible_children org parent s)\<rparr>"

definition add_dependency :: "id \<Rightarrow> id \<Rightarrow> id \<Rightarrow> unit tx" where
  "add_dependency org task parent s =
     (if task = parent then Inl (Msg ''dependency cycle'')
      else if find_task org task s = None \<or> find_task org parent s = None
      then Inl (Msg ''task not found'')
      else if task \<in> set (reach (dep_edges org s) parent) then Inl (Msg ''dependency cycle'')
      else if exists_row (\<lambda>d. td_org d = org \<and> td_task d = task \<and> td_parent d = parent) (task_deps s)
      then Inr ((), s)
      else Inr ((), s\<lparr>task_deps := task_deps s @
                       [\<lparr>td_org = org, td_task = task, td_parent = parent\<rparr>]\<rparr>))"

section \<open>Cancelling a task\<close>

abbreviation open_proposal :: "proposal_status \<Rightarrow> bool" where
  "open_proposal st \<equiv>
     st = PPendingEndorsement \<or> st = PPendingApproval \<or> st = PApproved \<or> st = PExecuting"

abbreviation open_run :: "run_status \<Rightarrow> bool" where
  "open_run st \<equiv> st = RQueued \<or> st = RRunning \<or> st = RWaiting"

definition cancel_task :: "id \<Rightarrow> id \<Rightarrow> int \<Rightarrow> time \<Rightarrow> unit tx" where
  "cancel_task org i version now s =
     (let P = (\<lambda>t. tk_org t = org \<and> tk_id t = i \<and> tk_version t = version \<and> tk_status t \<noteq> TDone)
      in if rows_affected P (tasks s) \<noteq> 1
         then Inl (Msg ''stale task version or task cannot be cancelled'')
         else Inr ((), s\<lparr>
           tasks := update_where P
             (\<lambda>t. t\<lparr>tk_status := TCancelled, tk_version := tk_version t + 1\<rparr>) (tasks s),
           proposals := update_where
             (\<lambda>p. pp_org p = org \<and> pp_task p = i \<and> open_proposal (pp_status p))
             (\<lambda>p. p\<lparr>pp_status := PRejected\<rparr>) (proposals s),
           gates := update_where
             (\<lambda>g. gt_org g = org \<and> gt_task g = i \<and> gt_status g = GPending)
             (\<lambda>g. g\<lparr>gt_status := GCancelled, gt_version := gt_version g + 1\<rparr>) (gates s),
           agent_runs := update_where
             (\<lambda>r. ru_org r = org \<and> ru_task r = i \<and> open_run (ru_status r))
             (\<lambda>r. r\<lparr>ru_status := RCancelled, ru_finished := Some now, ru_token := [],
                    ru_lease := None\<rparr>) (agent_runs s)\<rparr>))"

section \<open>The dependency graph\<close>

lemma add_dependency_ok:
  "add_dependency org t p s = Inr (x, s') \<Longrightarrow>
     t \<noteq> p \<and> t \<notin> set (reach (dep_edges org s) p) \<and>
     find_task org t s \<noteq> None \<and> find_task org p s \<noteq> None"
  by (auto simp: add_dependency_def split: if_splits)

lemma dep_edges_append:
  "dep_edges o1 (s\<lparr>task_deps := task_deps s @ [d]\<rparr>) =
     dep_edges o1 s @ (if td_org d = o1 then [(td_task d, td_parent d)] else [])"
  by (simp add: dep_edges_def)

lemma dep_edges_mem:
  "(t, p) \<in> set (dep_edges org s) \<longleftrightarrow>
     exists_row (\<lambda>d. td_org d = org \<and> td_task d = t \<and> td_parent d = p) (task_deps s)"
  by (force simp: dep_edges_def exists_row_def)

lemma add_dependency_edges:
  assumes "add_dependency org t p s = Inr (x, s')"
  shows "set (dep_edges org s') = insert (t, p) (set (dep_edges org s))"
proof (cases "(t, p) \<in> set (dep_edges org s)")
  case True
  with assms have "s' = s" by (simp add: add_dependency_def dep_edges_mem split: if_splits)
  with True show ?thesis by auto
next
  case False
  with assms have "s' = s\<lparr>task_deps := task_deps s @ [\<lparr>td_org = org, td_task = t, td_parent = p\<rparr>]\<rparr>"
    by (simp add: add_dependency_def dep_edges_mem split: if_splits)
  then show ?thesis by (simp add: dep_edges_append)
qed

lemma add_dependency_others:
  "add_dependency org t p s = Inr (x, s') \<Longrightarrow> o2 \<noteq> org \<Longrightarrow> dep_edges o2 s' = dep_edges o2 s"
  by (auto simp: add_dependency_def dep_edges_append split: if_splits)

interpretation task_graph: dep_graph dep_edges add_dependency
  by unfold_locales
     (auto dest: add_dependency_ok add_dependency_edges simp: add_dependency_others)

section \<open>Frames\<close>

lemma create_project_frame [frame]:
  "create_project org i n d s = Inr (x, s') \<Longrightarrow> s' = s\<lparr>projects := projects s'\<rparr>"
  by (auto simp: create_project_def Let_def split: if_splits)

lemma create_task_frame [frame]:
  "create_task org i ti d ow a pj now s = Inr (x, s') \<Longrightarrow> s' = s\<lparr>tasks := tasks s'\<rparr>"
  by (auto simp: create_task_def Let_def split: if_splits)

lemma add_dependency_frame [frame]:
  "add_dependency org t p s = Inr (x, s') \<Longrightarrow> s' = s\<lparr>task_deps := task_deps s'\<rparr>"
  by (auto simp: add_dependency_def split: if_splits)

lemma cancel_task_frame [frame]:
  "cancel_task org i v now s = Inr (x, s') \<Longrightarrow>
     s' = s\<lparr>tasks := tasks s', proposals := proposals s', gates := gates s',
            agent_runs := agent_runs s'\<rparr>"
  by (auto simp: cancel_task_def Let_def split: if_splits)

section \<open>What the operations do\<close>

lemma list_tasks_sorted: "sorted (map tk_created (list_tasks org s))"
  by (simp add: list_tasks_def)

lemma set_list_tasks: "set (list_tasks org s) = {t \<in> set (tasks s). tk_org t = org}"
  by (auto simp: list_tasks_def)

lemma eligible_children_iff:
  "pid \<in> set (eligible_children org parent s) \<longleftrightarrow>
     (\<exists>p\<in>set (proposals s). pp_id p = pid \<and> pp_org p = org \<and> pp_status p = PApproved \<and>
        (\<exists>d\<in>set (task_deps s). td_org d = org \<and> td_parent d = parent \<and> td_task d = pp_task p) \<and>
        (\<exists>t\<in>set (tasks s). tk_org t = org \<and> tk_id t = pp_task p \<and> \<not> terminal_task (tk_status t)) \<and>
        \<not> undone_parent org (pp_task p) s)"
  by (auto simp: eligible_children_def exists_row_def)

lemma undone_parent_iff:
  "undone_parent org task s \<longleftrightarrow>
     (\<exists>d\<in>set (task_deps s). td_org d = org \<and> td_task d = task \<and>
        (\<exists>t\<in>set (tasks s). tk_org t = org \<and> tk_id t = td_parent d \<and> tk_status t \<noteq> TDone))"
  by (auto simp: undone_parent_def exists_row_def)

lemma cancel_task_tables:
  assumes "cancel_task org i v now s = Inr (x, s')"
  defines "P \<equiv> \<lambda>t. tk_org t = org \<and> tk_id t = i \<and> tk_version t = v \<and> tk_status t \<noteq> TDone"
  shows "rows_affected P (tasks s) = 1"
    and "tasks s' = update_where P
           (\<lambda>t. t\<lparr>tk_status := TCancelled, tk_version := tk_version t + 1\<rparr>) (tasks s)"
    and "proposals s' = update_where
           (\<lambda>p. pp_org p = org \<and> pp_task p = i \<and> open_proposal (pp_status p))
           (\<lambda>p. p\<lparr>pp_status := PRejected\<rparr>) (proposals s)"
    and "gates s' = update_where
           (\<lambda>g. gt_org g = org \<and> gt_task g = i \<and> gt_status g = GPending)
           (\<lambda>g. g\<lparr>gt_status := GCancelled, gt_version := gt_version g + 1\<rparr>) (gates s)"
    and "agent_runs s' = update_where
           (\<lambda>r. ru_org r = org \<and> ru_task r = i \<and> open_run (ru_status r))
           (\<lambda>r. r\<lparr>ru_status := RCancelled, ru_finished := Some now, ru_token := [],
                  ru_lease := None\<rparr>) (agent_runs s)"
  using assms(1) unfolding cancel_task_def Let_def P_def by (simp_all split: if_split_asm) auto

lemma cancel_task_closes:
  assumes "cancel_task org i v now s = Inr (x, s')"
  shows "\<forall>p\<in>set (proposals s'). pp_org p = org \<longrightarrow> pp_task p = i \<longrightarrow> \<not> open_proposal (pp_status p)"
    and "\<forall>g\<in>set (gates s'). gt_org g = org \<longrightarrow> gt_task g = i \<longrightarrow> gt_status g \<noteq> GPending"
    and "\<forall>r\<in>set (agent_runs s'). ru_org r = org \<longrightarrow> ru_task r = i \<longrightarrow> \<not> open_run (ru_status r)"
    and "\<exists>t\<in>set (tasks s'). tk_org t = org \<and> tk_id t = i \<and> tk_status t = TCancelled \<and>
                            tk_version t = v + 1"
proof -
  let ?P = "\<lambda>t. tk_org t = org \<and> tk_id t = i \<and> tk_version t = v \<and> tk_status t \<noteq> TDone"
  note tables = cancel_task_tables[OF assms]
  have "filter ?P (tasks s) \<noteq> []" using tables(1) by (auto simp: rows_affected_def)
  then obtain t where t: "t \<in> set (tasks s)" "?P t" by (auto simp: filter_empty_conv)
  show "\<exists>t\<in>set (tasks s'). tk_org t = org \<and> tk_id t = i \<and> tk_status t = TCancelled \<and>
                            tk_version t = v + 1"
    unfolding tables bex_update_where by (rule bexI[of _ t]) (use t in simp_all)
  show "\<forall>p\<in>set (proposals s'). pp_org p = org \<longrightarrow> pp_task p = i \<longrightarrow> \<not> open_proposal (pp_status p)"
    unfolding tables ball_update_where by simp
  show "\<forall>g\<in>set (gates s'). gt_org g = org \<longrightarrow> gt_task g = i \<longrightarrow> gt_status g \<noteq> GPending"
    unfolding tables ball_update_where by simp
  show "\<forall>r\<in>set (agent_runs s'). ru_org r = org \<longrightarrow> ru_task r = i \<longrightarrow> \<not> open_run (ru_status r)"
    unfolding tables ball_update_where by simp
qed

end
