(* ===== verification/Proposals.thy ===== *)
theory Proposals
  imports BusinessOps Tasks "HOL-Library.List_Lexorder" "HOL-Library.Char_ord"
begin

text \<open>
  Proposals and decisions: \<^verbatim>\<open>createProposalTx\<close>, \<^verbatim>\<open>CreateProposal\<close>, \<^verbatim>\<open>Decide\<close> and the lists of
  \<^verbatim>\<open>internal/store/store.go\<close>. A proposal is a revision of a task with a frozen list of
  operations; it needs its creator's endorsement and a different principal's approval.
\<close>

section \<open>Creating a proposal\<close>

text \<open>\<^verbatim>\<open>if ops[i].ID == "" { ops[i].ID = platform.NewID() }\<close>; \<open>fresh k\<close> is the k-th identifier drawn.\<close>

fun assign_ids :: "(nat \<Rightarrow> id) \<Rightarrow> nat \<Rightarrow> operation list \<Rightarrow> operation list" where
  "assign_ids fresh k [] = []"
| "assign_ids fresh k (op # ops) =
     (if op_id op = [] then op\<lparr>op_id := fresh k\<rparr> else op) # assign_ids fresh (Suc k) ops"

abbreviation find_record :: "id \<Rightarrow> id \<Rightarrow> db \<Rightarrow> sim_record option" where
  "find_record org i s \<equiv> row (\<lambda>r. sr_org r = org \<and> sr_id r = i) (sim_records s)"

text \<open>The checks of one turn of the loop over the operations, in their order.\<close>

definition check_operation :: "id \<Rightarrow> id \<Rightarrow> operation \<Rightarrow> db \<Rightarrow> err + unit" where
  "check_operation org origin_run op s =
     (if op_integration op = [] \<or> op_action op = [] \<or> op_target op = [] \<or> op_version op < 1
      then Inl (Msg ''invalid operation'')
      else if origin_run \<noteq> [] \<and> contains_str (op_key op) origin_run
      then Inl (Msg ''business key must identify the real operation, not this run'')
      else case new_registry (op_integration op) of
        None \<Rightarrow> Inl (Msg ''invalid operation'')
      | Some c \<Rightarrow>
         (case cn_validate c op of
            Inl _ \<Rightarrow> Inl (Msg ''invalid operation'')
          | Inr _ \<Rightarrow>
             (case find_record org (op_target op) s of
                None \<Rightarrow> Inl NoRows
              | Some r \<Rightarrow>
                  if op_version op \<noteq> sr_version r then Inl (Msg ''stale record'')
                  else case as_map (sr_data r) of
                    None \<Rightarrow> Inl (Msg ''invalid record'')
                  | Some d \<Rightarrow>
                     (case cn_prepare c \<lparr>cr_id = op_target op, cr_version = sr_version r, cr_data = d\<rparr> op of
                        Inl e \<Rightarrow> Inl e
                      | Inr _ \<Rightarrow> Inr ()))))"

fun check_operations :: "id \<Rightarrow> id \<Rightarrow> operation list \<Rightarrow> db \<Rightarrow> err + unit" where
  "check_operations org origin_run [] s = Inr ()"
| "check_operations org origin_run (op # ops) s =
     (case check_operation org origin_run op s of
        Inl e \<Rightarrow> Inl e
      | Inr _ \<Rightarrow> check_operations org origin_run ops s)"

definition next_revision :: "id \<Rightarrow> id \<Rightarrow> db \<Rightarrow> int" where
  "next_revision org task s =
     max0 (map pp_revision (filter (\<lambda>p. pp_org p = org \<and> pp_task p = task) (proposals s))) + 1"

definition supersede :: "id \<Rightarrow> id \<Rightarrow> db \<Rightarrow> db" where
  "supersede org task s =
     s\<lparr>proposals := update_where
         (\<lambda>p. pp_org p = org \<and> pp_task p = task \<and>
              (pp_status p = PPendingEndorsement \<or> pp_status p = PPendingApproval \<or>
               pp_status p = PApproved))
         (\<lambda>p. p\<lparr>pp_status := PSuperseded\<rparr>) (proposals s)\<rparr>"

text \<open>
  \<open>pid\<close> is the new proposal's identifier, \<open>fresh_op\<close> and \<open>fresh_bo\<close> the identifiers drawn for
  operations and business operations, \<open>H\<close> the digest.
\<close>

definition create_proposal_tx ::
    "(json \<Rightarrow> string) \<Rightarrow> (nat \<Rightarrow> id) \<Rightarrow> (nat \<Rightarrow> id) \<Rightarrow> id \<Rightarrow> time \<Rightarrow>
     id \<Rightarrow> id \<Rightarrow> id \<Rightarrow> string \<Rightarrow> string \<Rightarrow> id \<Rightarrow> operation list \<Rightarrow> proposal tx" where
  "create_proposal_tx H fresh_op fresh_bo pid now org task actor summary origin origin_run ops0 s =
     (case find_task org task s of
        None \<Rightarrow> Inl NoRows
      | Some t \<Rightarrow>
          if tk_owner t \<noteq> actor then Inl (Msg ''only task owner may create proposal'')
          else if terminal_task (tk_status t) then Inl (Msg ''terminal task'')
          else
           (let ops = assign_ids fresh_op 0 ops0 in
            case check_operations org origin_run ops s of
              Inl e \<Rightarrow> Inl e
            | Inr _ \<Rightarrow>
               (let p = \<lparr>pp_id = pid, pp_org = org, pp_task = task,
                         pp_revision = next_revision org task s, pp_digest = digest_ops H ops,
                         pp_status = PPendingEndorsement, pp_summary = summary,
                         pp_operations = ops, pp_created_by = actor, pp_created = now,
                         pp_failure = [], pp_origin = origin, pp_origin_run = origin_run\<rparr>;
                    s1 = supersede org task s
                in if exists_row (\<lambda>q. pp_id q = pid) (proposals s1)
                      \<or> find_principal org actor s1 = None
                   then Inl Constraint
                   else
                    (case reserve_business_operations H org pid
                            (zip ops (map fresh_bo [0..<length ops]))
                            (s1\<lparr>proposals := proposals s1 @ [p]\<rparr>) of
                       Inl e \<Rightarrow> Inl e
                     | Inr (_, s2) \<Rightarrow> Inr (p, s2)))))"

definition create_proposal ::
    "(json \<Rightarrow> string) \<Rightarrow> (nat \<Rightarrow> id) \<Rightarrow> (nat \<Rightarrow> id) \<Rightarrow> id \<Rightarrow> time \<Rightarrow>
     id \<Rightarrow> id \<Rightarrow> id \<Rightarrow> string \<Rightarrow> operation list \<Rightarrow> proposal tx" where
  "create_proposal H fresh_op fresh_bo pid now org task actor summary ops s =
     create_proposal_tx H fresh_op fresh_bo pid now org task actor summary ''human'' [] ops s"

definition list_proposals :: "id \<Rightarrow> db \<Rightarrow> proposal list" where
  "list_proposals org s = sort_key pp_created (filter (\<lambda>p. pp_org p = org) (proposals s))"

definition get_proposal :: "id \<Rightarrow> id \<Rightarrow> db \<Rightarrow> err + proposal" where
  "get_proposal org i s =
     (case row (\<lambda>p. pp_id p = i) (list_proposals org s) of None \<Rightarrow> Inl NoRows | Some p \<Rightarrow> Inr p)"

section \<open>Deciding\<close>

definition kind_of :: "string \<Rightarrow> decision_kind option" where
  "kind_of k = (if k = ''endorse'' then Some Endorse else if k = ''approve'' then Some Approve
                else if k = ''reject'' then Some Reject else None)"

definition set_proposal_status ::
    "id \<Rightarrow> id \<Rightarrow> (proposal_status \<Rightarrow> bool) \<Rightarrow> proposal_status \<Rightarrow> db \<Rightarrow> db" where
  "set_proposal_status org pid Q st s =
     s\<lparr>proposals := update_where (\<lambda>p. pp_org p = org \<and> pp_id p = pid \<and> Q (pp_status p))
         (\<lambda>p. p\<lparr>pp_status := st\<rparr>) (proposals s)\<rparr>"

text \<open>
  The effects an approval inserts, one per operation, each joined with its business operation.
  \<^verbatim>\<open>on conflict do nothing\<close> skips a row that any unique constraint rejects.
\<close>

definition effect_conflict :: "effect \<Rightarrow> effect list \<Rightarrow> bool" where
  "effect_conflict e es =
     exists_row (\<lambda>x. ef_id x = ef_id e \<or>
        (ef_org x = ef_org e \<and> ef_proposal x = ef_proposal e \<and> ef_operation x = ef_operation e) \<or>
        (ef_org x = ef_org e \<and> ef_bop e \<noteq> None \<and> ef_bop x = ef_bop e \<and>
         ef_operation x = ef_operation e)) es"

definition effect_of :: "id \<Rightarrow> id \<Rightarrow> id \<Rightarrow> operation \<Rightarrow> db \<Rightarrow> effect" where
  "effect_of i org pid op s =
     \<lparr>ef_id = i, ef_org = org, ef_proposal = pid, ef_operation = op_id op,
      ef_integration = op_integration op, ef_action = op_action op, ef_target = op_target op,
      ef_expected = op_version op, ef_payload = Some (raw_json (op_payload op)),
      ef_state = EAuthorized, ef_result = None, ef_bop = map_option bo_id (find_bop org op s)\<rparr>"

fun insert_effects :: "(nat \<Rightarrow> id) \<Rightarrow> nat \<Rightarrow> id \<Rightarrow> id \<Rightarrow> operation list \<Rightarrow> db \<Rightarrow> db" where
  "insert_effects fresh k org pid [] s = s"
| "insert_effects fresh k org pid (op # ops) s =
     (let e = effect_of (fresh k) org pid op s;
          s1 = (if effect_conflict e (effects s) then s else s\<lparr>effects := effects s @ [e]\<rparr>)
      in insert_effects fresh (Suc k) org pid ops s1)"

definition dispatch_business_operations :: "id \<Rightarrow> id \<Rightarrow> db \<Rightarrow> db" where
  "dispatch_business_operations org pid s =
     s\<lparr>business_ops := update_where
         (\<lambda>b. bo_org b = org \<and> bo_proposal b = Some pid \<and> bo_status b = BReserved)
         (\<lambda>b. b\<lparr>bo_status := BDispatching\<rparr>) (business_ops s)\<rparr>"

definition approve_proposal :: "(nat \<Rightarrow> id) \<Rightarrow> id \<Rightarrow> proposal \<Rightarrow> unit tx" where
  "approve_proposal fresh org p s =
     (if (case find_task org (pp_task p) s of None \<Rightarrow> False | Some t \<Rightarrow> tk_status t = TCancelled)
      then Inl (Msg ''cancelled task'')
      else if pp_status p \<noteq> PPendingApproval then Inl (Msg ''proposal is not pending approval'')
      else
       (let s1 = set_proposal_status org (pp_id p) (\<lambda>st. st = PPendingApproval) PApproved s;
            s2 = insert_effects fresh 0 org (pp_id p) (pp_operations p) s1;
            s3 = dispatch_business_operations org (pp_id p) s2
        in Inr ((), s3\<lparr>proposal_jobs := proposal_jobs s3 @ [(org, pp_id p)]\<rparr>)))"

definition decision_row ::
    "id \<Rightarrow> id \<Rightarrow> id \<Rightarrow> id \<Rightarrow> decision_kind \<Rightarrow> int \<Rightarrow> string \<Rightarrow> string \<Rightarrow> decision" where
  "decision_row i org pid actor k revision dg reason =
     \<lparr>dc_id = i, dc_org = org, dc_proposal = pid, dc_actor = actor, dc_kind = k,
      dc_revision = revision, dc_digest = dg, dc_reason = reason\<rparr>"

text \<open>\<open>i\<close> is the decision's identifier and \<open>fresh\<close> draws those of the effects.\<close>

definition decide ::
    "(nat \<Rightarrow> id) \<Rightarrow> id \<Rightarrow> id \<Rightarrow> id \<Rightarrow> id \<Rightarrow> string \<Rightarrow> int \<Rightarrow> string \<Rightarrow> string \<Rightarrow> unit tx" where
  "decide fresh i org pid actor kind revision dg reason s =
     (case find_principal org actor s of
        None \<Rightarrow> Inl (Msg ''identity unavailable or revoked'')
      | Some a \<Rightarrow>
          if \<not> pr_active a then Inl (Msg ''identity unavailable or revoked'')
          else case find_proposal org pid s of
            None \<Rightarrow> Inl NoRows
          | Some p \<Rightarrow>
              if pp_revision p \<noteq> revision \<or> pp_digest p \<noteq> dg
              then Inl (Msg ''stale proposal revision or digest'')
              else if kind = ''endorse'' \<and>
                (actor \<noteq> pp_created_by p \<or> pp_status p \<noteq> PPendingEndorsement)
              then Inl (Msg ''only requester may endorse'')
              else if (kind = ''approve'' \<or> kind = ''reject'') \<and>
                (actor = pp_created_by p \<or> (pr_role a \<noteq> Approver \<and> pr_role a \<noteq> Admin))
              then Inl (Msg ''separate approver required'')
              else case kind_of kind of
                None \<Rightarrow> Inl (Msg ''invalid decision'')
              | Some k \<Rightarrow>
                  if exists_row (\<lambda>d. dc_org d = org \<and> dc_proposal d = pid \<and> dc_actor d = actor \<and>
                                     dc_kind d = k) (decisions s)
                  then Inr ((), s)
                  else if exists_row (\<lambda>d. dc_id d = i) (decisions s) then Inl Constraint
                  else
                   (let s1 = s\<lparr>decisions := decisions s @
                          [decision_row i org pid actor k revision dg reason]\<rparr>
                    in case k of
                      Endorse \<Rightarrow> Inr ((), set_proposal_status org pid
                                   (\<lambda>st. st = PPendingEndorsement) PPendingApproval s1)
                    | Reject \<Rightarrow> Inr ((), release_business_operations org pid
                                  (set_proposal_status org pid
                                    (\<lambda>st. st = PPendingEndorsement \<or> st = PPendingApproval)
                                    PRejected s1))
                    | Approve \<Rightarrow> approve_proposal fresh org p s1))"

section \<open>Lists\<close>

fun proposal_status_text :: "proposal_status \<Rightarrow> string" where
  "proposal_status_text PPendingEndorsement = ''pending_endorsement''"
| "proposal_status_text PPendingApproval = ''pending_approval''"
| "proposal_status_text PApproved = ''approved''"
| "proposal_status_text PRejected = ''rejected''"
| "proposal_status_text PSuperseded = ''superseded''"
| "proposal_status_text PExecuting = ''executing''"
| "proposal_status_text PDone = ''done''"
| "proposal_status_text PNeedsAttention = ''needs_attention''"

record decision_item =
  di_id :: string
  di_task :: id
  di_proposal :: id
  di_revision :: int
  di_digest :: string
  di_kind :: string
  di_title :: string
  di_status :: string

text \<open>What awaits a principal: its own proposals to endorse, others' to approve.\<close>

definition awaits :: "id \<Rightarrow> role \<Rightarrow> proposal \<Rightarrow> bool" where
  "awaits actor r p \<longleftrightarrow>
     (pp_status p = PPendingEndorsement \<and> pp_created_by p = actor) \<or>
     (pp_status p = PPendingApproval \<and> pp_created_by p \<noteq> actor \<and> (r = Approver \<or> r = Admin))"

definition list_decisions :: "id \<Rightarrow> id \<Rightarrow> role \<Rightarrow> db \<Rightarrow> decision_item list" where
  "list_decisions org actor r s =
     concat (map (\<lambda>p. map (\<lambda>t.
         \<lparr>di_id = pp_id p @ '':'' @ proposal_status_text (pp_status p), di_task = pp_task p,
          di_proposal = pp_id p, di_revision = pp_revision p, di_digest = pp_digest p,
          di_kind = (if pp_status p = PPendingEndorsement then ''endorse'' else ''approve''),
          di_title = tk_title t, di_status = proposal_status_text (pp_status p)\<rparr>)
       (filter (\<lambda>t. tk_id t = pp_task p \<and> tk_org t = pp_org p \<and> \<not> terminal_task (tk_status t))
          (tasks s)))
     (filter (awaits actor r) (list_proposals org s)))"

definition list_events :: "id \<Rightarrow> db \<Rightarrow> event list" where
  "list_events org s = filter (\<lambda>e. ev_org e = org) (events s)"

definition list_receipts :: "id \<Rightarrow> db \<Rightarrow> receipt list" where
  "list_receipts org s = filter (\<lambda>r. rc_org r = org) (receipts s)"

definition list_records :: "id \<Rightarrow> string \<Rightarrow> db \<Rightarrow> sim_record list" where
  "list_records org integration s =
     sort_key sr_id (filter (\<lambda>r. sr_org r = org \<and> sr_integration r = integration) (sim_records s))"

section \<open>What a successful operation did\<close>

lemma create_proposal_tx_ok:
  assumes "create_proposal_tx H fo fb pid now org task actor summary origin run ops0 s = Inr (p, s')"
  obtains t where
    "find_task org task s = Some t" "tk_owner t = actor" "\<not> terminal_task (tk_status t)"
    "check_operations org run (assign_ids fo 0 ops0) s = Inr ()"
    "p = \<lparr>pp_id = pid, pp_org = org, pp_task = task, pp_revision = next_revision org task s,
          pp_digest = digest_ops H (assign_ids fo 0 ops0), pp_status = PPendingEndorsement,
          pp_summary = summary, pp_operations = assign_ids fo 0 ops0, pp_created_by = actor,
          pp_created = now, pp_failure = [], pp_origin = origin, pp_origin_run = run\<rparr>"
    "pid \<notin> pp_id ` set (proposals s)"
    "find_principal org actor s \<noteq> None"
    "reserve_business_operations H org pid
       (zip (assign_ids fo 0 ops0) (map fb [0..<length (assign_ids fo 0 ops0)]))
       (s\<lparr>proposals := proposals (supersede org task s) @ [p]\<rparr>) = Inr ((), s')"
proof -
  let ?ops = "assign_ids fo 0 ops0"
  obtain t where t: "find_task org task s = Some t" "tk_owner t = actor" "\<not> terminal_task (tk_status t)"
    using assms unfolding create_proposal_tx_def by (auto split: option.splits if_split_asm)
  have c: "check_operations org run ?ops s = Inr ()"
    using assms t unfolding create_proposal_tx_def Let_def by (auto split: sum.splits)
  have "\<not> exists_row (\<lambda>q. pp_id q = pid) (proposals (supersede org task s))"
    using assms t c unfolding create_proposal_tx_def Let_def by (auto split: if_split_asm)
  then have i: "pid \<notin> pp_id ` set (proposals s)"
    by (auto simp: supersede_def exists_row_update_where) (auto simp: exists_row_def)
  have s: "supersede org task s = s\<lparr>proposals := proposals (supersede org task s)\<rparr>"
    by (simp add: supersede_def)
  show thesis
    by (rule that[OF t c _ i])
       (use assms t c in \<open>auto simp: create_proposal_tx_def Let_def supersede_def
          split: if_split_asm sum.splits\<close>)
qed

lemma decide_cases:
  assumes "decide fresh i org pid actor kind revision dg reason s = Inr (u, s')"
  defines "s1 \<equiv> \<lambda>k. s\<lparr>decisions := decisions s @ [decision_row i org pid actor k revision dg reason]\<rparr>"
  obtains (replay) "s' = s"
    | (fresh) a p k where
      "find_principal org actor s = Some a" "pr_active a"
      "find_proposal org pid s = Some p" "pp_revision p = revision" "pp_digest p = dg"
      "kind_of kind = Some k" "i \<notin> dc_id ` set (decisions s)"
      "k = Endorse \<Longrightarrow> actor = pp_created_by p \<and> pp_status p = PPendingEndorsement \<and>
         s' = set_proposal_status org pid (\<lambda>st. st = PPendingEndorsement) PPendingApproval (s1 k)"
      "k = Reject \<Longrightarrow> actor \<noteq> pp_created_by p \<and> pr_role a \<in> {Approver, Admin} \<and>
         s' = release_business_operations org pid
           (set_proposal_status org pid
             (\<lambda>st. st = PPendingEndorsement \<or> st = PPendingApproval) PRejected (s1 k))"
      "k = Approve \<Longrightarrow> actor \<noteq> pp_created_by p \<and> pr_role a \<in> {Approver, Admin} \<and>
         approve_proposal fresh org p (s1 k) = Inr ((), s')"
proof (cases "s' = s")
  case False
  obtain a where a: "find_principal org actor s = Some a" "pr_active a"
    using assms(1) unfolding decide_def by (auto split: option.splits if_split_asm)
  then obtain p where p: "find_proposal org pid s = Some p" "pp_revision p = revision" "pp_digest p = dg"
    using assms(1) unfolding decide_def by (auto split: option.splits if_split_asm)
  then obtain k where k: "kind_of kind = Some k"
    using assms(1) a unfolding decide_def by (auto split: option.splits if_split_asm)
  have kind: "(kind = ''endorse'') = (k = Endorse)" "(kind = ''approve'') = (k = Approve)"
      "(kind = ''reject'') = (k = Reject)"
    using k by (auto simp: kind_of_def split: if_split_asm)
  note d = assms(1)[unfolded decide_def Let_def kind]
  have new: "\<not> exists_row (\<lambda>d. dc_org d = org \<and> dc_proposal d = pid \<and> dc_actor d = actor \<and>
      dc_kind d = k) (decisions s)"
    using d a p k False by (auto split: if_split_asm)
  have i: "\<not> exists_row (\<lambda>d. dc_id d = i) (decisions s)"
    using d a p k new by (auto split: if_split_asm)
  note d' = d[unfolded a(1) p(1) k option.case if_not_P[OF new] if_not_P[OF i]]
  have "i \<notin> dc_id ` set (decisions s)" using i by (auto simp: exists_row_def)
  then show thesis
    by (rule fresh[OF a p k]) (use d' a p in \<open>auto simp: s1_def split: if_split_asm\<close>)
qed

lemma approve_ok:
  assumes "approve_proposal fresh org p s = Inr (u, s')"
  shows "pp_status p = PPendingApproval"
    and "find_task org (pp_task p) s = Some t \<Longrightarrow> tk_status t \<noteq> TCancelled"
    and "s' = (let s3 = dispatch_business_operations org (pp_id p)
                 (insert_effects fresh 0 org (pp_id p) (pp_operations p)
                   (set_proposal_status org (pp_id p) (\<lambda>st. st = PPendingApproval) PApproved s))
               in s3\<lparr>proposal_jobs := proposal_jobs s3 @ [(org, pp_id p)]\<rparr>)"
  using assms by (auto simp: approve_proposal_def Let_def split: if_split_asm option.splits)

section \<open>Inserting effects\<close>

lemma insert_effects_append:
  "\<exists>es. insert_effects fresh k org pid ops s = s\<lparr>effects := effects s @ es\<rparr> \<and>
     (\<forall>e\<in>set es. \<exists>op\<in>set ops. \<exists>j. e = effect_of j org pid op s)"
proof (induction ops arbitrary: k s)
  case (Cons op ops)
  let ?e = "effect_of (fresh k) org pid op s"
  let ?xs = "if effect_conflict ?e (effects s) then [] else [?e]"
  let ?s = "s\<lparr>effects := effects s @ ?xs\<rparr>"
  obtain es where es: "insert_effects fresh (Suc k) org pid ops ?s = ?s\<lparr>effects := effects ?s @ es\<rparr>"
      "\<forall>e\<in>set es. \<exists>op\<in>set ops. \<exists>j. e = effect_of j org pid op ?s"
    using Cons.IH[of "Suc k" ?s] by blast
  have same: "effect_of j org pid op' ?s = effect_of j org pid op' s" for j op'
    by (simp add: effect_of_def)
  have "insert_effects fresh k org pid (op # ops) s = insert_effects fresh (Suc k) org pid ops ?s"
    by (simp add: Let_def)
  also have "\<dots> = s\<lparr>effects := effects s @ (?xs @ es)\<rparr>" by (simp add: es(1))
  finally have *: "insert_effects fresh k org pid (op # ops) s =
    s\<lparr>effects := effects s @ (?xs @ es)\<rparr>" .
  show ?case
    by (rule exI[of _ "?xs @ es"]) (use * es(2) in \<open>auto simp: same\<close>)
qed (auto intro: exI[of _ "[]"])

lemma approve_tables:
  assumes "approve_proposal fresh org p s = Inr (u, s')"
  obtains es where
    "s' = s\<lparr>proposals := update_where
              (\<lambda>q. pp_org q = org \<and> pp_id q = pp_id p \<and> pp_status q = PPendingApproval)
              (\<lambda>q. q\<lparr>pp_status := PApproved\<rparr>) (proposals s),
            effects := effects s @ es,
            business_ops := update_where
              (\<lambda>b. bo_org b = org \<and> bo_proposal b = Some (pp_id p) \<and> bo_status b = BReserved)
              (\<lambda>b. b\<lparr>bo_status := BDispatching\<rparr>) (business_ops s),
            proposal_jobs := proposal_jobs s @ [(org, pp_id p)]\<rparr>"
    "effects s @ es = effects (insert_effects fresh 0 org (pp_id p) (pp_operations p) s)"
    "\<forall>e\<in>set es. \<exists>op\<in>set (pp_operations p). \<exists>j. e = effect_of j org (pp_id p) op s"
proof -
  let ?P = "update_where (\<lambda>q. pp_org q = org \<and> pp_id q = pp_id p \<and> pp_status q = PPendingApproval)
              (\<lambda>q. q\<lparr>pp_status := PApproved\<rparr>) (proposals s)"
  obtain es where es: "insert_effects fresh 0 org (pp_id p) (pp_operations p) (s\<lparr>proposals := ?P\<rparr>) =
      s\<lparr>proposals := ?P, effects := effects s @ es\<rparr>"
      "\<forall>e\<in>set es. \<exists>op\<in>set (pp_operations p). \<exists>j. e = effect_of j org (pp_id p) op (s\<lparr>proposals := ?P\<rparr>)"
    using insert_effects_append[of fresh 0 org "pp_id p" "pp_operations p" "s\<lparr>proposals := ?P\<rparr>"]
    by auto
  have same: "effects (insert_effects fresh k org pid ops (s\<lparr>proposals := X\<rparr>)) =
      effects (insert_effects fresh k org pid ops s)" for k pid ops X s
  proof (induction ops arbitrary: k s)
    case (Cons op ops)
    have e: "effect_of (fresh k) org pid op (s\<lparr>proposals := X\<rparr>) = effect_of (fresh k) org pid op s"
      by (simp add: effect_of_def)
    have comm: "s\<lparr>proposals := X, effects := A\<rparr> = s\<lparr>effects := A, proposals := X\<rparr>" for A
      by simp
    show ?case
      using Cons.IH[of "Suc k" s]
        Cons.IH[of "Suc k" "s\<lparr>effects := effects s @ [effect_of (fresh k) org pid op s]\<rparr>"]
      by (simp add: e Let_def comm)
  qed simp
  show thesis
  proof (rule that)
    show "effects s @ es = effects (insert_effects fresh 0 org (pp_id p) (pp_operations p) s)"
      using es(1) same[of 0 "pp_id p" "pp_operations p" ?P s] by simp
    show "\<forall>e\<in>set es. \<exists>op\<in>set (pp_operations p). \<exists>j. e = effect_of j org (pp_id p) op s"
      using es(2) by (simp add: effect_of_def)
  qed (use approve_ok(3)[OF assms] es(1) in
      \<open>simp add: set_proposal_status_def dispatch_business_operations_def Let_def\<close>)
qed

end
