(* ===== verification/Execution.thy ===== *)
theory Execution
  imports Proposals
begin

text \<open>
  The executor of approved proposals: \<^verbatim>\<open>applyProposal\<close>, \<^verbatim>\<open>executeProposal\<close>, the River worker
  and \<^verbatim>\<open>Seed\<close> of \<^verbatim>\<open>internal/store/store.go\<close>. The connectors are the argument \<open>reg\<close>, as in
  \<^verbatim>\<open>RunWorker\<close>.
\<close>

section \<open>Applying a proposal\<close>

definition decided_by_active :: "id \<Rightarrow> id \<Rightarrow> decision_kind \<Rightarrow> (principal \<Rightarrow> bool) \<Rightarrow> db \<Rightarrow> bool" where
  "decided_by_active org pid k Q s =
     exists_row (\<lambda>d. dc_org d = org \<and> dc_proposal d = pid \<and> dc_kind d = k \<and>
        exists_row (\<lambda>p. pr_org p = org \<and> pr_id p = dc_actor d \<and> pr_active p \<and> Q p) (principals s))
       (decisions s)"

definition owner_active :: "id \<Rightarrow> id \<Rightarrow> db \<Rightarrow> bool" where
  "owner_active org task s =
     exists_row (\<lambda>t. tk_org t = org \<and> tk_id t = task \<and> \<not> terminal_task (tk_status t) \<and>
        exists_row (\<lambda>p. pr_org p = org \<and> pr_id p = tk_owner t \<and> pr_active p) (principals s)) (tasks s)"

text \<open>The authorization the executor re-reads at the moment of the effect.\<close>

definition apply_permitted :: "id \<Rightarrow> id \<Rightarrow> id \<Rightarrow> db \<Rightarrow> bool" where
  "apply_permitted org task pid s \<longleftrightarrow>
     owner_active org task s \<and>
     decided_by_active org pid Approve (\<lambda>p. pr_role p = Approver \<or> pr_role p = Admin) s \<and>
     decided_by_active org pid Endorse (\<lambda>p. True) s \<and>
     \<not> undone_parent org task s"

definition effect_op :: "effect \<Rightarrow> operation" where
  "effect_op e = \<lparr>op_id = ef_operation e, op_integration = ef_integration e, op_action = ef_action e,
                  op_key = [], op_target = ef_target e, op_version = ef_expected e,
                  op_payload = ef_payload e\<rparr>"

definition record_data :: "json \<Rightarrow> jmap" where
  "record_data v = (case as_map v of None \<Rightarrow> [] | Some d \<Rightarrow> d)"

text \<open>One turn of the loop: prepare, compare-and-set, read back, record the receipt \<open>rid\<close>.\<close>

definition apply_effect :: "(json \<Rightarrow> string) \<Rightarrow> registry \<Rightarrow> id \<Rightarrow> id \<Rightarrow> effect \<Rightarrow> unit tx" where
  "apply_effect H reg rid org e s =
     (case find_record org (ef_target e) s of
        None \<Rightarrow> Inl NoRows
      | Some cur \<Rightarrow>
         (case reg (ef_integration e) of
            None \<Rightarrow> Inl (Msg ''unknown integration'')
          | Some c \<Rightarrow>
             (case cn_prepare c \<lparr>cr_id = sr_id cur, cr_version = sr_version cur,
                                 cr_data = record_data (sr_data cur)\<rparr> (effect_op e) of
                Inl err \<Rightarrow> Inl err
              | Inr nxt \<Rightarrow>
                 (let s1 = s\<lparr>sim_records := update_where
                        (\<lambda>r. sr_org r = org \<and> sr_id r = ef_target e \<and> sr_version r = sr_version cur)
                        (\<lambda>r. r\<lparr>sr_version := cr_version nxt, sr_data := JObj (cr_data nxt)\<rparr>)
                        (sim_records s)\<rparr>
                  in case find_record org (ef_target e) s1 of
                       None \<Rightarrow> Inl NoRows
                     | Some obs \<Rightarrow>
                        (case as_map (sr_data obs) of
                           None \<Rightarrow> Inl (Msg ''simulator readback verification failed'')
                         | Some od \<Rightarrow>
                             if sr_version obs \<noteq> cr_version nxt \<or> H (JObj od) \<noteq> H (JObj (cr_data nxt))
                             then Inl (Msg ''simulator readback verification failed'')
                             else if exists_row (\<lambda>r. rc_id r = rid) (receipts s1) then Inl Constraint
                             else Inr ((), s1\<lparr>
                               effects := update_where (\<lambda>x. ef_id x = ef_id e)
                                 (\<lambda>x. x\<lparr>ef_state := EVerified, ef_result := Some (sr_data obs)\<rparr>)
                                 (effects s1),
                               receipts := receipts s1 @
                                 [\<lparr>rc_id = rid, rc_org = org, rc_effect = ef_id e,
                                   rc_kind = ''simulator'', rc_outcome = ''applied'',
                                   rc_result = JObj (cr_data nxt)\<rparr>]\<rparr>))))))"

fun apply_effects ::
    "(json \<Rightarrow> string) \<Rightarrow> registry \<Rightarrow> (nat \<Rightarrow> id) \<Rightarrow> nat \<Rightarrow> id \<Rightarrow> effect list \<Rightarrow> unit tx" where
  "apply_effects H reg fresh k org [] s = Inr ((), s)"
| "apply_effects H reg fresh k org (e # es) s =
     (case apply_effect H reg (fresh k) org e s of
        Inl err \<Rightarrow> Inl err
      | Inr (_, s1) \<Rightarrow> apply_effects H reg fresh (Suc k) org es s1)"

definition authorized_effects :: "id \<Rightarrow> id \<Rightarrow> db \<Rightarrow> effect list" where
  "authorized_effects org pid s =
     filter (\<lambda>e. ef_org e = org \<and> ef_proposal e = pid \<and> ef_state e = EAuthorized) (effects s)"

text \<open>The statements after the loop: the keys verified, the proposal and its task done.\<close>

definition complete_proposal :: "id \<Rightarrow> id \<Rightarrow> id \<Rightarrow> db \<Rightarrow> db" where
  "complete_proposal org task pid s =
     enqueue_eligible_children org task (s\<lparr>
       business_ops := update_where
         (\<lambda>b. bo_org b = org \<and> bo_proposal b = Some pid \<and> bo_status b = BDispatching)
         (\<lambda>b. b\<lparr>bo_status := BVerified\<rparr>) (business_ops s),
       proposals := update_where (\<lambda>p. pp_org p = org \<and> pp_id p = pid)
         (\<lambda>p. p\<lparr>pp_status := PDone\<rparr>) (proposals s),
       tasks := update_where (\<lambda>t. tk_org t = org \<and> tk_id t = task \<and> tk_status t \<noteq> TCancelled)
         (\<lambda>t. t\<lparr>tk_status := TDone, tk_version := tk_version t + 1\<rparr>) (tasks s)\<rparr>)"

definition apply_proposal ::
    "(json \<Rightarrow> string) \<Rightarrow> registry \<Rightarrow> (nat \<Rightarrow> id) \<Rightarrow> id \<Rightarrow> id \<Rightarrow> unit tx" where
  "apply_proposal H reg fresh org pid s =
     (case find_proposal org pid s of
        None \<Rightarrow> Inl NoRows
      | Some p \<Rightarrow>
          if pp_status p \<noteq> PApproved \<and> pp_status p \<noteq> PExecuting then Inr ((), s)
          else if \<not> apply_permitted org (pp_task p) pid s
          then if undone_parent org (pp_task p) s
            then Inr ((), s\<lparr>tasks := update_where
                   (\<lambda>t. tk_org t = org \<and> tk_id t = pp_task p \<and> \<not> terminal_task (tk_status t))
                   (\<lambda>t. t\<lparr>tk_status := TBlocked\<rparr>) (tasks s)\<rparr>)
            else Inr ((), s\<lparr>proposals := update_where (\<lambda>q. pp_org q = org \<and> pp_id q = pid)
                   (\<lambda>q. q\<lparr>pp_status := PNeedsAttention,
                          pp_failure := ''authorization_or_dependency_unavailable''\<rparr>)
                   (proposals s)\<rparr>)
          else
           (let s1 = s\<lparr>proposals := update_where (\<lambda>q. pp_id q = pid)
                  (\<lambda>q. q\<lparr>pp_status := PExecuting\<rparr>) (proposals s)\<rparr>
            in case apply_effects H reg fresh 0 org (authorized_effects org pid s1) s1 of
                 Inl e \<Rightarrow> Inl e
               | Inr (_, s2) \<Rightarrow> Inr ((), complete_proposal org (pp_task p) pid s2)))"

section \<open>The worker\<close>

text \<open>
  \<^verbatim>\<open>executeProposal\<close> runs \<^verbatim>\<open>applyProposal\<close> and, when a connector refused an operation, a second
  transaction that parks the proposal for a human. Other transactions may run in between.
\<close>

definition connector_refusal :: "err \<Rightarrow> bool" where
  "connector_refusal e \<longleftrightarrow> e = Stale \<or> e = Invalid \<or> e = UnknownOp"

definition mark_attention :: "id \<Rightarrow> id \<Rightarrow> unit tx" where
  "mark_attention org pid s =
     (case row (\<lambda>p. pp_org p = org \<and> pp_id p = pid \<and>
                    (pp_status p = PApproved \<or> pp_status p = PExecuting)) (proposals s) of
        None \<Rightarrow> Inr ((), s)
      | Some p \<Rightarrow> Inr ((), s\<lparr>
          proposals := update_where
            (\<lambda>p. pp_org p = org \<and> pp_id p = pid \<and>
                 (pp_status p = PApproved \<or> pp_status p = PExecuting))
            (\<lambda>p. p\<lparr>pp_status := PNeedsAttention, pp_failure := ''invalid_or_stale_operation''\<rparr>)
            (proposals s),
          tasks := update_where
            (\<lambda>t. tk_org t = org \<and> tk_id t = pp_task p \<and> \<not> terminal_task (tk_status t))
            (\<lambda>t. t\<lparr>tk_status := TBlocked, tk_version := tk_version t + 1\<rparr>) (tasks s),
          effects := update_where
            (\<lambda>e. ef_org e = org \<and> ef_proposal e = pid \<and> ef_state e = EAuthorized)
            (\<lambda>e. e\<lparr>ef_state := ENeedsAttention\<rparr>) (effects s)\<rparr>))"

definition execute_proposal ::
    "(json \<Rightarrow> string) \<Rightarrow> registry \<Rightarrow> (nat \<Rightarrow> id) \<Rightarrow> id \<Rightarrow> id \<Rightarrow> unit tx" where
  "execute_proposal H reg fresh org pid s =
     (case apply_proposal H reg fresh org pid s of
        Inl e \<Rightarrow> if connector_refusal e then mark_attention org pid s else Inl e
      | Inr r \<Rightarrow> Inr r)"

text \<open>\<^verbatim>\<open>proposalExecuteWorker.Work\<close>.\<close>

definition work_proposal ::
    "(json \<Rightarrow> string) \<Rightarrow> registry \<Rightarrow> (nat \<Rightarrow> id) \<Rightarrow> id \<Rightarrow> id \<Rightarrow> unit tx" where
  "work_proposal H reg fresh org pid s =
     (if org = [] \<or> pid = [] then Inl (Msg ''invalid proposal job arguments'')
      else execute_proposal H reg fresh org pid s)"

section \<open>Fixtures\<close>

definition seed_org :: "id \<Rightarrow> string \<Rightarrow> db \<Rightarrow> db" where
  "seed_org i name s =
     (if exists_row (\<lambda>x. og_id x = i) (organizations s)
      then s\<lparr>organizations := update_where (\<lambda>x. og_id x = i) (\<lambda>x. x\<lparr>og_name := name\<rparr>) (organizations s)\<rparr>
      else s\<lparr>organizations := organizations s @ [\<lparr>og_id = i, og_name = name\<rparr>]\<rparr>)"

definition seed_principal :: "id \<Rightarrow> id \<Rightarrow> string \<Rightarrow> role \<Rightarrow> db \<Rightarrow> db" where
  "seed_principal org i name r s =
     (if exists_row (\<lambda>p. pr_id p = i) (principals s)
      then s\<lparr>principals := update_where (\<lambda>p. pr_id p = i) (\<lambda>p. p\<lparr>pr_role := r\<rparr>) (principals s)\<rparr>
      else s\<lparr>principals := principals s @
             [\<lparr>pr_id = i, pr_org = org, pr_name = name, pr_role = r, pr_active = True\<rparr>]\<rparr>)"

definition seed_record :: "id \<Rightarrow> id \<Rightarrow> string \<Rightarrow> json \<Rightarrow> db \<Rightarrow> db" where
  "seed_record org i integration d s =
     (if exists_row (\<lambda>r. sr_id r = i) (sim_records s) then s
      else s\<lparr>sim_records := sim_records s @
             [\<lparr>sr_id = i, sr_org = org, sr_integration = integration, sr_version = 1, sr_data = d\<rparr>]\<rparr>)"

definition seed_fixture :: "id \<Rightarrow> string \<Rightarrow> db \<Rightarrow> db" where
  "seed_fixture o1 name s =
     seed_record o1 (o1 @ ''-documents'') ''documents''
       (JObj [(''title'', JStr ''Fixture''), (''content'', JStr ''Fixture'')])
     (seed_record o1 (o1 @ ''-mail'') ''mail'' (JObj [])
     (seed_record o1 (o1 @ ''-inventory'') ''inventory'' (JObj [(''quantity'', JNum (IntLit 10))])
     (seed_principal o1 (o1 @ ''-admin'') ''Fixture Operator'' Admin
     (seed_principal o1 (o1 @ ''-approver'') ''Fixture Approver'' Approver
     (seed_principal o1 (o1 @ ''-requester'') ''Fixture Requester'' Requester
     (seed_org o1 name s))))))"

definition seed :: "db \<Rightarrow> db" where
  "seed s = seed_fixture ''org-fixture-b'' ''Fixture Organization B''
              (seed_fixture ''org-fixture-a'' ''Fixture Organization A'' s)"

section \<open>What a successful application did\<close>

lemma apply_effect_ok:
  assumes "apply_effect H reg rid org e s = Inr (u, s')"
  obtains cur c nxt v where
    "find_record org (ef_target e) s = Some cur" "reg (ef_integration e) = Some c"
    "cn_prepare c \<lparr>cr_id = sr_id cur, cr_version = sr_version cur,
       cr_data = record_data (sr_data cur)\<rparr> (effect_op e) = Inr nxt"
    "rid \<notin> rc_id ` set (receipts s)"
    "s' = s\<lparr>
       sim_records := update_where
         (\<lambda>r. sr_org r = org \<and> sr_id r = ef_target e \<and> sr_version r = sr_version cur)
         (\<lambda>r. r\<lparr>sr_version := cr_version nxt, sr_data := JObj (cr_data nxt)\<rparr>) (sim_records s),
       effects := update_where (\<lambda>x. ef_id x = ef_id e)
         (\<lambda>x. x\<lparr>ef_state := EVerified, ef_result := Some v\<rparr>) (effects s),
       receipts := receipts s @ [\<lparr>rc_id = rid, rc_org = org, rc_effect = ef_id e,
         rc_kind = ''simulator'', rc_outcome = ''applied'', rc_result = JObj (cr_data nxt)\<rparr>]\<rparr>"
proof -
  obtain cur where cur: "find_record org (ef_target e) s = Some cur"
    using assms unfolding apply_effect_def by (auto split: option.splits)
  obtain c where c: "reg (ef_integration e) = Some c"
    using assms unfolding apply_effect_def by (auto split: option.splits)
  obtain nxt where nxt: "cn_prepare c \<lparr>cr_id = sr_id cur, cr_version = sr_version cur,
       cr_data = record_data (sr_data cur)\<rparr> (effect_op e) = Inr nxt"
    using assms unfolding apply_effect_def by (auto simp: cur c split: sum.splits)
  note a = assms[unfolded apply_effect_def cur c option.case nxt sum.case Let_def]
  let ?s1 = "s\<lparr>sim_records := update_where
         (\<lambda>r. sr_org r = org \<and> sr_id r = ef_target e \<and> sr_version r = sr_version cur)
         (\<lambda>r. r\<lparr>sr_version := cr_version nxt, sr_data := JObj (cr_data nxt)\<rparr>) (sim_records s)\<rparr>"
  obtain obs where obs: "find_record org (ef_target e) ?s1 = Some obs"
    using a by (auto split: option.splits)
  have rid: "rid \<notin> rc_id ` set (receipts s)"
    using a by (auto simp: exists_row_def split: option.splits if_split_asm)
  note a' = a[unfolded obs option.case]
  show thesis
    by (rule that[OF cur c nxt rid, of "sr_data obs"])
       (use a' in \<open>auto split: option.splits if_split_asm\<close>)
qed

text \<open>A run over the effects: the records, effects and receipts are all that moves.\<close>

definition verified_from :: "effect \<Rightarrow> effect \<Rightarrow> bool" where
  "verified_from x y \<longleftrightarrow> (\<exists>v. y = x\<lparr>ef_state := EVerified, ef_result := Some v\<rparr>)"

lemma verified_from_update [simp]:
  "verified_from (x\<lparr>ef_state := EVerified, ef_result := Some v\<rparr>) y \<longleftrightarrow> verified_from x y"
  "verified_from x (x\<lparr>ef_state := EVerified, ef_result := Some v\<rparr>)"
  by (auto simp: verified_from_def)

lemma apply_effects_ok:
  assumes "apply_effects H reg fresh k org es s = Inr (u, s')"
  shows "\<exists>recs effs rs. s' = s\<lparr>sim_records := recs, effects := effs, receipts := receipts s @ rs\<rparr> \<and>
     list_all2 (\<lambda>x y. if ef_id x \<in> ef_id ` set es then verified_from x y else y = x) (effects s) effs \<and>
     map rc_effect rs = map ef_id es \<and>
     distinct (map rc_id rs) \<and> rc_id ` set rs \<inter> rc_id ` set (receipts s) = {} \<and>
     (\<forall>r\<in>set rs. rc_org r = org)"
  using assms
proof (induction es arbitrary: k s)
  case Nil
  then have "s' = s" by simp
  then show ?case
    by (intro exI[of _ "sim_records s"] exI[of _ "effects s"] exI[of _ "[]"]) (simp add: list_all2_refl)
next
  case (Cons e es)
  from Cons.prems obtain u1 s1 where 1: "apply_effect H reg (fresh k) org e s = Inr (u1, s1)"
      "apply_effects H reg fresh (Suc k) org es s1 = Inr (u, s')"
    by (auto split: sum.splits)
  from 1(1) obtain recs1 v rs1 where s1: "s1 = s\<lparr>sim_records := recs1,
       effects := update_where (\<lambda>x. ef_id x = ef_id e)
         (\<lambda>x. x\<lparr>ef_state := EVerified, ef_result := Some v\<rparr>) (effects s),
       receipts := receipts s @ [rs1]\<rparr>"
      "rc_effect rs1 = ef_id e" "rc_org rs1 = org" "rc_id rs1 \<notin> rc_id ` set (receipts s)"
    by (elim apply_effect_ok) auto
  from Cons.IH[OF 1(2)] obtain recs effs rs where 2:
    "s' = s1\<lparr>sim_records := recs, effects := effs, receipts := receipts s1 @ rs\<rparr>"
    "list_all2 (\<lambda>x y. if ef_id x \<in> ef_id ` set es then verified_from x y else y = x) (effects s1) effs"
    "map rc_effect rs = map ef_id es" "distinct (map rc_id rs)"
    "rc_id ` set rs \<inter> rc_id ` set (receipts s1) = {}" "\<forall>r\<in>set rs. rc_org r = org"
    by blast
  have "list_all2 (\<lambda>x y. if ef_id x \<in> ef_id ` set (e # es) then verified_from x y else y = x)
          (effects s) effs"
    unfolding list_all2_conv_all_nth
  proof (intro conjI allI impI)
    show len: "length (effects s) = length effs"
      using 2(2) s1(1) by (auto dest: list_all2_lengthD)
    fix j assume j: "j < length (effects s)"
    let ?x = "effects s ! j"
    let ?x1 = "if ef_id ?x = ef_id e then ?x\<lparr>ef_state := EVerified, ef_result := Some v\<rparr> else ?x"
    have x1: "effects s1 ! j = ?x1" using j by (simp add: s1(1) update_where_def)
    have "j < length (effects s1)" using j by (simp add: s1(1))
    from list_all2_nthD[OF 2(2) this]
    have "if ef_id ?x1 \<in> ef_id ` set es then verified_from ?x1 (effs ! j) else effs ! j = ?x1"
      unfolding x1 .
    then show "if ef_id ?x \<in> ef_id ` set (e # es) then verified_from ?x (effs ! j) else effs ! j = ?x"
      by (cases "ef_id ?x = ef_id e"; cases "ef_id ?x \<in> ef_id ` set es") simp_all
  qed
  then show ?case
    by (intro exI[of _ recs] exI[of _ effs] exI[of _ "rs1 # rs"])
       (use 2 s1 in auto)
qed

lemma apply_proposal_cases:
  assumes "apply_proposal H reg fresh org pid s = Inr (u, s')"
  obtains (skip) p where "find_proposal org pid s = Some p"
      "pp_status p \<noteq> PApproved" "pp_status p \<noteq> PExecuting" "s' = s"
    | (blocked) p where "find_proposal org pid s = Some p"
      "pp_status p = PApproved \<or> pp_status p = PExecuting" "undone_parent org (pp_task p) s"
      "s' = s\<lparr>tasks := update_where
                   (\<lambda>t. tk_org t = org \<and> tk_id t = pp_task p \<and> \<not> terminal_task (tk_status t))
                   (\<lambda>t. t\<lparr>tk_status := TBlocked\<rparr>) (tasks s)\<rparr>"
    | (refused) p where "find_proposal org pid s = Some p"
      "pp_status p = PApproved \<or> pp_status p = PExecuting"
      "\<not> apply_permitted org (pp_task p) pid s" "\<not> undone_parent org (pp_task p) s"
      "s' = s\<lparr>proposals := update_where (\<lambda>q. pp_org q = org \<and> pp_id q = pid)
                   (\<lambda>q. q\<lparr>pp_status := PNeedsAttention,
                          pp_failure := ''authorization_or_dependency_unavailable''\<rparr>)
                   (proposals s)\<rparr>"
    | (applied) p s1 s2 where "find_proposal org pid s = Some p"
      "pp_status p = PApproved \<or> pp_status p = PExecuting"
      "apply_permitted org (pp_task p) pid s"
      "s1 = s\<lparr>proposals := update_where (\<lambda>q. pp_id q = pid)
                  (\<lambda>q. q\<lparr>pp_status := PExecuting\<rparr>) (proposals s)\<rparr>"
      "apply_effects H reg fresh 0 org (authorized_effects org pid s1) s1 = Inr ((), s2)"
      "s' = complete_proposal org (pp_task p) pid s2"
proof -
  obtain p where p: "find_proposal org pid s = Some p"
    using assms unfolding apply_proposal_def by (auto split: option.splits)
  note a = assms[unfolded apply_proposal_def p option.case Let_def]
  show thesis
  proof (cases "pp_status p = PApproved \<or> pp_status p = PExecuting")
    case False
    then show thesis using a by (intro skip[OF p]) auto
  next
    case st: True
    then have st': "\<not> (pp_status p \<noteq> PApproved \<and> pp_status p \<noteq> PExecuting)" by auto
    note a' = a[unfolded if_not_P[OF st']]
    show thesis
    proof (cases "apply_permitted org (pp_task p) pid s")
      case True
      let ?s1 = "s\<lparr>proposals := update_where (\<lambda>q. pp_id q = pid)
                  (\<lambda>q. q\<lparr>pp_status := PExecuting\<rparr>) (proposals s)\<rparr>"
      from True a' obtain s2 where
        "apply_effects H reg fresh 0 org (authorized_effects org pid ?s1) ?s1 = Inr ((), s2)"
        "s' = complete_proposal org (pp_task p) pid s2"
        by (auto split: sum.splits)
      then show thesis by (intro applied[OF p st True refl])
    next
      case np: False
      show thesis
      proof (cases "undone_parent org (pp_task p) s")
        case True
        then show thesis using a' np by (intro blocked[OF p st True]) auto
      next
        case False
        then show thesis using a' np by (intro refused[OF p st np False]) auto
      qed
    qed
  qed
qed

lemma mark_attention_cases:
  assumes "mark_attention org pid s = Inr (u, s')"
  obtains (none) "s' = s"
    | (marked) p where "p \<in> set (proposals s)" "pp_org p = org" "pp_id p = pid"
      "pp_status p = PApproved \<or> pp_status p = PExecuting"
      "s' = s\<lparr>
          proposals := update_where
            (\<lambda>p. pp_org p = org \<and> pp_id p = pid \<and>
                 (pp_status p = PApproved \<or> pp_status p = PExecuting))
            (\<lambda>p. p\<lparr>pp_status := PNeedsAttention, pp_failure := ''invalid_or_stale_operation''\<rparr>)
            (proposals s),
          tasks := update_where
            (\<lambda>t. tk_org t = org \<and> tk_id t = pp_task p \<and> \<not> terminal_task (tk_status t))
            (\<lambda>t. t\<lparr>tk_status := TBlocked, tk_version := tk_version t + 1\<rparr>) (tasks s),
          effects := update_where
            (\<lambda>e. ef_org e = org \<and> ef_proposal e = pid \<and> ef_state e = EAuthorized)
            (\<lambda>e. e\<lparr>ef_state := ENeedsAttention\<rparr>) (effects s)\<rparr>"
proof (cases "row (\<lambda>p. pp_org p = org \<and> pp_id p = pid \<and>
                    (pp_status p = PApproved \<or> pp_status p = PExecuting)) (proposals s)")
  case None
  then show thesis using assms none by (simp add: mark_attention_def)
next
  case (Some p)
  note p = row_SomeD[OF Some]
  show thesis
    by (rule marked[of p]) (use p assms in \<open>simp_all add: mark_attention_def Some\<close>)
qed

end
