(* ===== verification/Authorization.thy ===== *)
theory Authorization
  imports Execution
begin

text \<open>
  What holds of proposals across transactions: identifiers stay unique, a status only moves
  forward, and a proposal that is approved (or further) carries its creator's endorsement and
  another principal's approval of exactly its revision and digest. Each invariant is a predicate
  of the database and each operation that touches its tables has a preservation lemma.
\<close>

section \<open>Tables of the operations\<close>

definition proposal_ids :: "db \<Rightarrow> bool" where
  "proposal_ids s \<longleftrightarrow> distinct (map pp_id (proposals s)) \<and> [] \<notin> set (map pp_id (proposals s))"

lemma proposal_unique:
  assumes "proposal_ids s" "find_proposal org pid s = Some p" "q \<in> set (proposals s)" "pp_id q = pid"
  shows "q = p"
proof -
  have "p \<in> set (proposals s)" "pp_id p = pid" using row_SomeD[OF assms(2)] by auto
  then show ?thesis
    using assms unique_key_row[of pp_id "proposals s" q p] by (auto simp: proposal_ids_def)
qed

lemma create_proposal_tables:
  assumes "create_proposal_tx H fo fb pid now org task actor summary origin run ops0 s = Inr (p, s')"
  shows "proposals s' = proposals (supersede org task s) @ [p]"
    and "s' = s\<lparr>proposals := proposals s', business_ops := business_ops s'\<rparr>"
proof -
  obtain t where r: "reserve_business_operations H org pid
       (zip (assign_ids fo 0 ops0) (map fb [0..<length (assign_ids fo 0 ops0)]))
       (s\<lparr>proposals := proposals (supersede org task s) @ [p]\<rparr>) = Inr ((), s')"
    using assms by (rule create_proposal_tx_ok)
  obtain X where "s' = s\<lparr>proposals := proposals (supersede org task s) @ [p], business_ops := X\<rparr>"
    using reserve_frame[OF r] by auto
  then show "proposals s' = proposals (supersede org task s) @ [p]"
    and "s' = s\<lparr>proposals := proposals s', business_ops := business_ops s'\<rparr>"
    by auto
qed

lemma supersede_proposals:
  "proposals (supersede org task s) = update_where
     (\<lambda>p. pp_org p = org \<and> pp_task p = task \<and>
          (pp_status p = PPendingEndorsement \<or> pp_status p = PPendingApproval \<or> pp_status p = PApproved))
     (\<lambda>p. p\<lparr>pp_status := PSuperseded\<rparr>) (proposals s)"
  by (simp add: supersede_def)

lemma complete_tables:
  "proposals (complete_proposal org task pid s) =
     update_where (\<lambda>p. pp_org p = org \<and> pp_id p = pid) (\<lambda>p. p\<lparr>pp_status := PDone\<rparr>) (proposals s)"
  "decisions (complete_proposal org task pid s) = decisions s"
  "effects (complete_proposal org task pid s) = effects s"
  "receipts (complete_proposal org task pid s) = receipts s"
  "business_ops (complete_proposal org task pid s) =
     update_where (\<lambda>b. bo_org b = org \<and> bo_proposal b = Some pid \<and> bo_status b = BDispatching)
         (\<lambda>b. b\<lparr>bo_status := BVerified\<rparr>) (business_ops s)"
  "tasks (complete_proposal org task pid s) =
     update_where (\<lambda>t. tk_org t = org \<and> tk_id t = task \<and> tk_status t \<noteq> TCancelled)
         (\<lambda>t. t\<lparr>tk_status := TDone, tk_version := tk_version t + 1\<rparr>) (tasks s)"
  "task_deps (complete_proposal org task pid s) = task_deps s"
  by (simp_all add: complete_proposal_def enqueue_eligible_children_def)

text \<open>The outcomes of a decision, with the tables they leave.\<close>

lemma decide_elim:
  assumes "decide fresh i org pid actor kind revision dg reason s = Inr (u, s')"
  obtains (replay) "s' = s"
    | (endorsed) a p where
      "find_principal org actor s = Some a" "pr_active a" "find_proposal org pid s = Some p"
      "pp_revision p = revision" "pp_digest p = dg" "i \<notin> dc_id ` set (decisions s)"
      "actor = pp_created_by p" "pp_status p = PPendingEndorsement"
      "s' = s\<lparr>
         decisions := decisions s @ [decision_row i org pid actor Endorse revision dg reason],
         proposals := update_where
           (\<lambda>q. pp_org q = org \<and> pp_id q = pid \<and> pp_status q = PPendingEndorsement)
           (\<lambda>q. q\<lparr>pp_status := PPendingApproval\<rparr>) (proposals s)\<rparr>"
    | (rejected) a p where
      "find_principal org actor s = Some a" "pr_active a" "find_proposal org pid s = Some p"
      "pp_revision p = revision" "pp_digest p = dg" "i \<notin> dc_id ` set (decisions s)"
      "actor \<noteq> pp_created_by p" "pr_role a \<in> {Approver, Admin}"
      "s' = s\<lparr>
         decisions := decisions s @ [decision_row i org pid actor Reject revision dg reason],
         proposals := update_where
           (\<lambda>q. pp_org q = org \<and> pp_id q = pid \<and>
                (pp_status q = PPendingEndorsement \<or> pp_status q = PPendingApproval))
           (\<lambda>q. q\<lparr>pp_status := PRejected\<rparr>) (proposals s),
         business_ops := update_where
           (\<lambda>b. bo_org b = org \<and> bo_proposal b = Some pid \<and> bo_status b = BReserved)
           (\<lambda>b. b\<lparr>bo_status := BReleased\<rparr>) (business_ops s)\<rparr>"
    | (approved) a p es where
      "find_principal org actor s = Some a" "pr_active a" "find_proposal org pid s = Some p"
      "pp_revision p = revision" "pp_digest p = dg" "i \<notin> dc_id ` set (decisions s)"
      "actor \<noteq> pp_created_by p" "pr_role a \<in> {Approver, Admin}" "pp_status p = PPendingApproval"
      "\<And>t. find_task org (pp_task p) s = Some t \<Longrightarrow> tk_status t \<noteq> TCancelled"
      "effects s @ es = effects (insert_effects fresh 0 org pid (pp_operations p)
         (s\<lparr>decisions := decisions s @ [decision_row i org pid actor Approve revision dg reason]\<rparr>))"
      "\<forall>e\<in>set es. \<exists>op\<in>set (pp_operations p). \<exists>j. e = effect_of j org pid op s"
      "s' = s\<lparr>
         decisions := decisions s @ [decision_row i org pid actor Approve revision dg reason],
         proposals := update_where
           (\<lambda>q. pp_org q = org \<and> pp_id q = pid \<and> pp_status q = PPendingApproval)
           (\<lambda>q. q\<lparr>pp_status := PApproved\<rparr>) (proposals s),
         effects := effects s @ es,
         business_ops := update_where
           (\<lambda>b. bo_org b = org \<and> bo_proposal b = Some pid \<and> bo_status b = BReserved)
           (\<lambda>b. b\<lparr>bo_status := BDispatching\<rparr>) (business_ops s),
         proposal_jobs := proposal_jobs s @ [(org, pid)]\<rparr>"
  using assms
proof (cases rule: decide_cases)
  case (fresh a p k)
  have pid: "pp_id p = pid" using row_SomeD[OF fresh(3)] by simp
  let ?s1 = "s\<lparr>decisions := decisions s @ [decision_row i org pid actor k revision dg reason]\<rparr>"
  show thesis
  proof (cases k)
    case Endorse
    from fresh(8)[OF this] show thesis
      by (intro endorsed[OF fresh(1-5,7)]) (auto simp: set_proposal_status_def Endorse)
  next
    case Reject
    from fresh(9)[OF this] show thesis
      by (intro rejected[OF fresh(1-5,7)])
         (auto simp: set_proposal_status_def release_business_operations_def Reject)
  next
    case Approve
    note f = fresh(10)[OF Approve]
    have ap: "approve_proposal fresh org p ?s1 = Inr ((), s')" using f by simp
    obtain es where es: "s' = ?s1\<lparr>proposals := update_where
              (\<lambda>q. pp_org q = org \<and> pp_id q = pp_id p \<and> pp_status q = PPendingApproval)
              (\<lambda>q. q\<lparr>pp_status := PApproved\<rparr>) (proposals ?s1),
            effects := effects ?s1 @ es,
            business_ops := update_where
              (\<lambda>b. bo_org b = org \<and> bo_proposal b = Some (pp_id p) \<and> bo_status b = BReserved)
              (\<lambda>b. b\<lparr>bo_status := BDispatching\<rparr>) (business_ops ?s1),
            proposal_jobs := proposal_jobs ?s1 @ [(org, pp_id p)]\<rparr>"
        "effects ?s1 @ es = effects (insert_effects fresh 0 org (pp_id p) (pp_operations p) ?s1)"
        "\<forall>e\<in>set es. \<exists>op\<in>set (pp_operations p). \<exists>j. e = effect_of j org (pp_id p) op ?s1"
      using ap by (rule approve_tables)
    show thesis
    proof (rule approved[OF fresh(1-5,7)])
      show "pp_status p = PPendingApproval" by (rule approve_ok(1)[OF ap])
      show "tk_status t \<noteq> TCancelled" if "find_task org (pp_task p) s = Some t" for t
        using approve_ok(2)[OF ap, of t] that by simp
      show "\<forall>e\<in>set es. \<exists>op\<in>set (pp_operations p). \<exists>j. e = effect_of j org pid op s"
        using es(3) by (simp add: pid effect_of_def)
    qed (use f es(1,2) in \<open>simp_all add: pid Approve\<close>)
  qed
qed (rule replay)

text \<open>The tables after an application, read off the effects it verified.\<close>

lemma applied_tables:
  assumes "apply_effects H reg fresh 0 org (authorized_effects org pid s1) s1 = Inr ((), s2)"
  shows "\<exists>recs effs rs. s2 = s1\<lparr>sim_records := recs, effects := effs, receipts := receipts s1 @ rs\<rparr> \<and>
     list_all2 (\<lambda>x y. if ef_id x \<in> ef_id ` set (authorized_effects org pid s1)
                      then verified_from x y else y = x) (effects s1) effs \<and>
     map rc_effect rs = map ef_id (authorized_effects org pid s1) \<and>
     distinct (map rc_id rs) \<and> rc_id ` set rs \<inter> rc_id ` set (receipts s1) = {} \<and>
     (\<forall>r\<in>set rs. rc_org r = org)"
  using assms by (rule apply_effects_ok)

lemma applied_proposals:
  assumes "proposal_ids s" "find_proposal org pid s = Some p"
    and "s1 = s\<lparr>proposals := update_where (\<lambda>q. pp_id q = pid) (\<lambda>q. q\<lparr>pp_status := PExecuting\<rparr>) (proposals s)\<rparr>"
    and "apply_effects H reg fresh 0 org (authorized_effects org pid s1) s1 = Inr ((), s2)"
  shows "proposals (complete_proposal org (pp_task p) pid s2) =
           update_where (\<lambda>q. pp_id q = pid) (\<lambda>q. q\<lparr>pp_status := PDone\<rparr>) (proposals s)"
    and "decisions (complete_proposal org (pp_task p) pid s2) = decisions s"
proof -
  obtain recs effs rs where s2: "s2 = s1\<lparr>sim_records := recs, effects := effs, receipts := receipts s1 @ rs\<rparr>"
    using applied_tables[OF assms(4)] by blast
  have org: "pp_org q = org" if "q \<in> set (proposals s)" "pp_id q = pid" for q
    using proposal_unique[OF assms(1,2) that] row_SomeD[OF assms(2)] by simp
  show "proposals (complete_proposal org (pp_task p) pid s2) =
           update_where (\<lambda>q. pp_id q = pid) (\<lambda>q. q\<lparr>pp_status := PDone\<rparr>) (proposals s)"
    unfolding complete_tables s2 assms(3) update_where_def
    by (auto simp: org)
  show "decisions (complete_proposal org (pp_task p) pid s2) = decisions s"
    by (simp add: complete_tables s2 assms(3))
qed

section \<open>Unique identifiers\<close>

lemma proposal_ids_update:
  assumes "proposal_ids s" "proposals s' = update_where P f (proposals s)" "\<And>p. pp_id (f p) = pp_id p"
  shows "proposal_ids s'"
proof -
  have "map pp_id (proposals s') = map pp_id (proposals s)"
    by (simp add: assms(2,3) map_key_update_where)
  then show ?thesis using assms(1) unfolding proposal_ids_def by (simp only: simp_thms)
qed

lemma create_proposal_ids:
  assumes "create_proposal_tx H fo fb pid now org task actor summary origin run ops0 s = Inr (p, s')"
    and "proposal_ids s" "pid \<noteq> []"
  shows "proposal_ids s'"
proof -
  have "pp_id p = pid" "pid \<notin> pp_id ` set (proposals s)"
    by (rule create_proposal_tx_ok[OF assms(1)], simp)+
  moreover have "map pp_id (proposals (supersede org task s)) = map pp_id (proposals s)"
    by (simp add: supersede_def map_key_update_where)
  ultimately have "map pp_id (proposals s') = map pp_id (proposals s) @ [pid]"
    by (simp add: create_proposal_tables(1)[OF assms(1)])
  then show ?thesis
    using assms(2,3) \<open>pid \<notin> pp_id ` set (proposals s)\<close> by (simp add: proposal_ids_def)
qed

text \<open>Every other operation updates the proposals in place.\<close>

lemma decide_ids:
  assumes "decide fresh i org pid actor kind revision dg reason s = Inr (u, s')" "proposal_ids s"
  shows "proposal_ids s'"
  using assms(1) by (cases rule: decide_elim) (auto intro: proposal_ids_update[OF assms(2)] simp: assms(2))

section \<open>Separation of duty\<close>

text \<open>Some decision of kind \<open>k\<close> by an actor satisfying \<open>Q\<close> on exactly this revision and digest.\<close>

definition decided :: "proposal \<Rightarrow> decision_kind \<Rightarrow> (id \<Rightarrow> bool) \<Rightarrow> decision list \<Rightarrow> bool" where
  "decided p k Q ds \<longleftrightarrow>
     (\<exists>d\<in>set ds. dc_org d = pp_org p \<and> dc_proposal d = pp_id p \<and> dc_kind d = k \<and>
        dc_revision d = pp_revision p \<and> dc_digest d = pp_digest p \<and> Q (dc_actor d))"

abbreviation endorsed :: "proposal \<Rightarrow> decision list \<Rightarrow> bool" where
  "endorsed p ds \<equiv> decided p Endorse (\<lambda>a. a = pp_created_by p) ds"

abbreviation approved_by_other :: "proposal \<Rightarrow> decision list \<Rightarrow> bool" where
  "approved_by_other p ds \<equiv> decided p Approve (\<lambda>a. a \<noteq> pp_created_by p) ds"

definition sod_at :: "proposal \<Rightarrow> decision list \<Rightarrow> bool" where
  "sod_at p ds \<longleftrightarrow>
     (pp_status p \<in> {PPendingApproval, PApproved, PExecuting, PDone, PNeedsAttention} \<longrightarrow> endorsed p ds) \<and>
     (pp_status p \<in> {PApproved, PExecuting, PDone, PNeedsAttention} \<longrightarrow> approved_by_other p ds)"

definition separation :: "db \<Rightarrow> bool" where
  "separation s \<longleftrightarrow> (\<forall>p\<in>set (proposals s). sod_at p (decisions s))"

lemma decided_mono: "decided p k Q ds \<Longrightarrow> decided p k Q (ds @ ds')"
  by (auto simp: decided_def)

lemma decided_status [simp]:
  "decided (p\<lparr>pp_status := st\<rparr>) k Q ds = decided p k Q ds"
  "decided (p\<lparr>pp_status := st, pp_failure := f\<rparr>) k Q ds = decided p k Q ds"
  by (simp_all add: decided_def)

lemma sod_mono: "sod_at p ds \<Longrightarrow> sod_at p (ds @ ds')"
  unfolding sod_at_def using decided_mono by blast

lemma separation_update:
  assumes "separation s" "proposals s' = update_where P f (proposals s)"
    "decisions s' = decisions s @ ds"
    "\<And>p. p \<in> set (proposals s) \<Longrightarrow> P p \<Longrightarrow> sod_at p (decisions s) \<Longrightarrow> sod_at (f p) (decisions s @ ds)"
  shows "separation s'"
  using assms by (simp add: separation_def ball_update_where sod_mono)

lemma create_proposal_separation:
  assumes "create_proposal_tx H fo fb pid now org task actor summary origin run ops0 s = Inr (p, s')"
    and "separation s"
  shows "separation s'"
proof -
  have p: "pp_status p = PPendingEndorsement" by (rule create_proposal_tx_ok[OF assms(1)]) simp
  have d: "decisions s' = decisions s"
    by (subst create_proposal_tables(2)[OF assms(1)]) simp
  have "separation (supersede org task s)"
    by (rule separation_update[OF assms(2) supersede_proposals, where ds = "[]"])
       (auto simp: supersede_def sod_at_def)
  then show ?thesis
    unfolding separation_def create_proposal_tables(1)[OF assms(1)] d
    by (auto simp: p sod_at_def supersede_def)
qed

lemma cancel_task_separation:
  assumes "cancel_task org i v now s = Inr (u, s')" "separation s"
  shows "separation s'"
proof (rule separation_update[OF assms(2) cancel_task_tables(3)[OF assms(1)], where ds = "[]"])
  show "decisions s' = decisions s @ []"
    by (subst cancel_task_frame[OF assms(1)]) simp
qed (simp add: sod_at_def)

lemma apply_proposal_separation:
  assumes "apply_proposal H reg fresh org pid s = Inr (u, s')" "separation s" "proposal_ids s"
  shows "separation s'"
  using assms(1)
proof (cases rule: apply_proposal_cases)
  case (refused p)
  have eq: "q = p" if "q \<in> set (proposals s)" "pp_id q = pid" for q
    by (rule proposal_unique[OF assms(3) refused(1) that])
  have t: "proposals s' = update_where (\<lambda>q. pp_org q = org \<and> pp_id q = pid)
      (\<lambda>q. q\<lparr>pp_status := PNeedsAttention,
             pp_failure := ''authorization_or_dependency_unavailable''\<rparr>) (proposals s)"
    by (simp add: refused(5))
  show ?thesis
    by (rule separation_update[OF assms(2) t, where ds = "[]"])
       (use refused(2,5) eq in \<open>auto simp: sod_at_def\<close>)
next
  case (applied p s1 s2)
  note t = applied_proposals[OF assms(3) applied(1,4,5)]
  have eq: "q = p" if "q \<in> set (proposals s)" "pp_id q = pid" for q
    by (rule proposal_unique[OF assms(3) applied(1) that])
  show ?thesis unfolding applied(6)
    by (rule separation_update[OF assms(2) t(1), where ds = "[]"])
       (use applied(2) eq t(2) in \<open>auto simp: sod_at_def\<close>)
qed (use assms(2) in \<open>auto simp: separation_def\<close>)

lemma mark_attention_separation:
  assumes "mark_attention org pid s = Inr (u, s')" "separation s"
  shows "separation s'"
  using assms(1)
proof (cases rule: mark_attention_cases)
  case (marked p)
  have t: "proposals s' = update_where
      (\<lambda>p. pp_org p = org \<and> pp_id p = pid \<and> (pp_status p = PApproved \<or> pp_status p = PExecuting))
      (\<lambda>p. p\<lparr>pp_status := PNeedsAttention, pp_failure := ''invalid_or_stale_operation''\<rparr>)
      (proposals s)"
    by (simp add: marked(5))
  show ?thesis
    by (rule separation_update[OF assms(2) t, where ds = "[]"])
       (use marked(5) in \<open>auto simp: sod_at_def\<close>)
qed (use assms(2) in simp)

lemma decide_separation:
  assumes "decide fresh i org pid actor kind revision dg reason s = Inr (u, s')"
    "separation s" "proposal_ids s"
  shows "separation s'"
  using assms(1)
proof (cases rule: decide_elim)
  case (endorsed a p)
  let ?ds = "[decision_row i org pid actor Endorse revision dg reason]"
  have eq: "q = p" if "q \<in> set (proposals s)" "pp_id q = pid" for q
    by (rule proposal_unique[OF assms(3) endorsed(3) that])
  have e: "endorsed p (decisions s @ ?ds)"
    using row_SomeD[OF endorsed(3)] endorsed(4,5,7) by (auto simp: decided_def decision_row_def)
  show ?thesis
    by (rule separation_update[OF assms(2), where ds = ?ds])
       (unfold endorsed(9), simp, simp, use e eq in \<open>auto simp: sod_at_def\<close>)
next
  case (rejected a p)
  show ?thesis
    by (rule separation_update[OF assms(2),
          where ds = "[decision_row i org pid actor Reject revision dg reason]"])
       (unfold rejected(9), simp, simp, auto simp: sod_at_def)
next
  case (approved a p es)
  let ?ds = "[decision_row i org pid actor Approve revision dg reason]"
  have p: "p \<in> set (proposals s)" using row_SomeD[OF approved(3)] by simp
  have eq: "q = p" if "q \<in> set (proposals s)" "pp_id q = pid" for q
    by (rule proposal_unique[OF assms(3) approved(3) that])
  have "endorsed p (decisions s)"
    using assms(2) p approved(9) by (auto simp: separation_def sod_at_def)
  then have e: "endorsed p (decisions s @ ?ds)" by (rule decided_mono)
  have a: "approved_by_other p (decisions s @ ?ds)"
    using row_SomeD[OF approved(3)] approved(4,5,7) by (auto simp: decided_def decision_row_def)
  show ?thesis
  proof (rule separation_update[OF assms(2), where ds = ?ds])
    show "proposals s' = update_where
           (\<lambda>q. pp_org q = org \<and> pp_id q = pid \<and> pp_status q = PPendingApproval)
           (\<lambda>q. q\<lparr>pp_status := PApproved\<rparr>) (proposals s)" "decisions s' = decisions s @ ?ds"
      by (simp_all add: approved(13))
    fix q
    assume q: "q \<in> set (proposals s)" "pp_org q = org \<and> pp_id q = pid \<and> pp_status q = PPendingApproval"
    then have "q = p" using eq by simp
    then show "sod_at (q\<lparr>pp_status := PApproved\<rparr>) (decisions s @ ?ds)"
      using e a by (simp add: sod_at_def)
  qed
qed (use assms(2) in simp)

section \<open>The life of a proposal\<close>

text \<open>
  The status changes one transaction can make. Rejected, superseded, done and needing attention
  are final; \<open>PExecuting\<close> only exists inside the transaction that applies a proposal.
\<close>

definition proposal_edge :: "proposal_status \<Rightarrow> proposal_status \<Rightarrow> bool" where
  "proposal_edge a b \<longleftrightarrow> a = b \<or> (a, b) \<in>
     {(PPendingEndorsement, PPendingApproval), (PPendingEndorsement, PRejected),
      (PPendingEndorsement, PSuperseded), (PPendingApproval, PApproved),
      (PPendingApproval, PRejected), (PPendingApproval, PSuperseded), (PApproved, PRejected),
      (PApproved, PSuperseded), (PApproved, PDone), (PApproved, PNeedsAttention),
      (PExecuting, PDone), (PExecuting, PNeedsAttention), (PExecuting, PRejected)}"

definition proposal_final :: "proposal \<Rightarrow> bool" where
  "proposal_final p \<longleftrightarrow> pp_status p \<in> {PRejected, PSuperseded, PDone, PNeedsAttention}"

definition proposal_born :: "proposal \<Rightarrow> bool" where
  "proposal_born p \<longleftrightarrow> pp_status p = PPendingEndorsement \<and> pp_failure p = []"

text \<open>Only the status and the failure reason of a proposal ever change.\<close>

definition proposal_move :: "proposal \<Rightarrow> proposal \<Rightarrow> bool" where
  "proposal_move p q \<longleftrightarrow>
     q = p\<lparr>pp_status := pp_status q, pp_failure := pp_failure q\<rparr> \<and>
     proposal_edge (pp_status p) (pp_status q) \<and> (proposal_final p \<longrightarrow> q = p)"

lemma proposal_move_refl [simp]: "proposal_move p p"
  by (simp add: proposal_move_def proposal_edge_def)

lemma proposal_move_set [simp]:
  "proposal_move p (p\<lparr>pp_status := st\<rparr>) \<longleftrightarrow>
     proposal_edge (pp_status p) st \<and> (proposal_final p \<longrightarrow> pp_status p = st)"
  "proposal_move p (p\<lparr>pp_status := st, pp_failure := f\<rparr>) \<longleftrightarrow>
     proposal_edge (pp_status p) st \<and> (proposal_final p \<longrightarrow> pp_status p = st \<and> pp_failure p = f)"
  by (cases p; simp add: proposal_move_def; blast)+

text \<open>New proposals come from one run, \<open>[]\<close> when people make them.\<close>

abbreviation proposals_from :: "id \<Rightarrow> db \<Rightarrow> db \<Rightarrow> bool" where
  "proposals_from run s s' \<equiv>
     grows proposal_move (\<lambda>p. proposal_born p \<and> pp_origin_run p = run) (proposals s) (proposals s')"

abbreviation proposals_move :: "db \<Rightarrow> db \<Rightarrow> bool" where
  "proposals_move s s' \<equiv> proposals_from [] s s'"

lemma proposals_move_update:
  assumes "proposals s' = update_where P f (proposals s)"
    "\<And>p. p \<in> set (proposals s) \<Longrightarrow> P p \<Longrightarrow> proposal_move p (f p)"
  shows "proposals_move s s'"
  unfolding assms(1) by (rule grows_update) (use assms(2) in auto)

lemma create_proposal_moves:
  assumes "create_proposal_tx H fo fb pid now org task actor summary origin run ops0 s = Inr (p, s')"
  shows "proposals_from run s s'"
proof -
  have "proposals_from run s (supersede org task s)"
    unfolding supersede_proposals by (rule grows_update)
       (auto simp: proposal_edge_def proposal_final_def)
  moreover have "proposal_born p \<and> pp_origin_run p = run"
    by (rule create_proposal_tx_ok[OF assms]) (simp add: proposal_born_def)
  ultimately show ?thesis
    unfolding create_proposal_tables(1)[OF assms] by (intro grows_append) auto
qed

lemma cancel_task_moves:
  "cancel_task org i v now s = Inr (u, s') \<Longrightarrow> proposals_move s s'"
  by (rule proposals_move_update[OF cancel_task_tables(3)])
     (auto simp: proposal_edge_def proposal_final_def)

lemma mark_attention_moves:
  assumes "mark_attention org pid s = Inr (u, s')"
  shows "proposals_move s s'"
  using assms
proof (cases rule: mark_attention_cases)
  case (marked p)
  have t: "proposals s' = update_where
      (\<lambda>p. pp_org p = org \<and> pp_id p = pid \<and> (pp_status p = PApproved \<or> pp_status p = PExecuting))
      (\<lambda>p. p\<lparr>pp_status := PNeedsAttention, pp_failure := ''invalid_or_stale_operation''\<rparr>)
      (proposals s)"
    by (simp add: marked(5))
  show ?thesis
    by (rule proposals_move_update[OF t]) (auto simp: proposal_edge_def proposal_final_def)
qed auto

lemma apply_proposal_moves:
  assumes "apply_proposal H reg fresh org pid s = Inr (u, s')" "proposal_ids s"
  shows "proposals_move s s'"
  using assms(1)
proof (cases rule: apply_proposal_cases)
  case (refused p)
  have eq: "q = p" if "q \<in> set (proposals s)" "pp_id q = pid" for q
    by (rule proposal_unique[OF assms(2) refused(1) that])
  have t: "proposals s' = update_where (\<lambda>q. pp_org q = org \<and> pp_id q = pid)
      (\<lambda>q. q\<lparr>pp_status := PNeedsAttention,
             pp_failure := ''authorization_or_dependency_unavailable''\<rparr>) (proposals s)"
    by (simp add: refused(5))
  show ?thesis
    by (rule proposals_move_update[OF t])
       (use refused(2) eq in \<open>auto simp: proposal_edge_def proposal_final_def\<close>)
next
  case (applied p s1 s2)
  have eq: "q = p" if "q \<in> set (proposals s)" "pp_id q = pid" for q
    by (rule proposal_unique[OF assms(2) applied(1) that])
  show ?thesis unfolding applied(6)
    by (rule proposals_move_update[OF applied_proposals(1)[OF assms(2) applied(1,4,5)]])
       (use applied(2) eq in \<open>auto simp: proposal_edge_def proposal_final_def\<close>)
qed auto

lemma decide_moves:
  assumes "decide fresh i org pid actor kind revision dg reason s = Inr (u, s')"
  shows "proposals_move s s'"
  using assms
proof (cases rule: decide_elim)
  case (endorsed a p)
  show ?thesis unfolding endorsed(9)
    by (rule proposals_move_update) (simp, auto simp: proposal_edge_def proposal_final_def)
next
  case (rejected a p)
  show ?thesis unfolding rejected(9)
    by (rule proposals_move_update) (simp, auto simp: proposal_edge_def proposal_final_def)
next
  case (approved a p es)
  show ?thesis unfolding approved(13)
    by (rule proposals_move_update) (simp, auto simp: proposal_edge_def proposal_final_def)
qed auto

end
