(* ===== verification/Duplicates.thy ===== *)
theory Duplicates
  imports Authorization
begin

text \<open>
  The duplicate guard across transactions: a live proposal holds the business key of each of its
  operations, in the status its own status implies, so no two live proposals share a key and no
  key is applied twice. Effects and receipts follow the same discipline.
\<close>

section \<open>Held keys\<close>

text \<open>The status of the keys a proposal holds; a rejected or superseded one holds none for certain.\<close>

fun key_status :: "proposal_status \<Rightarrow> bop_status option" where
  "key_status PPendingEndorsement = Some BReserved"
| "key_status PPendingApproval = Some BReserved"
| "key_status PApproved = Some BDispatching"
| "key_status PExecuting = Some BDispatching"
| "key_status PNeedsAttention = Some BDispatching"
| "key_status PDone = Some BVerified"
| "key_status PRejected = None"
| "key_status PSuperseded = None"

definition holds_keys :: "proposal \<Rightarrow> business_op list \<Rightarrow> bool" where
  "holds_keys p bs \<longleftrightarrow>
     distinct (map (key_of (pp_org p)) (pp_operations p)) \<and>
     (\<forall>st. key_status (pp_status p) = Some st \<longrightarrow>
        (\<forall>op\<in>set (pp_operations p). \<exists>b\<in>set bs. bop_key b = key_of (pp_org p) op \<and>
           bo_proposal b = Some (pp_id p) \<and> bo_status b = st))"

definition keys_held :: "db \<Rightarrow> bool" where
  "keys_held s \<longleftrightarrow> bops_wf s \<and> (\<forall>p\<in>set (proposals s). holds_keys p (business_ops s))"

lemma keys_heldD: "keys_held s \<Longrightarrow> p \<in> set (proposals s) \<Longrightarrow> holds_keys p (business_ops s)"
  by (simp add: keys_held_def)

text \<open>The rule every operation that updates both tables in place goes by.\<close>

lemma keys_held_update:
  assumes "keys_held s"
    and "proposals s' = update_where P f (proposals s)" "\<And>p. proposal_move p (f p) \<or> \<not> P p \<or> p \<notin> set (proposals s)"
    and "business_ops s' = update_where Q (\<lambda>b. b\<lparr>bo_status := st\<rparr>) (business_ops s)"
    and new: "\<And>p x b. p \<in> set (proposals s) \<Longrightarrow> P p \<Longrightarrow> key_status (pp_status (f p)) = Some x \<Longrightarrow>
        \<exists>y. key_status (pp_status p) = Some y \<and>
          (bo_proposal b = Some (pp_id p) \<longrightarrow> bo_status b = y \<longrightarrow> b \<in> set (business_ops s) \<longrightarrow>
             bo_org b = pp_org p \<longrightarrow> (if Q b then x = st else x = y))"
    and old: "\<And>p b. p \<in> set (proposals s) \<Longrightarrow> \<not> P p \<Longrightarrow> b \<in> set (business_ops s) \<Longrightarrow> Q b \<Longrightarrow>
        bo_proposal b = Some (pp_id p) \<Longrightarrow> bo_org b = pp_org p \<Longrightarrow>
        key_status (pp_status p) \<noteq> Some (bo_status b)"
  shows "keys_held s'"
  unfolding keys_held_def
proof
  show "bops_wf s'"
    using assms(1) unfolding keys_held_def bops_wf_def assms(4)
    by (simp add: map_key_update_where bop_key_def)
  show "\<forall>p\<in>set (proposals s'). holds_keys p (business_ops s')"
    unfolding assms(2) ball_update_where
  proof
    fix p assume p: "p \<in> set (proposals s)"
    note h = keys_heldD[OF assms(1) p, unfolded holds_keys_def]
    have up: "(if Q b then b\<lparr>bo_status := st\<rparr> else b) \<in> set (business_ops s')"
      if "b \<in> set (business_ops s)" for b
      using that unfolding assms(4) by (auto simp: set_update_where)
    show "if P p then holds_keys (f p) (business_ops s') else holds_keys p (business_ops s')"
    proof (cases "P p")
      case True
      then have f: "f p = p\<lparr>pp_status := pp_status (f p), pp_failure := pp_failure (f p)\<rparr>"
        using assms(3)[of p] p by (auto simp: proposal_move_def)
      have fs: "pp_org (f p) = pp_org p" "pp_id (f p) = pp_id p" "pp_operations (f p) = pp_operations p"
        by (subst f, simp)+
      have "\<exists>b\<in>set (business_ops s'). bop_key b = key_of (pp_org p) op \<and>
          bo_proposal b = Some (pp_id p) \<and> bo_status b = x"
        if x: "key_status (pp_status (f p)) = Some x" and op: "op \<in> set (pp_operations p)" for x op
      proof -
        obtain y where y: "key_status (pp_status p) = Some y" using new[OF p True x] by blast
        then obtain b where b: "b \<in> set (business_ops s)" "bop_key b = key_of (pp_org p) op"
            "bo_proposal b = Some (pp_id p)" "bo_status b = y"
          using h op by blast
        have "bo_org b = pp_org p" using b(2) by (simp add: bop_key_def key_of_def)
        then have "if Q b then x = st else x = y" using new[OF p True x, of b] b y by auto
        then show ?thesis
          by (intro bexI[OF _ up[OF b(1)]]) (use b in \<open>auto simp: bop_key_def split: if_splits\<close>)
      qed
      then show ?thesis using True h by (simp add: holds_keys_def fs)
    next
      case False
      have "\<exists>b\<in>set (business_ops s'). bop_key b = key_of (pp_org p) op \<and>
          bo_proposal b = Some (pp_id p) \<and> bo_status b = x"
        if x: "key_status (pp_status p) = Some x" and op: "op \<in> set (pp_operations p)" for x op
      proof -
        obtain b where b: "b \<in> set (business_ops s)" "bop_key b = key_of (pp_org p) op"
            "bo_proposal b = Some (pp_id p)" "bo_status b = x"
          using h x op by blast
        have "bo_org b = pp_org p" using b(2) by (simp add: bop_key_def key_of_def)
        then have "\<not> Q b" using old[OF p False b(1)] b(3,4) x by auto
        then show ?thesis using up[OF b(1)] b by auto
      qed
      then show ?thesis using False h by (simp add: holds_keys_def)
    qed
  qed
qed

text \<open>An operation that leaves the keys alone and moves proposals to a status needing no other.\<close>

lemma keys_held_same:
  assumes "keys_held s" "proposals s' = update_where P f (proposals s)"
    "business_ops s' = business_ops s"
    "\<And>p. p \<in> set (proposals s) \<Longrightarrow> P p \<Longrightarrow> proposal_move p (f p) \<and>
       (key_status (pp_status (f p)) = None \<or> key_status (pp_status (f p)) = key_status (pp_status p))"
  shows "keys_held s'"
proof (rule keys_held_update[OF assms(1,2), where Q = "\<lambda>_. False" and st = BReserved])
  show "business_ops s' = update_where (\<lambda>_. False) (\<lambda>b. b\<lparr>bo_status := BReserved\<rparr>) (business_ops s)"
    by (simp add: assms(3) update_where_unmatched)
  fix p x b
  assume "p \<in> set (proposals s)" "P p" "key_status (pp_status (f p)) = Some x"
  then have "key_status (pp_status p) = Some x" using assms(4)[of p] by simp
  then show "\<exists>y. key_status (pp_status p) = Some y \<and>
      (bo_proposal b = Some (pp_id p) \<longrightarrow> bo_status b = y \<longrightarrow> b \<in> set (business_ops s) \<longrightarrow>
         bo_org b = pp_org p \<longrightarrow> (if False then x = BReserved else x = y))"
    by simp
qed (use assms(4) in auto)


lemma cancel_task_keys:
  assumes "cancel_task org i v now s = Inr (u, s')" "keys_held s"
  shows "keys_held s'"
proof (rule keys_held_same[OF assms(2) cancel_task_tables(3)[OF assms(1)]])
  show "business_ops s' = business_ops s" by (subst cancel_task_frame[OF assms(1)]) simp
qed (auto simp: proposal_edge_def proposal_final_def)

lemma mark_attention_keys:
  assumes "mark_attention org pid s = Inr (u, s')" "keys_held s"
  shows "keys_held s'"
  using assms(1)
proof (cases rule: mark_attention_cases)
  case (marked p)
  show ?thesis unfolding marked(5)
    by (rule keys_held_same[OF assms(2)])
       (simp, simp, auto simp: proposal_edge_def proposal_final_def)
qed (use assms(2) in simp)

lemma apply_proposal_keys:
  assumes "apply_proposal H reg fresh org pid s = Inr (u, s')" "keys_held s" "proposal_ids s"
  shows "keys_held s'"
  using assms(1)
proof (cases rule: apply_proposal_cases)
  case (refused p)
  have eq: "q = p" if "q \<in> set (proposals s)" "pp_id q = pid" for q
    by (rule proposal_unique[OF assms(3) refused(1) that])
  show ?thesis unfolding refused(5)
    by (rule keys_held_same[OF assms(2)])
       (simp, simp, use refused(2) eq in \<open>auto simp: proposal_edge_def proposal_final_def\<close>)
next
  case (applied p s1 s2)
  have eq: "q = p" if "q \<in> set (proposals s)" "pp_id q = pid" for q
    by (rule proposal_unique[OF assms(3) applied(1) that])
  have p: "pp_org p = org" "pp_id p = pid" using row_SomeD[OF applied(1)] by auto
  have st: "(pp_status q = PApproved \<or> pp_status q = PExecuting) \<and> pp_org q = org \<and>
      key_status (pp_status q) = Some BDispatching"
    if "q \<in> set (proposals s)" "pp_id q = pid" for q
    using eq[OF that] applied(2) p by auto
  have b: "business_ops s' = update_where
      (\<lambda>b. bo_org b = org \<and> bo_proposal b = Some pid \<and> bo_status b = BDispatching)
      (\<lambda>b. b\<lparr>bo_status := BVerified\<rparr>) (business_ops s)"
    using applied_tables[OF applied(5)] by (auto simp: applied(4,6) complete_tables)
  show ?thesis
    by (rule keys_held_update[OF assms(2) applied_proposals(1)[OF assms(3) applied(1,4,5), folded applied(6)] _ b])
       (use p in \<open>auto dest: st simp: proposal_edge_def proposal_final_def\<close>)
next
  case (blocked p)
  then show ?thesis using assms(2) by (simp add: keys_held_def bops_wf_def)
qed (use assms(2) in simp)

lemma decide_keys:
  assumes "decide fresh i org pid actor kind revision dg reason s = Inr (u, s')"
    "keys_held s" "proposal_ids s"
  shows "keys_held s'"
  using assms(1)
proof (cases rule: decide_elim)
  case (endorsed a p)
  show ?thesis unfolding endorsed(9)
    by (rule keys_held_same[OF assms(2)])
       (simp, simp, auto simp: proposal_edge_def proposal_final_def)
next
  case (rejected a p)
  have eq: "q = p" if "q \<in> set (proposals s)" "pp_id q = pid" for q
    by (rule proposal_unique[OF assms(3) rejected(3) that])
  show ?thesis unfolding rejected(9)
    by (rule keys_held_update[OF assms(2)])
       (simp, force simp: proposal_edge_def proposal_final_def, simp, simp,
        use eq in \<open>auto elim!: key_status.elims\<close>)
next
  case (approved a p es)
  have eq: "q = p" if "q \<in> set (proposals s)" "pp_id q = pid" for q
    by (rule proposal_unique[OF assms(3) approved(3) that])
  have p: "pp_org p = org" "pp_id p = pid" using row_SomeD[OF approved(3)] by auto
  show ?thesis unfolding approved(13)
    by (rule keys_held_update[OF assms(2)])
       (simp, force simp: proposal_edge_def proposal_final_def, simp,
        use eq p approved(9) in \<open>auto elim!: key_status.elims\<close>)
qed (use assms(2) in simp)

text \<open>Creating a proposal: the new one reserves its keys, the live ones keep theirs.\<close>

lemma not_rebindable:
  assumes "proposal_ids s" "q \<in> set (proposals s)" "bo_proposal b = Some (pp_id q)"
    "key_status (pp_status q) = Some (bo_status b)"
  shows "\<not> rebindable org t b s"
proof
  assume r: "rebindable org t b s"
  have "bo_status b \<noteq> BReleased" using assms(4) by (cases "pp_status q") auto
  then obtain q' where q': "find_proposal org (pp_id q) s = Some q'" "bo_status b = BReserved"
      "pp_status q' = PRejected \<or> pp_status q' = PSuperseded"
    using r assms(3) by (auto simp: rebindable_def split: option.splits)
  then have "q = q'" using proposal_unique[OF assms(1) q'(1) assms(2)] by simp
  then show False using assms(4) q'(3) by auto
qed

lemma supersede_keys: "keys_held s \<Longrightarrow> keys_held (supersede org task s)"
  by (rule keys_held_same[OF _ supersede_proposals])
     (auto simp: supersede_def proposal_edge_def proposal_final_def)

lemma create_proposal_kept:
  assumes "create_proposal_tx H fo fb pid now org task actor summary origin run ops0 s = Inr (p, s')"
    "bops_wf s" "proposal_ids s" "pid \<noteq> []" "q \<in> set (proposals (supersede org task s))"
    "b \<in> set (business_ops s)" "bo_proposal b = Some (pp_id q)"
    "key_status (pp_status q) = Some (bo_status b) \<or> bo_status b \<in> {BDispatching, BVerified}"
  shows "b \<in> set (business_ops s')"
proof -
  let ?s0 = "s\<lparr>proposals := proposals (supersede org task s) @ [p]\<rparr>"
  have r: "reserve_business_operations H org pid
       (zip (assign_ids fo 0 ops0) (map fb [0..<length (assign_ids fo 0 ops0)])) ?s0 = Inr ((), s')"
    by (rule create_proposal_tx_ok[OF assms(1)]) simp
  have "proposal_ids s'" by (rule create_proposal_ids[OF assms(1,3,4)])
  then have ids: "proposal_ids ?s0"
    by (simp add: proposal_ids_def create_proposal_tables(1)[OF assms(1)])
  have find: "find_proposal org pid ?s0 = Some p"
  proof (rule row_unique[where k = pp_id])
    show "distinct (map pp_id (proposals ?s0))" using ids by (simp add: proposal_ids_def)
    show "pp_org p = org \<and> pp_id p = pid" by (rule create_proposal_tx_ok[OF assms(1)]) simp
  qed (auto intro: create_proposal_tx_ok[OF assms(1)])
  have "\<not> rebindable org (pp_task p) b ?s0"
    using assms(8) not_rebindable[OF ids, of q b] assms(5,7) by (auto simp: rebindable_def)
  then show ?thesis
    using reserve_keeps[OF r _ _ find, of b] assms(2,6) by (auto simp: bops_wf_def)
qed

lemma create_proposal_keys:
  assumes "create_proposal_tx H fo fb pid now org task actor summary origin run ops0 s = Inr (p, s')"
    "keys_held s" "proposal_ids s" "pid \<noteq> []"
  shows "keys_held s'"
proof -
  let ?ops = "assign_ids fo 0 ops0"
  let ?s0 = "s\<lparr>proposals := proposals (supersede org task s) @ [p]\<rparr>"
  have r: "reserve_business_operations H org pid (zip ?ops (map fb [0..<length ?ops])) ?s0 = Inr ((), s')"
    by (rule create_proposal_tx_ok[OF assms(1)]) simp
  have p: "pp_org p = org" "pp_id p = pid" "pp_operations p = ?ops" "pp_status p = PPendingEndorsement"
    by (rule create_proposal_tx_ok[OF assms(1)], simp)+
  have wf: "bops_wf s" "bops_wf ?s0" using assms(2) by (simp_all add: keys_held_def bops_wf_def)
  have ids: "proposal_ids ?s0"
    using create_proposal_ids[OF assms(1,3,4)]
    by (simp add: proposal_ids_def create_proposal_tables(1)[OF assms(1)])
  have find: "find_proposal org pid ?s0 = Some p"
    by (rule row_unique[where k = pp_id]) (use ids p in \<open>auto simp: proposal_ids_def\<close>)
  have st: "pp_status p \<notin> {PRejected, PSuperseded}" by (simp add: p)
  have fst: "map fst (zip ?ops (map fb [0..<length ?ops])) = ?ops" by simp
  have fst': "fst ` set (zip ?ops (map fb [0..<length ?ops])) = set ?ops"
    using arg_cong[OF fst, of set] unfolding set_map .
  note h = reserve_holds[OF r wf(2) assms(4) find st, unfolded fst fst']
  have "holds_keys p (business_ops s')"
    using h by (simp add: holds_keys_def p holds_key_def)
  moreover have "holds_keys q (business_ops s')" if q: "q \<in> set (proposals (supersede org task s))" for q
  proof -
    have q': "holds_keys q (business_ops s)"
      using keys_heldD[OF supersede_keys[OF assms(2)] q] by (simp add: supersede_def)
    show ?thesis unfolding holds_keys_def
    proof (intro conjI allI impI ballI)
      show "distinct (map (key_of (pp_org q)) (pp_operations q))"
        using q' by (simp add: holds_keys_def)
      fix x op assume x: "key_status (pp_status q) = Some x" "op \<in> set (pp_operations q)"
      then obtain b where b: "b \<in> set (business_ops s)" "bop_key b = key_of (pp_org q) op"
          "bo_proposal b = Some (pp_id q)" "bo_status b = x"
        using q' unfolding holds_keys_def by blast
      then show "\<exists>b\<in>set (business_ops s'). bop_key b = key_of (pp_org q) op \<and>
          bo_proposal b = Some (pp_id q) \<and> bo_status b = x"
        using create_proposal_kept[OF assms(1) wf(1) assms(3,4) q b(1,3)] x(1) by auto
    qed
  qed
  moreover have "bops_wf s'" by (rule reserve_wf[OF r wf(2)])
  ultimately show ?thesis
    by (auto simp: keys_held_def create_proposal_tables(1)[OF assms(1)])
qed

text \<open>No two live proposals of an organization share a business key.\<close>

lemma live_keys_disjoint:
  assumes "keys_held s" "proposal_ids s" "p \<in> set (proposals s)" "q \<in> set (proposals s)"
    "key_status (pp_status p) \<noteq> None" "key_status (pp_status q) \<noteq> None"
    "op1 \<in> set (pp_operations p)" "op2 \<in> set (pp_operations q)"
    "key_of (pp_org p) op1 = key_of (pp_org q) op2"
  shows "p = q \<and> op1 = op2"
proof -
  have hp: "holds_keys p (business_ops s)" and hq: "holds_keys q (business_ops s)"
    using assms(1,3,4) by (auto dest: keys_heldD)
  obtain b where b: "b \<in> set (business_ops s)" "bop_key b = key_of (pp_org p) op1"
      "bo_proposal b = Some (pp_id p)"
    using hp assms(5,7) unfolding holds_keys_def by blast
  obtain c where c: "c \<in> set (business_ops s)" "bop_key c = key_of (pp_org q) op2"
      "bo_proposal c = Some (pp_id q)"
    using hq assms(6,8) unfolding holds_keys_def by blast
  have "b = c"
    by (rule unique_key_row[where k = bop_key and t = "business_ops s"])
       (use assms(1,9) b c in \<open>auto simp: keys_held_def bops_wf_def\<close>)
  then have "p = q"
    using b(3) c(3) assms(2-4) unique_key_row[of pp_id "proposals s" p q]
    by (auto simp: proposal_ids_def)
  moreover have "op1 = op2"
    by (rule unique_key_row[where k = "key_of (pp_org p)" and t = "pp_operations p"])
       (use hp assms(7-9) \<open>p = q\<close> in \<open>auto simp: holds_keys_def\<close>)
  ultimately show ?thesis ..
qed

end
