(* ===== verification/Effects.thy ===== *)
theory Effects
  imports Duplicates
begin

text \<open>
  Effects and receipts: an effect exists only for a proposal that was endorsed and approved, stands
  for one of its operations and for the business operation its proposal holds, and is verified
  exactly when the proposal is done; each verified effect has exactly one receipt.
\<close>

section \<open>Effects\<close>

text \<open>The states an effect can be in beside its proposal's.\<close>

definition effect_status :: "effect_state \<Rightarrow> proposal_status \<Rightarrow> bool" where
  "effect_status x st \<longleftrightarrow>
     (x = EAuthorized \<and> st \<in> {PApproved, PExecuting, PRejected, PSuperseded, PNeedsAttention}) \<or>
     (x = EVerified \<and> st = PDone) \<or> (x = ENeedsAttention \<and> st = PNeedsAttention)"

definition effect_for :: "effect \<Rightarrow> operation \<Rightarrow> bool" where
  "effect_for e op \<longleftrightarrow>
     ef_operation e = op_id op \<and> ef_integration e = op_integration op \<and> ef_action e = op_action op \<and>
     ef_target e = op_target op \<and> ef_expected e = op_version op \<and>
     ef_payload e = Some (raw_json (op_payload op))"

text \<open>The key of the effect's operation is out of reach of any other proposal for good.\<close>

definition effect_key :: "effect \<Rightarrow> operation \<Rightarrow> business_op list \<Rightarrow> bool" where
  "effect_key e op bs \<longleftrightarrow>
     (\<exists>b\<in>set bs. ef_bop e = Some (bo_id b) \<and> bop_key b = key_of (ef_org e) op \<and>
        bo_proposal b = Some (ef_proposal e) \<and> bo_status b \<in> {BDispatching, BVerified})"

definition effect_ok :: "effect \<Rightarrow> db \<Rightarrow> bool" where
  "effect_ok e s \<longleftrightarrow>
     (\<exists>p\<in>set (proposals s). pp_org p = ef_org e \<and> pp_id p = ef_proposal e \<and>
        endorsed p (decisions s) \<and> approved_by_other p (decisions s) \<and>
        effect_status (ef_state e) (pp_status p) \<and>
        (\<exists>op\<in>set (pp_operations p). effect_for e op \<and> effect_key e op (business_ops s)))"

definition effects_ok :: "db \<Rightarrow> bool" where
  "effects_ok s \<longleftrightarrow>
     distinct (map ef_id (effects s)) \<and> distinct (map ef_bop (effects s)) \<and>
     (\<forall>e\<in>set (effects s). effect_ok e s)"

text \<open>Keys that are dispatching or verified stay so, with their holder.\<close>

definition keys_kept :: "business_op list \<Rightarrow> business_op list \<Rightarrow> bool" where
  "keys_kept bs bs' \<longleftrightarrow>
     (\<forall>b\<in>set bs. bo_status b \<in> {BDispatching, BVerified} \<longrightarrow>
        (\<exists>b'\<in>set bs'. bo_id b' = bo_id b \<and> bop_key b' = bop_key b \<and>
           bo_proposal b' = bo_proposal b \<and> bo_status b' \<in> {BDispatching, BVerified}))"

lemma keys_kept_refl [simp]: "keys_kept bs bs"
  by (auto simp: keys_kept_def)

lemma keys_kept_update:
  assumes "\<And>b. b \<in> set bs \<Longrightarrow> Q b \<Longrightarrow> bo_status b \<in> {BDispatching, BVerified} \<Longrightarrow> st \<in> {BDispatching, BVerified}"
  shows "keys_kept bs (update_where Q (\<lambda>b. b\<lparr>bo_status := st\<rparr>) bs)"
  unfolding keys_kept_def bex_update_where
  using assms by (fastforce simp: bop_key_def)

lemma effect_key_kept: "effect_key e op bs \<Longrightarrow> keys_kept bs bs' \<Longrightarrow> effect_key e op bs'"
  unfolding effect_key_def keys_kept_def by (elim bexE) (metis (no_types, lifting))

text \<open>
  How an effect survives a transaction: its proposal moves to \<open>f p\<close>, its own state to the one of
  \<open>e'\<close>, the decisions grow and the keys are kept.
\<close>

lemma effect_ok_step:
  assumes "effect_ok e s"
    and e': "ef_org e' = ef_org e" "ef_proposal e' = ef_proposal e" "ef_bop e' = ef_bop e"
      "\<And>op. effect_for e' op = effect_for e op"
    and "decisions s' = decisions s @ ds" "keys_kept (business_ops s) (business_ops s')"
    and p: "\<And>p. p \<in> set (proposals s) \<Longrightarrow> pp_org p = ef_org e \<Longrightarrow> pp_id p = ef_proposal e \<Longrightarrow>
        effect_status (ef_state e) (pp_status p) \<Longrightarrow>
        \<exists>q\<in>set (proposals s'). proposal_move p q \<and> effect_status (ef_state e') (pp_status q)"
  shows "effect_ok e' s'"
proof -
  obtain p op where po: "p \<in> set (proposals s)" "pp_org p = ef_org e" "pp_id p = ef_proposal e"
      "endorsed p (decisions s)" "approved_by_other p (decisions s)"
      "effect_status (ef_state e) (pp_status p)"
      "op \<in> set (pp_operations p)" "effect_for e op" "effect_key e op (business_ops s)"
    using assms(1) unfolding effect_ok_def by blast
  obtain q where q: "q \<in> set (proposals s')" "proposal_move p q"
      "effect_status (ef_state e') (pp_status q)"
    using p[OF po(1-3,6)] by blast
  have m: "q = p\<lparr>pp_status := pp_status q, pp_failure := pp_failure q\<rparr>"
    using q(2) by (simp add: proposal_move_def)
  have same: "pp_org q = pp_org p" "pp_id q = pp_id p" "pp_operations q = pp_operations p"
      "pp_created_by q = pp_created_by p" "decided q k Q ds = decided p k Q ds" for k Q ds
    by (subst m, simp)+
  have "effect_key e' op (business_ops s')"
    using effect_key_kept[OF po(9) assms(7)] by (simp add: effect_key_def e')
  then show ?thesis unfolding effect_ok_def
    by (intro bexI[OF _ q(1)])
       (use po q(3) decided_mono in \<open>auto simp: same e' assms(6)\<close>)
qed

lemma effects_ok_update:
  assumes "effects_ok s"
    and e: "effects s' = update_where F g (effects s)"
      "\<And>e. ef_id (g e) = ef_id e" "\<And>e. ef_bop (g e) = ef_bop e" "\<And>e. ef_org (g e) = ef_org e"
      "\<And>e. ef_proposal (g e) = ef_proposal e" "\<And>e op. effect_for (g e) op = effect_for e op"
    and p: "proposals s' = update_where P f (proposals s)"
    and d: "decisions s' = decisions s @ ds" and b: "keys_kept (business_ops s) (business_ops s')"
    and move: "\<And>e p. e \<in> set (effects s) \<Longrightarrow> p \<in> set (proposals s) \<Longrightarrow> pp_org p = ef_org e \<Longrightarrow>
        pp_id p = ef_proposal e \<Longrightarrow> effect_status (ef_state e) (pp_status p) \<Longrightarrow>
        (P p \<longrightarrow> proposal_move p (f p)) \<and>
        effect_status (ef_state (if F e then g e else e)) (pp_status (if P p then f p else p))"
  shows "effects_ok s'"
  unfolding effects_ok_def
proof (intro conjI)
  show "distinct (map ef_id (effects s'))" "distinct (map ef_bop (effects s'))"
    using assms(1) by (simp_all add: effects_ok_def e map_key_update_where)
  have "effect_ok (if F x then g x else x) s'" if x: "x \<in> set (effects s)" for x
  proof (rule effect_ok_step[where e = x, OF _ _ _ _ _ d b])
    show "effect_ok x s" using assms(1) x by (simp add: effects_ok_def)
    fix q assume q: "q \<in> set (proposals s)" "pp_org q = ef_org x" "pp_id q = ef_proposal x"
      "effect_status (ef_state x) (pp_status q)"
    note m = move[OF x q]
    show "\<exists>r\<in>set (proposals s'). proposal_move q r \<and>
        effect_status (ef_state (if F x then g x else x)) (pp_status r)"
      unfolding p bex_update_where by (rule bexI[OF _ q(1)]) (use m in auto)
  qed (simp_all add: e)
  then show "\<forall>e\<in>set (effects s'). effect_ok e s'"
    unfolding e(1) ball_update_where by (metis (full_types))
qed

lemma list_all2_map_eq:
  "list_all2 R xs ys \<Longrightarrow> (\<And>x y. R x y \<Longrightarrow> k y = k x) \<Longrightarrow> map k ys = map k xs"
  by (induction rule: list_all2_induct) auto

lemma list_all2_mem: "list_all2 R xs ys \<Longrightarrow> y \<in> set ys \<Longrightarrow> \<exists>x\<in>set xs. R x y"
  by (induction rule: list_all2_induct) auto

section \<open>Operations that leave the effects alone\<close>

lemma effect_status_final:
  "effect_status x st \<Longrightarrow> st = PApproved \<Longrightarrow> effect_status x PRejected \<and> effect_status x PSuperseded"
  by (auto simp: effect_status_def)

lemma cancel_task_effects:
  assumes "cancel_task org i v now s = Inr (u, s')" "effects_ok s"
  shows "effects_ok s'"
proof (rule effects_ok_update[OF assms(2), where F = "\<lambda>_. False" and g = id and ds = "[]",
      OF _ _ _ _ _ _ cancel_task_tables(3)[OF assms(1)]])
  obtain A B C D where "s' = s\<lparr>tasks := A, proposals := B, gates := C, agent_runs := D\<rparr>"
    using cancel_task_frame[OF assms(1)] by blast
  then show "effects s' = update_where (\<lambda>_. False) id (effects s)" "decisions s' = decisions s @ []"
    "keys_kept (business_ops s) (business_ops s')"
    by (simp_all add: update_where_unmatched)
qed (auto simp: effect_status_def proposal_edge_def proposal_final_def)

lemma create_proposal_effects:
  assumes "create_proposal_tx H fo fb pid now org task actor summary origin run ops0 s = Inr (p, s')"
    "effects_ok s" "bops_wf s" "proposal_ids s" "pid \<noteq> []"
  shows "effects_ok s'"
proof -
  let ?s1 = "supersede org task s"
  have 1: "effects_ok ?s1"
    by (rule effects_ok_update[OF assms(2), where F = "\<lambda>_. False" and g = id and ds = "[]",
          OF _ _ _ _ _ _ supersede_proposals])
       (auto simp: supersede_def update_where_unmatched effect_status_def proposal_edge_def
          proposal_final_def)
  obtain A B where s': "s' = s\<lparr>proposals := A, business_ops := B\<rparr>"
    using create_proposal_tables(2)[OF assms(1)] by blast
  have "effect_ok e s'" if e: "e \<in> set (effects s)" for e
  proof -
    have "effect_ok e ?s1" using 1 e by (simp add: effects_ok_def supersede_def)
    then obtain q op b where q: "q \<in> set (proposals ?s1)" "pp_org q = ef_org e" "pp_id q = ef_proposal e"
        "endorsed q (decisions s)" "approved_by_other q (decisions s)"
        "effect_status (ef_state e) (pp_status q)" "op \<in> set (pp_operations q)" "effect_for e op"
      and b: "b \<in> set (business_ops s)" "ef_bop e = Some (bo_id b)" "bop_key b = key_of (ef_org e) op"
        "bo_proposal b = Some (ef_proposal e)" "bo_status b \<in> {BDispatching, BVerified}"
      unfolding effect_ok_def effect_key_def supersede_def by auto
    have "b \<in> set (business_ops s')"
      by (rule create_proposal_kept[OF assms(1,3-5) q(1) b(1)]) (use q(3) b(4,5) in auto)
    then have "effect_key e op (business_ops s')" using b unfolding effect_key_def by blast
    moreover have "q \<in> set (proposals s')"
      using q(1) by (simp add: create_proposal_tables(1)[OF assms(1)])
    ultimately show ?thesis using q unfolding effect_ok_def by (auto simp: s')
  qed
  then show ?thesis using assms(2) by (simp add: effects_ok_def s')
qed

lemma mark_attention_effects:
  assumes "mark_attention org pid s = Inr (u, s')" "effects_ok s" "proposal_ids s"
  shows "effects_ok s'"
  using assms(1)
proof (cases rule: mark_attention_cases)
  case (marked p)
  let ?P = "\<lambda>p. pp_org p = org \<and> pp_id p = pid \<and> (pp_status p = PApproved \<or> pp_status p = PExecuting)"
  let ?f = "\<lambda>p. p\<lparr>pp_status := PNeedsAttention, pp_failure := ''invalid_or_stale_operation''\<rparr>"
  let ?F = "\<lambda>e. ef_org e = org \<and> ef_proposal e = pid \<and> ef_state e = EAuthorized"
  let ?g = "\<lambda>e. e\<lparr>ef_state := ENeedsAttention\<rparr>"
  show ?thesis
  proof (rule effects_ok_update[OF assms(2), where F = ?F and g = ?g and P = ?P and f = ?f and ds = "[]"])
    fix e q
    assume h: "e \<in> set (effects s)" "q \<in> set (proposals s)" "pp_org q = ef_org e" "pp_id q = ef_proposal e"
      "effect_status (ef_state e) (pp_status q)"
    have "pp_status q = PApproved \<or> pp_status q = PExecuting" if "pp_id q = pid"
      using that h(2) marked(1,3,4) assms(3) unique_key_row[of pp_id "proposals s" q p]
      by (auto simp: proposal_ids_def)
    then show "(?P q \<longrightarrow> proposal_move q (?f q)) \<and>
      effect_status (ef_state (if ?F e then ?g e else e)) (pp_status (if ?P q then ?f q else q))"
      using h(3-) by (auto simp: effect_status_def proposal_edge_def proposal_final_def)
  qed (simp_all add: marked(5) effect_for_def)
qed (use assms(2) in simp)

lemma apply_proposal_effects:
  assumes "apply_proposal H reg fresh org pid s = Inr (u, s')" "effects_ok s" "proposal_ids s"
  shows "effects_ok s'"
  using assms(1)
proof (cases rule: apply_proposal_cases)
  case (blocked p)
  show ?thesis using assms(2) by (simp add: effects_ok_def effect_ok_def blocked(4))
next
  case (refused p)
  have eq: "q = p" if "q \<in> set (proposals s)" "pp_id q = pid" for q
    by (rule proposal_unique[OF assms(3) refused(1) that])
  have st: "pp_status q = PApproved \<or> pp_status q = PExecuting"
    if "q \<in> set (proposals s)" "pp_id q = pid" for q
    using eq[OF that] refused(2) by simp
  show ?thesis unfolding refused(5)
    by (rule effects_ok_update[OF assms(2), where F = "\<lambda>_. False" and g = id and ds = "[]"])
       (simp add: update_where_unmatched, simp, simp, simp, simp, simp, simp, simp, simp,
        auto dest: st simp: effect_status_def proposal_edge_def proposal_final_def)
next
  case (applied p s1 s2)
  let ?A = "authorized_effects org pid s1"
  have eq: "q = p" if "q \<in> set (proposals s)" "pp_id q = pid" for q
    by (rule proposal_unique[OF assms(3) applied(1) that])
  have p: "pp_org p = org" "pp_id p = pid" using row_SomeD[OF applied(1)] by auto
  obtain recs effs rs where s2: "s2 = s1\<lparr>sim_records := recs, effects := effs, receipts := receipts s1 @ rs\<rparr>"
      and all2: "list_all2 (\<lambda>x y. if ef_id x \<in> ef_id ` set ?A then verified_from x y else y = x)
        (effects s1) effs"
    using applied_tables[OF applied(5)] by blast
  have e1: "effects s1 = effects s" by (simp add: applied(4))
  have s': "effects s' = effs" "decisions s' = decisions s"
      "proposals s' = update_where (\<lambda>q. pp_id q = pid) (\<lambda>q. q\<lparr>pp_status := PDone\<rparr>) (proposals s)"
    using applied_proposals[OF assms(3) applied(1,4,5)]
    by (simp_all add: applied(6) complete_tables s2)
  have kept: "keys_kept (business_ops s) (business_ops s')"
    unfolding applied(6) complete_tables(5)
    by (simp add: s2 applied(4) keys_kept_update)
  have same: "ef_id y = ef_id x \<and> ef_bop y = ef_bop x \<and> ef_org y = ef_org x \<and>
      ef_proposal y = ef_proposal x \<and> (\<forall>op. effect_for y op = effect_for x op)"
    if "if ef_id x \<in> ef_id ` set ?A then verified_from x y else y = x" for x y
    using that by (auto simp: verified_from_def effect_for_def split: if_splits)
  have maps: "map ef_id effs = map ef_id (effects s)" "map ef_bop effs = map ef_bop (effects s)"
    by (rule list_all2_map_eq[OF all2[unfolded e1]], use same in blast)+
  have "effect_ok y s'" if y: "y \<in> set effs" for y
  proof -
    obtain x where x: "x \<in> set (effects s)"
        "if ef_id x \<in> ef_id ` set ?A then verified_from x y else y = x"
      using list_all2_mem[OF all2[unfolded e1] y] by blast
    show ?thesis
    proof (rule effect_ok_step[where e = x and ds = "[]", OF _ _ _ _ _ _ kept])
      show "effect_ok x s" using assms(2) x(1) by (simp add: effects_ok_def)
      fix q assume q: "q \<in> set (proposals s)" "pp_org q = ef_org x" "pp_id q = ef_proposal x"
        "effect_status (ef_state x) (pp_status q)"
      show "\<exists>r\<in>set (proposals s'). proposal_move q r \<and> effect_status (ef_state y) (pp_status r)"
        unfolding s'(3) bex_update_where
      proof (rule bexI[OF _ q(1)])
        show "if pp_id q = pid
          then proposal_move q (q\<lparr>pp_status := PDone\<rparr>) \<and> effect_status (ef_state y) (pp_status (q\<lparr>pp_status := PDone\<rparr>))
          else proposal_move q q \<and> effect_status (ef_state y) (pp_status q)"
        proof (cases "pp_id q = pid")
          case True
          then have "q = p" by (rule eq[OF q(1)])
          then have "x \<in> set ?A" "proposal_move q (q\<lparr>pp_status := PDone\<rparr>)"
            using q p applied(2) x(1) e1
            by (auto simp: authorized_effects_def effect_status_def proposal_edge_def proposal_final_def)
          then show ?thesis using x(2) True by (auto simp: verified_from_def effect_status_def)
        next
          case False
          have "ef_id x \<notin> ef_id ` set ?A"
          proof
            assume "ef_id x \<in> ef_id ` set ?A"
            then obtain z where z: "z \<in> set ?A" "ef_id z = ef_id x" by force
            then have "z = x"
              using x(1) assms(2) unique_key_row[of ef_id "effects s" z x] e1
              by (auto simp: authorized_effects_def effects_ok_def)
            then show False using z(1) q(3) False by (auto simp: authorized_effects_def)
          qed
          then show ?thesis using x(2) q(4) False by simp
        qed
      qed
    qed (use same[OF x(2)] s'(2) in auto)
  qed
  then show ?thesis using assms(2) maps by (simp add: effects_ok_def s'(1))
qed (use assms(2) in simp)

section \<open>Decisions\<close>

lemma insert_effects_distinct:
  assumes "distinct (map ef_id (effects s))" "distinct (map ef_bop (effects s))"
    "distinct (map (\<lambda>op. map_option bo_id (find_bop org op s)) ops)"
    "\<And>op. op \<in> set ops \<Longrightarrow> map_option bo_id (find_bop org op s) \<notin> ef_bop ` set (effects s)"
  shows "distinct (map ef_id (effects (insert_effects fresh k org pid ops s))) \<and>
         distinct (map ef_bop (effects (insert_effects fresh k org pid ops s)))"
  using assms
proof (induction ops arbitrary: k s)
  case (Cons op ops)
  let ?e = "effect_of (fresh k) org pid op s"
  let ?s1 = "if effect_conflict ?e (effects s) then s else s\<lparr>effects := effects s @ [?e]\<rparr>"
  have bo: "business_ops ?s1 = business_ops s" by simp
  have e: "ef_bop ?e = map_option bo_id (find_bop org op s)" by (simp add: effect_of_def)
  have "distinct (map ef_id (effects (insert_effects fresh (Suc k) org pid ops ?s1))) \<and>
         distinct (map ef_bop (effects (insert_effects fresh (Suc k) org pid ops ?s1)))"
  proof (rule Cons.IH)
    show "distinct (map ef_id (effects ?s1))"
      using Cons.prems(1) by (auto simp: effect_conflict_def exists_row_def)
    show "distinct (map ef_bop (effects ?s1))"
      using Cons.prems(2) Cons.prems(4)[of op] by (auto simp: e)
    show "distinct (map (\<lambda>op. map_option bo_id (find_bop org op ?s1)) ops)"
      unfolding bo using Cons.prems(3) by simp
    fix op' assume "op' \<in> set ops"
    then show "map_option bo_id (find_bop org op' ?s1) \<notin> ef_bop ` set (effects ?s1)"
      unfolding bo using Cons.prems(3) Cons.prems(4)[of op'] by (auto simp: e image_iff)
  qed
  then show ?case by (simp add: Let_def)
qed simp

text \<open>The business operations an approval joins: one per operation, held by the proposal.\<close>

lemma approved_bops:
  assumes "keys_held s" "p \<in> set (proposals s)" "key_status (pp_status p) = Some st"
    "op \<in> set (pp_operations p)"
  obtains b where "find_bop (pp_org p) op s = Some b" "b \<in> set (business_ops s)"
    "bop_key b = key_of (pp_org p) op" "bo_proposal b = Some (pp_id p)" "bo_status b = st"
proof -
  obtain b where b: "b \<in> set (business_ops s)" "bop_key b = key_of (pp_org p) op"
      "bo_proposal b = Some (pp_id p)" "bo_status b = st"
    using keys_heldD[OF assms(1,2)] assms(3,4) unfolding holds_keys_def by blast
  have "find_bop (pp_org p) op s = Some b"
    by (rule row_unique[where k = bop_key])
       (use assms(1) b in \<open>auto simp: keys_held_def bops_wf_def bop_key_def key_of_def\<close>)
  with b show thesis by (intro that)
qed

lemma decide_effects:
  assumes "decide fresh i org pid actor kind revision dg reason s = Inr (u, s')"
    "effects_ok s" "keys_held s" "proposal_ids s" "separation s"
  shows "effects_ok s'"
  using assms(1)
proof (cases rule: decide_elim)
  case (endorsed a p)
  show ?thesis unfolding endorsed(9)
    by (rule effects_ok_update[OF assms(2), where F = "\<lambda>_. False" and g = id])
       (simp add: update_where_unmatched, simp, simp, simp, simp, simp, simp, simp, simp,
        auto simp: effect_status_def proposal_edge_def proposal_final_def)
next
  case (rejected a p)
  show ?thesis unfolding rejected(9)
    by (rule effects_ok_update[OF assms(2), where F = "\<lambda>_. False" and g = id])
       (simp add: update_where_unmatched, simp, simp, simp, simp, simp, simp, simp,
        simp, rule keys_kept_update, force,
        auto simp: effect_status_def proposal_edge_def proposal_final_def)
next
  case (approved a p es)
  let ?d = "decision_row i org pid actor Approve revision dg reason"
  let ?sd = "s\<lparr>decisions := decisions s @ [?d]\<rparr>"
  have p: "p \<in> set (proposals s)" "pp_org p = org" "pp_id p = pid"
    using row_SomeD[OF approved(3)] by auto
  have eq: "q = p" if "q \<in> set (proposals s)" "pp_id q = pid" for q
    by (rule proposal_unique[OF assms(4) approved(3) that])
  have old: "effects_ok (s'\<lparr>effects := effects s\<rparr>)" unfolding approved(13)
    by (rule effects_ok_update[OF assms(2), where F = "\<lambda>_. False" and g = id])
       (simp add: update_where_unmatched, simp, simp, simp, simp, simp, simp, simp,
        simp add: keys_kept_update,
        auto simp: effect_status_def proposal_edge_def proposal_final_def)
  have bop: "\<exists>b. find_bop org op s = Some b \<and> b \<in> set (business_ops s) \<and>
      bop_key b = key_of org op \<and> bo_proposal b = Some pid \<and> bo_status b = BReserved"
    if "op \<in> set (pp_operations p)" for op
    using approved_bops[OF assms(3) p(1) _ that, of BReserved] p approved(9) by auto
  have wf: "distinct (map bo_id (business_ops s))" using assms(3) by (simp add: keys_held_def bops_wf_def)
  have new: "effect_ok e s'" if "e \<in> set es" for e
  proof -
    obtain op j where op: "op \<in> set (pp_operations p)" "e = effect_of j org pid op s"
      using approved(12) \<open>e \<in> set es\<close> by blast
    obtain b where b: "find_bop org op s = Some b" "b \<in> set (business_ops s)"
        "bop_key b = key_of org op" "bo_proposal b = Some pid" "bo_status b = BReserved"
      using bop[OF op(1)] by blast
    have "effect_key e op (business_ops s')"
      unfolding effect_key_def approved(13)
      by (simp add: bex_update_where) (rule bexI[OF _ b(2)], use b op in
          \<open>auto simp: effect_of_def bop_key_def key_of_def\<close>)
    moreover have "endorsed p (decisions s @ [?d])"
      using assms(5) p(1) approved(9) by (auto simp: separation_def sod_at_def intro: decided_mono)
    moreover have "approved_by_other p (decisions s @ [?d])"
      using p approved(4,5,7) by (auto simp: decided_def decision_row_def)
    moreover have "effect_for e op" by (simp add: op effect_for_def effect_of_def)
    ultimately show ?thesis
      unfolding effect_ok_def
      by (intro bexI[of _ "p\<lparr>pp_status := PApproved\<rparr>"])
         (use p op approved(9) in \<open>auto simp: approved(13) set_update_where effect_of_def effect_status_def\<close>)
  qed
  have "distinct (map ef_id (effects (insert_effects fresh 0 org pid (pp_operations p) ?sd))) \<and>
        distinct (map ef_bop (effects (insert_effects fresh 0 org pid (pp_operations p) ?sd)))"
  proof (rule insert_effects_distinct)
    show "distinct (map (\<lambda>op. map_option bo_id (find_bop org op ?sd)) (pp_operations p))"
      unfolding distinct_map
    proof
      have k: "distinct (map (key_of org) (pp_operations p))"
        using keys_heldD[OF assms(3) p(1)] p(2) by (simp add: holds_keys_def)
      then show "distinct (pp_operations p)" by (simp add: distinct_map)
      show "inj_on (\<lambda>op. map_option bo_id (find_bop org op ?sd)) (set (pp_operations p))"
      proof (rule inj_onI)
        fix x y assume xy: "x \<in> set (pp_operations p)" "y \<in> set (pp_operations p)"
          "map_option bo_id (find_bop org x ?sd) = map_option bo_id (find_bop org y ?sd)"
        then obtain b c where "b \<in> set (business_ops s)" "c \<in> set (business_ops s)" "bo_id b = bo_id c"
            "bop_key b = key_of org x" "bop_key c = key_of org y"
          using bop[OF xy(1)] bop[OF xy(2)] by auto
        then have "key_of org x = key_of org y" using wf unique_key_row by metis
        then show "x = y" using k xy(1,2) unique_key_row by metis
      qed
    qed
    fix op assume "op \<in> set (pp_operations p)"
    then obtain b where b: "find_bop org op s = Some b" "b \<in> set (business_ops s)" "bo_status b = BReserved"
      using bop by blast
    have "ef_bop e \<noteq> Some (bo_id b)" if e: "e \<in> set (effects s)" for e
    proof
      assume "ef_bop e = Some (bo_id b)"
      then obtain c where "c \<in> set (business_ops s)" "bo_id c = bo_id b"
          "bo_status c \<in> {BDispatching, BVerified}"
        using assms(2) e unfolding effects_ok_def effect_ok_def effect_key_def by fastforce
      then show False using b(2,3) wf unique_key_row[of bo_id "business_ops s" c b] by auto
    qed
    then show "map_option bo_id (find_bop org op ?sd) \<notin> ef_bop ` set (effects ?sd)"
      using b(1) by force
  qed (use assms(2) in \<open>simp_all add: effects_ok_def\<close>)
  then have "distinct (map ef_id (effects s @ es)) \<and> distinct (map ef_bop (effects s @ es))"
    unfolding approved(11) .
  moreover have "effects s' = effects s @ es" by (simp add: approved(13))
  moreover have "effect_ok e s'" if "e \<in> set (effects s)" for e
    using old that by (auto simp: effects_ok_def effect_ok_def)
  ultimately show ?thesis using new by (auto simp: effects_ok_def)
qed (use assms(2) in simp)

section \<open>Receipts\<close>

definition verified_ids :: "effect list \<Rightarrow> id set" where
  "verified_ids es = ef_id ` {e \<in> set es. ef_state e = EVerified}"

text \<open>The receipts are the verified effects, one each.\<close>

definition receipts_ok :: "db \<Rightarrow> bool" where
  "receipts_ok s \<longleftrightarrow>
     distinct (map rc_id (receipts s)) \<and> distinct (map rc_effect (receipts s)) \<and>
     rc_effect ` set (receipts s) = verified_ids (effects s)"

lemma verified_ids_update:
  assumes "\<And>e. P e \<Longrightarrow> ef_state e \<noteq> EVerified"
  shows "verified_ids (update_where P (\<lambda>e. e\<lparr>ef_state := ENeedsAttention\<rparr>) es) = verified_ids es"
  using assms by (induction es) (auto simp: verified_ids_def)

lemma decide_receipts:
  assumes "decide fresh i org pid actor kind revision dg reason s = Inr (u, s')" "receipts_ok s"
  shows "receipts_ok s'"
  using assms(1)
proof (cases rule: decide_elim)
  case (approved a p es)
  have "\<forall>e\<in>set es. ef_state e \<noteq> EVerified" using approved(12) by (auto simp: effect_of_def)
  then have "verified_ids (effects s @ es) = verified_ids (effects s)"
    by (auto simp: verified_ids_def)
  then show ?thesis using assms(2) by (simp add: receipts_ok_def approved(13))
qed (use assms(2) in \<open>simp_all add: receipts_ok_def\<close>)

lemma mark_attention_receipts:
  assumes "mark_attention org pid s = Inr (u, s')" "receipts_ok s"
  shows "receipts_ok s'"
  using assms(1)
proof (cases rule: mark_attention_cases)
  case (marked p)
  let ?P = "\<lambda>e. ef_org e = org \<and> ef_proposal e = pid \<and> ef_state e = EAuthorized"
  have "verified_ids (update_where ?P (\<lambda>e. e\<lparr>ef_state := ENeedsAttention\<rparr>) (effects s)) =
      verified_ids (effects s)"
    by (rule verified_ids_update) simp
  then show ?thesis using assms(2) by (simp add: receipts_ok_def marked(5))
qed (use assms(2) in simp)

lemma apply_proposal_receipts:
  assumes "apply_proposal H reg fresh org pid s = Inr (u, s')" "receipts_ok s" "effects_ok s"
  shows "receipts_ok s'"
  using assms(1)
proof (cases rule: apply_proposal_cases)
  case (applied p s1 s2)
  let ?A = "authorized_effects org pid s1"
  obtain recs effs rs where s2: "s2 = s1\<lparr>sim_records := recs, effects := effs, receipts := receipts s1 @ rs\<rparr>"
      and all2: "list_all2 (\<lambda>x y. if ef_id x \<in> ef_id ` set ?A then verified_from x y else y = x)
        (effects s1) effs"
      and rs: "map rc_effect rs = map ef_id ?A" "distinct (map rc_id rs)"
        "rc_id ` set rs \<inter> rc_id ` set (receipts s1) = {}"
    using applied_tables[OF applied(5)] by blast
  have e1: "effects s1 = effects s" "receipts s1 = receipts s" by (simp_all add: applied(4))
  have s': "effects s' = effs" "receipts s' = receipts s @ rs"
    by (simp_all add: applied(6) complete_tables s2 e1)
  have A: "set ?A \<subseteq> set (effects s)" "\<forall>e\<in>set ?A. ef_state e = EAuthorized"
    by (auto simp: authorized_effects_def e1)
  have ids: "distinct (map ef_id (effects s))" using assms(3) by (simp add: effects_ok_def)
  have dA: "distinct (map ef_id ?A)"
    using ids unfolding authorized_effects_def e1 by (rule distinct_map_filter)
  have rsA: "rc_effect ` set rs = ef_id ` set ?A"
    using arg_cong[OF rs(1), of set] by simp
  have "ef_id ` set ?A \<inter> verified_ids (effects s) = {}"
  proof (rule ccontr)
    assume "ef_id ` set ?A \<inter> verified_ids (effects s) \<noteq> {}"
    then obtain x y where "x \<in> set ?A" "y \<in> set (effects s)" "ef_state y = EVerified" "ef_id x = ef_id y"
      by (auto simp: verified_ids_def)
    then show False using A ids unique_key_row[of ef_id "effects s" x y] by auto
  qed
  moreover have "verified_ids effs = verified_ids (effects s) \<union> ef_id ` set ?A"
  proof (intro equalityI subsetI)
    fix i assume "i \<in> verified_ids effs"
    then obtain y where y: "y \<in> set effs" "ef_state y = EVerified" "i = ef_id y"
      by (auto simp: verified_ids_def)
    obtain x where "x \<in> set (effects s)"
        "if ef_id x \<in> ef_id ` set ?A then verified_from x y else y = x"
      using list_all2_mem[OF all2 y(1)] by (auto simp: e1)
    then show "i \<in> verified_ids (effects s) \<union> ef_id ` set ?A"
      using y(2,3) by (auto simp: verified_ids_def verified_from_def split: if_split_asm)
  next
    fix i assume i: "i \<in> verified_ids (effects s) \<union> ef_id ` set ?A"
    then obtain x where x: "x \<in> set (effects s)" "ef_id x = i"
        "ef_state x = EVerified \<or> ef_id x \<in> ef_id ` set ?A"
      using A(1) by (auto simp: verified_ids_def)
    then obtain n where n: "n < length (effects s)" "effects s ! n = x" by (auto simp: in_set_conv_nth)
    have "if ef_id x \<in> ef_id ` set ?A then verified_from x (effs ! n) else effs ! n = x"
      using list_all2_nthD[OF all2[unfolded e1(1)] n(1)] unfolding n(2) e1(1) .
    moreover have "effs ! n \<in> set effs" using list_all2_lengthD[OF all2] n(1) by (simp add: e1)
    moreover from calculation(1) x(2,3) have "ef_id (effs ! n) = i \<and> ef_state (effs ! n) = EVerified"
      by (auto simp: verified_from_def split: if_split_asm)
    ultimately show "i \<in> verified_ids effs" by (auto simp: verified_ids_def)
  qed
  ultimately show ?thesis
    using assms(2) rs(2,3) dA rsA unfolding receipts_ok_def s'
    by (auto simp: rs(1) e1)
qed (use assms(2) in \<open>simp_all add: receipts_ok_def\<close>)

end
