(* ===== verification/Wakeup.thy ===== *)
theory Wakeup
  imports Authorization
begin

text \<open>
  No lost wake-up: an approved proposal whose task is live and whose parents are all done has a
  job in the queue. A job ends when the executor found an unfinished parent; the parent's own
  completion then enqueues the child again (\<^verbatim>\<open>enqueueEligibleChildren\<close>).
\<close>

definition tasks_ok :: "db \<Rightarrow> bool" where
  "tasks_ok s \<longleftrightarrow>
     distinct (map tk_id (tasks s)) \<and>
     (\<forall>p\<in>set (proposals s). \<exists>t\<in>set (tasks s). tk_org t = pp_org p \<and> tk_id t = pp_task p)"

definition live_task :: "id \<Rightarrow> id \<Rightarrow> db \<Rightarrow> bool" where
  "live_task org i s \<longleftrightarrow>
     (\<exists>t\<in>set (tasks s). tk_org t = org \<and> tk_id t = i \<and> \<not> terminal_task (tk_status t))"

text \<open>A proposal the executor could apply now as far as its task and its parents go.\<close>

definition ready :: "proposal \<Rightarrow> db \<Rightarrow> bool" where
  "ready p s \<longleftrightarrow>
     pp_status p = PApproved \<and> live_task (pp_org p) (pp_task p) s \<and>
     \<not> undone_parent (pp_org p) (pp_task p) s"

definition wakeup :: "db \<Rightarrow> bool" where
  "wakeup s \<longleftrightarrow>
     (\<forall>p\<in>set (proposals s). ready p s \<longrightarrow> (pp_org p, pp_id p) \<in> set (proposal_jobs s))"

section \<open>Task identifiers and the tasks of proposals\<close>

lemma tasks_ok_update:
  assumes "tasks_ok s" "tasks s' = update_where P f (tasks s)"
    "\<And>t. tk_id (f t) = tk_id t \<and> tk_org (f t) = tk_org t"
    "proposals s' = update_where Q g (proposals s)"
    "\<And>p. pp_org (g p) = pp_org p \<and> pp_task (g p) = pp_task p"
  shows "tasks_ok s'"
  using assms(1) unfolding tasks_ok_def assms(2,4) ball_update_where bex_update_where
  by (auto simp: map_key_update_where assms(3,5))

lemma tasks_ok_same:
  assumes "tasks_ok s" "tasks s' = tasks s" "proposals s' = update_where Q g (proposals s)"
    "\<And>p. pp_org (g p) = pp_org p \<and> pp_task (g p) = pp_task p"
  shows "tasks_ok s'"
  by (rule tasks_ok_update[OF assms(1) _ _ assms(3,4), where P = "\<lambda>_. False" and f = id])
     (use assms(2) in \<open>auto simp: update_where_unmatched\<close>)

lemma create_task_tasks:
  assumes "create_task org i ti d ow a pj now s = Inr (t, s')" "tasks_ok s"
  shows "tasks_ok s'"
  using assms by (auto simp: create_task_def Let_def tasks_ok_def exists_row_def split: if_split_asm)

lemma create_proposal_tasks:
  assumes "create_proposal_tx H fo fb pid now org task actor summary origin run ops0 s = Inr (p, s')"
    "tasks_ok s"
  shows "tasks_ok s'"
proof -
  have t: "tasks s' = tasks s" by (subst create_proposal_tables(2)[OF assms(1)]) simp
  obtain k where k: "find_task org task s = Some k" by (rule create_proposal_tx_ok[OF assms(1)])
  have p: "pp_org p = org" "pp_task p = task" by (rule create_proposal_tx_ok[OF assms(1)], simp)+
  have "tasks_ok (supersede org task s)"
    by (rule tasks_ok_same[OF assms(2) _ supersede_proposals]) (auto simp: supersede_def)
  then show ?thesis
    using row_SomeD[OF k] p unfolding tasks_ok_def create_proposal_tables(1)[OF assms(1)] t
    by (auto simp: supersede_def)
qed

lemma cancel_task_tasks:
  "cancel_task org i v now s = Inr (u, s') \<Longrightarrow> tasks_ok s \<Longrightarrow> tasks_ok s'"
  by (rule tasks_ok_update[OF _ cancel_task_tables(2) _ cancel_task_tables(3)]) auto

lemma decide_tasks:
  assumes "decide fresh i org pid actor kind revision dg reason s = Inr (u, s')" "tasks_ok s"
  shows "tasks_ok s'"
  using assms(1)
  by (cases rule: decide_elim) (auto simp: assms(2) intro: tasks_ok_same[OF assms(2)])

lemma mark_attention_tasks:
  assumes "mark_attention org pid s = Inr (u, s')" "tasks_ok s"
  shows "tasks_ok s'"
  using assms(1)
proof (cases rule: mark_attention_cases)
  case (marked p)
  show ?thesis unfolding marked(5)
    by (rule tasks_ok_update[OF assms(2)]) (simp, simp, simp, simp)
qed (use assms(2) in simp)

lemma applied_task_tables:
  assumes "apply_effects H reg fresh 0 org (authorized_effects org pid s1) s1 = Inr ((), s2)"
    "s1 = s\<lparr>proposals := X\<rparr>"
  shows "tasks s2 = tasks s" "task_deps s2 = task_deps s" "proposal_jobs s2 = proposal_jobs s"
    "proposals s2 = X"
  using applied_tables[OF assms(1)] by (auto simp: assms(2))

lemma apply_proposal_tasks:
  assumes "apply_proposal H reg fresh org pid s = Inr (u, s')" "tasks_ok s" "proposal_ids s"
  shows "tasks_ok s'"
  using assms(1)
proof (cases rule: apply_proposal_cases)
  case (blocked p)
  show ?thesis unfolding blocked(4)
    by (rule tasks_ok_update[OF assms(2), where Q = "\<lambda>_. False" and g = id])
       (simp, simp, simp add: update_where_unmatched, simp)
next
  case (refused p)
  show ?thesis unfolding refused(5) by (rule tasks_ok_same[OF assms(2)]) (simp, simp, simp)
next
  case (applied p s1 s2)
  show ?thesis unfolding applied(6)
    by (rule tasks_ok_update[OF assms(2) _ _ applied_proposals(1)[OF assms(3) applied(1,4,5)]])
       (simp add: complete_tables applied_task_tables(1)[OF applied(5,4)], simp, simp)
qed (use assms(2) in simp)

section \<open>No lost wake-up\<close>

text \<open>
  Updates that finish no task and approve no proposal can only make fewer proposals ready.
\<close>

lemma wakeup_update:
  assumes "wakeup s"
    and t: "tasks s' = update_where P f (tasks s)"
      "\<And>t. tk_id (f t) = tk_id t" "\<And>t. tk_org (f t) = tk_org t"
      "\<And>t. t \<in> set (tasks s) \<Longrightarrow> P t \<Longrightarrow>
         (tk_status (f t) = TDone \<longrightarrow> tk_status t = TDone) \<and>
         (terminal_task (tk_status t) \<longrightarrow> terminal_task (tk_status (f t)))"
    and d: "set (task_deps s) \<subseteq> set (task_deps s')"
    and p: "proposals s' = update_where Q g (proposals s)"
      "\<And>p. p \<in> set (proposals s) \<Longrightarrow> Q p \<Longrightarrow> pp_status (g p) \<noteq> PApproved"
    and j: "set (proposal_jobs s) \<subseteq> set (proposal_jobs s')"
  shows "wakeup s'"
  unfolding wakeup_def p(1) ball_update_where
proof
  fix p assume p1: "p \<in> set (proposals s)"
  have live: "live_task org i s" if l: "live_task org i s'" for org i
  proof -
    obtain tt where tt: "tt \<in> set (tasks s)"
        "if P tt then tk_org (f tt) = org \<and> tk_id (f tt) = i \<and> \<not> terminal_task (tk_status (f tt))
         else tk_org tt = org \<and> tk_id tt = i \<and> \<not> terminal_task (tk_status tt)"
      using l unfolding live_task_def t(1) bex_update_where by blast
    then show ?thesis unfolding live_task_def
      by (intro bexI[OF _ tt(1)]) (use t(2-4)[of tt] in \<open>auto split: if_splits\<close>)
  qed
  have undone: "undone_parent org i s'" if u: "undone_parent org i s" for org i
  proof -
    obtain dd tt where "dd \<in> set (task_deps s)" "td_org dd = org" "td_task dd = i"
        "tt \<in> set (tasks s)" "tk_org tt = org" "tk_id tt = td_parent dd" "tk_status tt \<noteq> TDone"
      using u by (auto simp: undone_parent_iff)
    then show ?thesis
      unfolding undone_parent_iff t(1) bex_update_where
      using d t(2-4)[of tt] by (intro bexI[of _ dd] conjI bexI[of _ tt]) auto
  qed
  show "if Q p then ready (g p) s' \<longrightarrow> (pp_org (g p), pp_id (g p)) \<in> set (proposal_jobs s')
        else ready p s' \<longrightarrow> (pp_org p, pp_id p) \<in> set (proposal_jobs s')"
    using p(2)[OF p1] live undone j assms(1) p1 by (auto simp: ready_def wakeup_def)
qed

lemma wakeup_same:
  assumes "wakeup s" "tasks s' = tasks s" "task_deps s' = task_deps s" "proposals s' = update_where Q g (proposals s)"
    "\<And>p. p \<in> set (proposals s) \<Longrightarrow> Q p \<Longrightarrow> pp_status (g p) \<noteq> PApproved"
    "proposal_jobs s' = proposal_jobs s"
  shows "wakeup s'"
  by (rule wakeup_update[OF assms(1) _ _ _ _ _ assms(4,5), where P = "\<lambda>_. False" and f = id])
     (use assms(2,3,6) in \<open>auto simp: update_where_unmatched\<close>)

lemma create_task_wakeup:
  assumes "create_task org i ti d ow a pj now s = Inr (t, s')" "wakeup s" "tasks_ok s"
  shows "wakeup s'"
proof -
  have i: "i \<notin> tk_id ` set (tasks s)" and t: "tk_id t = i"
    and s': "s' = s\<lparr>tasks := tasks s @ [t]\<rparr>"
    using assms(1) by (auto simp: create_task_def Let_def exists_row_def split: if_split_asm)
  have "ready p s" if p: "p \<in> set (proposals s)" "ready p s'" for p
  proof -
    obtain k where "k \<in> set (tasks s)" "tk_org k = pp_org p" "tk_id k = pp_task p"
      using assms(3) p(1) by (auto simp: tasks_ok_def)
    then have "pp_task p \<noteq> i" using i by (metis imageI)
    then show ?thesis using p(2) t by (auto simp: ready_def live_task_def undone_parent_iff s')
  qed
  then show ?thesis using assms(2) by (auto simp: wakeup_def s')
qed

lemma add_dependency_wakeup:
  assumes "add_dependency org t p s = Inr (u, s')" "wakeup s"
  shows "wakeup s'"
proof (rule wakeup_update[OF assms(2), where P = "\<lambda>_. False" and f = id and Q = "\<lambda>_. False" and g = id])
  have "set (task_deps s) \<subseteq> set (task_deps s')"
    using assms(1) by (auto simp: add_dependency_def split: if_split_asm)
  moreover obtain X where "s' = s\<lparr>task_deps := X\<rparr>"
    using add_dependency_frame[OF assms(1)] by blast
  ultimately show "tasks s' = update_where (\<lambda>_. False) id (tasks s)" "set (task_deps s) \<subseteq> set (task_deps s')"
    "proposals s' = update_where (\<lambda>_. False) id (proposals s)"
    "set (proposal_jobs s) \<subseteq> set (proposal_jobs s')"
    by (simp_all add: update_where_unmatched)
qed auto

lemma cancel_task_wakeup:
  assumes "cancel_task org i v now s = Inr (u, s')" "wakeup s"
  shows "wakeup s'"
proof (rule wakeup_update[OF assms(2) cancel_task_tables(2)[OF assms(1)] _ _ _ _ cancel_task_tables(3)[OF assms(1)]])
  obtain A B C D where "s' = s\<lparr>tasks := A, proposals := B, gates := C, agent_runs := D\<rparr>"
    using cancel_task_frame[OF assms(1)] by blast
  then show "set (task_deps s) \<subseteq> set (task_deps s')" "set (proposal_jobs s) \<subseteq> set (proposal_jobs s')"
    by simp_all
qed auto

lemma create_proposal_wakeup:
  assumes "create_proposal_tx H fo fb pid now org task actor summary origin run ops0 s = Inr (p, s')"
    "wakeup s"
  shows "wakeup s'"
proof -
  have 1: "wakeup (supersede org task s)"
    by (rule wakeup_same[OF assms(2) _ _ supersede_proposals]) (auto simp: supersede_def)
  have st: "pp_status p = PPendingEndorsement" by (rule create_proposal_tx_ok[OF assms(1)]) simp
  obtain B where s': "s' = s\<lparr>proposals := proposals (supersede org task s) @ [p], business_ops := B\<rparr>"
    using create_proposal_tables[OF assms(1)] by metis
  have same: "ready q s' = ready q (supersede org task s)" for q
    by (simp add: ready_def live_task_def undone_parent_iff s' supersede_def)
  show ?thesis
    using 1 st same by (auto simp: wakeup_def s') (auto simp: ready_def supersede_def)
qed

lemma decide_wakeup:
  assumes "decide fresh i org pid actor kind revision dg reason s = Inr (u, s')" "wakeup s"
  shows "wakeup s'"
  using assms(1)
proof (cases rule: decide_elim)
  case (endorsed a p)
  show ?thesis unfolding endorsed(9) by (rule wakeup_same[OF assms(2)]) (simp, simp, simp, simp, simp)
next
  case (rejected a p)
  show ?thesis unfolding rejected(9) by (rule wakeup_same[OF assms(2)]) (simp, simp, simp, simp, simp)
next
  case (approved a p es)
  have "ready q s' = (if pp_status q = PApproved then ready (q\<lparr>pp_status := PApproved\<rparr>) s else False)" for q
    by (simp add: ready_def live_task_def undone_parent_iff approved(13))
  then show ?thesis
    using assms(2) unfolding wakeup_def
    by (simp add: approved(13) ball_update_where ready_def)
qed (use assms(2) in simp)

lemma mark_attention_wakeup:
  assumes "mark_attention org pid s = Inr (u, s')" "wakeup s"
  shows "wakeup s'"
  using assms(1)
proof (cases rule: mark_attention_cases)
  case (marked p)
  show ?thesis unfolding marked(5)
    by (rule wakeup_update[OF assms(2)]) (simp, simp, simp, simp, simp, simp, simp, simp)
qed (use assms(2) in simp)

lemma mark_attention_consumes:
  assumes "mark_attention org pid s = Inr (u, s')"
    "q \<in> set (proposals s')" "pp_org q = org" "pp_id q = pid"
  shows "\<not> ready q s'"
proof
  assume r: "ready q s'"
  let ?P = "\<lambda>p. pp_org p = org \<and> pp_id p = pid \<and> (pp_status p = PApproved \<or> pp_status p = PExecuting)"
  have P: "?P q" using assms(3,4) r by (simp add: ready_def)
  show False
  proof (cases "row ?P (proposals s)")
    case None
    then have "s' = s" using assms(1) by (simp add: mark_attention_def)
    then show False using None P assms(2) by (auto simp: row_None_iff)
  next
    case (Some p)
    then have "proposals s' = update_where ?P
        (\<lambda>p. p\<lparr>pp_status := PNeedsAttention, pp_failure := ''invalid_or_stale_operation''\<rparr>) (proposals s)"
      using assms(1)[unfolded mark_attention_def Some option.case] by clarsimp
    then obtain x where x: "x \<in> set (proposals s)"
        "if ?P x then q = x\<lparr>pp_status := PNeedsAttention, pp_failure := ''invalid_or_stale_operation''\<rparr>
         else q = x"
      using assms(2) by (auto simp: set_update_where)
    show False using P x(2) by (cases "?P x") auto
  qed
qed

section \<open>The executor\<close>

lemma complete_jobs:
  "proposal_jobs (complete_proposal org task pid s) =
     proposal_jobs s @ map (Pair org) (eligible_children org task (complete_proposal org task pid s))"
  by (simp add: complete_proposal_def enqueue_eligible_children_def eligible_children_def
      undone_parent_def)

lemma apply_proposal_wakeup:
  assumes "apply_proposal H reg fresh org pid s = Inr (u, s')" "wakeup s" "proposal_ids s"
  shows "wakeup s'"
  using assms(1)
proof (cases rule: apply_proposal_cases)
  case (blocked p)
  show ?thesis unfolding blocked(4)
    by (rule wakeup_update[OF assms(2), where Q = "\<lambda>_. False" and g = id])
       (simp, simp, simp, simp, simp, simp add: update_where_unmatched, simp, simp)
next
  case (refused p)
  show ?thesis unfolding refused(5) by (rule wakeup_same[OF assms(2)]) (simp, simp, simp, simp, simp)
next
  case (applied p s1 s2)
  note tabs = applied_task_tables[OF applied(5,4)]
  have jobs: "proposal_jobs s' = proposal_jobs s @ map (Pair org) (eligible_children org (pp_task p) s')"
    by (simp add: applied(6) complete_jobs tabs)
  have props: "proposals s' = update_where (\<lambda>q. pp_id q = pid) (\<lambda>q. q\<lparr>pp_status := PDone\<rparr>) (proposals s)"
    unfolding applied(6) by (rule applied_proposals(1)[OF assms(3) applied(1,4,5)])
  have tsk: "tasks s' = update_where (\<lambda>t. tk_org t = org \<and> tk_id t = pp_task p \<and> tk_status t \<noteq> TCancelled)
         (\<lambda>t. t\<lparr>tk_status := TDone, tk_version := tk_version t + 1\<rparr>) (tasks s)"
    by (simp add: applied(6) complete_tables tabs)
  have deps: "task_deps s' = task_deps s" by (simp add: applied(6) complete_tables tabs)
  show ?thesis unfolding wakeup_def
  proof (intro ballI impI)
    fix q assume q: "q \<in> set (proposals s')" "ready q s'"
    then have st: "pp_status q = PApproved" by (simp add: ready_def)
    then have qs: "q \<in> set (proposals s)" using q(1) by (auto simp: props set_update_where)
    have live: "live_task (pp_org q) (pp_task q) s"
      using q(2) unfolding ready_def live_task_def tsk bex_update_where
      by (auto split: if_splits)
    show "(pp_org q, pp_id q) \<in> set (proposal_jobs s')"
    proof (cases "undone_parent (pp_org q) (pp_task q) s")
      case False
      then have "ready q s" using st live by (simp add: ready_def)
      then show ?thesis using assms(2) qs by (auto simp: wakeup_def jobs)
    next
      case True
      then obtain d t where d: "d \<in> set (task_deps s)" "td_org d = pp_org q" "td_task d = pp_task q"
          "t \<in> set (tasks s)" "tk_org t = pp_org q" "tk_id t = td_parent d" "tk_status t \<noteq> TDone"
        by (auto simp: undone_parent_iff)
      have "tk_org t = org \<and> tk_id t = pp_task p"
      proof (rule ccontr)
        assume "\<not> ?thesis"
        then have "t \<in> set (tasks s')" using d(4) by (auto simp: tsk set_update_where)
        then have "undone_parent (pp_org q) (pp_task q) s'"
          using d by (auto simp: undone_parent_iff deps)
        then show False using q(2) by (simp add: ready_def)
      qed
      then have "pp_id q \<in> set (eligible_children org (pp_task p) s')"
        unfolding eligible_children_iff
        using q st d by (intro bexI[of _ q]) (auto simp: ready_def live_task_def deps)
      then show ?thesis using d(5) \<open>tk_org t = org \<and> _\<close> by (auto simp: jobs)
    qed
  qed
qed (use assms(2) in simp)

lemma apply_proposal_consumes:
  assumes "apply_proposal H reg fresh org pid s = Inr (u, s')" "proposal_ids s"
    "q \<in> set (proposals s')" "pp_org q = org" "pp_id q = pid"
  shows "\<not> ready q s'"
  using assms(1)
proof (cases rule: apply_proposal_cases)
  case (skip p)
  then have "q = p" using proposal_unique[OF assms(2) skip(1)] assms(3,5) by simp
  then show ?thesis using skip by (simp add: ready_def)
next
  case (blocked p)
  then have "q = p" using proposal_unique[OF assms(2) blocked(1)] assms(3,5) by simp
  moreover have "undone_parent org (pp_task p) s'"
  proof -
    obtain d t where d: "d \<in> set (task_deps s)" "td_org d = org" "td_task d = pp_task p"
        "t \<in> set (tasks s)" "tk_org t = org" "tk_id t = td_parent d" "tk_status t \<noteq> TDone"
      using blocked(3) by (auto simp: undone_parent_iff)
    let ?t = "if terminal_task (tk_status t) then t else t\<lparr>tk_status := TBlocked\<rparr>"
    let ?t' = "if tk_org t = org \<and> tk_id t = pp_task p then ?t else t"
    have t': "?t' \<in> set (tasks s')" using d(4) by (auto simp: blocked(4) set_update_where)
    have "tk_org ?t' = org \<and> tk_id ?t' = td_parent d \<and> tk_status ?t' \<noteq> TDone" using d(5-7) by simp
    then have "\<exists>t\<in>set (tasks s'). tk_org t = org \<and> tk_id t = td_parent d \<and> tk_status t \<noteq> TDone"
      by (rule bexI[OF _ t'])
    moreover have "d \<in> set (task_deps s')" using d(1) by (simp add: blocked(4))
    ultimately show ?thesis unfolding undone_parent_iff using d(2,3) by blast
  qed
  ultimately show ?thesis using assms(4) by (simp add: ready_def)
next
  case (refused p)
  have "q \<in> set (update_where (\<lambda>q. pp_org q = org \<and> pp_id q = pid)
      (\<lambda>q. q\<lparr>pp_status := PNeedsAttention,
             pp_failure := ''authorization_or_dependency_unavailable''\<rparr>) (proposals s))"
    using assms(3) by (simp add: refused(5))
  then have "pp_status q \<noteq> PApproved"
    by (cases rule: update_whereE) (use assms(4,5) in simp_all)
  then show ?thesis by (simp add: ready_def)
next
  case (applied p s1 s2)
  have "q \<in> set (update_where (\<lambda>q. pp_id q = pid) (\<lambda>q. q\<lparr>pp_status := PDone\<rparr>) (proposals s))"
    using assms(3) by (simp add: applied(6) applied_proposals(1)[OF assms(2) applied(1,4,5)])
  then have "pp_status q \<noteq> PApproved"
    by (cases rule: update_whereE) (use assms(5) in simp_all)
  then show ?thesis by (simp add: ready_def)
qed

end
