(* ===== verification/Handoffs.thy ===== *)
theory Handoffs
  imports Tasks
begin

text \<open>
  Handoffs of responsibility: \<^verbatim>\<open>CreateHandoff\<close> to \<^verbatim>\<open>recipientResolve\<close> of \<^verbatim>\<open>internal/store/store.go\<close> and
  \<^verbatim>\<open>internal/store/handoffs.go\<close>. An offer is made against a version of its task and lapses when
  the task moves or its lifetime ends; ownership moves at most five times.
\<close>

section \<open>Operations\<close>

text \<open>\<^verbatim>\<open>DefaultHandoffTTL\<close> in microseconds, and \<^verbatim>\<open>maxHandoffHops\<close>.\<close>

definition default_handoff_ttl :: time where
  "default_handoff_ttl = 7 * 24 * 3600 * 1000000"

definition max_handoff_hops :: nat where
  "max_handoff_hops = 5"

abbreviation open_handoff :: "handoff_state \<Rightarrow> bool" where
  "open_handoff st \<equiv> st = HOffered \<or> st = HClarification"

definition accepted_owner_hops :: "id \<Rightarrow> id \<Rightarrow> handoff list \<Rightarrow> nat" where
  "accepted_owner_hops org task hs =
     length (filter (\<lambda>h. ho_org h = org \<and> ho_task h = task \<and> ho_role h = ''owner'' \<and>
                        ho_state h = HAccepted) hs)"

definition assignee_text :: "task \<Rightarrow> id" where
  "assignee_text t = (case tk_assignee t of None \<Rightarrow> [] | Some a \<Rightarrow> a)"

text \<open>\<open>now\<close> is the database clock, \<open>expires\<close> the explicit expiry.\<close>

definition create_handoff_expiring ::
    "id \<Rightarrow> id \<Rightarrow> id \<Rightarrow> id \<Rightarrow> id \<Rightarrow> string \<Rightarrow> string \<Rightarrow> time \<Rightarrow> time \<Rightarrow> handoff tx" where
  "create_handoff_expiring org i task actor recipient role summary expires now s =
     (if role \<noteq> ''owner'' \<and> role \<noteq> ''assignee'' then Inl (Msg ''unsupported handoff role'')
      else case find_task org task s of
        None \<Rightarrow> Inl NoRows
      | Some t \<Rightarrow>
          if actor \<noteq> tk_owner t \<and> actor \<noteq> assignee_text t
          then Inl (Msg ''only owner or assignee may create handoff'')
          else if (case find_principal org recipient s of None \<Rightarrow> True | Some p \<Rightarrow> \<not> pr_active p)
          then Inl (Msg ''recipient inactive'')
          else
           (let hops = (if role = ''owner'' then accepted_owner_hops org task (handoffs s) else 0)
            in if role = ''owner'' \<and> hops \<ge> max_handoff_hops
               then Inl (Msg ''handoff hop limit reached'')
               else if exists_row (\<lambda>h. ho_id h = i) (handoffs s) \<or> find_principal org actor s = None
               then Inl Constraint
               else
                (let h = \<lparr>ho_id = i, ho_org = org, ho_task = task, ho_offered = tk_version t,
                          ho_recipient = recipient, ho_role = role, ho_summary = summary,
                          ho_state = HOffered, ho_created_by = actor, ho_created = now,
                          ho_expires = Some expires, ho_accepted_at = None, ho_resolved_at = None,
                          ho_reason = [], ho_hop = int hops + 1\<rparr>
                 in Inr (h, s\<lparr>handoffs := handoffs s @ [h]\<rparr>))))"

text \<open>\<open>app_now\<close> is the clock of the application, which sets the default expiry.\<close>

definition create_handoff ::
    "id \<Rightarrow> id \<Rightarrow> id \<Rightarrow> id \<Rightarrow> id \<Rightarrow> string \<Rightarrow> string \<Rightarrow> time \<Rightarrow> time \<Rightarrow> handoff tx" where
  "create_handoff org i task actor recipient role summary app_now now s =
     create_handoff_expiring org i task actor recipient role summary
       (app_now + default_handoff_ttl) now s"

definition handoff_due :: "time \<Rightarrow> handoff \<Rightarrow> bool" where
  "handoff_due now h \<longleftrightarrow>
     open_handoff (ho_state h) \<and> (case ho_expires h of None \<Rightarrow> False | Some e \<Rightarrow> e \<le> now)"

definition expire_handoff :: "time \<Rightarrow> handoff \<Rightarrow> handoff" where
  "expire_handoff now h = h\<lparr>ho_state := HExpired, ho_resolved_at := Some now\<rparr>"

definition expire_due_handoffs :: "id \<Rightarrow> id \<Rightarrow> time \<Rightarrow> db \<Rightarrow> db" where
  "expire_due_handoffs org i now s =
     s\<lparr>handoffs := update_where (\<lambda>h. ho_org h = org \<and> ho_id h = i \<and> handoff_due now h)
                     (expire_handoff now) (handoffs s)\<rparr>"

abbreviation find_handoff :: "id \<Rightarrow> id \<Rightarrow> db \<Rightarrow> handoff option" where
  "find_handoff org i s \<equiv> row (\<lambda>h. ho_org h = org \<and> ho_id h = i) (handoffs s)"

definition accept_handoff :: "id \<Rightarrow> id \<Rightarrow> id \<Rightarrow> time \<Rightarrow> unit tx" where
  "accept_handoff org i actor now s0 =
     (let s = expire_due_handoffs org i now s0 in
      case row (\<lambda>h. ho_org h = org \<and> ho_id h = i \<and> ho_recipient h = actor) (handoffs s) of
        None \<Rightarrow> Inl NoRows
      | Some h \<Rightarrow>
          if ho_state h = HAccepted then Inr ((), s)
          else if \<not> open_handoff (ho_state h) then Inl (Msg ''handoff unavailable'')
          else case find_task org (ho_task h) s of
            None \<Rightarrow> Inl NoRows
          | Some t \<Rightarrow>
              if ho_created_by h \<noteq> tk_owner t \<or> tk_version t \<noteq> ho_offered h
              then Inl (Msg ''stale handoff'')
              else Inr ((), s\<lparr>
                tasks := update_where (\<lambda>t. tk_org t = org \<and> tk_id t = ho_task h)
                  (\<lambda>t. if ho_role h = ''owner''
                       then t\<lparr>tk_owner := actor, tk_version := tk_version t + 1\<rparr>
                       else t\<lparr>tk_assignee := Some actor, tk_version := tk_version t + 1\<rparr>) (tasks s),
                handoffs := update_where (\<lambda>h. ho_org h = org \<and> ho_id h = i)
                  (\<lambda>h. h\<lparr>ho_state := HAccepted, ho_accepted_at := Some now,
                         ho_resolved_at := Some now\<rparr>) (handoffs s)\<rparr>))"

text \<open>
  The three replies that resolve or question an open offer: \<open>who\<close> must be the actor, \<open>denied\<close> is
  the error otherwise, \<open>f\<close> the update.
\<close>

definition reply_handoff ::
    "(handoff \<Rightarrow> id) \<Rightarrow> string \<Rightarrow> (handoff \<Rightarrow> handoff) \<Rightarrow> id \<Rightarrow> id \<Rightarrow> id \<Rightarrow> time \<Rightarrow> unit tx" where
  "reply_handoff who denied f org i actor now s0 =
     (let s = expire_due_handoffs org i now s0 in
      case find_handoff org i s of
        None \<Rightarrow> Inl NoRows
      | Some h \<Rightarrow>
          if who h \<noteq> actor then Inl (Msg denied)
          else if \<not> open_handoff (ho_state h) then Inl (Msg ''handoff unavailable'')
          else Inr ((), s\<lparr>handoffs := update_where (\<lambda>h. ho_org h = org \<and> ho_id h = i) f (handoffs s)\<rparr>))"

definition clarify_handoff :: "id \<Rightarrow> id \<Rightarrow> id \<Rightarrow> string \<Rightarrow> time \<Rightarrow> unit tx" where
  "clarify_handoff org i actor question now s =
     reply_handoff ho_recipient ''only the recipient may ask for clarification''
       (\<lambda>h. h\<lparr>ho_state := HClarification, ho_reason := question\<rparr>) org i actor now s"

definition cancel_handoff :: "id \<Rightarrow> id \<Rightarrow> id \<Rightarrow> string \<Rightarrow> time \<Rightarrow> unit tx" where
  "cancel_handoff org i actor reason now s =
     reply_handoff ho_created_by ''only the creator may cancel a handoff''
       (\<lambda>h. h\<lparr>ho_state := HCancelled, ho_resolved_at := Some now, ho_reason := reason\<rparr>) org i actor now s"

definition recipient_resolve ::
    "id \<Rightarrow> id \<Rightarrow> id \<Rightarrow> handoff_state \<Rightarrow> string \<Rightarrow> time \<Rightarrow> unit tx" where
  "recipient_resolve org i actor target reason now s =
     reply_handoff ho_recipient ''only the recipient may reply to a handoff''
       (\<lambda>h. h\<lparr>ho_state := target, ho_resolved_at := Some now, ho_reason := reason\<rparr>) org i actor now s"

definition decline_handoff :: "id \<Rightarrow> id \<Rightarrow> id \<Rightarrow> string \<Rightarrow> time \<Rightarrow> unit tx" where
  "decline_handoff org i actor reason now s = recipient_resolve org i actor HDeclined reason now s"

section \<open>Reads\<close>

definition live_handoff_task :: "handoff \<Rightarrow> db \<Rightarrow> bool" where
  "live_handoff_task h s =
     exists_row (\<lambda>t. tk_org t = ho_org h \<and> tk_id t = ho_task h \<and> \<not> terminal_task (tk_status t)) (tasks s)"

definition party_to :: "id \<Rightarrow> handoff \<Rightarrow> bool" where
  "party_to actor h \<longleftrightarrow> ho_created_by h = actor \<or> ho_recipient h = actor"

definition list_handoffs :: "id \<Rightarrow> id \<Rightarrow> time \<Rightarrow> handoff list tx" where
  "list_handoffs org actor now s0 =
     (let s = s0\<lparr>handoffs := update_where (\<lambda>h. ho_org h = org \<and> handoff_due now h)
                    (expire_handoff now) (handoffs s0)\<rparr>
      in Inr (sort_key ho_created
                (filter (\<lambda>h. ho_org h = org \<and> party_to actor h \<and> live_handoff_task h s \<and>
                             (open_handoff (ho_state h) \<or> ho_state h = HAccepted)) (handoffs s)), s))"

definition peek_handoff :: "id \<Rightarrow> id \<Rightarrow> id \<Rightarrow> time \<Rightarrow> handoff tx" where
  "peek_handoff org i actor now s0 =
     (let s = expire_due_handoffs org i now s0 in
      case row (\<lambda>h. ho_org h = org \<and> ho_id h = i \<and> party_to actor h \<and> live_handoff_task h s) (handoffs s) of
        None \<Rightarrow> Inl NoRows
      | Some h \<Rightarrow> Inr (h, s))"

section \<open>The life of an offer\<close>

definition handoff_final :: "handoff \<Rightarrow> bool" where
  "handoff_final h \<longleftrightarrow> ho_state h \<in> {HAccepted, HDeclined, HExpired, HCancelled}"

definition handoff_born :: "handoff \<Rightarrow> bool" where
  "handoff_born h \<longleftrightarrow> ho_state h = HOffered \<and> ho_expires h \<noteq> None \<and> ho_role h \<in> {''owner'', ''assignee''}"

text \<open>Only the state, its timestamps and the note of an offer change.\<close>

definition handoff_move :: "handoff \<Rightarrow> handoff \<Rightarrow> bool" where
  "handoff_move h k \<longleftrightarrow>
     k = h\<lparr>ho_state := ho_state k, ho_accepted_at := ho_accepted_at k,
           ho_resolved_at := ho_resolved_at k, ho_reason := ho_reason k\<rparr> \<and>
     (handoff_final h \<longrightarrow> k = h)"

lemma handoff_final_iff: "handoff_final h \<longleftrightarrow> \<not> open_handoff (ho_state h)"
  by (cases "ho_state h") (simp_all add: handoff_final_def)

lemma handoff_move_refl [simp]: "handoff_move h h"
  by (simp add: handoff_move_def)

lemma handoff_move_set [simp]:
  "open_handoff (ho_state h) \<Longrightarrow>
     handoff_move h (h\<lparr>ho_state := st, ho_accepted_at := a, ho_resolved_at := r\<rparr>)"
  "open_handoff (ho_state h) \<Longrightarrow> handoff_move h (h\<lparr>ho_state := st, ho_resolved_at := r\<rparr>)"
  "open_handoff (ho_state h) \<Longrightarrow> handoff_move h (h\<lparr>ho_state := st, ho_resolved_at := r, ho_reason := q\<rparr>)"
  "open_handoff (ho_state h) \<Longrightarrow> handoff_move h (h\<lparr>ho_state := st, ho_reason := q\<rparr>)"
  by (cases h; simp add: handoff_move_def handoff_final_iff)+

text \<open>Moves from open to open offers compose with any move.\<close>

lemma handoff_move_trans: "handoff_move a b \<Longrightarrow> handoff_move b c \<Longrightarrow> handoff_move a c"
proof -
  assume a: "handoff_move a b" and b: "handoff_move b c"
  show ?thesis
  proof (cases "handoff_final a")
    case True
    with a have "b = a" by (simp add: handoff_move_def)
    with b show ?thesis by simp
  next
    case False
    with a b show ?thesis by (cases a; cases b; cases c) (simp add: handoff_move_def)
  qed
qed

abbreviation handoffs_move :: "db \<Rightarrow> db \<Rightarrow> bool" where
  "handoffs_move s s' \<equiv> grows handoff_move handoff_born (handoffs s) (handoffs s')"

definition handoff_ids :: "db \<Rightarrow> bool" where
  "handoff_ids s \<longleftrightarrow> distinct (map ho_id (handoffs s))"

lemma handoff_unique:
  assumes "handoff_ids s" "h \<in> set (handoffs s)" "k \<in> set (handoffs s)" "ho_id h = ho_id k"
  shows "h = k"
  using assms unique_key_row[of ho_id "handoffs s" h k] by (simp add: handoff_ids_def)

lemma expire_ids [simp]: "handoff_ids (expire_due_handoffs org i now s) = handoff_ids s"
  by (simp add: handoff_ids_def expire_due_handoffs_def expire_handoff_def map_key_update_where)

lemma expire_tables [simp]:
  "tasks (expire_due_handoffs org i now s) = tasks s"
  "principals (expire_due_handoffs org i now s) = principals s"
  by (simp_all add: expire_due_handoffs_def)

lemma expire_moves: "handoffs_move s (expire_due_handoffs org i now s)"
  unfolding expire_due_handoffs_def db.select_convs db.update_convs
  by (simp, rule grows_update) (auto simp: handoff_due_def expire_handoff_def)

lemma create_handoff_ok:
  assumes "create_handoff_expiring org i task actor recipient role summary expires now s = Inr (h, s')"
  obtains t where "find_task org task s = Some t" "actor = tk_owner t \<or> actor = assignee_text t"
    "role = ''owner'' \<or> role = ''assignee''"
    "\<exists>p. find_principal org recipient s = Some p \<and> pr_active p"
    "role = ''owner'' \<Longrightarrow> accepted_owner_hops org task (handoffs s) < max_handoff_hops"
    "i \<notin> ho_id ` set (handoffs s)" "s' = s\<lparr>handoffs := handoffs s @ [h]\<rparr>"
    "ho_id h = i" "ho_org h = org" "ho_task h = task" "ho_role h = role" "ho_state h = HOffered"
    "ho_offered h = tk_version t" "ho_recipient h = recipient" "ho_created_by h = actor"
    "ho_expires h = Some expires"
    "ho_hop h = (if role = ''owner'' then int (accepted_owner_hops org task (handoffs s)) else 0) + 1"
proof -
  note d = assms[unfolded create_handoff_expiring_def Let_def]
  obtain t where t: "find_task org task s = Some t" using d by (auto split: if_split_asm option.splits)
  have r: "role = ''owner'' \<or> role = ''assignee''" using d by (auto split: if_split_asm)
  have a: "actor = tk_owner t \<or> actor = assignee_text t" using d t r by (auto split: if_split_asm)
  have p: "\<exists>p. find_principal org recipient s = Some p \<and> pr_active p"
    using d t r a by (auto split: if_split_asm option.splits)
  have hops: "role = ''owner'' \<Longrightarrow> accepted_owner_hops org task (handoffs s) < max_handoff_hops"
    using d t r a p by (auto split: if_split_asm option.splits)
  have i: "\<not> exists_row (\<lambda>h. ho_id h = i) (handoffs s)"
    using d t r a p by (auto split: if_split_asm option.splits)
  then have i': "i \<notin> ho_id ` set (handoffs s)" by (auto simp: exists_row_def)
  have "s' = s\<lparr>handoffs := handoffs s @ [h]\<rparr> \<and> ho_id h = i \<and> ho_org h = org \<and> ho_task h = task \<and>
      ho_role h = role \<and> ho_state h = HOffered \<and> ho_offered h = tk_version t \<and>
      ho_recipient h = recipient \<and> ho_created_by h = actor \<and> ho_expires h = Some expires \<and>
      ho_hop h = (if role = ''owner'' then int (accepted_owner_hops org task (handoffs s)) else 0) + 1"
    using d t r a p hops i by (auto split: if_split_asm option.splits)
  then show thesis by (intro that[OF t a r p hops i']) auto
qed

lemma accept_handoff_cases:
  assumes "accept_handoff org i actor now s0 = Inr (u, s')"
  obtains (again) "s' = expire_due_handoffs org i now s0"
    | (accepted) s h t where "s = expire_due_handoffs org i now s0"
      "h \<in> set (handoffs s)" "ho_org h = org" "ho_id h = i" "ho_recipient h = actor"
      "open_handoff (ho_state h)" "find_task org (ho_task h) s = Some t"
      "ho_created_by h = tk_owner t" "tk_version t = ho_offered h"
      "s' = s\<lparr>tasks := update_where (\<lambda>t. tk_org t = org \<and> tk_id t = ho_task h)
                  (\<lambda>t. if ho_role h = ''owner''
                       then t\<lparr>tk_owner := actor, tk_version := tk_version t + 1\<rparr>
                       else t\<lparr>tk_assignee := Some actor, tk_version := tk_version t + 1\<rparr>) (tasks s),
                handoffs := update_where (\<lambda>h. ho_org h = org \<and> ho_id h = i)
                  (\<lambda>h. h\<lparr>ho_state := HAccepted, ho_accepted_at := Some now,
                         ho_resolved_at := Some now\<rparr>) (handoffs s)\<rparr>"
proof -
  obtain s where s: "s = expire_due_handoffs org i now s0" by simp
  note d = assms[unfolded accept_handoff_def Let_def, folded s]
  obtain h where h: "row (\<lambda>h. ho_org h = org \<and> ho_id h = i \<and> ho_recipient h = actor) (handoffs s) = Some h"
    using d by (auto split: option.splits)
  note d1 = d[unfolded h option.case]
  show thesis
  proof (cases "ho_state h = HAccepted")
    case True
    then show thesis using again d1 s by simp
  next
    case False
    note d2 = d1[unfolded if_not_P[OF False]]
    have op: "open_handoff (ho_state h)" using d2 by (auto split: if_split_asm)
    then obtain t where t: "find_task org (ho_task h) s = Some t"
      using d2 by (auto split: if_split_asm option.splits)
    note d3 = d2[unfolded t option.case]
    have c: "ho_created_by h = tk_owner t" "tk_version t = ho_offered h"
      using d3 op by (auto split: if_split_asm)
    note h' = row_SomeD[OF h]
    show thesis
      by (rule accepted[OF s _ _ _ _ op t c]) (use h' d3 op c in auto)
  qed
qed

lemma reply_handoff_ok:
  assumes "reply_handoff who denied f org i actor now s0 = Inr (u, s')"
  obtains s h where "s = expire_due_handoffs org i now s0" "h \<in> set (handoffs s)"
    "ho_org h = org" "ho_id h = i" "who h = actor" "open_handoff (ho_state h)"
    "s' = s\<lparr>handoffs := update_where (\<lambda>h. ho_org h = org \<and> ho_id h = i) f (handoffs s)\<rparr>"
proof -
  obtain s where s: "s = expire_due_handoffs org i now s0" by simp
  note d = assms[unfolded reply_handoff_def Let_def, folded s]
  obtain h where h: "find_handoff org i s = Some h" using d by (auto split: option.splits)
  note d1 = d[unfolded h option.case]
  have w: "who h = actor" "open_handoff (ho_state h)" using d1 by (auto split: if_split_asm)
  show thesis
    by (rule that[OF s, of h]) (use row_SomeD[OF h] d1 w in auto)
qed

section \<open>Moves\<close>

text \<open>Updating one offer that is open.\<close>

lemma one_offer_moves:
  assumes "handoff_ids s" "h \<in> set (handoffs s)" "ho_id h = i" "open_handoff (ho_state h)"
    "\<And>k. open_handoff (ho_state k) \<Longrightarrow> handoff_move k (f k)"
    "handoffs s' = update_where (\<lambda>h. ho_org h = org \<and> ho_id h = i) f (handoffs s)"
  shows "handoffs_move s s'"
  unfolding assms(6)
proof (rule grows_update)
  fix k assume "k \<in> set (handoffs s)" "ho_org k = org \<and> ho_id k = i"
  then have "k = h" using handoff_unique[OF assms(1) _ assms(2)] assms(3) by simp
  then show "handoff_move k (f k)" using assms(4,5) by simp
qed simp

lemma handoffs_move_trans:
  assumes "handoffs_move a b" "handoffs_move b c" "length (handoffs b) = length (handoffs a)"
  shows "handoffs_move a c"
proof -
  obtain w x where w: "handoffs b = w @ x" "list_all2 handoff_move (handoffs a) w"
    using assms(1) by (auto simp: grows_def)
  then have "x = []" using assms(3) list_all2_lengthD[OF w(2)] by simp
  then have b: "list_all2 handoff_move (handoffs a) (handoffs b)" using w by simp
  obtain u v where c: "handoffs c = u @ v" "list_all2 handoff_move (handoffs b) u" "list_all handoff_born v"
    using assms(2) by (auto simp: grows_def)
  have "list_all2 handoff_move (handoffs a) u"
    by (rule list_all2_trans[OF _ b c(2)]) (rule handoff_move_trans)
  then show ?thesis using c by (auto simp: grows_def)
qed

lemma expire_length [simp]: "length (handoffs (expire_due_handoffs org i now s)) = length (handoffs s)"
  by (simp add: expire_due_handoffs_def)

lemma create_handoff_moves:
  assumes "create_handoff_expiring org i task actor recipient role summary expires now s = Inr (h, s')"
  shows "handoffs_move s s'"
  by (rule create_handoff_ok[OF assms]) (auto simp: handoff_born_def intro!: grows_append)

lemma accept_handoff_moves:
  assumes "accept_handoff org i actor now s0 = Inr (u, s')" "handoff_ids s0"
  shows "handoffs_move s0 s'"
  using assms(1)
proof (cases rule: accept_handoff_cases)
  case (accepted s h t)
  have "handoffs_move s s'"
    by (rule one_offer_moves[OF _ accepted(2,4,6)]) (use assms(2) accepted(1,10) in auto)
  then show ?thesis
    using handoffs_move_trans[OF expire_moves] accepted(1) by simp
qed (simp add: expire_moves)

lemma reply_handoff_moves:
  assumes "reply_handoff who denied f org i actor now s0 = Inr (u, s')" "handoff_ids s0"
    "\<And>k. open_handoff (ho_state k) \<Longrightarrow> handoff_move k (f k)"
  shows "handoffs_move s0 s'"
  using assms(1)
proof (cases rule: reply_handoff_ok)
  case (1 s h)
  have "handoffs_move s s'"
    by (rule one_offer_moves[OF _ 1(2,4,6) assms(3)]) (use assms(2) 1(1,7) in auto)
  then show ?thesis using handoffs_move_trans[OF expire_moves] 1(1) by simp
qed

lemma list_handoffs_moves:
  "list_handoffs org actor now s = Inr (hs, s') \<Longrightarrow> handoffs_move s s'"
  unfolding list_handoffs_def Let_def
  by clarsimp (rule grows_update, auto simp: handoff_due_def expire_handoff_def)

section \<open>The bound on ownership transfers\<close>

text \<open>
  An acceptance moves the task's version, so every other offer of that version becomes stale: the
  hops an offer counted when it was made are still the hops when it is accepted.
\<close>

definition hops_ok :: "db \<Rightarrow> bool" where
  "hops_ok s \<longleftrightarrow>
     (\<forall>org task. accepted_owner_hops org task (handoffs s) \<le> max_handoff_hops) \<and>
     (\<forall>h\<in>set (handoffs s). \<exists>t\<in>set (tasks s). tk_org t = ho_org h \<and> tk_id t = ho_task h) \<and>
     (\<forall>h\<in>set (handoffs s). \<forall>t\<in>set (tasks s). tk_org t = ho_org h \<longrightarrow> tk_id t = ho_task h \<longrightarrow>
        ho_offered h \<le> tk_version t \<and>
        (open_handoff (ho_state h) \<and> ho_role h = ''owner'' \<and> ho_offered h = tk_version t \<longrightarrow>
           accepted_owner_hops (ho_org h) (ho_task h) (handoffs s) < max_handoff_hops))"

lemma hops_okD:
  assumes "hops_ok s" "h \<in> set (handoffs s)" "t \<in> set (tasks s)" "tk_org t = ho_org h"
    "tk_id t = ho_task h"
  shows "ho_offered h \<le> tk_version t"
    and "open_handoff (ho_state h) \<Longrightarrow> ho_role h = ''owner'' \<Longrightarrow> ho_offered h = tk_version t \<Longrightarrow>
       accepted_owner_hops (ho_org h) (ho_task h) (handoffs s) < max_handoff_hops"
  using assms unfolding hops_ok_def by blast+

lemma hops_ok_tasks:
  assumes "hops_ok s" "tasks s' = update_where P f (tasks s)" "handoffs s' = handoffs s"
    "\<And>t. tk_id (f t) = tk_id t \<and> tk_org (f t) = tk_org t \<and> tk_version t \<le> tk_version (f t)"
  shows "hops_ok s'"
  unfolding hops_ok_def assms(2,3) ball_update_where bex_update_where
proof (intro conjI ballI)
  show "\<forall>org task. accepted_owner_hops org task (handoffs s) \<le> max_handoff_hops"
    using assms(1) by (simp add: hops_ok_def)
  fix h assume h: "h \<in> set (handoffs s)"
  show "\<exists>t\<in>set (tasks s). if P t then tk_org (f t) = ho_org h \<and> tk_id (f t) = ho_task h
          else tk_org t = ho_org h \<and> tk_id t = ho_task h"
    using assms(1,4) h by (simp add: hops_ok_def)
  fix t assume t: "t \<in> set (tasks s)"
  have "tk_org t = ho_org h \<longrightarrow> tk_id t = ho_task h \<longrightarrow> ho_offered h \<le> tk_version t \<and>
      (open_handoff (ho_state h) \<and> ho_role h = ''owner'' \<and> ho_offered h = tk_version t \<longrightarrow>
         accepted_owner_hops (ho_org h) (ho_task h) (handoffs s) < max_handoff_hops)"
    using assms(1) h t unfolding hops_ok_def by blast
  then show "if P t
       then tk_org (f t) = ho_org h \<longrightarrow> tk_id (f t) = ho_task h \<longrightarrow>
         ho_offered h \<le> tk_version (f t) \<and>
         (open_handoff (ho_state h) \<and> ho_role h = ''owner'' \<and> ho_offered h = tk_version (f t) \<longrightarrow>
           accepted_owner_hops (ho_org h) (ho_task h) (handoffs s) < max_handoff_hops)
       else tk_org t = ho_org h \<longrightarrow> tk_id t = ho_task h \<longrightarrow>
         ho_offered h \<le> tk_version t \<and>
         (open_handoff (ho_state h) \<and> ho_role h = ''owner'' \<and> ho_offered h = tk_version t \<longrightarrow>
           accepted_owner_hops (ho_org h) (ho_task h) (handoffs s) < max_handoff_hops)"
    using assms(4)[of t] by (cases "P t") auto
qed

lemma hops_count_update:
  assumes "\<And>h. h \<in> set hs \<Longrightarrow> P h \<Longrightarrow> ho_org (f h) = ho_org h \<and> ho_task (f h) = ho_task h \<and>
     ho_role (f h) = ho_role h \<and> (ho_state (f h) = HAccepted) = (ho_state h = HAccepted)"
  shows "accepted_owner_hops org task (update_where P f hs) = accepted_owner_hops org task hs"
  using assms by (induction hs) (auto simp: accepted_owner_hops_def)

lemma hops_ok_handoffs:
  assumes "hops_ok s" "handoffs s' = update_where P f (handoffs s)" "tasks s' = tasks s"
    "\<And>h. h \<in> set (handoffs s) \<Longrightarrow> P h \<Longrightarrow> ho_org (f h) = ho_org h \<and> ho_task (f h) = ho_task h \<and>
       ho_role (f h) = ho_role h \<and> ho_offered (f h) = ho_offered h \<and> open_handoff (ho_state h) \<and>
       ho_state (f h) \<noteq> HAccepted"
  shows "hops_ok s'"
proof -
  have c: "accepted_owner_hops org task (update_where P f (handoffs s)) =
      accepted_owner_hops org task (handoffs s)" for org task
    by (rule hops_count_update) (use assms(4) in fastforce)
  show ?thesis
    using assms(1) unfolding hops_ok_def assms(2,3) c ball_update_where
    using assms(4) by auto
qed

lemma expire_hops:
  assumes "hops_ok s"
  shows "hops_ok (expire_due_handoffs org i now s)"
  by (rule hops_ok_handoffs[OF assms])
     (simp add: expire_due_handoffs_def, auto simp: handoff_due_def expire_handoff_def)

lemma create_handoff_hops:
  assumes "create_handoff_expiring org i task actor recipient role summary expires now s = Inr (h, s')"
    "hops_ok s" "distinct (map tk_id (tasks s))"
  shows "hops_ok s'"
  using assms(1)
proof (cases rule: create_handoff_ok)
  case (1 t)
  have t: "t \<in> set (tasks s)" "tk_org t = org" "tk_id t = task" using row_SomeD[OF 1(1)] by auto
  have eq: "k = t" if "k \<in> set (tasks s)" "tk_id k = task" for k
    using unique_key_row[OF assms(3) that(1) t(1)] that(2) t(3) by simp
  have c: "accepted_owner_hops o1 t1 (handoffs s') = accepted_owner_hops o1 t1 (handoffs s)" for o1 t1
    using 1(7,12) by (simp add: accepted_owner_hops_def)
  have ts: "tasks s' = tasks s" by (simp add: 1(7))
  have hs: "set (handoffs s') = insert h (set (handoffs s))" by (simp add: 1(7))
  show ?thesis
    unfolding hops_ok_def c ts hs
  proof (intro conjI ballI)
    show "\<forall>o1 t1. accepted_owner_hops o1 t1 (handoffs s) \<le> max_handoff_hops"
      using assms(2) by (simp add: hops_ok_def)
    fix k assume k: "k \<in> insert h (set (handoffs s))"
    show "\<exists>t\<in>set (tasks s). tk_org t = ho_org k \<and> tk_id t = ho_task k"
      using k assms(2) t 1(9,10) by (auto simp: hops_ok_def)
    fix u assume u: "u \<in> set (tasks s)"
    show "tk_org u = ho_org k \<longrightarrow> tk_id u = ho_task k \<longrightarrow> ho_offered k \<le> tk_version u \<and>
        (open_handoff (ho_state k) \<and> ho_role k = ''owner'' \<and> ho_offered k = tk_version u \<longrightarrow>
           accepted_owner_hops (ho_org k) (ho_task k) (handoffs s) < max_handoff_hops)"
    proof (cases "k = h")
      case True
      then show ?thesis using eq[OF u] 1(5,9-13) by simp
    next
      case False
      then show ?thesis using k u assms(2) unfolding hops_ok_def by blast
    qed
  qed
qed

lemma reply_handoff_hops:
  assumes "reply_handoff who denied f org i actor now s0 = Inr (u, s')" "handoff_ids s0" "hops_ok s0"
    "\<And>h. ho_org (f h) = ho_org h \<and> ho_task (f h) = ho_task h \<and> ho_role (f h) = ho_role h \<and>
         ho_offered (f h) = ho_offered h \<and> ho_state (f h) \<noteq> HAccepted"
  shows "hops_ok s'"
  using assms(1)
proof (cases rule: reply_handoff_ok)
  case (1 s h)
  have ids: "handoff_ids s" using assms(2) 1(1) by simp
  have "hops_ok s" using expire_hops[OF assms(3)] 1(1) by simp
  then show ?thesis unfolding 1(7)
  proof (rule hops_ok_handoffs)
    fix k assume "k \<in> set (handoffs s)" "ho_org k = org \<and> ho_id k = i"
    then have "k = h" using handoff_unique[OF ids _ 1(2)] 1(4) by simp
    then show "ho_org (f k) = ho_org k \<and> ho_task (f k) = ho_task k \<and> ho_role (f k) = ho_role k \<and>
        ho_offered (f k) = ho_offered k \<and> open_handoff (ho_state k) \<and> ho_state (f k) \<noteq> HAccepted"
      using assms(4) 1(6) by simp
  qed simp_all
qed

lemma accepted_hops_one:
  assumes "distinct (map ho_id hs)" "h \<in> set hs" "ho_id h = i" "ho_org h = org"
    "ho_state h \<noteq> HAccepted"
    "\<And>k. ho_org (f k) = ho_org k \<and> ho_task (f k) = ho_task k \<and> ho_role (f k) = ho_role k \<and>
         ho_state (f k) = HAccepted"
  shows "accepted_owner_hops o1 t1 (update_where (\<lambda>k. ho_org k = org \<and> ho_id k = i) f hs) =
         accepted_owner_hops o1 t1 hs +
         (if ho_org h = o1 \<and> ho_task h = t1 \<and> ho_role h = ''owner'' then 1 else 0)"
  using assms(1-3)
proof (induction hs)
  case (Cons k hs)
  show ?case
  proof (cases "k = h")
    case True
    have "update_where (\<lambda>k. ho_org k = org \<and> ho_id k = i) f hs = hs"
      by (rule update_where_unmatched) (use Cons.prems True in \<open>auto simp: image_iff\<close>)
    then show ?thesis using True Cons.prems(3) assms(4-6) by (simp add: accepted_owner_hops_def)
  next
    case False
    then have h: "h \<in> set hs" using Cons.prems(2) by simp
    then have "ho_id k \<noteq> i" using Cons.prems(1,3) by (auto simp: image_iff)
    then show ?thesis using Cons.IH[OF _ h Cons.prems(3)] Cons.prems(1)
      by (simp add: accepted_owner_hops_def)
  qed
qed simp

lemma accept_handoff_hops:
  assumes "accept_handoff org i actor now s0 = Inr (u, s')" "handoff_ids s0" "hops_ok s0"
    "distinct (map tk_id (tasks s0))"
  shows "hops_ok s'"
  using assms(1)
proof (cases rule: accept_handoff_cases)
  case again
  then show ?thesis using expire_hops[OF assms(3)] by simp
next
  case (accepted s h t)
  let ?f = "\<lambda>h. h\<lparr>ho_state := HAccepted, ho_accepted_at := Some now, ho_resolved_at := Some now\<rparr>"
  have ids: "distinct (map ho_id (handoffs s))" using assms(2) accepted(1) by (simp flip: handoff_ids_def)
  have ok: "hops_ok s" using expire_hops[OF assms(3)] accepted(1) by simp
  have ts: "distinct (map tk_id (tasks s))" using assms(4) accepted(1) by simp
  have t: "t \<in> set (tasks s)" "tk_org t = org" "tk_id t = ho_task h"
    using row_SomeD[OF accepted(7)] by auto
  have eq: "k = t" if "k \<in> set (tasks s)" "tk_id k = ho_task h" for k
    using unique_key_row[OF ts that(1) t(1)] that(2) t(3) by simp
  have nacc: "ho_state h \<noteq> HAccepted" using accepted(6) by auto
  have cnt: "accepted_owner_hops o1 t1 (handoffs s') = accepted_owner_hops o1 t1 (handoffs s) +
      (if ho_org h = o1 \<and> ho_task h = t1 \<and> ho_role h = ''owner'' then 1 else 0)" for o1 t1
    using accepted_hops_one[OF ids accepted(2,4,3) nacc, of ?f o1 t1] by (simp add: accepted(10))
  have lt: "ho_role h = ''owner'' \<Longrightarrow> accepted_owner_hops org (ho_task h) (handoffs s) < max_handoff_hops"
    using hops_okD(2)[OF ok accepted(2) t(1) _ _ accepted(6)] accepted(3,9) t by simp
  have older: "ho_offered k \<le> tk_version v" if "k \<in> set (handoffs s)" "v \<in> set (tasks s)"
      "tk_org v = ho_org k" "tk_id v = ho_task k" for k v
    using ok that unfolding hops_ok_def by blast
  let ?g = "\<lambda>t. if ho_role h = ''owner'' then t\<lparr>tk_owner := actor, tk_version := tk_version t + 1\<rparr>
      else t\<lparr>tk_assignee := Some actor, tk_version := tk_version t + 1\<rparr>"
  have tsk: "tasks s' = update_where (\<lambda>t. tk_org t = org \<and> tk_id t = ho_task h) ?g (tasks s)"
    and hs: "handoffs s' = update_where (\<lambda>h. ho_org h = org \<and> ho_id h = i) ?f (handoffs s)"
    by (simp_all add: accepted(10))
  have g: "tk_id (?g v) = tk_id v \<and> tk_org (?g v) = tk_org v \<and> tk_version (?g v) = tk_version v + 1" for v
    by simp
  show ?thesis unfolding hops_ok_def
  proof (intro conjI ballI allI)
    fix o1 t1
    show "accepted_owner_hops o1 t1 (handoffs s') \<le> max_handoff_hops"
      using ok lt accepted(3) unfolding cnt by (auto simp: hops_ok_def Suc_le_eq)
  next
    fix k assume "k \<in> set (handoffs s')"
    then obtain k0 where k0: "k0 \<in> set (handoffs s)" "ho_org k = ho_org k0" "ho_task k = ho_task k0"
        "ho_offered k = ho_offered k0" "ho_role k = ho_role k0"
        "open_handoff (ho_state k) \<Longrightarrow> k = k0"
      unfolding hs by (cases rule: update_whereE) auto
    obtain v where v: "v \<in> set (tasks s)" "tk_org v = ho_org k0" "tk_id v = ho_task k0"
      using ok k0(1) unfolding hops_ok_def by blast
    show "\<exists>t\<in>set (tasks s'). tk_org t = ho_org k \<and> tk_id t = ho_task k"
      unfolding tsk bex_update_where using v k0 by (intro bexI[OF _ v(1)]) simp
    fix w assume "w \<in> set (tasks s')"
    then show "tk_org w = ho_org k \<longrightarrow> tk_id w = ho_task k \<longrightarrow> ho_offered k \<le> tk_version w \<and>
        (open_handoff (ho_state k) \<and> ho_role k = ''owner'' \<and> ho_offered k = tk_version w \<longrightarrow>
           accepted_owner_hops (ho_org k) (ho_task k) (handoffs s') < max_handoff_hops)"
      unfolding tsk
    proof (cases rule: update_whereE)
      case (hit q)
      then show ?thesis using older[OF k0(1) hit(1)] k0(2-4) by auto
    next
      case miss
      show ?thesis
      proof (intro impI)
        assume w: "tk_org w = ho_org k" "tk_id w = ho_task k"
        then have "\<not> (ho_org h = ho_org k \<and> ho_task h = ho_task k)" using miss(2) accepted(3) by auto
        then have c: "accepted_owner_hops (ho_org k) (ho_task k) (handoffs s') =
            accepted_owner_hops (ho_org k0) (ho_task k0) (handoffs s)"
          unfolding cnt k0(2,3) by auto
        show "ho_offered k \<le> tk_version w \<and>
          (open_handoff (ho_state k) \<and> ho_role k = ''owner'' \<and> ho_offered k = tk_version w \<longrightarrow>
           accepted_owner_hops (ho_org k) (ho_task k) (handoffs s') < max_handoff_hops)"
          unfolding c k0(4,5)
          using hops_okD[OF ok k0(1) miss(1)] w k0(2,3,6) by metis
      qed
    qed
  qed
qed

end
