(* ===== verification/Transition.thy ===== *)
theory Transition
  imports Prelude
begin

text \<open>
  Transition systems: the states a program can reach from its initial one by actions whose
  environment-supplied parts are legal, the rule that an invariant holds in all of them, and what
  final rows of a table gain from a step that only moves rows forward. The model's own step
  functions are instances of them in the theories \<open>System\<close>, \<open>Planning\<close>, \<open>Accounts\<close> and \<open>Platform\<close>.
\<close>

inductive reachable :: "'s \<Rightarrow> ('a \<Rightarrow> bool) \<Rightarrow> ('a \<Rightarrow> 's \<Rightarrow> 's) \<Rightarrow> 's \<Rightarrow> bool"
  for init ok step where
  reach_init: "reachable init ok step init"
| reach_step: "reachable init ok step s \<Longrightarrow> ok a \<Longrightarrow> reachable init ok step (step a s)"

inductive_cases reachable_cases: "reachable init ok step s"

fun steps :: "('a \<Rightarrow> 's \<Rightarrow> 's) \<Rightarrow> 'a list \<Rightarrow> 's \<Rightarrow> 's" where
  "steps step [] s = s"
| "steps step (a # as) s = steps step as (step a s)"

lemma reachable_run:
  "reachable init ok step s \<Longrightarrow> list_all ok as \<Longrightarrow> reachable init ok step (steps step as s)"
  by (induction as arbitrary: s) (auto intro: reach_step)

locale invariant_system =
  fixes init :: 's and ok :: "'a \<Rightarrow> bool" and step :: "'a \<Rightarrow> 's \<Rightarrow> 's" and inv :: "'s \<Rightarrow> bool"
  assumes inv_init: "inv init"
    and inv_step: "inv s \<Longrightarrow> ok a \<Longrightarrow> inv (step a s)"
begin

lemma reachable_inv: "reachable init ok step s \<Longrightarrow> inv s"
  by (induction rule: reachable.induct) (auto intro: inv_init inv_step)

lemma run_inv: "inv s \<Longrightarrow> list_all ok as \<Longrightarrow> inv (steps step as s)"
  by (induction as arbitrary: s) (auto intro: inv_step)

end

text \<open>
  A table that starts empty, whose rows are \<open>born\<close> in a first state and move along \<open>move\<close> under
  every step from an invariant state; a \<open>final\<close> row does not move any more, so it is in the table
  for good, and whatever birth gives and moves keep holds of every row.
\<close>

locale lifecycle = invariant_system init ok step inv
  for init :: 's and ok :: "'a \<Rightarrow> bool" and step :: "'a \<Rightarrow> 's \<Rightarrow> 's" and inv :: "'s \<Rightarrow> bool" +
  fixes rows :: "'s \<Rightarrow> 'r list" and move :: "'r \<Rightarrow> 'r \<Rightarrow> bool" and born :: "'r \<Rightarrow> bool"
    and final :: "'r \<Rightarrow> bool"
  assumes rows_init: "rows init = []"
    and rows_move: "inv s \<Longrightarrow> ok a \<Longrightarrow> grows move born (rows s) (rows (step a s))"
    and final_stays: "move r r' \<Longrightarrow> final r \<Longrightarrow> r' = r"
begin

lemma final_step:
  assumes "inv s" "ok a" "r \<in> set (rows s)" "final r"
  shows "r \<in> set (rows (step a s))"
  using grows_ex[OF rows_move[OF assms(1,2)] assms(3)] final_stays assms(4) by auto

lemma final_run:
  assumes "inv s" "list_all ok as" "r \<in> set (rows s)" "final r"
  shows "r \<in> set (rows (steps step as s))"
  using assms by (induction as arbitrary: s) (auto intro: inv_step final_step)

lemma rows_run:
  assumes "inv s" "list_all ok as" "r \<in> set (rows s)"
  shows "\<exists>r'\<in>set (rows (steps step as s)). move\<^sup>*\<^sup>* r r'"
  using assms
proof (induction as arbitrary: s r)
  case (Cons a as)
  obtain q where q: "q \<in> set (rows (step a s))" "move r q"
    using grows_ex[OF rows_move[of s a] Cons.prems(3)] Cons.prems(1,2) by auto
  then obtain r' where "r' \<in> set (rows (steps step (a # as) s))" "move\<^sup>*\<^sup>* q r'"
    using Cons.IH[of "step a s" q] Cons.prems(1,2) inv_step by auto
  with q(2) show ?case by (blast intro: converse_rtranclp_into_rtranclp)
qed auto

lemma rows_all:
  assumes "reachable init ok step s" "\<And>r. born r \<Longrightarrow> P r" "\<And>r r'. move r r' \<Longrightarrow> P r \<Longrightarrow> P r'"
  shows "\<forall>r\<in>set (rows s). P r"
  using assms(1)
proof (induction rule: reachable.induct)
  case (reach_step s a)
  have "grows move born (rows s) (rows (step a s))"
    using rows_move reachable_inv reach_step(1,2) by blast
  then show ?case using reach_step.IH assms(2,3) by (auto elim: grows_cases)
qed (simp add: rows_init)

end

end
