(* ===== verification/Gates.thy ===== *)
theory Gates
  imports Schema "HOL-Library.List_Lexorder" "HOL-Library.Char_ord" "HOL-Library.AList"
    "HOL-Library.Multiset"
begin

text \<open>
  Decision gates, \<^verbatim>\<open>internal/store/gates.go\<close>: the questions a run parks on, the schema of an
  accepted answer, who may read and answer them, and the resolution that resumes the run.
\<close>

section \<open>Equality of documents as values\<close>

text \<open>
  \<^verbatim>\<open>jsonEqual\<close> decodes both documents into \<^verbatim>\<open>any\<close> and compares them with \<^verbatim>\<open>reflect.DeepEqual\<close>: numbers
  are float64s, an object is a map, for which the last of several equal keys counts.
\<close>

datatype jval =
    VNull
  | VBool bool
  | VNum rat
  | VStr string
  | VArr "jval list"
  | VObj "(string \<times> jval) list"

text \<open>The entries of a Go map: one per key, the last one given.\<close>

definition last_entries :: "(string \<times> 'v) list \<Rightarrow> (string \<times> 'v) list" where
  "last_entries kvs = fold (\<lambda>(k, v). AList.update k v) kvs []"

definition as_go_map :: "(string \<times> 'v) list \<Rightarrow> (string \<times> 'v) list" where
  "as_go_map kvs = sort_key fst (last_entries kvs)"

fun decode :: "json \<Rightarrow> jval option" where
  "decode JNull = Some VNull"
| "decode (JBool b) = Some (VBool b)"
| "decode (JNum n) = map_option VNum (f64 n)"
| "decode (JStr s) = Some (VStr s)"
| "decode (JArr xs) = map_option VArr (those (map decode xs))"
| "decode (JObj kvs) =
     map_option (\<lambda>vs. VObj (as_go_map vs))
       (those (map (\<lambda>kv. map_option (Pair (fst kv)) (decode (snd kv))) kvs))"

definition json_equal :: "json option \<Rightarrow> json option \<Rightarrow> bool" where
  "json_equal a b =
     (case (Option.bind a decode, Option.bind b decode) of (Some x, Some y) \<Rightarrow> x = y | _ \<Rightarrow> False)"

section \<open>Schemas\<close>

text \<open>\<open>gf_items\<close> is the type of the items object, \<open>None\<close> for a nil pointer.\<close>

record gate_field =
  gf_type :: string
  gf_items :: "string option"

text \<open>\<open>None\<close> is a nil map.\<close>

record gate_schema =
  gs_properties :: "(string \<times> gate_field) list option"
  gs_requested :: "(string \<times> gate_field) list option"
  gs_required :: "string list"

text \<open>
  Decoding into a struct visits the keys of the object in order, matches their names ignoring
  case, lets null leave a string field unchanged and reports any other value of a wrong kind.
\<close>

fun fold_opt :: "('a \<Rightarrow> 'b \<Rightarrow> 'b option) \<Rightarrow> 'a list \<Rightarrow> 'b \<Rightarrow> 'b option" where
  "fold_opt f [] b = Some b"
| "fold_opt f (x # xs) b = (case f x b of None \<Rightarrow> None | Some b' \<Rightarrow> fold_opt f xs b')"

definition decode_string :: "json \<Rightarrow> string \<Rightarrow> string option" where
  "decode_string v old = (case v of JNull \<Rightarrow> Some old | JStr s \<Rightarrow> Some s | _ \<Rightarrow> None)"

definition decode_items :: "json \<Rightarrow> string option \<Rightarrow> string option option" where
  "decode_items v old = (case v of
       JNull \<Rightarrow> Some None
     | JObj kvs \<Rightarrow>
         map_option Some
           (fold_opt (\<lambda>(k, w) t. if to_lower k = ''type'' then decode_string w t else Some t) kvs
             (case old of None \<Rightarrow> [] | Some t \<Rightarrow> t))
     | _ \<Rightarrow> None)"

definition zero_field :: gate_field where
  "zero_field = \<lparr>gf_type = [], gf_items = None\<rparr>"

definition decode_field :: "json \<Rightarrow> gate_field option" where
  "decode_field v = (case v of
       JNull \<Rightarrow> Some zero_field
     | JObj kvs \<Rightarrow>
         fold_opt (\<lambda>(k, w) f.
           if to_lower k = ''type'' then map_option (\<lambda>t. f\<lparr>gf_type := t\<rparr>) (decode_string w (gf_type f))
           else if to_lower k = ''items''
           then map_option (\<lambda>t. f\<lparr>gf_items := t\<rparr>) (decode_items w (gf_items f))
           else Some f) kvs zero_field
     | _ \<Rightarrow> None)"

definition decode_fields ::
    "json \<Rightarrow> (string \<times> gate_field) list option \<Rightarrow> (string \<times> gate_field) list option option" where
  "decode_fields v old = (case v of
       JNull \<Rightarrow> Some None
     | JObj kvs \<Rightarrow>
         map_option Some
           (fold_opt (\<lambda>(k, w) m. map_option (\<lambda>f. AList.update k f m) (decode_field w)) kvs
             (case old of None \<Rightarrow> [] | Some m \<Rightarrow> m))
     | _ \<Rightarrow> None)"

definition parse_gate_schema :: "json \<Rightarrow> gate_schema option" where
  "parse_gate_schema v =
     (let zero = \<lparr>gs_properties = None, gs_requested = None, gs_required = []\<rparr> in
      case v of
        JNull \<Rightarrow> Some zero
      | JObj kvs \<Rightarrow>
          fold_opt (\<lambda>(k, w) c.
            if to_lower k = ''properties''
            then map_option (\<lambda>m. c\<lparr>gs_properties := m\<rparr>) (decode_fields w (gs_properties c))
            else if to_lower k = ''requested''
            then map_option (\<lambda>m. c\<lparr>gs_requested := m\<rparr>) (decode_fields w (gs_requested c))
            else if to_lower k = ''required''
            then map_option (\<lambda>r. c\<lparr>gs_required := r\<rparr>) (get_strs (Some w))
            else Some c) kvs zero
      | _ \<Rightarrow> None)"

text \<open>\<^verbatim>\<open>props := spec.Properties; if props == nil { props = spec.Requested }\<close>.\<close>

definition schema_fields :: "gate_schema \<Rightarrow> (string \<times> gate_field) list" where
  "schema_fields c =
     (case gs_properties c of Some m \<Rightarrow> m
      | None \<Rightarrow> (case gs_requested c of Some m \<Rightarrow> m | None \<Rightarrow> []))"

definition scalar_type_supported :: "string \<Rightarrow> bool" where
  "scalar_type_supported t \<longleftrightarrow> t \<in> {''string'', ''integer'', ''number'', ''boolean''}"

definition field_supported :: "gate_field \<Rightarrow> bool" where
  "field_supported f \<longleftrightarrow>
     scalar_type_supported (gf_type f) \<or>
     gf_type f = ''array'' \<and> (case gf_items f of None \<Rightarrow> False | Some t \<Rightarrow> scalar_type_supported t)"

text \<open>
  The code compares the trimmed bytes of the schema with \<open>{}\<close>. Documents have no white space here, so an empty object
  written with white space between its braces, which the code goes on to parse and refuses for its missing
  properties, is treated like \<open>{}\<close>; the same holds of the schema in \<open>validate_gate_response\<close>.
\<close>

definition validate_gate_schema :: "json option \<Rightarrow> err + unit" where
  "validate_gate_schema raw =
     (case raw of
        None \<Rightarrow> Inl GateInvalidSchema
      | Some v \<Rightarrow>
          if v = JObj [] then Inr ()
          else case parse_gate_schema v of
            None \<Rightarrow> Inl GateInvalidSchema
          | Some c \<Rightarrow>
              if schema_fields c = [] then Inl GateInvalidSchema
              else if \<not> list_all (\<lambda>(k, f). field_supported f) (schema_fields c)
              then Inl GateInvalidSchema
              else if \<not> list_all (\<lambda>k. map_of (schema_fields c) k \<noteq> None) (gs_required c)
              then Inl GateInvalidSchema
              else Inr ())"

section \<open>Answers\<close>

definition max_exact_integer :: int where
  "max_exact_integer = 2 ^ 53"

definition max_gate_array_items :: nat where
  "max_gate_array_items = 64"

text \<open>
  A \<^verbatim>\<open>json.Number\<close> is its literal: \<^verbatim>\<open>Int64\<close> reads integer literals only, \<^verbatim>\<open>Float64\<close> fails on overflow.
\<close>

definition scalar_allowed :: "json \<Rightarrow> string \<Rightarrow> bool" where
  "scalar_allowed v t =
     (if t = ''string'' then (case v of JStr _ \<Rightarrow> True | _ \<Rightarrow> False)
      else if t = ''integer''
      then (case v of JNum (IntLit i) \<Rightarrow> i \<le> max_exact_integer \<and> i \<ge> - max_exact_integer | _ \<Rightarrow> False)
      else if t = ''number'' then (case v of JNum n \<Rightarrow> f64 n \<noteq> None | _ \<Rightarrow> False)
      else if t = ''boolean'' then (case v of JBool _ \<Rightarrow> True | _ \<Rightarrow> False)
      else False)"

definition gate_value_allowed :: "json \<Rightarrow> gate_field \<Rightarrow> bool" where
  "gate_value_allowed v f =
     (if gf_type f = ''array''
      then (case gf_items f of
              None \<Rightarrow> False
            | Some t \<Rightarrow> (case v of
                JArr xs \<Rightarrow> length xs \<le> max_gate_array_items \<and> list_all (\<lambda>x. scalar_allowed x t) xs
              | _ \<Rightarrow> False))
      else scalar_allowed v (gf_type f))"

definition validate_gate_response :: "json \<Rightarrow> json option \<Rightarrow> err + unit" where
  "validate_gate_response schema response =
     (case response of
        Some (JObj kvs) \<Rightarrow>
          if schema = JObj [] then Inr ()
          else (case parse_gate_schema schema of
            None \<Rightarrow> Inl GateInvalidResponse
          | Some c \<Rightarrow>
             (let m = last_entries kvs in
              if \<not> list_all (\<lambda>(k, v). case map_of (schema_fields c) k of
                     None \<Rightarrow> False | Some f \<Rightarrow> gate_value_allowed v f) m
              then Inl GateInvalidResponse
              else if \<not> list_all (\<lambda>k. map_of m k \<noteq> None) (gs_required c)
              then Inl GateInvalidResponse
              else Inr ()))
      | _ \<Rightarrow> Inl GateInvalidResponse)"

section \<open>Operations\<close>

abbreviation find_gate :: "id \<Rightarrow> id \<Rightarrow> db \<Rightarrow> gate option" where
  "find_gate org i s \<equiv> row (\<lambda>g. gt_org g = org \<and> gt_id g = i) (gates s)"

definition list_gates :: "id \<Rightarrow> id \<Rightarrow> db \<Rightarrow> gate list" where
  "list_gates org actor s =
     sort_key (\<lambda>g. - gt_created g)
       (filter (\<lambda>g. gt_org g = org \<and> gt_status g = GPending \<and> gt_respondent g = actor) (gates s))"

definition get_gate :: "id \<Rightarrow> id \<Rightarrow> db \<Rightarrow> err + gate" where
  "get_gate org i s = (case find_gate org i s of None \<Rightarrow> Inl GateNotFound | Some g \<Rightarrow> Inr g)"

definition read_gate :: "id \<Rightarrow> id \<Rightarrow> id \<Rightarrow> db \<Rightarrow> err + gate" where
  "read_gate org i actor s =
     (case find_gate org i s of
        None \<Rightarrow> Inl GateNotFound
      | Some g \<Rightarrow>
          if gt_respondent g = actor then Inr g
          else case find_principal org actor s of
            None \<Rightarrow> Inl GateNotFound
          | Some p \<Rightarrow>
              if \<not> pr_active p then Inl GateNotFound
              else case find_task org (gt_task g) s of
                None \<Rightarrow> Inl GateNotFound
              | Some t \<Rightarrow> if pr_role p = Admin \<or> tk_owner t = actor then Inr g else Inl GateNotFound)"

text \<open>An event's identifier, and its aggregate, version and type within an organization, are unique.\<close>

definition insert_event :: "event \<Rightarrow> unit tx" where
  "insert_event e s =
     (if exists_row (\<lambda>x. ev_id x = ev_id e) (events s) \<or>
         exists_row (\<lambda>x. ev_org x = ev_org e \<and> ev_aggregate x = ev_aggregate e \<and>
                         ev_version x = ev_version e \<and> ev_type x = ev_type e) (events s)
      then Inl Constraint
      else Inr ((), s\<lparr>events := events s @ [e]\<rparr>))"

definition enqueue_agent_run :: "id \<Rightarrow> id \<Rightarrow> db \<Rightarrow> db" where
  "enqueue_agent_run org run s = s\<lparr>run_jobs := run_jobs s @ [(org, run)]\<rparr>"

text \<open>The run that waits on a gate goes back to the queue, with a job for it.\<close>

definition waits_on :: "id \<Rightarrow> id \<Rightarrow> id \<Rightarrow> agent_run \<Rightarrow> bool" where
  "waits_on org run gate r \<longleftrightarrow>
     ru_org r = org \<and> ru_id r = run \<and> ru_status r = RWaiting \<and> ru_gate r = Some gate"

definition requeue :: "agent_run \<Rightarrow> agent_run" where
  "requeue r = r\<lparr>ru_status := RQueued, ru_token := [], ru_lease := None\<rparr>"

definition resume_run :: "id \<Rightarrow> id \<Rightarrow> id \<Rightarrow> db \<Rightarrow> db" where
  "resume_run org run gate s =
     (let s' = s\<lparr>agent_runs := update_where (waits_on org run gate) requeue (agent_runs s)\<rparr>
      in if rows_affected (waits_on org run gate) (agent_runs s) = 1
         then enqueue_agent_run org run s' else s')"

definition resolve_gate :: "id \<Rightarrow> id \<Rightarrow> id \<Rightarrow> id \<Rightarrow> int \<Rightarrow> json option \<Rightarrow> time \<Rightarrow> gate tx" where
  "resolve_gate eid org i actor rv response now s =
     (case find_gate org i s of
        None \<Rightarrow> Inl GateNotFound
      | Some g \<Rightarrow>
          if (case find_principal org actor s of None \<Rightarrow> True | Some p \<Rightarrow> \<not> pr_active p) \<or>
             gt_respondent g \<noteq> actor
          then Inl GateNotRespondent
          else if gt_status g = GResolved
          then (if gt_responded_by g = Some actor \<and> json_equal (gt_response g) response
                then Inr (g, s) else Inl GateAlreadyResolved)
          else if gt_status g \<noteq> GPending then Inl GateAlreadyResolved
          else if gt_revision g \<noteq> rv then Inl GateRevision
          else (case validate_gate_response (gt_schema g) response of
            Inl e \<Rightarrow> Inl e
          | Inr _ \<Rightarrow>
             (let s1 = s\<lparr>gates := update_where (\<lambda>g. gt_org g = org \<and> gt_id g = i)
                        (\<lambda>g. g\<lparr>gt_status := GResolved, gt_response := response,
                               gt_responded_by := Some actor, gt_responded_at := Some now,
                               gt_version := gt_version g + 1\<rparr>) (gates s)\<rparr>;
                  s2 = (case gt_run g of None \<Rightarrow> s1 | Some run \<Rightarrow> resume_run org run i s1)
              in case insert_event \<lparr>ev_id = eid, ev_org = org, ev_aggregate = i,
                        ev_version = gt_version g + 1, ev_type = ''gate.resolved'', ev_actor = actor,
                        ev_payload = the response\<rparr> s2 of
                   Inl e \<Rightarrow> Inl e
                 | Inr (_, s3) \<Rightarrow>
                     (case get_gate org i s3 of Inl e \<Rightarrow> Inl e | Inr g' \<Rightarrow> Inr (g', s3)))))"

section \<open>Decoded documents\<close>

lemma fold_opt_inv:
  assumes "fold_opt f xs b = Some b'" "P b" "\<And>x b b'. P b \<Longrightarrow> f x b = Some b' \<Longrightarrow> P b'"
  shows "P b'"
  using assms(1,2)
proof (induction xs arbitrary: b)
  case (Cons x xs)
  then obtain c where "f x b = Some c" "fold_opt f xs c = Some b'" by (auto split: option.splits)
  then show ?case using Cons.IH assms(3) Cons.prems(2) by blast
qed simp

lemma update_new: "k \<notin> fst ` set m \<Longrightarrow> AList.update k v m = m @ [(k, v)]"
  by (induction m) auto

lemma last_entries_append:
  "distinct (map fst (m @ kvs)) \<Longrightarrow> fold (\<lambda>(k, v). AList.update k v) kvs m = m @ kvs"
proof (induction kvs arbitrary: m)
  case (Cons kv kvs)
  then show ?case using Cons.IH[of "m @ [kv]"] by (cases kv) (simp add: update_new)
qed simp

lemma last_entries_distinct: "distinct (map fst kvs) \<Longrightarrow> last_entries kvs = kvs"
  using last_entries_append[of "[]" kvs] by (simp add: last_entries_def)

text \<open>A permutation of the entries of a map is the same map.\<close>

lemma as_go_map_perm:
  assumes "distinct (map fst a)" "mset a = mset b"
  shows "as_go_map a = as_go_map b"
proof -
  have "distinct (map fst b)" using assms mset_map[of fst a] mset_map[of fst b]
    by (metis distinct_count_atmost_1 set_mset_mset)
  moreover have "sort_key fst a = sort_key fst b"
  proof (rule sort_key_inj_key_eq)
    show "mset a = mset (sort_key fst b)" using assms(2) by simp
    show "inj_on fst (set a)" using assms(1) by (simp add: distinct_map)
  qed simp
  ultimately show ?thesis using assms(1) by (simp add: as_go_map_def last_entries_distinct)
qed

lemma those_Some: "those xs = Some ys \<longleftrightarrow> xs = map Some ys"
  by (induction xs arbitrary: ys) (auto split: option.splits simp: Cons_eq_map_conv)

lemma those_mset:
  assumes "mset xs = mset ys" "those xs = Some zs"
  shows "\<exists>ws. those ys = Some ws \<and> mset ws = mset zs"
proof -
  have "mset ys = image_mset Some (mset zs)" using assms by (simp add: those_Some)
  then have "set ys \<subseteq> range Some" by (metis image_subset_iff rangeI set_image_mset set_mset_mset)
  then obtain ws where ws: "ys = map Some ws"
    by (metis ex_map_conv image_iff subset_iff)
  then have "image_mset Some (mset ws) = image_mset Some (mset zs)"
    using \<open>mset ys = image_mset Some (mset zs)\<close> by simp
  then have "image_mset the (image_mset Some (mset ws)) = image_mset the (image_mset Some (mset zs))"
    by simp
  then have "mset ws = mset zs" by (simp add: multiset.map_comp comp_def)
  with ws show ?thesis by (auto simp: those_Some)
qed

text \<open>What jsonb does to an object: its entries come back in another order.\<close>

lemma decode_reordered:
  assumes "mset a = mset b" "distinct (map fst a)" "decode (JObj a) \<noteq> None"
  shows "decode (JObj b) = decode (JObj a)"
proof -
  let ?f = "\<lambda>kv. map_option (Pair (fst kv)) (decode (snd kv))"
  obtain zs where zs: "those (map ?f a) = Some zs" using assms(3) by auto
  have "mset (map ?f a) = mset (map ?f b)" using assms(1) by simp
  then obtain ws where ws: "those (map ?f b) = Some ws" "mset ws = mset zs"
    using those_mset zs by blast
  have "map Some zs = map ?f a" using zs by (simp add: those_Some)
  then have "map (fst \<circ> the) (map Some zs) = map fst a"
    by (auto simp: list_eq_iff_nth_eq map_option_case split: option.splits)
  then have "distinct (map fst zs)" using assms(2) by (simp add: comp_def)
  then show ?thesis using as_go_map_perm[of zs ws] ws zs by simp
qed

section \<open>Schemas that can be answered\<close>

text \<open>The fields of a parsed schema have different names.\<close>

definition distinct_fields :: "(string \<times> gate_field) list option \<Rightarrow> bool" where
  "distinct_fields m \<longleftrightarrow> (case m of None \<Rightarrow> True | Some kfs \<Rightarrow> distinct (map fst kfs))"

lemma distinct_fields_simps [simp]:
  "distinct_fields None" "distinct_fields (Some kfs) \<longleftrightarrow> distinct (map fst kfs)"
  by (simp_all add: distinct_fields_def)

lemma decode_fields_distinct:
  assumes "decode_fields v old = Some m" "distinct_fields old"
  shows "distinct_fields m"
proof (cases v)
  case (JObj kvs)
  let ?f = "\<lambda>(k, w) m. map_option (\<lambda>f. AList.update k f m) (decode_field w)"
  obtain kfs where kfs: "fold_opt ?f kvs (case old of None \<Rightarrow> [] | Some m \<Rightarrow> m) = Some kfs" "m = Some kfs"
    using assms(1) by (auto simp: decode_fields_def JObj)
  have "distinct (map fst kfs)"
    by (rule fold_opt_inv[where P = "\<lambda>m. distinct (map fst m)", OF kfs(1)])
       (use assms(2) in \<open>auto split: option.splits simp: distinct_update\<close>)
  with kfs(2) show ?thesis by simp
qed (use assms in \<open>auto simp: decode_fields_def\<close>)

lemma parse_distinct:
  assumes "parse_gate_schema v = Some c"
  shows "distinct (map fst (schema_fields c))"
proof -
  let ?P = "\<lambda>c. distinct_fields (gs_properties c) \<and> distinct_fields (gs_requested c)"
  have "?P c"
  proof (cases v)
    case (JObj kvs)
    note d = assms[unfolded parse_gate_schema_def Let_def JObj json.simps]
    show ?thesis
      by (rule fold_opt_inv[where P = ?P, OF d])
         (auto split: if_split_asm, (erule decode_fields_distinct, assumption)+)
  qed (use assms in \<open>auto simp: parse_gate_schema_def\<close>)
  then show ?thesis by (auto simp: schema_fields_def split: option.splits)
qed

text \<open>An answer to every field.\<close>

definition sample_value :: "gate_field \<Rightarrow> json" where
  "sample_value f =
     (if gf_type f = ''string'' then JStr []
      else if gf_type f = ''array'' then JArr []
      else if gf_type f = ''boolean'' then JBool False
      else JNum (IntLit 0))"

definition sample_answer :: "gate_schema \<Rightarrow> jmap" where
  "sample_answer c = map (\<lambda>(k, f). (k, sample_value f)) (schema_fields c)"

lemma f64_zero [simp]: "f64 (IntLit 0) = Some 0"
  by (simp add: f64_int_exact)

lemma sample_value_allowed: "field_supported f \<Longrightarrow> gate_value_allowed (sample_value f) f"
  by (auto simp: field_supported_def scalar_type_supported_def gate_value_allowed_def sample_value_def
      scalar_allowed_def max_exact_integer_def split: option.splits)

lemma fst_sample [simp]: "map fst (sample_answer c) = map fst (schema_fields c)"
  by (simp add: sample_answer_def case_prod_unfold comp_def)

lemma last_entries_sample:
  "parse_gate_schema v = Some c \<Longrightarrow> last_entries (sample_answer c) = sample_answer c"
  by (simp add: last_entries_distinct parse_distinct)

lemma sample_accepted:
  assumes "parse_gate_schema v = Some c" "validate_gate_schema (Some v) = Inr ()" "v \<noteq> JObj []"
  shows "validate_gate_response v (Some (JObj (sample_answer c))) = Inr ()"
proof -
  have d: "distinct (map fst (schema_fields c))" using parse_distinct assms(1) .
  have ok: "list_all (\<lambda>(k, f). field_supported f) (schema_fields c)"
    "list_all (\<lambda>k. map_of (schema_fields c) k \<noteq> None) (gs_required c)"
    using assms by (auto simp: validate_gate_schema_def split: if_split_asm)
  have 1: "list_all (\<lambda>(k, v). case map_of (schema_fields c) k of
      None \<Rightarrow> False | Some f \<Rightarrow> gate_value_allowed v f) (sample_answer c)"
    unfolding list_all_iff
  proof
    fix kv assume "kv \<in> set (sample_answer c)"
    then obtain k f where kv: "kv = (k, sample_value f)" "(k, f) \<in> set (schema_fields c)"
      by (auto simp: sample_answer_def)
    then have "map_of (schema_fields c) k = Some f" "field_supported f"
      using d ok(1) by (auto simp: list_all_iff)
    with kv(1) show "case kv of (k, v) \<Rightarrow> case map_of (schema_fields c) k of
        None \<Rightarrow> False | Some f \<Rightarrow> gate_value_allowed v f" by (simp add: sample_value_allowed)
  qed
  have 2: "list_all (\<lambda>k. map_of (sample_answer c) k \<noteq> None) (gs_required c)"
    using ok(2) by (simp add: list_all_iff map_of_eq_None_iff flip: set_map)
  show ?thesis using assms(1,3) 1 2 by (simp add: validate_gate_response_def Let_def last_entries_sample)
qed

text \<open>An accepted answer binds every required field and only declared ones, to allowed values.\<close>

lemma accepted_iff:
  assumes "v \<noteq> JObj []"
  shows "validate_gate_response v (Some (JObj kvs)) = Inr () \<longleftrightarrow>
    (\<exists>c. parse_gate_schema v = Some c \<and>
       (\<forall>(k, x)\<in>set (last_entries kvs). \<exists>f. map_of (schema_fields c) k = Some f \<and> gate_value_allowed x f) \<and>
       set (gs_required c) \<subseteq> dom (map_of (last_entries kvs)))"
proof (cases "parse_gate_schema v")
  case (Some c)
  have "(case map_of (schema_fields c) k of None \<Rightarrow> False | Some f \<Rightarrow> gate_value_allowed x f) \<longleftrightarrow>
      (\<exists>f. map_of (schema_fields c) k = Some f \<and> gate_value_allowed x f)" for k x
    by (simp split: option.split)
  then show ?thesis using assms
    by (auto simp: validate_gate_response_def Let_def Some list_all_iff subset_iff dom_def split_beta)
qed (use assms in \<open>simp add: validate_gate_response_def\<close>)

lemma response_object: "validate_gate_response v r = Inr () \<Longrightarrow> \<exists>kvs. r = Some (JObj kvs)"
  by (auto simp: validate_gate_response_def split: option.splits json.splits)

lemma bit_len_pow: "bit_len (2 ^ k) = Suc k"
proof (induction k)
  case 0
  have "bit_len 0 = 0" by (subst bit_len.simps) simp
  then show ?case by (subst bit_len.simps) simp
next
  case (Suc k)
  then show ?case by (subst bit_len.simps) simp
qed

lemma floor_log2_pow: "floor_log2 (2 ^ k) = int k"
proof -
  have "\<lfloor>(2 :: rat) ^ k\<rfloor> = 2 ^ k" using floor_of_int[of "2 ^ k", where ?'a = rat] by simp
  then have "nat \<lfloor>(2 :: rat) ^ k\<rfloor> = 2 ^ k" by (simp add: nat_power_eq)
  moreover have "(1 :: rat) \<le> 2 ^ k" by simp
  ultimately show ?thesis unfolding floor_log2_def by (simp only: bit_len_pow if_True)
qed

lemma f64_pow53: "f64 (IntLit (2 ^ 53)) = Some (2 ^ 53)" "f64 (IntLit (- (2 ^ 53))) = Some (- (2 ^ 53))"
proof -
  have l: "floor_log2 9007199254740992 = 53" using floor_log2_pow[of 53] by simp
  have "round_half_even 4503599627370496 = 4503599627370496"
    "round_half_even (- 4503599627370496) = - 4503599627370496"
    using round_half_even_of_int[of 4503599627370496] round_half_even_of_int[of "- 4503599627370496"] by simp_all
  moreover have "\<not> (2 :: rat) ^ 1024 \<le> 9007199254740992"
    using power_strict_increasing[of 53 1024 "2 :: rat"] by simp
  ultimately show "f64 (IntLit (2 ^ 53)) = Some (2 ^ 53)"
    "f64 (IntLit (- (2 ^ 53))) = Some (- (2 ^ 53))"
    using l by (simp_all add: f64_def num_rat_def pow2_def)
qed
lemma f64_above_pow53: "f64 (IntLit (2 ^ 53 + 1)) = Some (2 ^ 53)"
proof -
  have "bit_len 9007199254740993 = 54" by (simp add: bit_len.simps)
  then have l: "floor_log2 9007199254740993 = 53" by (simp add: floor_log2_def)
  have "\<lfloor>9007199254740993 / 2 :: rat\<rfloor> = 4503599627370496" by (simp add: floor_eq_iff)
  then have "round_half_even (9007199254740993 / 2) = 4503599627370496"
    by (simp add: round_half_even_def)
  moreover have "\<not> (2 :: rat) ^ 1024 \<le> 9007199254740992"
    using power_strict_increasing[of 53 1024 "2 :: rat"] by simp
  ultimately show ?thesis using l by (simp add: f64_def num_rat_def pow2_def)
qed

lemma f64_max_exact:
  assumes "\<bar>i\<bar> \<le> max_exact_integer"
  shows "f64 (IntLit i) = Some (of_int i)"
proof (cases "\<bar>i\<bar> = max_exact_integer")
  case True
  then have "i = 2 ^ 53 \<or> i = - (2 ^ 53)" by (auto simp: max_exact_integer_def abs_if split: if_splits)
  then show ?thesis using f64_pow53 by auto
next
  case False
  then show ?thesis using assms by (intro f64_int_exact) (simp add: max_exact_integer_def)
qed

section \<open>Resolution\<close>

lemma resume_run_tables [simp]:
  "gates (resume_run org run g s) = gates s" "principals (resume_run org run g s) = principals s"
  "tasks (resume_run org run g s) = tasks s" "proposals (resume_run org run g s) = proposals s"
  by (simp_all add: resume_run_def Let_def enqueue_agent_run_def)

lemma insert_event_ok:
  "insert_event e s = Inr (u, s') \<Longrightarrow> s' = s\<lparr>events := events s @ [e]\<rparr>"
  by (auto simp: insert_event_def split: if_split_asm)

definition answered :: "json option \<Rightarrow> id \<Rightarrow> time \<Rightarrow> gate \<Rightarrow> gate" where
  "answered r actor now g = g\<lparr>gt_status := GResolved, gt_response := r, gt_responded_by := Some actor,
     gt_responded_at := Some now, gt_version := gt_version g + 1\<rparr>"

lemma resolve_gate_cases:
  assumes "resolve_gate eid org i actor rv response now s = Inr (g', s')"
  obtains (replay) "find_gate org i s = Some g'" "gt_status g' = GResolved" "s' = s"
      "gt_responded_by g' = Some actor" "json_equal (gt_response g') response"
      "gt_respondent g' = actor" "\<exists>p. find_principal org actor s = Some p \<and> pr_active p"
  | (resolved) g where "find_gate org i s = Some g" "gt_status g = GPending" "gt_respondent g = actor"
      "\<exists>p. find_principal org actor s = Some p \<and> pr_active p" "gt_revision g = rv"
      "validate_gate_response (gt_schema g) response = Inr ()" "g' = answered response actor now g"
      "s' = (let s1 = s\<lparr>gates := update_where (\<lambda>g. gt_org g = org \<and> gt_id g = i)
                         (answered response actor now) (gates s)\<rparr>;
                 s2 = (case gt_run g of None \<Rightarrow> s1 | Some run \<Rightarrow> resume_run org run i s1)
             in s2\<lparr>events := events s2 @ [\<lparr>ev_id = eid, ev_org = org, ev_aggregate = i,
                  ev_version = gt_version g + 1, ev_type = ''gate.resolved'', ev_actor = actor,
                  ev_payload = the response\<rparr>]\<rparr>)"
proof -
  note d = assms[unfolded resolve_gate_def Let_def, folded answered_def]
  obtain g where g: "find_gate org i s = Some g" using d by (auto split: option.splits)
  have act: "\<exists>p. find_principal org actor s = Some p \<and> pr_active p" "gt_respondent g = actor"
    using d g by (auto split: option.splits if_split_asm)
  show thesis
  proof (cases "gt_status g = GResolved")
    case True
    show thesis by (rule replay) (use d g act True in \<open>auto split: option.splits if_split_asm\<close>)
  next
    case False
    have p: "gt_status g = GPending" "gt_revision g = rv"
      "validate_gate_response (gt_schema g) response = Inr ()"
      using d g act False by (auto split: option.splits if_split_asm sum.splits)
    let ?s1 = "s\<lparr>gates := update_where (\<lambda>g. gt_org g = org \<and> gt_id g = i)
        (answered response actor now) (gates s)\<rparr>"
    let ?s2 = "case gt_run g of None \<Rightarrow> ?s1 | Some run \<Rightarrow> resume_run org run i ?s1"
    let ?e = "\<lparr>ev_id = eid, ev_org = org, ev_aggregate = i, ev_version = gt_version g + 1,
        ev_type = ''gate.resolved'', ev_actor = actor, ev_payload = the response\<rparr>"
    obtain u s3 where e: "insert_event ?e ?s2 = Inr (u, s3)" "get_gate org i s3 = Inr g'" "s' = s3"
      using d g act p by (auto split: option.splits sum.splits prod.splits if_split_asm simp: answered_def)
    have s3: "s3 = ?s2\<lparr>events := events ?s2 @ [?e]\<rparr>" using insert_event_ok[OF e(1)] .
    have "gates s3 = gates ?s1" by (simp add: s3 split: option.split)
    moreover have "find_gate org i ?s1 = Some (answered response actor now g)"
      using row_SomeD[OF g] by (simp add: row_update_where_same answered_def g)
    ultimately have "g' = answered response actor now g" using e(2) by (simp add: get_gate_def)
    then show thesis using resolved[OF g p(1) act(2,1) p(2,3)] e(3) s3 by (simp add: Let_def)
  qed
qed

lemma resolve_replays:
  assumes "find_gate org i s = Some g" "gt_status g = GResolved" "gt_responded_by g = Some actor"
    "gt_respondent g = actor" "\<exists>p. find_principal org actor s = Some p \<and> pr_active p"
  shows "resolve_gate eid org i actor rv r now s =
    (if json_equal (gt_response g) r then Inr (g, s) else Inl GateAlreadyResolved)"
  using assms by (auto simp: resolve_gate_def)

lemma resolve_gate_find:
  assumes "resolve_gate eid org i actor rv response now s = Inr (g', s')"
  shows "find_gate org i s' = Some g'" "principals s' = principals s" "gt_status g' = GResolved"
    "gt_responded_by g' = Some actor" "gt_respondent g' = actor"
    "\<exists>p. find_principal org actor s' = Some p \<and> pr_active p"
proof -
  have "find_gate org i s' = Some g' \<and> principals s' = principals s \<and> gt_status g' = GResolved \<and>
      gt_responded_by g' = Some actor \<and> gt_respondent g' = actor \<and>
      (\<exists>p. find_principal org actor s' = Some p \<and> pr_active p)"
    using assms
  proof (cases rule: resolve_gate_cases)
    case (resolved g)
    have "gates s' = update_where (\<lambda>g. gt_org g = org \<and> gt_id g = i) (answered response actor now) (gates s)"
      "principals s' = principals s"
      by (simp_all add: resolved(8) Let_def split: option.split)
    moreover have "row (\<lambda>g. gt_org g = org \<and> gt_id g = i)
        (update_where (\<lambda>g. gt_org g = org \<and> gt_id g = i) (answered response actor now) (gates s)) = Some g'"
      using row_SomeD[OF resolved(1)] by (simp add: row_update_where_same answered_def resolved(1,7))
    ultimately show ?thesis using resolved(3,4,7) by (simp add: answered_def)
  qed simp
  then show "find_gate org i s' = Some g'" "principals s' = principals s" "gt_status g' = GResolved"
    "gt_responded_by g' = Some actor" "gt_respondent g' = actor"
    "\<exists>p. find_principal org actor s' = Some p \<and> pr_active p"
    by blast+
qed

section \<open>Properties\<close>

definition demo_schema :: json where
  "demo_schema = JObj [(''properties'', JObj [(''quantity'', JObj [(''type'', JStr ''integer'')]),
      (''recipients'', JObj [(''type'', JStr ''array''), (''items'', JObj [(''type'', JStr ''string'')])])]),
    (''required'', JArr [JStr ''quantity''])]"

definition demo_answer :: "jmap" where
  "demo_answer = [(''recipients'', JArr [JStr ''x'']), (''quantity'', JNum (IntLit 7))]"

lemma demo_schema_ok: "validate_gate_schema (Some demo_schema) = Inr ()"
  by code_simp

lemma demo_answer_ok: "validate_gate_response demo_schema (Some (JObj demo_answer)) = Inr ()"
  by code_simp



text \<open>
  An integer a person answers is recorded exactly: in an accepted answer the value of a field
  of type integer is an integer literal that float64 represents, so decoding the stored answer
  later gives the number the person chose.
\<close>

lemma accepted_integer_exact:
  assumes "validate_gate_response v (Some (JObj kvs)) = Inr ()" "parse_gate_schema v = Some c"
    "v \<noteq> JObj []" "map_of (schema_fields c) k = Some f" "gf_type f = ''integer''"
    "map_of (last_entries kvs) k = Some x"
  shows "\<exists>i. x = JNum (IntLit i) \<and> \<bar>i\<bar> \<le> 2 ^ 53 \<and> f64 (IntLit i) = Some (of_int i)"
proof -
  have "(k, x) \<in> set (last_entries kvs)" using assms(6) by (rule map_of_SomeD)
  then have "gate_value_allowed x f"
    using assms(1,2,4) by (auto simp: accepted_iff[OF assms(3)] split_beta)
  then obtain i where "x = JNum (IntLit i)" "\<bar>i\<bar> \<le> max_exact_integer"
    using assms(5) by (auto simp: gate_value_allowed_def scalar_allowed_def abs_le_iff
        split: json.splits jnum.splits)
  then show ?thesis using f64_max_exact by (auto simp: max_exact_integer_def)
qed

lemma accepted_integer_exact_witness:
  "\<exists>i. JNum (IntLit 7) = JNum (IntLit i) \<and> \<bar>i\<bar> \<le> 2 ^ 53 \<and> f64 (IntLit i) = Some (of_int i)"
proof (rule accepted_integer_exact[OF demo_answer_ok, where f = "\<lparr>gf_type = ''integer'', gf_items = None\<rparr>"])
  show "parse_gate_schema demo_schema = Some
      \<lparr>gs_properties = Some [(''quantity'', \<lparr>gf_type = ''integer'', gf_items = None\<rparr>),
          (''recipients'', \<lparr>gf_type = ''array'', gf_items = Some ''string''\<rparr>)],
        gs_requested = None, gs_required = [''quantity'']\<rparr>" by code_simp
  show "map_of (last_entries demo_answer) ''quantity'' = Some (JNum (IntLit 7))" by code_simp
qed (simp_all add: demo_schema_def schema_fields_def)

text \<open>
  Reading a gate: the respondent, the owner of its task and active administrators of the
  organization get it, everybody else gets the error a missing gate gives, so that an outsider
  cannot tell whether it exists.
\<close>

lemma read_gate_entitled:
  "read_gate org i actor s =
     (case find_gate org i s of
        None \<Rightarrow> Inl GateNotFound
      | Some g \<Rightarrow>
          if gt_respondent g = actor \<or>
             (\<exists>p t. find_principal org actor s = Some p \<and> pr_active p \<and>
                find_task org (gt_task g) s = Some t \<and> (pr_role p = Admin \<or> tk_owner t = actor))
          then Inr g else Inl GateNotFound)"
  by (auto simp: read_gate_def split: option.splits)

end
