(* ===== verification/Registry.thy ===== *)
theory Registry
  imports Schema Transition "HOL-Library.List_Lexorder" "HOL-Library.Char_ord"
begin

text \<open>
  The release registry: the lifecycle graph of \<^verbatim>\<open>internal/registry/registry.go\<close> and the operations of
  \<^verbatim>\<open>internal/store/registry.go\<close>. A release is submitted in quarantine, an administrator moves it
  along the graph, at most one release of a family is active, and activation turns what the
  release requested into grants.
\<close>

section \<open>The lifecycle graph\<close>

definition registry_transitions :: "(string \<times> string list) list" where
  "registry_transitions =
     [(''quarantined'', [''verified'']), (''verified'', [''approved'']), (''approved'', [''installed'']),
      (''installed'', [''active'']), (''active'', [''draining'', ''revoked'']),
      (''draining'', [''disabled'']), (''disabled'', [''active'']), (''revoked'', [])]"

definition can_transition :: "string \<Rightarrow> string \<Rightarrow> bool" where
  "can_transition src target =
     (case map_of registry_transitions src of None \<Rightarrow> False | Some ts \<Rightarrow> target \<in> set ts)"

definition can_transition_as :: "string \<Rightarrow> string \<Rightarrow> bool" where
  "can_transition_as role target = (if target = [] then False else role = ''admin'')"

section \<open>Operations\<close>

record registry_create =
  rq_family :: string
  rq_kind :: string
  rq_version :: string
  rq_digest :: string
  rq_manifest :: "json option"
  rq_requested :: "string list"
  rq_granted :: "string list"
  rq_compat :: string
  rq_simulation :: bool

definition release_kinds :: "string list" where
  "release_kinds = [''connector'', ''harness'', ''renderer'', ''automation'']"

definition create_registry_release :: "id \<Rightarrow> id \<Rightarrow> id \<Rightarrow> registry_create \<Rightarrow> time \<Rightarrow> release tx" where
  "create_registry_release i org actor q now s =
     (if exists_row (\<lambda>r. rr_org r = org \<and> rr_id r = i) (releases s) \<or>
         exists_row (\<lambda>r. rr_org r = org \<and> rr_family r = rq_family q \<and> rr_version r = rq_version q) (releases s) \<or>
         rq_kind q \<notin> set release_kinds \<or> find_principal org actor s = None
      then Inl Constraint
      else
       (let r = \<lparr>rr_id = i, rr_org = org, rr_family = rq_family q, rr_kind = rq_kind q,
                 rr_version = rq_version q, rr_digest = rq_digest q, rr_state = ''quarantined'',
                 rr_manifest = (case rq_manifest q of None \<Rightarrow> JObj [] | Some m \<Rightarrow> m),
                 rr_requested = rq_requested q, rr_granted = [], rr_compat = rq_compat q,
                 rr_simulation = rq_simulation q, rr_created_by = actor, rr_revision = 1,
                 rr_created = now, rr_updated = now\<rparr>
        in Inr (r, s\<lparr>releases := releases s @ [r]\<rparr>)))"

definition list_registry_releases :: "id \<Rightarrow> db \<Rightarrow> release list" where
  "list_registry_releases org s =
     sort_key rr_created (sort_key rr_id (filter (\<lambda>r. rr_org r = org) (releases s)))"

definition get_registry_release :: "id \<Rightarrow> id \<Rightarrow> db \<Rightarrow> err + release" where
  "get_registry_release org i s = (case find_release org i s of None \<Rightarrow> Inl NoRows | Some r \<Rightarrow> Inr r)"

definition activate :: "time \<Rightarrow> release \<Rightarrow> release" where
  "activate now r = r\<lparr>rr_state := ''active'', rr_revision := rr_revision r + 1, rr_updated := now,
     rr_granted := sort (remdups (rr_requested r @ rr_granted r))\<rparr>"

definition enter_state :: "string \<Rightarrow> time \<Rightarrow> release \<Rightarrow> release" where
  "enter_state target now r =
     r\<lparr>rr_state := target, rr_revision := rr_revision r + 1, rr_updated := now\<rparr>"

text \<open>The partial unique index \<^verbatim>\<open>registry_active_family\<close>.\<close>

definition active_family :: "id \<Rightarrow> string \<Rightarrow> release \<Rightarrow> bool" where
  "active_family org fam r \<longleftrightarrow> rr_org r = org \<and> rr_family r = fam \<and> rr_state r = ''active''"

definition transition_registry_release ::
    "id \<Rightarrow> id \<Rightarrow> string \<Rightarrow> string \<Rightarrow> int \<Rightarrow> time \<Rightarrow> release tx" where
  "transition_registry_release org i role target expected now s =
     (case find_release org i s of
        None \<Rightarrow> Inl NoRows
      | Some r \<Rightarrow>
          if \<not> can_transition (rr_state r) target
          then Inl (Msg ''invalid registry lifecycle transition'')
          else if \<not> can_transition_as role target
          then Inl (Msg ''admin role required for this transition'')
          else if rr_revision r \<noteq> expected then Inl (Msg ''registry version conflict'')
          else if target = ''active'' \<and> exists_row (active_family org (rr_family r)) (releases s)
          then Inl Constraint
          else
           (let P = (\<lambda>r. rr_org r = org \<and> rr_id r = i \<and> rr_revision r = expected);
                f = (if target = ''active'' then activate now else enter_state target now);
                s' = s\<lparr>releases := update_where P f (releases s)\<rparr>
            in case get_registry_release org i s' of Inl e \<Rightarrow> Inl e | Inr r' \<Rightarrow> Inr (r', s')))"

text \<open>\<^verbatim>\<open>GrantRegistryCapabilities\<close> of \<^verbatim>\<open>internal/store/capabilities.go\<close>.\<close>

definition contains_cap :: "string list \<Rightarrow> string \<Rightarrow> bool" where
  "contains_cap xs c \<longleftrightarrow> c \<in> set xs"

fun merge_caps :: "string list \<Rightarrow> string list \<Rightarrow> string list" where
  "merge_caps merged [] = merged"
| "merge_caps merged (c # cs) =
     merge_caps (if contains_cap merged c then merged else merged @ [c]) cs"

definition grant_registry_capabilities ::
    "id \<Rightarrow> string \<Rightarrow> id \<Rightarrow> string list \<Rightarrow> int \<Rightarrow> time \<Rightarrow> release tx" where
  "grant_registry_capabilities org role i caps expected now s =
     (if role \<noteq> ''admin'' then Inl (Msg ''admin role required to grant capabilities'')
      else if caps = [] then Inl (Msg ''no capabilities supplied'')
      else case find_release org i s of
        None \<Rightarrow> Inl NoRows
      | Some r \<Rightarrow>
          if rr_revision r \<noteq> expected then Inl (Msg ''registry version conflict'')
          else
           (let r' = r\<lparr>rr_granted := sort (merge_caps (rr_granted r) caps),
                      rr_revision := rr_revision r + 1, rr_updated := now\<rparr>
            in Inr (r', s\<lparr>releases := update_where (\<lambda>r. rr_org r = org \<and> rr_id r = i)
                            (\<lambda>_. r') (releases s)\<rparr>)))"

section \<open>What the operations keep\<close>

definition release_keys :: "release list \<Rightarrow> bool" where
  "release_keys rs \<longleftrightarrow> distinct (map (\<lambda>r. (rr_org r, rr_id r)) rs)"

text \<open>At most one active release per family.\<close>

definition one_active :: "release list \<Rightarrow> bool" where
  "one_active rs \<longleftrightarrow> (\<forall>a\<in>set rs. \<forall>b\<in>set rs. rr_state a = ''active'' \<longrightarrow> rr_state b = ''active'' \<longrightarrow>
     rr_org a = rr_org b \<longrightarrow> rr_family a = rr_family b \<longrightarrow> a = b)"

definition registry_ok :: "db \<Rightarrow> bool" where
  "registry_ok s \<longleftrightarrow> release_keys (releases s) \<and> one_active (releases s)"

text \<open>
  How a release moves: along the graph or staying, its revision counting the change, its identity
  and what it requested fixed, its grants only growing.
\<close>

definition release_move :: "release \<Rightarrow> release \<Rightarrow> bool" where
  "release_move r q \<longleftrightarrow> q = r \<or>
     (q = r\<lparr>rr_state := rr_state q, rr_revision := rr_revision r + 1, rr_updated := rr_updated q,
            rr_granted := rr_granted q\<rparr> \<and>
      (rr_state q = rr_state r \<or> can_transition (rr_state r) (rr_state q)) \<and>
      set (rr_granted r) \<subseteq> set (rr_granted q) \<and>
      (rr_state q = ''active'' \<and> rr_state r \<noteq> ''active'' \<longrightarrow> set (rr_requested r) \<subseteq> set (rr_granted q)))"

definition release_born :: "release \<Rightarrow> bool" where
  "release_born r \<longleftrightarrow> rr_state r = ''quarantined'' \<and> rr_granted r = [] \<and> rr_revision r = 1"

abbreviation releases_move :: "db \<Rightarrow> db \<Rightarrow> bool" where
  "releases_move s s' \<equiv> grows release_move release_born (releases s) (releases s')"

lemma release_move_refl [simp]: "release_move r r"
  by (simp add: release_move_def)

lemma set_merge_caps [simp]: "set (merge_caps m cs) = set m \<union> set cs"
  by (induction m cs rule: merge_caps.induct) (auto simp: contains_cap_def)

lemma can_transition_simps [simp]: "\<not> can_transition ''revoked'' x" "\<not> can_transition src ''quarantined''"
  by (simp_all add: can_transition_def registry_transitions_def)

lemma can_transition_neq: "can_transition a b \<Longrightarrow> a \<noteq> b"
  by (auto simp: can_transition_def registry_transitions_def split: if_split_asm)

lemma transition_ok:
  assumes "transition_registry_release org i role target expected now s = Inr (q, s')"
  obtains r where "find_release org i s = Some r" "can_transition (rr_state r) target" "role = ''admin''"
    "rr_revision r = expected"
    "target = ''active'' \<Longrightarrow> \<not> exists_row (active_family org (rr_family r)) (releases s)"
    "s' = s\<lparr>releases := update_where (\<lambda>r. rr_org r = org \<and> rr_id r = i \<and> rr_revision r = expected)
       (if target = ''active'' then activate now else enter_state target now) (releases s)\<rparr>"
    "find_release org i s' = Some q"
proof -
  note d = assms[unfolded transition_registry_release_def Let_def]
  obtain r where r: "find_release org i s = Some r" using d by (auto split: option.splits)
  have g: "can_transition (rr_state r) target" "role = ''admin''" "rr_revision r = expected"
    "target = ''active'' \<Longrightarrow> \<not> exists_row (active_family org (rr_family r)) (releases s)"
    using d r by (auto simp: can_transition_as_def split: if_split_asm)
  show thesis
    by (rule that[OF r g]) (use d r g in \<open>auto simp: can_transition_as_def get_registry_release_def
        split: option.splits sum.splits if_split_asm\<close>)
qed

lemma grant_ok:
  assumes "grant_registry_capabilities org role i caps expected now s = Inr (q, s')"
  obtains r where "find_release org i s = Some r" "role = ''admin''" "rr_revision r = expected"
    "q = r\<lparr>rr_granted := sort (merge_caps (rr_granted r) caps), rr_revision := rr_revision r + 1,
           rr_updated := now\<rparr>"
    "s' = s\<lparr>releases := update_where (\<lambda>r. rr_org r = org \<and> rr_id r = i) (\<lambda>_. q) (releases s)\<rparr>"
  using assms by (auto simp: grant_registry_capabilities_def Let_def split: if_split_asm option.splits)

lemma create_release_ok:
  assumes "create_registry_release i org actor q now s = Inr (r, s')"
  shows "s' = s\<lparr>releases := releases s @ [r]\<rparr>" "release_born r" "rr_org r = org" "rr_id r = i"
    "\<not> exists_row (\<lambda>r. rr_org r = org \<and> rr_id r = i) (releases s)"
  using assms
  by (auto simp: create_registry_release_def Let_def release_born_def split: if_split_asm)

lemma release_unique:
  assumes "release_keys rs" "a \<in> set rs" "b \<in> set rs" "rr_org a = rr_org b" "rr_id a = rr_id b"
  shows "a = b"
  using assms unique_key_row[of "\<lambda>r. (rr_org r, rr_id r)" rs a b] by (simp add: release_keys_def)

lemma release_keys_update:
  "(\<And>r. P r \<Longrightarrow> rr_org (f r) = rr_org r \<and> rr_id (f r) = rr_id r) \<Longrightarrow>
     release_keys (update_where P f rs) = release_keys rs"
  by (simp add: release_keys_def map_key_update_where)

text \<open>An update of one release keeps the index if it does not activate it, or none is active.\<close>

lemma one_active_update:
  assumes "release_keys rs" "one_active rs" "r \<in> set rs"
    "\<And>x. x \<in> set rs \<Longrightarrow> P x \<Longrightarrow> x = r"
    "rr_org (f r) = rr_org r" "rr_family (f r) = rr_family r"
    "rr_state (f r) = ''active'' \<Longrightarrow> rr_state r = ''active'' \<or>
       (\<forall>x\<in>set rs. \<not> active_family (rr_org r) (rr_family r) x)"
  shows "one_active (update_where P f rs)"
  unfolding one_active_def
proof (intro ballI impI)
  fix a b
  assume a: "a \<in> set (update_where P f rs)" and b: "b \<in> set (update_where P f rs)"
    and s: "rr_state a = ''active''" "rr_state b = ''active''" "rr_org a = rr_org b"
      "rr_family a = rr_family b"
  have one: "x = y" if "x \<in> set rs" "y \<in> set rs" "rr_state x = ''active''" "rr_state y = ''active''"
      "rr_org x = rr_org y" "rr_family x = rr_family y" for x y
    using assms(2) that by (simp add: one_active_def)
  have clash: False if "x \<in> set rs" "\<not> P x" "P r" "rr_state x = ''active''" "rr_state (f r) = ''active''"
      "rr_org x = rr_org (f r)" "rr_family x = rr_family (f r)" for x
    using assms(5-7) that one[OF that(1) assms(3)] by (auto simp: active_family_def)
  from a show "a = b"
  proof (cases rule: update_whereE)
    case (hit x)
    then have x: "x = r" using assms(4) by blast
    from b show ?thesis
    proof (cases rule: update_whereE)
      case (hit y)
      then show ?thesis using \<open>a = f x\<close> x assms(4) by blast
    next
      case miss
      then show ?thesis using clash[of b] hit x s by simp
    qed
  next
    case miss
    from b show ?thesis
    proof (cases rule: update_whereE)
      case (hit y)
      then have "y = r" using assms(4) by blast
      then show ?thesis using clash[of a] miss hit s by simp
    next
      case 2: miss
      then show ?thesis using one miss s by blast
    qed
  qed
qed

lemma transition_keeps:
  assumes "transition_registry_release org i role target expected now s = Inr (q, s')" "registry_ok s"
  shows "registry_ok s'" "releases_move s s'"
proof -
  obtain r where r: "find_release org i s = Some r" "can_transition (rr_state r) target"
      "target = ''active'' \<Longrightarrow> \<not> exists_row (active_family org (rr_family r)) (releases s)"
    and s': "s' = s\<lparr>releases := update_where (\<lambda>r. rr_org r = org \<and> rr_id r = i \<and> rr_revision r = expected)
       (if target = ''active'' then activate now else enter_state target now) (releases s)\<rparr>"
    by (rule transition_ok[OF assms(1)]) (rule that; assumption)
  let ?f = "if target = ''active'' then activate now else enter_state target now"
  have t: "releases s' = update_where (\<lambda>r. rr_org r = org \<and> rr_id r = i \<and> rr_revision r = expected) ?f
      (releases s)" by (simp add: s')
  have f: "rr_org (?f x) = rr_org x \<and> rr_id (?f x) = rr_id x \<and> rr_family (?f x) = rr_family x \<and>
      rr_state (?f x) = target" for x by (simp add: activate_def enter_state_def)
  have mem: "r \<in> set (releases s)" "rr_org r = org" "rr_id r = i" using row_SomeD[OF r(1)] by auto
  have k: "release_keys (releases s)" "one_active (releases s)" using assms(2) by (simp_all add: registry_ok_def)
  have one: "x = r" if "x \<in> set (releases s)" "rr_org x = org \<and> rr_id x = i \<and> rr_revision x = expected" for x
    using release_unique[OF k(1) that(1) mem(1)] that(2) mem by simp
  have "release_keys (releases s')" using k(1) f by (simp add: t release_keys_update)
  moreover have "one_active (releases s')"
    unfolding t
  proof (rule one_active_update[OF k mem(1)])
    show "x = r" if "x \<in> set (releases s)" "rr_org x = org \<and> rr_id x = i \<and> rr_revision x = expected" for x
      using one that .
    show "rr_state (?f r) = ''active'' \<Longrightarrow> rr_state r = ''active'' \<or>
        (\<forall>x\<in>set (releases s). \<not> active_family (rr_org r) (rr_family r) x)"
      using f[of r] r(3) mem(2) by (simp add: exists_row_def)
  qed (use f[of r] in blast)+
  ultimately show "registry_ok s'" by (simp add: registry_ok_def)
  show "releases_move s s'" unfolding t
  proof (rule grows_update)
    fix x assume "x \<in> set (releases s)" "rr_org x = org \<and> rr_id x = i \<and> rr_revision x = expected"
    then have x: "x = r" using one by blast
    show "release_move x (?f x)" using r(2) by (cases r)
      (auto simp: x release_move_def activate_def enter_state_def dest: can_transition_neq)
  qed simp
qed

lemma grant_keeps:
  assumes "grant_registry_capabilities org role i caps expected now s = Inr (q, s')" "registry_ok s"
  shows "registry_ok s'" "releases_move s s'"
proof -
  obtain r where r: "find_release org i s = Some r"
    and q: "q = r\<lparr>rr_granted := sort (merge_caps (rr_granted r) caps), rr_revision := rr_revision r + 1,
           rr_updated := now\<rparr>"
    and s': "s' = s\<lparr>releases := update_where (\<lambda>r. rr_org r = org \<and> rr_id r = i) (\<lambda>_. q) (releases s)\<rparr>"
    by (rule grant_ok[OF assms(1)]) (rule that; assumption)
  have t: "releases s' = update_where (\<lambda>r. rr_org r = org \<and> rr_id r = i) (\<lambda>_. q) (releases s)"
    by (simp add: s')
  have mem: "r \<in> set (releases s)" "rr_org r = org" "rr_id r = i" using row_SomeD[OF r] by auto
  have k: "release_keys (releases s)" "one_active (releases s)" using assms(2) by (simp_all add: registry_ok_def)
  have one: "x = r" if "x \<in> set (releases s)" "rr_org x = org \<and> rr_id x = i" for x
    using release_unique[OF k(1) that(1) mem(1)] that(2) mem by simp
  have "release_keys (releases s')" unfolding t
    by (subst release_keys_update) (use k(1) mem in \<open>auto simp: q\<close>)
  moreover have "one_active (releases s')"
    unfolding t
  proof (rule one_active_update[OF k mem(1)])
    show "x = r" if "x \<in> set (releases s)" "rr_org x = org \<and> rr_id x = i" for x using one that .
  qed (simp_all add: q)
  ultimately show "registry_ok s'" by (simp add: registry_ok_def)
  show "releases_move s s'" unfolding t
  proof (rule grows_update)
    fix x assume "x \<in> set (releases s)" "rr_org x = org \<and> rr_id x = i"
    then have "x = r" using one by blast
    then show "release_move x q" by (simp add: release_move_def q)
  qed simp
qed

lemma create_release_keeps:
  assumes "create_registry_release i org actor q now s = Inr (r, s')" "registry_ok s"
  shows "registry_ok s'" "releases_move s s'"
proof -
  note c = create_release_ok[OF assms(1)]
  have t: "releases s' = releases s @ [r]" by (simp add: c(1))
  have "release_keys (releases s')" using assms(2) c(3-5)
    by (auto simp: t registry_ok_def release_keys_def exists_row_def image_iff)
  moreover have "one_active (releases s')" using assms(2) c(2)
    unfolding t registry_ok_def one_active_def release_born_def by auto
  ultimately show "registry_ok s'" by (simp add: registry_ok_def)
  show "releases_move s s'" unfolding t using c(2) by (intro grows_append) auto
qed

section \<open>Reading releases\<close>

lemma set_list_registry_releases:
  "set (list_registry_releases org s) = {r \<in> set (releases s). rr_org r = org}"
  by (auto simp: list_registry_releases_def)

end
