(* ===== verification/Capabilities.thy ===== *)
theory Capabilities
  imports Registry
begin

text \<open>
  What an agent may do: \<^verbatim>\<open>internal/store/capabilities.go\<close>, \<^verbatim>\<open>agents.go\<close>, \<^verbatim>\<open>templates.go\<close> and
  \<^verbatim>\<open>CreateAgent\<close>. The ceiling is what an operator granted the active release of the agent's
  harness; an agent made from a template stays within the template's scope.

  \<open>txt\<close> is PostgreSQL's text of a JSON value that is not a string (the operator \<^verbatim>\<open>->>\<close>), \<open>supported\<close>
  the set of harnesses of this process (\<^verbatim>\<open>runner.Supported\<close>).
\<close>

section \<open>The harness of a release\<close>

text \<open>\<^verbatim>\<open>coalesce(nullif(manifest->>'runner_id',''),family)\<close>.\<close>

definition json_text :: "(json \<Rightarrow> string) \<Rightarrow> json option \<Rightarrow> string option" where
  "json_text txt v = (case v of
       None \<Rightarrow> None
     | Some JNull \<Rightarrow> None
     | Some (JStr x) \<Rightarrow> Some x
     | Some w \<Rightarrow> Some (txt w))"

definition json_field :: "json \<Rightarrow> string \<Rightarrow> json option" where
  "json_field v k = (case v of JObj kvs \<Rightarrow> map_of (rev kvs) k | _ \<Rightarrow> None)"

definition release_runner :: "(json \<Rightarrow> string) \<Rightarrow> release \<Rightarrow> string" where
  "release_runner txt r =
     (case json_text txt (json_field (rr_manifest r) ''runner_id'') of
        None \<Rightarrow> rr_family r
      | Some x \<Rightarrow> if x = [] then rr_family r else x)"

definition harness_release :: "(json \<Rightarrow> string) \<Rightarrow> id \<Rightarrow> string \<Rightarrow> release \<Rightarrow> bool" where
  "harness_release txt org harness r \<longleftrightarrow>
     rr_org r = org \<and> rr_kind r = ''harness'' \<and> rr_state r = ''active'' \<and>
     release_runner txt r = harness"

text \<open>\<^verbatim>\<open>order by updated_at desc limit 1\<close>.\<close>

definition active_harness :: "(json \<Rightarrow> string) \<Rightarrow> id \<Rightarrow> string \<Rightarrow> db \<Rightarrow> release option" where
  "active_harness txt org harness s =
     (case sort_key (\<lambda>r. - rr_updated r) (filter (harness_release txt org harness) (releases s)) of
        [] \<Rightarrow> None | r # _ \<Rightarrow> Some r)"

definition permitted_capabilities :: "(json \<Rightarrow> string) \<Rightarrow> id \<Rightarrow> string \<Rightarrow> db \<Rightarrow> string list" where
  "permitted_capabilities txt org harness s =
     (case active_harness txt org harness s of None \<Rightarrow> [] | Some r \<Rightarrow> sort (rr_granted r))"

record capability_check =
  cc_permitted :: "string list"
  cc_denied :: "string list"

definition check_capabilities ::
    "(json \<Rightarrow> string) \<Rightarrow> id \<Rightarrow> string \<Rightarrow> string list \<Rightarrow> db \<Rightarrow> capability_check" where
  "check_capabilities txt org harness requested s =
     (let permitted = permitted_capabilities txt org harness s
      in \<lparr>cc_permitted = sort (filter (contains_cap permitted) requested),
          cc_denied = sort (filter (\<lambda>c. \<not> contains_cap permitted c) requested)\<rparr>)"

section \<open>Agents\<close>

abbreviation find_agent :: "id \<Rightarrow> id \<Rightarrow> db \<Rightarrow> agent option" where
  "find_agent org i s \<equiv> row (\<lambda>a. ag_org a = org \<and> ag_id a = i) (agents s)"

definition create_agent :: "id \<Rightarrow> id \<Rightarrow> string \<Rightarrow> string \<Rightarrow> id \<Rightarrow> string list \<Rightarrow> agent tx" where
  "create_agent i org name harness owner caps s =
     (if exists_row (\<lambda>a. ag_id a = i) (agents s) \<or> find_principal org owner s = None
      then Inl Constraint
      else
       (let a = \<lparr>ag_id = i, ag_org = org, ag_name = name, ag_harness = harness,
                 ag_status = ''draft'', ag_owner = owner, ag_capabilities = caps,
                 ag_template = None, ag_template_version = None, ag_instructions = []\<rparr>
        in Inr (a, s\<lparr>agents := agents s @ [a]\<rparr>)))"

definition list_agents :: "id \<Rightarrow> db \<Rightarrow> agent list" where
  "list_agents org s = sort_key ag_name (sort_key ag_id (filter (\<lambda>a. ag_org a = org) (agents s)))"

definition get_agent :: "id \<Rightarrow> id \<Rightarrow> db \<Rightarrow> err + agent" where
  "get_agent org i s = (case find_agent org i s of None \<Rightarrow> Inl NoRows | Some a \<Rightarrow> Inr a)"

record agent_configuration =
  ac_agent :: id
  ac_harness :: string
  ac_declared :: "string list"
  ac_permitted :: "string list"
  ac_denied :: "string list"
  ac_available :: "string list"

definition agent_configuration_of ::
    "(json \<Rightarrow> string) \<Rightarrow> id \<Rightarrow> id \<Rightarrow> db \<Rightarrow> err + agent_configuration" where
  "agent_configuration_of txt org i s =
     (case find_agent org i s of
        None \<Rightarrow> Inl NoRows
      | Some a \<Rightarrow>
         (let declared = sort (ag_capabilities a);
              permitted = permitted_capabilities txt org (ag_harness a) s
          in Inr \<lparr>ac_agent = i, ac_harness = ag_harness a, ac_declared = declared,
                  ac_permitted = permitted,
                  ac_denied = filter (\<lambda>c. \<not> contains_cap permitted c) declared,
                  ac_available = filter (\<lambda>c. \<not> contains_cap declared c) permitted\<rparr>))"

definition admission_missing :: "id \<Rightarrow> id \<Rightarrow> id \<Rightarrow> db \<Rightarrow> err + string list" where
  "admission_missing org agent rel s =
     (case find_agent org agent s of
        None \<Rightarrow> Inl NoRows
      | Some a \<Rightarrow> (case find_release org rel s of
          None \<Rightarrow> Inl NoRows
        | Some r \<Rightarrow> Inr (sort (filter (\<lambda>c. \<not> contains_cap (rr_granted r) c) (ag_capabilities a)))))"

section \<open>Templates\<close>

abbreviation find_template :: "id \<Rightarrow> id \<Rightarrow> db \<Rightarrow> agent_template option" where
  "find_template org i s \<equiv> row (\<lambda>t. at_org t = org \<and> at_id t = i) (templates s)"

text \<open>\<^verbatim>\<open>scanTemplate\<close> sorts the capabilities it read.\<close>

definition scan_template :: "agent_template \<Rightarrow> agent_template" where
  "scan_template t = t\<lparr>at_capabilities := sort (at_capabilities t)\<rparr>"

definition create_agent_template ::
    "id \<Rightarrow> id \<Rightarrow> id \<Rightarrow> string \<Rightarrow> string \<Rightarrow> string \<Rightarrow> string \<Rightarrow> string list \<Rightarrow> string \<Rightarrow> time \<Rightarrow>
     agent_template tx" where
  "create_agent_template i org actor name version harness description caps instructions now s =
     (if trim_space name = [] then Inl (Msg ''a template name is required'')
      else if trim_space version = [] then Inl (Msg ''a template version is required'')
      else if trim_space harness = [] then Inl (Msg ''a harness is required'')
      else case require_active_principal org actor s of
        Inl e \<Rightarrow> Inl e
      | Inr _ \<Rightarrow>
          if exists_row (\<lambda>t. at_id t = i) (templates s) \<or>
             exists_row (\<lambda>t. at_org t = org \<and> at_name t = name \<and> at_version t = version) (templates s)
          then Inl Constraint
          else
           (let t = \<lparr>at_id = i, at_org = org, at_name = name, at_version = version,
                     at_harness = harness, at_description = description, at_capabilities = caps,
                     at_instructions = instructions, at_status = ''draft'', at_created_by = actor,
                     at_revision = 1, at_created = now\<rparr>
            in Inr (scan_template t, s\<lparr>templates := templates s @ [t]\<rparr>)))"

definition publish_agent_template ::
    "(string \<Rightarrow> bool) \<Rightarrow> id \<Rightarrow> id \<Rightarrow> id \<Rightarrow> int \<Rightarrow> agent_template tx" where
  "publish_agent_template supported org actor i expected s =
     (case require_active_principal org actor s of
        Inl e \<Rightarrow> Inl e
      | Inr _ \<Rightarrow> (case find_template org i s of
          None \<Rightarrow> Inl NoRows
        | Some t \<Rightarrow>
            if at_revision t \<noteq> expected then Inl (Msg ''stale template revision'')
            else if at_status t \<noteq> ''draft'' then Inl (Msg ''only a draft template can be published'')
            else if \<not> supported (at_harness t)
            then Inl (Msg ''template names a harness no configured runner supports'')
            else
             (let t' = t\<lparr>at_status := ''published'', at_revision := at_revision t + 1\<rparr>
              in Inr (scan_template t', s\<lparr>templates := update_where (\<lambda>t. at_org t = org \<and> at_id t = i)
                        (\<lambda>t. t\<lparr>at_status := ''published'', at_revision := at_revision t + 1\<rparr>) (templates s)\<rparr>))))"

definition list_agent_templates :: "id \<Rightarrow> db \<Rightarrow> agent_template list" where
  "list_agent_templates org s =
     map scan_template (sort_key at_name (sort_key at_version (filter (\<lambda>t. at_org t = org) (templates s))))"

definition get_agent_template :: "id \<Rightarrow> id \<Rightarrow> db \<Rightarrow> err + agent_template" where
  "get_agent_template org i s =
     (case find_template org i s of None \<Rightarrow> Inl NoRows | Some t \<Rightarrow> Inr (scan_template t))"

text \<open>\<^verbatim>\<open>strings.Join\<close>.\<close>

fun join :: "string \<Rightarrow> string list \<Rightarrow> string" where
  "join sep [] = []"
| "join sep [x] = x"
| "join sep (x # y # xs) = x @ sep @ join sep (y # xs)"

text \<open>\<open>caps = None\<close> is a nil slice, which takes the template's scope.\<close>

definition create_agent_from_template ::
    "id \<Rightarrow> id \<Rightarrow> id \<Rightarrow> string \<Rightarrow> id \<Rightarrow> string list option \<Rightarrow> string \<Rightarrow> agent tx" where
  "create_agent_from_template i org actor name template caps instructions s =
     (case find_template org template s of
        None \<Rightarrow> Inl NoRows
      | Some t \<Rightarrow>
          if at_status t \<noteq> ''published'' then Inl (Msg ''template is not published'')
          else
           (let scope = at_capabilities t;
                beyond = (case caps of None \<Rightarrow> [] | Some cs \<Rightarrow> filter (\<lambda>c. \<not> contains_cap scope c) cs)
            in if beyond \<noteq> []
               then Inl (Msg (''capabilities outside the template's scope: '' @ join '', '' (sort beyond)))
               else if exists_row (\<lambda>a. ag_id a = i) (agents s) \<or> find_principal org actor s = None
               then Inl Constraint
               else
                (let a = \<lparr>ag_id = i, ag_org = org, ag_name = name, ag_harness = at_harness t,
                          ag_status = ''draft'', ag_owner = actor,
                          ag_capabilities = (case caps of None \<Rightarrow> scope | Some cs \<Rightarrow> cs),
                          ag_template = Some template, ag_template_version = Some (at_version t),
                          ag_instructions = (if trim_space instructions = [] then at_instructions t
                                             else instructions)\<rparr>
                 in Inr (a\<lparr>ag_capabilities := sort (ag_capabilities a)\<rparr>, s\<lparr>agents := agents s @ [a]\<rparr>))))"

section \<open>Lemmas\<close>

lemma contains_cap_iff [simp]: "contains_cap xs c \<longleftrightarrow> c \<in> set xs"
  by (simp add: contains_cap_def)

lemma active_harness_SomeD:
  assumes "active_harness txt org harness s = Some r"
  shows "r \<in> set (releases s)" "harness_release txt org harness r"
    "\<And>q. q \<in> set (releases s) \<Longrightarrow> harness_release txt org harness q \<Longrightarrow> rr_updated q \<le> rr_updated r"
proof -
  let ?xs = "filter (harness_release txt org harness) (releases s)"
  obtain ys where ys: "sort_key (\<lambda>r. - rr_updated r) ?xs = r # ys"
    using assms by (auto simp: active_harness_def split: list.splits)
  then have mem: "set (r # ys) = set ?xs" by (metis set_sort)
  have "sorted (map (\<lambda>r. - rr_updated r) (r # ys))" unfolding ys[symmetric] by simp
  then have "\<forall>q\<in>set ys. rr_updated q \<le> rr_updated r" by auto
  then show "r \<in> set (releases s)" "harness_release txt org harness r"
    "\<And>q. q \<in> set (releases s) \<Longrightarrow> harness_release txt org harness q \<Longrightarrow> rr_updated q \<le> rr_updated r"
    using mem by (auto simp: set_eq_iff)
qed

lemma active_harness_None:
  "active_harness txt org harness s = None \<longleftrightarrow>
     (\<forall>r\<in>set (releases s). \<not> harness_release txt org harness r)"
proof -
  have "active_harness txt org harness s = None \<longleftrightarrow>
      set (sort_key (\<lambda>r. - rr_updated r) (filter (harness_release txt org harness) (releases s))) = {}"
    by (auto simp only: active_harness_def set_empty split: list.splits)
  then show ?thesis by (auto simp: filter_empty_conv)
qed

lemma admission_ok:
  "admission_missing org agent rel s = Inr [] \<longleftrightarrow>
     (\<exists>a r. find_agent org agent s = Some a \<and> find_release org rel s = Some r \<and>
        set (ag_capabilities a) \<subseteq> set (rr_granted r))"
proof -
  have "sort xs = [] \<longleftrightarrow> xs = []" for xs :: "string list"
    by (metis set_empty set_sort)
  then show ?thesis by (auto simp: admission_missing_def filter_empty_conv split: option.splits)
qed

section \<open>Agents made from templates\<close>

text \<open>
  An agent pinned to a template carries the version, the harness and at most the capabilities of
  that template, which is published.
\<close>

definition pinned :: "agent \<Rightarrow> agent_template \<Rightarrow> bool" where
  "pinned a t \<longleftrightarrow> at_org t = ag_org a \<and> ag_template a = Some (at_id t) \<and> at_status t = ''published'' \<and>
     ag_template_version a = Some (at_version t) \<and> ag_harness a = at_harness t \<and>
     set (ag_capabilities a) \<subseteq> set (at_capabilities t)"

definition templates_ok :: "db \<Rightarrow> bool" where
  "templates_ok s \<longleftrightarrow> distinct (map at_id (templates s)) \<and>
     (\<forall>a\<in>set (agents s). ag_template a \<noteq> None \<longrightarrow> (\<exists>t\<in>set (templates s). pinned a t))"

definition template_move :: "agent_template \<Rightarrow> agent_template \<Rightarrow> bool" where
  "template_move t u \<longleftrightarrow> u = t \<or> at_status t = ''draft'' \<and>
     u = t\<lparr>at_status := ''published'', at_revision := at_revision t + 1\<rparr>"

abbreviation templates_move :: "db \<Rightarrow> db \<Rightarrow> bool" where
  "templates_move s s' \<equiv> grows template_move (\<lambda>t. at_status t = ''draft'') (templates s) (templates s')"

lemma create_agent_ok:
  assumes "create_agent i org name harness owner caps s = Inr (a, s')"
  shows "s' = s\<lparr>agents := agents s @ [a]\<rparr>" "ag_template a = None"
  using assms by (auto simp: create_agent_def Let_def split: if_split_asm)

lemma create_template_ok:
  assumes "create_agent_template i org actor name version harness description caps instructions now s
             = Inr (x, s')"
  obtains t where "s' = s\<lparr>templates := templates s @ [t]\<rparr>" "at_id t = i" "at_status t = ''draft''"
    "\<not> exists_row (\<lambda>t. at_id t = i) (templates s)" "x = scan_template t"
proof -
  note d = assms[unfolded create_agent_template_def Let_def]
  have g: "trim_space name \<noteq> []" "trim_space version \<noteq> []" "trim_space harness \<noteq> []"
    using d by (auto split: if_split_asm)
  have r: "require_active_principal org actor s = Inr ()"
    using d g by (auto split: sum.splits)
  show thesis by (rule that) (use d g r in \<open>auto split: if_split_asm\<close>)
qed

lemma publish_ok:
  assumes "publish_agent_template supported org actor i expected s = Inr (x, s')"
  obtains t where "find_template org i s = Some t" "at_status t = ''draft''" "supported (at_harness t)"
    "at_revision t = expected"
    "s' = s\<lparr>templates := update_where (\<lambda>t. at_org t = org \<and> at_id t = i)
       (\<lambda>t. t\<lparr>at_status := ''published'', at_revision := at_revision t + 1\<rparr>) (templates s)\<rparr>"
  using assms
  by (auto simp: publish_agent_template_def Let_def split: if_split_asm option.splits sum.splits)

lemma from_template_ok:
  assumes "create_agent_from_template i org actor name template caps instructions s = Inr (x, s')"
  obtains t a where "find_template org template s = Some t" "at_status t = ''published''"
    "s' = s\<lparr>agents := agents s @ [a]\<rparr>" "pinned a t"
    "x = a\<lparr>ag_capabilities := sort (ag_capabilities a)\<rparr>"
proof -
  note d = assms[unfolded create_agent_from_template_def Let_def]
  let ?t = "the (find_template org template s)"
  let ?a = "\<lparr>ag_id = i, ag_org = org, ag_name = name, ag_harness = at_harness ?t, ag_status = ''draft'',
      ag_owner = actor, ag_capabilities = (case caps of None \<Rightarrow> at_capabilities ?t | Some cs \<Rightarrow> cs),
      ag_template = Some template, ag_template_version = Some (at_version ?t),
      ag_instructions = (if trim_space instructions = [] then at_instructions ?t else instructions)\<rparr>"
  obtain t where t: "find_template org template s = Some t" "at_status t = ''published''"
    using d by (auto split: option.splits if_split_asm)
  have "at_org t = org" "at_id t = template" using row_SomeD[OF t(1)] by auto
  moreover have c: "set (case caps of None \<Rightarrow> at_capabilities t | Some cs \<Rightarrow> cs) \<subseteq> set (at_capabilities t)"
    using d t by (auto simp: filter_empty_conv split: if_split_asm option.splits)
  ultimately have p: "pinned ?a t" using t by (auto simp: pinned_def split: option.splits)
  show thesis by (rule that[OF t _ p]) (use d t in \<open>auto split: if_split_asm option.splits\<close>)
qed

lemma templates_ok_cong:
  "templates s' = templates s \<Longrightarrow> agents s' = agents s \<Longrightarrow> templates_ok s' = templates_ok s"
  by (simp add: templates_ok_def)

lemma create_agent_keeps:
  "create_agent i org name harness owner caps s = Inr (a, s') \<Longrightarrow> templates_ok s \<Longrightarrow> templates_ok s'"
  using create_agent_ok[of i org name harness owner caps s a s'] by (auto simp: templates_ok_def)

lemma create_template_keeps:
  assumes "create_agent_template i org actor name version harness description caps instructions now s
             = Inr (x, s')" "templates_ok s"
  shows "templates_ok s'" "templates_move s s'"
proof -
  obtain t where t: "s' = s\<lparr>templates := templates s @ [t]\<rparr>" "at_id t = i" "at_status t = ''draft''"
      "\<not> exists_row (\<lambda>t. at_id t = i) (templates s)"
    by (rule create_template_ok[OF assms(1)]) (rule that; assumption)
  show "templates_ok s'" using assms(2) t(2,4)
    by (auto simp: t(1) templates_ok_def exists_row_def)
  show "templates_move s s'" using t(3) unfolding t(1)
    by (simp, intro grows_append) (auto simp: template_move_def)
qed

lemma publish_keeps:
  assumes "publish_agent_template supported org actor i expected s = Inr (x, s')" "templates_ok s"
  shows "templates_ok s'" "templates_move s s'"
proof -
  let ?P = "\<lambda>t. at_org t = org \<and> at_id t = i"
  let ?f = "\<lambda>t. t\<lparr>at_status := ''published'', at_revision := at_revision t + 1\<rparr>"
  obtain t where t: "find_template org i s = Some t" "at_status t = ''draft''"
    and s': "s' = s\<lparr>templates := update_where ?P ?f (templates s)\<rparr>"
    by (rule publish_ok[OF assms(1)]) (rule that; assumption)
  have T: "templates s' = update_where ?P ?f (templates s)" "agents s' = agents s" by (simp_all add: s')
  have mem: "t \<in> set (templates s)" "at_id t = i" using row_SomeD[OF t(1)] by auto
  have d: "distinct (map at_id (templates s))" using assms(2) by (simp add: templates_ok_def)
  have one: "u = t" if "u \<in> set (templates s)" "?P u" for u
    using unique_key_row[OF d that(1) mem(1)] that(2) mem(2) by simp
  have "\<exists>u\<in>set (templates s'). pinned a u" if a: "a \<in> set (agents s)" "ag_template a \<noteq> None" for a
  proof -
    obtain u where u: "u \<in> set (templates s)" "pinned a u"
      using assms(2) a by (auto simp: templates_ok_def)
    then have "\<not> ?P u" using one t(2) by (auto simp: pinned_def)
    then have "u \<in> set (templates s')" using u(1) by (auto simp: T set_update_where)
    with u(2) show ?thesis by blast
  qed
  moreover have "distinct (map at_id (templates s'))" using d by (simp add: T map_key_update_where)
  ultimately show "templates_ok s'" by (simp add: templates_ok_def T(2))
  show "templates_move s s'" unfolding T(1)
  proof (rule grows_update)
    fix u assume "u \<in> set (templates s)" "?P u"
    then have "u = t" using one by blast
    then show "template_move u (?f u)" using t(2) by (simp add: template_move_def)
  qed (simp add: template_move_def)
qed

lemma from_template_keeps:
  assumes "create_agent_from_template i org actor name template caps instructions s = Inr (x, s')"
    "templates_ok s"
  shows "templates_ok s'"
proof -
  obtain t a where t: "find_template org template s = Some t" "s' = s\<lparr>agents := agents s @ [a]\<rparr>" "pinned a t"
    by (rule from_template_ok[OF assms(1)]) (rule that; assumption)
  have "t \<in> set (templates s)" using row_SomeD[OF t(1)] by simp
  then show ?thesis using assms(2) t(3) by (auto simp: t(2) templates_ok_def)
qed

end
