(* ===== verification/AgentRuns.thy ===== *)
theory AgentRuns
  imports Gates Capabilities Proposals
begin

text \<open>
  Agent runs, \<^verbatim>\<open>internal/store/agent_runs.go\<close>: admission, the claim of a run as a lease with a
  fencing token, what the runner is given, and the three ways a worker ends its attempt: it parks
  the run on a question, publishes the draft as a proposal, or records a failure. Each of them is
  one transaction that looks at the token first.

  The runner (\<^verbatim>\<open>runner.Runner\<close>) is an argument: its result or error. \<open>budget\<close> is \<^verbatim>\<open>runner.RunBudget\<close> in
  seconds.
\<close>

section \<open>What a runner returns\<close>

text \<open>
  \<open>gq_schema\<close> is the raw schema: \<open>None\<close> for empty text, \<open>Some None\<close> for text that is not JSON.
\<close>

record gate_request =
  gq_kind :: string
  gq_prompt :: string
  gq_schema :: "json option option"
  gq_respondent :: id

record proposal_draft =
  dr_summary :: string
  dr_operations :: "operation list"

record run_result =
  rs_status :: string
  rs_failure :: string
  rs_draft :: "proposal_draft option"
  rs_gate :: "gate_request option"

record run_request =
  rq_org :: id
  rq_task :: id
  rq_run :: id
  rq_agent :: id
  rq_harness :: string
  rq_intent :: string
  rq_records :: "sim_record list"
  rq_inputs :: jmap

section \<open>Admission\<close>

definition create_agent_run ::
    "(json \<Rightarrow> string) \<Rightarrow> (string \<Rightarrow> bool) \<Rightarrow> id \<Rightarrow> id \<Rightarrow> id \<Rightarrow> id \<Rightarrow> id \<Rightarrow> string \<Rightarrow> time \<Rightarrow> agent_run tx" where
  "create_agent_run txt supported i org task actor agent intent now s =
     (case find_agent org agent s of
        None \<Rightarrow> Inl NoRows
      | Some a \<Rightarrow> (case active_harness txt org (ag_harness a) s of
          None \<Rightarrow> Inl (if \<not> supported (ag_harness a) then HarnessUnsupported else NoActiveHarness)
        | Some rel \<Rightarrow>
            if \<not> supported (release_runner txt rel) then Inl HarnessUnsupported
            else (case admission_missing org agent (rr_id rel) s of
              Inl e \<Rightarrow> Inl e
            | Inr missing \<Rightarrow>
                if missing \<noteq> [] then Inl (CapabilitiesMissing (ag_harness a) missing)
                else (case find_task org task s of
                  None \<Rightarrow> Inl NoRows
                | Some t \<Rightarrow>
                    if tk_owner t \<noteq> actor \<and>
                       (case find_principal org actor s of None \<Rightarrow> True
                        | Some p \<Rightarrow> \<not> pr_active p \<or> pr_role p \<noteq> Admin)
                    then Inl (Msg ''only task owner or active admin may create agent run'')
                    else if terminal_task (tk_status t) then Inl (Msg ''terminal task'')
                    else if exists_row (\<lambda>r. ru_id r = i) (agent_runs s) \<or> find_principal org actor s = None
                    then Inl Constraint
                    else
                     (let r = \<lparr>ru_id = i, ru_org = org, ru_task = task, ru_agent = agent,
                               ru_harness = ag_harness a, ru_release = rr_id rel,
                               ru_runner = release_runner txt rel, ru_intent = intent,
                               ru_status = RQueued, ru_proposal = None, ru_summary = [],
                               ru_failure = [], ru_created_by = actor, ru_version = 1,
                               ru_created = now, ru_started = None, ru_finished = None,
                               ru_token = [], ru_attempt = 0, ru_gate = None, ru_lease = None\<rparr>
                      in Inr (r, enqueue_agent_run org i (s\<lparr>agent_runs := agent_runs s @ [r]\<rparr>)))))))"

definition list_agent_runs :: "id \<Rightarrow> db \<Rightarrow> agent_run list" where
  "list_agent_runs org s = sort_key ru_created (filter (\<lambda>r. ru_org r = org) (agent_runs s))"

definition get_agent_run :: "id \<Rightarrow> id \<Rightarrow> db \<Rightarrow> err + agent_run" where
  "get_agent_run org i s = (case find_run org i s of None \<Rightarrow> Inl NoRows | Some r \<Rightarrow> Inr r)"

section \<open>The claim\<close>

definition lease_seconds :: "int \<Rightarrow> int" where
  "lease_seconds budget = (if budget + 60 < 120 then 120 else budget + 60)"

definition lease_expired :: "time \<Rightarrow> agent_run \<Rightarrow> bool" where
  "lease_expired now r \<longleftrightarrow> (case ru_lease r of None \<Rightarrow> True | Some l \<Rightarrow> l < now)"

definition claimable :: "time \<Rightarrow> agent_run \<Rightarrow> bool" where
  "claimable now r \<longleftrightarrow> ru_status r = RQueued \<or> (ru_status r = RRunning \<and> lease_expired now r)"

definition claimed :: "string \<Rightarrow> time \<Rightarrow> time \<Rightarrow> agent_run \<Rightarrow> agent_run" where
  "claimed tok lease now r = r\<lparr>ru_status := RRunning, ru_attempt := ru_attempt r + 1, ru_token := tok,
     ru_lease := Some lease,
     ru_started := (case ru_started r of None \<Rightarrow> Some now | Some t \<Rightarrow> Some t)\<rparr>"

definition claim_run :: "(string \<Rightarrow> int) \<Rightarrow> id \<Rightarrow> id \<Rightarrow> string \<Rightarrow> time \<Rightarrow> agent_run tx" where
  "claim_run budget org i tok now s =
     (let configured = (case find_run org i s of None \<Rightarrow> [] | Some r \<Rightarrow> ru_runner r);
          lease = now + lease_seconds (budget configured) * 1000000;
          P = (\<lambda>r. ru_org r = org \<and> ru_id r = i \<and> claimable now r)
      in case row P (agent_runs s) of
           None \<Rightarrow> Inl NoRows
         | Some r \<Rightarrow> Inr (claimed tok lease now r,
             s\<lparr>agent_runs := update_where P (claimed tok lease now) (agent_runs s)\<rparr>))"

text \<open>Nothing was claimed: a live lease asks for a retry, anything else is done.\<close>

definition not_claimed :: "id \<Rightarrow> id \<Rightarrow> db \<Rightarrow> err + unit" where
  "not_claimed org i s =
     (case find_run org i s of
        None \<Rightarrow> Inl NoRows
      | Some r \<Rightarrow>
          if ru_status r = RRunning
          then Inl (Msg ''run is held by a live lease; retrying later'')
          else Inr ())"

section \<open>What the runner sees\<close>

definition max_records :: nat where
  "max_records = 50"

definition run_inputs :: "id \<Rightarrow> id \<Rightarrow> db \<Rightarrow> jmap" where
  "run_inputs org i s =
     concat (map (\<lambda>g. case gt_response g of Some (JObj kvs) \<Rightarrow> last_entries kvs | _ \<Rightarrow> [])
       (sort_key gt_created
         (filter (\<lambda>g. gt_org g = org \<and> gt_run g = Some i \<and> gt_status g = GResolved) (gates s))))"

definition gather :: "id \<Rightarrow> agent_run \<Rightarrow> db \<Rightarrow> err + (run_request \<times> id)" where
  "gather org r s =
     (case find_task org (ru_task r) s of
        None \<Rightarrow> Inl NoRows
      | Some t \<Rightarrow>
          Inr (\<lparr>rq_org = org, rq_task = ru_task r, rq_run = ru_id r, rq_agent = ru_agent r,
                rq_harness = ru_harness r, rq_intent = ru_intent r,
                rq_records = take max_records
                  (sort_key sr_id (filter (\<lambda>x. sr_org x = org) (sim_records s))),
                rq_inputs = run_inputs org (ru_id r) s\<rparr>, tk_owner t))"

section \<open>The ends of an attempt\<close>

abbreviation holder :: "id \<Rightarrow> id \<Rightarrow> string \<Rightarrow> agent_run \<Rightarrow> bool" where
  "holder org i tok r \<equiv> ru_org r = org \<and> ru_id r = i \<and> ru_token r = tok"

definition failed :: "string \<Rightarrow> time \<Rightarrow> agent_run \<Rightarrow> agent_run" where
  "failed code now r = r\<lparr>ru_status := RFailed, ru_failure := code, ru_finished := Some now,
     ru_token := [], ru_lease := None\<rparr>"

definition update_failure :: "id \<Rightarrow> id \<Rightarrow> string \<Rightarrow> string \<Rightarrow> time \<Rightarrow> db \<Rightarrow> db" where
  "update_failure org i tok code now s =
     s\<lparr>agent_runs := update_where (holder org i tok) (failed code now) (agent_runs s)\<rparr>"

definition fail_run :: "id \<Rightarrow> id \<Rightarrow> string \<Rightarrow> string \<Rightarrow> time \<Rightarrow> db \<Rightarrow> db" where
  "fail_run org i tok code now s =
     update_failure org i tok (if code = [] then ''internal_error'' else code) now s"

definition public_failure :: "err \<Rightarrow> string" where
  "public_failure e = (case e of
       Stale \<Rightarrow> ''stale_record''
     | Invalid \<Rightarrow> ''invalid_operation''
     | UnknownOp \<Rightarrow> ''unknown_operation''
     | _ \<Rightarrow> ''internal_error'')"

definition gate_kinds :: "string list" where
  "gate_kinds = [''clarification'', ''selection'', ''missing_information'']"

definition pending_for :: "id \<Rightarrow> id \<Rightarrow> gate \<Rightarrow> bool" where
  "pending_for org i g \<longleftrightarrow> gt_org g = org \<and> gt_run g = Some i \<and> gt_status g = GPending"

definition park_on :: "id \<Rightarrow> agent_run \<Rightarrow> agent_run" where
  "park_on gid r = r\<lparr>ru_status := RWaiting, ru_gate := Some gid, ru_token := [], ru_lease := None\<rparr>"

text \<open>
  \<open>owner\<close> and \<open>initiator\<close> are what the claim and the gathering read; \<open>task\<close> the task of the run. On a
  conflict with an existing question of the run the insertion does nothing and the run adopts it.
\<close>

definition park_run ::
    "id \<Rightarrow> id \<Rightarrow> id \<Rightarrow> string \<Rightarrow> id \<Rightarrow> id \<Rightarrow> id \<Rightarrow> gate_request \<Rightarrow> time \<Rightarrow> unit tx" where
  "park_run gid org i tok task owner initiator q now s =
     (case row (holder org i tok) (agent_runs s) of
        None \<Rightarrow> Inr ((), s)
      | Some r \<Rightarrow>
          if ru_status r \<noteq> RRunning then Inr ((), s)
          else
           (let rid = (if gq_respondent q = [] then owner else gq_respondent q);
                tag = (case gq_schema q of None \<Rightarrow> Some (JObj []) | Some v \<Rightarrow> v);
                park = (\<lambda>gid s. s\<lparr>agent_runs := update_where (\<lambda>r. ru_org r = org \<and> ru_id r = i)
                                    (park_on gid) (agent_runs s)\<rparr>)
            in case validate_gate_schema tag of
                 Inl e \<Rightarrow> Inl (PublishError ''invalid_gate_schema'')
               | Inr _ \<Rightarrow>
                   if gq_kind q \<notin> set gate_kinds then Inl Constraint
                   else if exists_row (\<lambda>g. gt_id g = gid) (gates s) \<or> exists_row (pending_for org i) (gates s)
                   then (case row (pending_for org i) (gates s) of
                           None \<Rightarrow> Inl NoRows | Some g \<Rightarrow> Inr ((), park (gt_id g) s))
                   else if find_task org task s = None \<or> find_principal org rid s = None \<or>
                           find_principal org initiator s = None
                   then Inl Constraint
                   else
                    (let g = \<lparr>gt_id = gid, gt_org = org, gt_task = task, gt_run = Some i,
                              gt_kind = gq_kind q, gt_prompt = gq_prompt q, gt_schema = the tag,
                              gt_revision = 1, gt_status = GPending, gt_respondent = rid,
                              gt_response = None, gt_responded_by = None, gt_responded_at = None,
                              gt_created_by = initiator, gt_created = now, gt_version = 1\<rparr>
                     in Inr ((), park gid (s\<lparr>gates := gates s @ [g]\<rparr>)))))"

definition succeeded :: "id \<Rightarrow> string \<Rightarrow> time \<Rightarrow> agent_run \<Rightarrow> agent_run" where
  "succeeded pid summary now r = r\<lparr>ru_status := RSucceeded, ru_proposal := Some pid,
     ru_summary := summary, ru_finished := Some now, ru_token := [], ru_lease := None\<rparr>"

definition inactive :: "id \<Rightarrow> db \<Rightarrow> id \<Rightarrow> bool" where
  "inactive org s who = (case find_principal org who s of None \<Rightarrow> True | Some p \<Rightarrow> \<not> pr_active p)"

definition publish_run ::
    "(json \<Rightarrow> string) \<Rightarrow> (nat \<Rightarrow> id) \<Rightarrow> (nat \<Rightarrow> id) \<Rightarrow> id \<Rightarrow> id \<Rightarrow> id \<Rightarrow> string \<Rightarrow> id \<Rightarrow> id \<Rightarrow> id \<Rightarrow> id \<Rightarrow>
     string \<Rightarrow> operation list \<Rightarrow> time \<Rightarrow> unit tx" where
  "publish_run H fo fb pid org i tok task owner initiator release summary ops now s =
     (case row (holder org i tok) (agent_runs s) of
        None \<Rightarrow> Inr ((), s)
      | Some r \<Rightarrow>
          if ru_status r \<noteq> RRunning then Inr ((), s)
          else (case find_task org task s of
            None \<Rightarrow> Inl NoRows
          | Some t \<Rightarrow>
              if terminal_task (tk_status t)
              then Inr ((), update_failure org i tok ''task_no_longer_active'' now s)
              else if (case find_release org release s of None \<Rightarrow> True | Some x \<Rightarrow> rr_state x \<noteq> ''active'')
              then Inr ((), update_failure org i tok ''internal_error'' now s)
              else if list_ex (inactive org s) [owner, initiator]
              then Inr ((), update_failure org i tok ''actor_revoked'' now s)
              else (case create_proposal_tx H fo fb pid now org task owner
                           (summary @ '' (agent run '' @ i @ '')'') ''agent_run'' i ops s of
                Inl e \<Rightarrow> Inl (PublishError (public_failure e))
              | Inr (p, s') \<Rightarrow>
                  Inr ((), s'\<lparr>agent_runs := update_where (holder org i tok)
                              (succeeded (pp_id p) summary now) (agent_runs s')\<rparr>))))"

text \<open>What \<^verbatim>\<open>ExecuteAgentRun\<close> does with the runner's answer: the error it returns and the database.\<close>

definition finish_run ::
    "(json \<Rightarrow> string) \<Rightarrow> (nat \<Rightarrow> id) \<Rightarrow> (nat \<Rightarrow> id) \<Rightarrow> id \<Rightarrow> id \<Rightarrow> id \<Rightarrow> string \<Rightarrow> agent_run \<Rightarrow> id \<Rightarrow>
     (err + run_result) \<Rightarrow> time \<Rightarrow> db \<Rightarrow> (err + unit) \<times> db" where
  "finish_run H fo fb pid gid org tok r owner result now s =
     (let i = ru_id r in
      case result of
        Inl _ \<Rightarrow> (Inr (), fail_run org i tok ''internal_error'' now s)
      | Inr res \<Rightarrow>
          if rs_status res = ''waiting'' \<and> rs_gate res \<noteq> None
          then with_org (park_run gid org i tok (ru_task r) owner (ru_created_by r) (the (rs_gate res)) now) s
          else if rs_status res \<noteq> ''succeeded'' \<or>
                  (case rs_draft res of None \<Rightarrow> True | Some d \<Rightarrow> dr_operations d = [])
          then (Inr (), fail_run org i tok (rs_failure res) now s)
          else
           (let d = the (rs_draft res);
                summary = (if dr_summary d = [] then ''Prepared by agent run '' @ i else dr_summary d)
            in case with_org (publish_run H fo fb pid org i tok (ru_task r) owner (ru_created_by r)
                                (ru_release r) summary (dr_operations d) now) s of
                 (Inl (PublishError code), s') \<Rightarrow> (Inr (), fail_run org i tok code now s')
               | r' \<Rightarrow> r'))"

text \<open>
  The handler, with no other transaction between its own: claim, gather, run, finish. \<open>runners\<close> is
  \<^verbatim>\<open>runner.New\<close> followed by \<^verbatim>\<open>Run\<close>.
\<close>

definition execute_agent_run ::
    "(json \<Rightarrow> string) \<Rightarrow> (string \<Rightarrow> int) \<Rightarrow> (string \<Rightarrow> run_request \<Rightarrow> err + run_result) \<Rightarrow> (nat \<Rightarrow> id) \<Rightarrow>
     (nat \<Rightarrow> id) \<Rightarrow> id \<Rightarrow> id \<Rightarrow> string \<Rightarrow> id \<Rightarrow> id \<Rightarrow> time \<Rightarrow> db \<Rightarrow> (err + unit) \<times> db" where
  "execute_agent_run H budget runners fo fb pid gid tok org i now s =
     (case claim_run budget org i tok now s of
        Inl NoRows \<Rightarrow> (not_claimed org i s, s)
      | Inl e \<Rightarrow> (Inl e, s)
      | Inr (r, s1) \<Rightarrow>
          (case gather org r s1 of
             Inl _ \<Rightarrow> (Inr (), fail_run org i tok ''internal_error'' now s1)
           | Inr (req, owner) \<Rightarrow>
               finish_run H fo fb pid gid org tok r owner (runners (ru_runner r) req) now s1))"

end
