(* ===== verification/Recovery.thy ===== *)
theory Recovery
  imports AgentRuns
begin

text \<open>
  Recovery of runs whose worker died, \<^verbatim>\<open>internal/store/recovery.go\<close>: runs with an expired lease go
  back to the queue with a job and an audit event, one organization at a time, and the sweep
  walks the directory of organizations with a rotating cursor.
\<close>

definition sweep_batch :: nat where
  "sweep_batch = 50"

definition max_recover_per_org :: int where
  "max_recover_per_org = 20"

definition stranded :: "id \<Rightarrow> time \<Rightarrow> db \<Rightarrow> agent_run \<Rightarrow> bool" where
  "stranded org now s r \<longleftrightarrow>
     ru_org r = org \<and> ru_status r = RRunning \<and> lease_expired now r \<and>
     exists_row (\<lambda>t. tk_org t = ru_org r \<and> tk_id t = ru_task r \<and> \<not> terminal_task (tk_status t)) (tasks s)"

text \<open>\<^verbatim>\<open>ORDER BY claim_expires_at NULLS FIRST, id\<close>.\<close>

definition lease_order :: "agent_run list \<Rightarrow> agent_run list" where
  "lease_order rs =
     sort_key ru_id (filter (\<lambda>r. ru_lease r = None) rs) @
     sort_key (\<lambda>r. the (ru_lease r)) (sort_key ru_id (filter (\<lambda>r. ru_lease r \<noteq> None) rs))"

definition reclaim_candidates :: "id \<Rightarrow> nat \<Rightarrow> time \<Rightarrow> db \<Rightarrow> agent_run list" where
  "reclaim_candidates org limit now s =
     take limit (lease_order (filter (stranded org now s) (agent_runs s)))"

definition reclaimed :: "agent_run \<Rightarrow> agent_run" where
  "reclaimed r = r\<lparr>ru_status := RQueued, ru_token := [], ru_lease := None,
     ru_attempt := ru_attempt r + 1\<rparr>"

definition reclaim_event :: "id \<Rightarrow> id \<Rightarrow> id \<Rightarrow> event" where
  "reclaim_event eid org i = \<lparr>ev_id = eid, ev_org = org, ev_aggregate = i, ev_version = 0,
     ev_type = ''agent_run.reclaimed'', ev_actor = ''system'',
     ev_payload = JObj [(''reason'', JStr ''claim_lease_expired'')]\<rparr>"

text \<open>The loop over the recovered runs: a job and an event each.\<close>

fun announce :: "(nat \<Rightarrow> id) \<Rightarrow> nat \<Rightarrow> id \<Rightarrow> id list \<Rightarrow> unit tx" where
  "announce fe n org [] s = Inr ((), s)"
| "announce fe n org (i # is) s =
     (case insert_event (reclaim_event (fe n) org i) (enqueue_agent_run org i s) of
        Inl e \<Rightarrow> Inl e
      | Inr (_, s') \<Rightarrow> announce fe (Suc n) org is s')"

definition reclaim_in_org :: "(nat \<Rightarrow> id) \<Rightarrow> id \<Rightarrow> int \<Rightarrow> time \<Rightarrow> nat tx" where
  "reclaim_in_org fe org limit0 now s =
     (let limit = nat (if limit0 \<le> 0 then max_recover_per_org else limit0);
          ids = map ru_id (reclaim_candidates org limit now s);
          s1 = s\<lparr>agent_runs := update_where (\<lambda>r. ru_org r = org \<and> ru_id r \<in> set ids) reclaimed
                    (agent_runs s)\<rparr>
      in case announce fe 0 org ids s1 of
           Inl e \<Rightarrow> Inl e
         | Inr (_, s') \<Rightarrow> Inr (length ids, s'))"

text \<open>\<open>orgs_after\<close> returns a page of the directory and whether the walk reached its end.\<close>

definition orgs_after :: "string \<Rightarrow> int \<Rightarrow> db \<Rightarrow> id list \<times> bool" where
  "orgs_after after limit0 s =
     (let limit = (if limit0 \<le> 0 then sweep_batch else nat limit0);
          page = take limit (sort (filter (\<lambda>i. i > after) (map og_id (organizations s))))
      in (page, length page < limit))"

fun sweep_orgs :: "(id \<Rightarrow> nat \<Rightarrow> id) \<Rightarrow> time \<Rightarrow> id list \<Rightarrow> db \<Rightarrow> nat \<times> db" where
  "sweep_orgs fe now [] s = (0, s)"
| "sweep_orgs fe now (org # orgs) s =
     (case with_org (reclaim_in_org (fe org) org max_recover_per_org now) s of
        (Inl _, s') \<Rightarrow> sweep_orgs fe now orgs s'
      | (Inr n, s') \<Rightarrow> (let (total, s'') = sweep_orgs fe now orgs s' in (n + total, s'')))"

text \<open>The count, the cursor of the next pass and the database.\<close>

definition reclaim_sweep :: "(id \<Rightarrow> nat \<Rightarrow> id) \<Rightarrow> time \<Rightarrow> string \<Rightarrow> db \<Rightarrow> nat \<times> string \<times> db" where
  "reclaim_sweep fe now cursor s =
     (let (orgs, wrapped) = orgs_after cursor (int sweep_batch) s;
          (total, s') = sweep_orgs fe now orgs s
      in (total, if wrapped \<or> orgs = [] then [] else last orgs, s'))"

end
