(* ===== verification/RunSafety.thy ===== *)
theory RunSafety
  imports Recovery Authorization
begin

text \<open>
  What every transaction keeps of the runs, the gates and the run queue: a waiting run has a
  pending question of its own, a queued run has a job, only a running run has a claim token, and
  the proposal of a run is the one recorded when the run succeeded.
\<close>

section \<open>The invariant\<close>

definition run_ids :: "db \<Rightarrow> bool" where
  "run_ids s \<longleftrightarrow> distinct (map ru_id (agent_runs s)) \<and> [] \<notin> ru_id ` set (agent_runs s)"

text \<open>The gate of a run names the run's task, and a run has at most one pending gate.\<close>

definition gate_tasks :: "db \<Rightarrow> bool" where
  "gate_tasks s \<longleftrightarrow> (\<forall>g\<in>set (gates s). \<forall>i. gt_run g = Some i \<longrightarrow>
     (\<exists>r\<in>set (agent_runs s). ru_org r = gt_org g \<and> ru_id r = i \<and> ru_task r = gt_task g))"

definition one_pending :: "gate list \<Rightarrow> bool" where
  "one_pending gs \<longleftrightarrow> (\<forall>g\<in>set gs. \<forall>h\<in>set gs. gt_status g = GPending \<longrightarrow> gt_status h = GPending \<longrightarrow>
     gt_run g \<noteq> None \<longrightarrow> gt_org g = gt_org h \<longrightarrow> gt_run g = gt_run h \<longrightarrow> g = h)"

definition gates_ok :: "db \<Rightarrow> bool" where
  "gates_ok s \<longleftrightarrow> distinct (map gt_id (gates s)) \<and> gate_tasks s \<and> one_pending (gates s)"

lemma gate_tasksD:
  "gates_ok s \<Longrightarrow> g \<in> set (gates s) \<Longrightarrow> gt_run g = Some i \<Longrightarrow>
     \<exists>r\<in>set (agent_runs s). ru_org r = gt_org g \<and> ru_id r = i \<and> ru_task r = gt_task g"
  unfolding gates_ok_def gate_tasks_def by blast

definition asks :: "agent_run \<Rightarrow> gate \<Rightarrow> bool" where
  "asks r g \<longleftrightarrow> gt_org g = ru_org r \<and> ru_gate r = Some (gt_id g) \<and> gt_run g = Some (ru_id r) \<and>
     gt_status g = GPending"

definition waiting_ok :: "db \<Rightarrow> bool" where
  "waiting_ok s \<longleftrightarrow> (\<forall>r\<in>set (agent_runs s). ru_status r = RWaiting \<longrightarrow> (\<exists>g\<in>set (gates s). asks r g))"

definition queued_ok :: "db \<Rightarrow> bool" where
  "queued_ok s \<longleftrightarrow>
     (\<forall>r\<in>set (agent_runs s). ru_status r = RQueued \<longrightarrow> (ru_org r, ru_id r) \<in> set (run_jobs s))"

definition tokens_ok :: "db \<Rightarrow> bool" where
  "tokens_ok s \<longleftrightarrow> (\<forall>r\<in>set (agent_runs s). ru_status r = RRunning \<longleftrightarrow> ru_token r \<noteq> [])"

definition outcome_of :: "agent_run \<Rightarrow> proposal \<Rightarrow> bool" where
  "outcome_of r p \<longleftrightarrow> ru_org r = pp_org p \<and> ru_id r = pp_origin_run p \<and> ru_status r = RSucceeded \<and>
     ru_proposal r = Some (pp_id p)"

definition origin_ok :: "db \<Rightarrow> bool" where
  "origin_ok s \<longleftrightarrow>
     (\<forall>p\<in>set (proposals s). pp_origin_run p \<noteq> [] \<longrightarrow> (\<exists>r\<in>set (agent_runs s). outcome_of r p))"

definition runs_ok :: "db \<Rightarrow> bool" where
  "runs_ok s \<longleftrightarrow> run_ids s \<and> gates_ok s \<and> waiting_ok s \<and> queued_ok s \<and> tokens_ok s \<and> origin_ok s"

lemma runs_okD:
  assumes "runs_ok s"
  shows "run_ids s" "gates_ok s" "waiting_ok s" "queued_ok s" "tokens_ok s" "origin_ok s"
  using assms by (simp_all add: runs_ok_def)

text \<open>Operations that leave these tables alone.\<close>

lemma runs_ok_cong:
  assumes "runs_ok s" "agent_runs s' = agent_runs s" "gates s' = gates s" "run_jobs s' = run_jobs s"
    "proposals_move s s'"
  shows "runs_ok s'"
proof -
  have "origin_ok s'" unfolding origin_ok_def
  proof (intro ballI impI)
    fix p assume p: "p \<in> set (proposals s')" "pp_origin_run p \<noteq> []"
    from assms(5) p(1) show "\<exists>r\<in>set (agent_runs s'). outcome_of r p"
    proof (cases rule: grows_cases)
      case (moved q)
      have e: "p = q\<lparr>pp_status := pp_status p, pp_failure := pp_failure p\<rparr>"
        using moved(2) by (simp add: proposal_move_def)
      have k: "pp_org p = pp_org q" "pp_id p = pp_id q" "pp_origin_run p = pp_origin_run q"
        by (subst e, simp)+
      then obtain r where "r \<in> set (agent_runs s)" "outcome_of r q"
        using assms(1) moved(1) p(2) by (auto simp: runs_ok_def origin_ok_def)
      then show ?thesis using k assms(2) by (auto simp: outcome_of_def)
    next
      case new
      then show ?thesis using p(2) by simp
    qed
  qed
  then show ?thesis using assms(1)
    by (simp add: runs_ok_def run_ids_def gates_ok_def gate_tasks_def waiting_ok_def queued_ok_def tokens_ok_def assms(2-4))
qed

lemma run_unique:
  assumes "run_ids s" "r \<in> set (agent_runs s)" "q \<in> set (agent_runs s)" "ru_id r = ru_id q"
  shows "r = q"
  using assms unique_key_row[of ru_id "agent_runs s" r q] by (simp add: run_ids_def)

lemma gate_unique:
  assumes "gates_ok s" "g \<in> set (gates s)" "h \<in> set (gates s)" "gt_id g = gt_id h"
  shows "g = h"
  using assms unique_key_row[of gt_id "gates s" g h] by (simp add: gates_ok_def)

section \<open>Updates of the runs table\<close>

text \<open>An update that names its runs by what never changes.\<close>

definition same_run :: "agent_run \<Rightarrow> agent_run \<Rightarrow> bool" where
  "same_run r q \<longleftrightarrow> ru_org q = ru_org r \<and> ru_id q = ru_id r \<and> ru_task q = ru_task r"

lemma run_ids_update:
  assumes "run_ids s" "agent_runs s' = update_where P f (agent_runs s)"
    "\<And>r. r \<in> set (agent_runs s) \<Longrightarrow> P r \<Longrightarrow> same_run r (f r)"
  shows "run_ids s'"
proof -
  have "map ru_id (agent_runs s') = map ru_id (agent_runs s)"
    unfolding assms(2) update_where_def using assms(3) by (simp add: same_run_def)
  then show ?thesis using assms(1) unfolding run_ids_def by (metis list.set_map)
qed

lemma gates_ok_runs:
  assumes "gates_ok s" "agent_runs s' = update_where P f (agent_runs s)" "gates s' = gates s"
    "\<And>r. r \<in> set (agent_runs s) \<Longrightarrow> P r \<Longrightarrow> same_run r (f r)"
  shows "gates_ok s'"
proof -
  have "\<exists>r\<in>set (agent_runs s'). ru_org r = o1 \<and> ru_id r = i \<and> ru_task r = t"
    if "\<exists>r\<in>set (agent_runs s). ru_org r = o1 \<and> ru_id r = i \<and> ru_task r = t" for o1 i t
    using that assms(4) unfolding assms(2) bex_update_where
    by (auto simp: same_run_def)
  then show ?thesis using assms(1) unfolding gates_ok_def gate_tasks_def assms(3) by blast
qed

text \<open>
  Runs leave their open states, or are claimed or queued again: nothing here makes a run wait.
  \<open>new\<close> are the proposals published with the update.
\<close>

lemma runs_ok_update:
  assumes "runs_ok s" "agent_runs s' = update_where P f (agent_runs s)" "gates s' = gates s"
    "set (run_jobs s) \<subseteq> set (run_jobs s')"
    and hit: "\<And>r. r \<in> set (agent_runs s) \<Longrightarrow> P r \<Longrightarrow>
       same_run r (f r) \<and> ru_status r \<noteq> RSucceeded \<and> ru_status (f r) \<noteq> RWaiting \<and>
       (ru_status (f r) = RQueued \<longrightarrow> (ru_org r, ru_id r) \<in> set (run_jobs s')) \<and>
       (ru_status (f r) = RRunning \<longleftrightarrow> ru_token (f r) \<noteq> [])"
    and new: "\<And>p. p \<in> set (proposals s') \<Longrightarrow> pp_origin_run p \<noteq> [] \<Longrightarrow>
       (\<exists>q\<in>set (proposals s). pp_org q = pp_org p \<and> pp_id q = pp_id p \<and> pp_origin_run q = pp_origin_run p) \<or>
       (\<exists>r\<in>set (agent_runs s). P r \<and> outcome_of (f r) p)"
  shows "runs_ok s'"
proof -
  note ok = runs_okD[OF assms(1)]
  have same: "\<And>r. r \<in> set (agent_runs s) \<Longrightarrow> P r \<Longrightarrow> same_run r (f r)" using hit by blast
  have "waiting_ok s'" unfolding waiting_ok_def assms(2,3)
  proof (intro ballI impI)
    fix r assume "r \<in> set (update_where P f (agent_runs s))" "ru_status r = RWaiting"
    then show "\<exists>g\<in>set (gates s). asks r g" using ok(3) hit
      by (auto simp: waiting_ok_def elim!: update_whereE)
  qed
  moreover have "queued_ok s'" unfolding queued_ok_def assms(2)
  proof (intro ballI impI)
    fix r assume "r \<in> set (update_where P f (agent_runs s))" "ru_status r = RQueued"
    then show "(ru_org r, ru_id r) \<in> set (run_jobs s')" using ok(4) hit assms(4)
      by (auto simp: queued_ok_def same_run_def elim!: update_whereE)
  qed
  moreover have "tokens_ok s'" unfolding tokens_ok_def assms(2)
  proof
    fix r assume "r \<in> set (update_where P f (agent_runs s))"
    then show "ru_status r = RRunning \<longleftrightarrow> ru_token r \<noteq> []" using ok(5) hit
      by (auto simp: tokens_ok_def elim!: update_whereE)
  qed
  moreover have "origin_ok s'" unfolding origin_ok_def
  proof (intro ballI impI)
    fix p assume p: "p \<in> set (proposals s')" "pp_origin_run p \<noteq> []"
    from new[OF p] show "\<exists>r\<in>set (agent_runs s'). outcome_of r p"
    proof (elim disjE bexE conjE)
      fix q assume q: "q \<in> set (proposals s)" "pp_org q = pp_org p" "pp_id q = pp_id p"
        "pp_origin_run q = pp_origin_run p"
      then obtain r where r: "r \<in> set (agent_runs s)" "outcome_of r q"
        using ok(6) p(2) unfolding origin_ok_def by metis
      then have "\<not> P r" using hit[of r] by (auto simp: outcome_of_def)
      then have "r \<in> set (agent_runs s')" using r(1) by (auto simp: assms(2) set_update_where)
      then show ?thesis using r(2) q by (auto simp: outcome_of_def)
    next
      fix r assume "r \<in> set (agent_runs s)" "P r" "outcome_of (f r) p"
      then show ?thesis unfolding assms(2) bex_update_where by (intro bexI[of _ r]) simp_all
    qed
  qed
  ultimately show ?thesis
    using run_ids_update[OF ok(1) assms(2) same] gates_ok_runs[OF ok(2) assms(2,3) same]
    by (simp add: runs_ok_def)
qed

section \<open>Admission and claim\<close>

lemma create_run_ok:
  assumes "create_agent_run txt supported i org task actor agent intent now s = Inr (r, s')"
  obtains "s' = s\<lparr>agent_runs := agent_runs s @ [r], run_jobs := run_jobs s @ [(org, i)]\<rparr>"
    "ru_id r = i" "ru_org r = org" "ru_task r = task" "ru_agent r = agent" "ru_status r = RQueued"
    "ru_token r = []" "ru_created_by r = actor" "\<not> exists_row (\<lambda>r. ru_id r = i) (agent_runs s)"
    "ru_gate r = None" "ru_proposal r = None"
    "\<exists>t. find_task org task s = Some t \<and> \<not> terminal_task (tk_status t)"
    "\<exists>a x. find_agent org agent s = Some a \<and> active_harness txt org (ag_harness a) s = Some x \<and>
       ru_release r = rr_id x \<and> ru_runner r = release_runner txt x \<and> supported (release_runner txt x)"
    "admission_missing org agent (ru_release r) s = Inr []"
proof -
  note d = assms[unfolded create_agent_run_def Let_def]
  obtain a where a: "find_agent org agent s = Some a" using d by (auto split: option.splits)
  obtain rel where rel: "active_harness txt org (ag_harness a) s = Some rel"
    using d a by (auto split: option.splits)
  have sup: "supported (release_runner txt rel)" using d a rel by (auto split: if_split_asm)
  have adm: "admission_missing org agent (rr_id rel) s = Inr []"
    using d a rel sup by (auto split: sum.splits if_split_asm)
  obtain t where t: "find_task org task s = Some t" using d a rel sup adm by (auto split: option.splits)
  have g: "\<not> terminal_task (tk_status t)" "\<not> exists_row (\<lambda>r. ru_id r = i) (agent_runs s)"
    using d a rel sup adm t by (auto split: if_split_asm)
  show thesis
    by (rule that) (use d a rel sup adm t g in \<open>auto simp: enqueue_agent_run_def split: if_split_asm option.splits\<close>)
qed

lemma create_run_keeps:
  assumes "create_agent_run txt supported i org task actor agent intent now s = Inr (r, s')"
    "runs_ok s" "i \<noteq> []"
  shows "runs_ok s'"
proof -
  note c = create_run_ok[OF assms(1)]
  have t: "agent_runs s' = agent_runs s @ [r]" "run_jobs s' = run_jobs s @ [(org, i)]"
    "gates s' = gates s" "proposals s' = proposals s" by (rule c, simp)+
  have r: "ru_id r = i" "ru_org r = org" "ru_status r = RQueued" "ru_token r = []" by (rule c, simp)+
  have new: "\<not> exists_row (\<lambda>r. ru_id r = i) (agent_runs s)" by (rule c)
  note ok = runs_okD[OF assms(2)]
  have "run_ids s'" using ok(1) new r(1) assms(3) by (auto simp: run_ids_def t exists_row_def)
  moreover have "gates_ok s'" using ok(2) by (auto simp: gates_ok_def gate_tasks_def t)
  moreover have "waiting_ok s'" using ok(3) r(3) by (auto simp: waiting_ok_def t)
  moreover have "queued_ok s'" using ok(4) r by (auto simp: queued_ok_def t)
  moreover have "tokens_ok s'" using ok(5) r by (auto simp: tokens_ok_def t)
  moreover have "origin_ok s'" using ok(6) by (auto simp: origin_ok_def t)
  ultimately show ?thesis by (simp add: runs_ok_def)
qed

lemma claim_run_ok:
  assumes "claim_run budget org i tok now s = Inr (r', s')"
  obtains r lease where "r \<in> set (agent_runs s)" "ru_org r = org" "ru_id r = i" "claimable now r"
    "r' = claimed tok lease now r"
    "s' = s\<lparr>agent_runs := update_where (\<lambda>r. ru_org r = org \<and> ru_id r = i \<and> claimable now r)
       (claimed tok lease now) (agent_runs s)\<rparr>"
    "lease = now + lease_seconds (budget (case find_run org i s of None \<Rightarrow> [] | Some r \<Rightarrow> ru_runner r)) * 1000000"
  using assms by (auto simp: claim_run_def Let_def dest!: row_SomeD split: option.splits)

lemma claimable_open: "claimable now r \<Longrightarrow> ru_status r = RQueued \<or> ru_status r = RRunning"
  by (auto simp: claimable_def)

lemma claim_run_keeps:
  assumes "claim_run budget org i tok now s = Inr (r', s')" "runs_ok s" "tok \<noteq> []"
  shows "runs_ok s'"
proof -
  obtain lease where t: "s' = s\<lparr>agent_runs := update_where (\<lambda>r. ru_org r = org \<and> ru_id r = i \<and> claimable now r)
       (claimed tok lease now) (agent_runs s)\<rparr>"
    by (rule claim_run_ok[OF assms(1)]) (rule that; assumption)
  show ?thesis
    by (rule runs_ok_update[OF assms(2), where P = "\<lambda>r. ru_org r = org \<and> ru_id r = i \<and> claimable now r"
          and f = "claimed tok lease now"])
       (use assms(3) in \<open>auto simp: t claimed_def same_run_def dest: claimable_open\<close>)
qed

text \<open>A run that cannot be claimed is not queued; a claimed one is not queued any more.\<close>

lemma claim_not_queued:
  "claim_run budget org i tok now s = Inl e \<Longrightarrow> r \<in> set (agent_runs s) \<Longrightarrow> ru_org r = org \<Longrightarrow>
     ru_id r = i \<Longrightarrow> ru_status r \<noteq> RQueued"
  by (auto simp: claim_run_def Let_def claimable_def row_None_iff split: option.splits)

lemma claimed_not_queued:
  assumes "claim_run budget org i tok now s = Inr (r', s')" "r \<in> set (agent_runs s')" "ru_org r = org"
    "ru_id r = i"
  shows "ru_status r \<noteq> RQueued"
proof -
  obtain lease where t: "s' = s\<lparr>agent_runs := update_where (\<lambda>r. ru_org r = org \<and> ru_id r = i \<and> claimable now r)
       (claimed tok lease now) (agent_runs s)\<rparr>"
    by (rule claim_run_ok[OF assms(1)]) (rule that; assumption)
  have "r \<in> set (update_where (\<lambda>r. ru_org r = org \<and> ru_id r = i \<and> claimable now r)
       (claimed tok lease now) (agent_runs s))" using assms(2) by (simp add: t)
  then show ?thesis
    by (cases rule: update_whereE) (use assms(3,4) in \<open>simp_all add: claimed_def claimable_def\<close>)
qed

lemma queued_drop:
  assumes "runs_ok s"
    "\<And>r. r \<in> set (agent_runs s) \<Longrightarrow> ru_org r = org \<Longrightarrow> ru_id r = i \<Longrightarrow> ru_status r \<noteq> RQueued"
  shows "runs_ok (s\<lparr>run_jobs := remove1 (org, i) (run_jobs s)\<rparr>)"
proof -
  have "queued_ok (s\<lparr>run_jobs := remove1 (org, i) (run_jobs s)\<rparr>)"
    unfolding queued_ok_def
  proof (intro ballI impI)
    fix r assume r: "r \<in> set (agent_runs (s\<lparr>run_jobs := remove1 (org, i) (run_jobs s)\<rparr>))" "ru_status r = RQueued"
    then have "(ru_org r, ru_id r) \<in> set (run_jobs s)"
      using runs_okD(4)[OF assms(1)] by (simp add: queued_ok_def)
    moreover have "(ru_org r, ru_id r) \<noteq> (org, i)" using assms(2) r by auto
    ultimately show "(ru_org r, ru_id r) \<in> set (run_jobs (s\<lparr>run_jobs := remove1 (org, i) (run_jobs s)\<rparr>))"
      by (simp add: in_set_remove1)
  qed
  then show ?thesis using assms(1)
    by (simp add: runs_ok_def run_ids_def gates_ok_def gate_tasks_def waiting_ok_def tokens_ok_def origin_ok_def)
qed

section \<open>The ends of an attempt\<close>

text \<open>Fencing: without the current token nothing happens.\<close>

lemma holder_unmatched: "row (holder org i tok) rs = None \<Longrightarrow> update_where (holder org i tok) f rs = rs"
  by (rule update_where_unmatched) (simp add: row_None_iff)

lemma fail_run_fenced: "row (holder org i tok) (agent_runs s) = None \<Longrightarrow> fail_run org i tok code now s = s"
  by (simp add: fail_run_def update_failure_def holder_unmatched)

lemma finish_run_fenced:
  assumes "row (holder org (ru_id r) tok) (agent_runs s) = None"
  shows "finish_run H fo fb pid gid org tok r owner result now s = (Inr (), s)"
  using assms
  by (auto simp: finish_run_def Let_def fail_run_fenced park_run_def publish_run_def with_org_def
      split: sum.splits)

lemma update_failure_keeps:
  assumes "runs_ok s" "tok \<noteq> []"
  shows "runs_ok (update_failure org i tok code now s)"
  by (rule runs_ok_update[OF assms(1), where P = "holder org i tok" and f = "failed code now"])
     (use runs_okD(5)[OF assms(1)] assms(2) in \<open>auto simp: update_failure_def failed_def same_run_def tokens_ok_def\<close>)

lemma fail_run_keeps: "runs_ok s \<Longrightarrow> tok \<noteq> [] \<Longrightarrow> runs_ok (fail_run org i tok code now s)"
  by (simp add: fail_run_def update_failure_keeps)

lemma park_run_cases:
  assumes "park_run gid org i tok task owner initiator q now s = Inr (u, s')"
  obtains (idle) "s' = s"
  | (adopted) r g where "row (holder org i tok) (agent_runs s) = Some r" "ru_status r = RRunning"
      "g \<in> set (gates s)" "pending_for org i g"
      "s' = s\<lparr>agent_runs := update_where (\<lambda>r. ru_org r = org \<and> ru_id r = i) (park_on (gt_id g)) (agent_runs s)\<rparr>"
  | (asked) r g where "row (holder org i tok) (agent_runs s) = Some r" "ru_status r = RRunning"
      "\<not> exists_row (\<lambda>g. gt_id g = gid) (gates s)" "\<not> exists_row (pending_for org i) (gates s)"
      "gt_id g = gid" "pending_for org i g" "gt_task g = task"
      "validate_gate_schema (Some (gt_schema g)) = Inr ()"
      "gt_respondent g = (if gq_respondent q = [] then owner else gq_respondent q)"
      "find_principal org (gt_respondent g) s \<noteq> None" "gt_response g = None"
      "s' = s\<lparr>gates := gates s @ [g], agent_runs := update_where (\<lambda>r. ru_org r = org \<and> ru_id r = i)
              (park_on gid) (agent_runs s)\<rparr>"
proof (cases "row (holder org i tok) (agent_runs s)")
  case None
  then show thesis using assms idle by (simp add: park_run_def)
next
  case (Some r)
  note d = assms[unfolded park_run_def Let_def Some option.case]
  let ?tag = "case gq_schema q of None \<Rightarrow> Some (JObj []) | Some v \<Rightarrow> v"
  show thesis
  proof (cases "ru_status r = RRunning")
    case False
    then show thesis using d idle by simp
  next
    case run: True
    have v: "validate_gate_schema ?tag = Inr ()" using d run by (auto split: sum.splits)
    then obtain tag where tag: "?tag = Some tag"
      by (auto simp: validate_gate_schema_def split: option.splits)
    have k: "gq_kind q \<in> set gate_kinds" using d run v by (auto split: if_split_asm)
    show thesis
    proof (cases "exists_row (\<lambda>g. gt_id g = gid) (gates s) \<or> exists_row (pending_for org i) (gates s)")
      case True
      then obtain g where g: "row (pending_for org i) (gates s) = Some g"
        using d run v k by (auto split: option.splits)
      then have "s' = s\<lparr>agent_runs := update_where (\<lambda>r. ru_org r = org \<and> ru_id r = i) (park_on (gt_id g)) (agent_runs s)\<rparr>"
        using d run v k True by simp
      then show thesis using adopted[OF Some run, of g] row_SomeD[OF g] by blast
    next
      case False
      have p: "find_principal org (if gq_respondent q = [] then owner else gq_respondent q) s \<noteq> None"
        using d run v k False by (auto split: if_split_asm)
      let ?g = "\<lparr>gt_id = gid, gt_org = org, gt_task = task, gt_run = Some i,
          gt_kind = gq_kind q, gt_prompt = gq_prompt q, gt_schema = tag, gt_revision = 1,
          gt_status = GPending,
          gt_respondent = (if gq_respondent q = [] then owner else gq_respondent q),
          gt_response = None, gt_responded_by = None, gt_responded_at = None,
          gt_created_by = initiator, gt_created = now, gt_version = 1\<rparr>"
      have "s' = s\<lparr>gates := gates s @ [?g], agent_runs := update_where (\<lambda>r. ru_org r = org \<and> ru_id r = i)
              (park_on gid) (agent_runs s)\<rparr>"
        using d run v k False tag by (auto split: if_split_asm)
      then show thesis
        by (rule asked[OF Some run, rotated -1]) (use False v tag p in \<open>simp_all add: pending_for_def\<close>)
    qed
  qed
qed

lemma park_keeps_runs:
  assumes "runs_ok s" "run_ids s'" "gates_ok s'"
    "agent_runs s' = update_where (\<lambda>r. ru_org r = org \<and> ru_id r = i) (park_on gid) (agent_runs s)"
    "set (gates s) \<subseteq> set (gates s')" "run_jobs s' = run_jobs s" "proposals s' = proposals s"
    "r \<in> set (agent_runs s)" "ru_org r = org" "ru_id r = i" "ru_status r = RRunning"
    "g \<in> set (gates s')" "gt_id g = gid" "pending_for org i g"
  shows "runs_ok s'"
proof -
  note ok = runs_okD[OF assms(1)]
  have one: "q = r" if "q \<in> set (agent_runs s)" "ru_id q = i" for q
    using run_unique[OF ok(1) that(1) assms(8)] that(2) assms(10) by simp
  have "waiting_ok s'" unfolding waiting_ok_def assms(4)
  proof (intro ballI impI)
    fix q assume "q \<in> set (update_where (\<lambda>r. ru_org r = org \<and> ru_id r = i) (park_on gid) (agent_runs s))"
      "ru_status q = RWaiting"
    then show "\<exists>g\<in>set (gates s'). asks q g"
    proof (cases rule: update_whereE)
      case (hit q0)
      then have "asks q g" using assms(13,14) by (simp add: asks_def park_on_def pending_for_def)
      with assms(12) show ?thesis by blast
    next
      case miss
      then show ?thesis using ok(3) assms(5) \<open>ru_status q = RWaiting\<close> by (auto simp: waiting_ok_def)
    qed
  qed
  moreover have "queued_ok s'" using ok(4) unfolding queued_ok_def assms(4,6)
    by (auto simp: park_on_def elim!: update_whereE)
  moreover have "tokens_ok s'" using ok(5) unfolding tokens_ok_def assms(4)
    by (auto simp: park_on_def elim!: update_whereE)
  moreover have "origin_ok s'" unfolding origin_ok_def assms(7)
  proof (intro ballI impI)
    fix p assume "p \<in> set (proposals s)" "pp_origin_run p \<noteq> []"
    then obtain q where q: "q \<in> set (agent_runs s)" "outcome_of q p"
      using ok(6) by (auto simp: origin_ok_def)
    then have "ru_id q \<noteq> i" using one assms(11) by (auto simp: outcome_of_def)
    then have "q \<in> set (agent_runs s')" using q(1) by (auto simp: assms(4) set_update_where)
    with q(2) show "\<exists>r\<in>set (agent_runs s'). outcome_of r p" by blast
  qed
  ultimately show ?thesis using assms(2,3) by (simp add: runs_ok_def)
qed

lemma park_run_keeps:
  assumes "park_run gid org i tok task owner initiator q now s = Inr (u, s')" "runs_ok s"
    "\<And>r. r \<in> set (agent_runs s) \<Longrightarrow> ru_org r = org \<Longrightarrow> ru_id r = i \<Longrightarrow> ru_task r = task"
  shows "runs_ok s'"
  using assms(1)
proof (cases rule: park_run_cases)
  case idle
  then show ?thesis using assms(2) by simp
next
  case (adopted r g)
  note ok = runs_okD[OF assms(2)]
  let ?P = "\<lambda>r. ru_org r = org \<and> ru_id r = i"
  have t: "agent_runs s' = update_where ?P (park_on (gt_id g)) (agent_runs s)" "gates s' = gates s"
    "run_jobs s' = run_jobs s" "proposals s' = proposals s" by (simp_all add: adopted(5))
  have same: "same_run r (park_on (gt_id g) r)" for r by (simp add: same_run_def park_on_def)
  have r: "r \<in> set (agent_runs s)" "ru_org r = org" "ru_id r = i" using row_SomeD[OF adopted(1)] by auto
  show ?thesis
    by (rule park_keeps_runs[OF assms(2) run_ids_update[OF ok(1) t(1) same] gates_ok_runs[OF ok(2) t(1,2) same]
          t(1) _ t(3,4) r adopted(2), of g])
       (use adopted(3,4) t in simp_all)
next
  case (asked r g)
  note ok = runs_okD[OF assms(2)]
  let ?P = "\<lambda>r. ru_org r = org \<and> ru_id r = i"
  have t: "agent_runs s' = update_where ?P (park_on gid) (agent_runs s)" "gates s' = gates s @ [g]"
    "run_jobs s' = run_jobs s" "proposals s' = proposals s" by (simp_all add: asked(12))
  have same: "same_run r (park_on gid r)" for r by (simp add: same_run_def park_on_def)
  have r: "r \<in> set (agent_runs s)" "ru_org r = org" "ru_id r = i" using row_SomeD[OF asked(1)] by auto
  have "gate_tasks (s\<lparr>gates := gates s @ [g]\<rparr>)"
    using ok(2) r assms(3)[OF r] asked(6,7) by (auto simp: gates_ok_def gate_tasks_def pending_for_def)
  moreover have "one_pending (gates s @ [g])"
    using ok(2) asked(4,6) by (auto simp: gates_ok_def one_pending_def pending_for_def exists_row_def)
  ultimately have "gates_ok (s\<lparr>gates := gates s @ [g]\<rparr>)"
    using ok(2) asked(3,5) by (auto simp: gates_ok_def exists_row_def)
  then have g: "gates_ok s'" by (rule gates_ok_runs[where P = ?P and f = "park_on gid"]) (simp_all add: t same)
  show ?thesis
    by (rule park_keeps_runs[OF assms(2) run_ids_update[OF ok(1) t(1) same] g t(1) _ t(3,4) r asked(2), of g])
       (use asked(5,6) t in auto)
qed

lemma publish_run_cases:
  assumes "publish_run H fo fb pid org i tok task owner initiator release summary ops now s = Inr (u, s')"
  obtains (idle) "s' = s"
  | (refused) code where "s' = update_failure org i tok code now s"
  | (published) r p s1 where "row (holder org i tok) (agent_runs s) = Some r" "ru_status r = RRunning"
      "create_proposal_tx H fo fb pid now org task owner (summary @ '' (agent run '' @ i @ '')'')
         ''agent_run'' i ops s = Inr (p, s1)"
      "s' = s1\<lparr>agent_runs := update_where (holder org i tok) (succeeded pid summary now) (agent_runs s)\<rparr>"
      "pp_id p = pid" "pp_org p = org" "pp_origin_run p = i" "\<not> inactive org s owner" "\<not> inactive org s initiator"
      "\<exists>x. find_release org release s = Some x \<and> rr_state x = ''active''"
proof (cases "row (holder org i tok) (agent_runs s)")
  case None
  then show thesis using assms idle by (simp add: publish_run_def)
next
  case (Some r)
  note d = assms[unfolded publish_run_def Some option.case]
  show thesis
  proof (cases "ru_status r = RRunning")
    case False
    then show thesis using d idle by simp
  next
    case run: True
    obtain t where t: "find_task org task s = Some t" using d run by (auto split: option.splits)
    let ?rel = "case find_release org release s of None \<Rightarrow> True | Some x \<Rightarrow> rr_state x \<noteq> ''active''"
    show thesis
    proof (cases "terminal_task (tk_status t) \<or> ?rel \<or> list_ex (inactive org s) [owner, initiator]")
      case True
      then have "\<exists>code. s' = update_failure org i tok code now s" using d run t
        by (auto split: if_split_asm option.splits)
      then show thesis using refused by blast
    next
      case False
      then obtain p s1 where c: "create_proposal_tx H fo fb pid now org task owner
          (summary @ '' (agent run '' @ i @ '')'') ''agent_run'' i ops s = Inr (p, s1)"
        and s': "s' = s1\<lparr>agent_runs := update_where (holder org i tok) (succeeded (pp_id p) summary now)
              (agent_runs s1)\<rparr>"
        using d run t by (auto split: sum.splits)
      have f: "pp_id p = pid" "pp_org p = org" "pp_origin_run p = i"
        by (rule create_proposal_tx_ok[OF c], simp)+
      obtain A B where "s1 = s\<lparr>proposals := A, business_ops := B\<rparr>"
        using create_proposal_tables(2)[OF c] by blast
      then have "agent_runs s1 = agent_runs s" by simp
      then show thesis using published[OF Some run c _ f] s' f(1) False
        by (auto split: option.splits)
    qed
  qed
qed

lemma publish_run_keeps:
  assumes "publish_run H fo fb pid org i tok task owner initiator release summary ops now s = Inr (u, s')"
    "runs_ok s" "tok \<noteq> []"
  shows "runs_ok s'"
  using assms(1)
proof (cases rule: publish_run_cases)
  case (refused code)
  then show ?thesis using update_failure_keeps[OF assms(2,3)] by simp
next
  case (published r p s1)
  note ok = runs_okD[OF assms(2)]
  obtain A B where s1: "s1 = s\<lparr>proposals := A, business_ops := B\<rparr>"
    using create_proposal_tables(2)[OF published(3)] by blast
  let ?f = "succeeded pid summary now"
  have t: "agent_runs s' = update_where (holder org i tok) ?f (agent_runs s)" "gates s' = gates s"
    "run_jobs s' = run_jobs s" "proposals s' = proposals s1" by (simp_all add: published(4) s1)
  have r: "r \<in> set (agent_runs s)" "holder org i tok r" using row_SomeD[OF published(1)] by auto
  show ?thesis
  proof (rule runs_ok_update[OF assms(2) t(1,2)])
    fix q assume "q \<in> set (agent_runs s)" "holder org i tok q"
    then have "ru_status q = RRunning" using ok(5) assms(3) by (auto simp: tokens_ok_def)
    then show "same_run q (?f q) \<and> ru_status q \<noteq> RSucceeded \<and> ru_status (?f q) \<noteq> RWaiting \<and>
        (ru_status (?f q) = RQueued \<longrightarrow> (ru_org q, ru_id q) \<in> set (run_jobs s')) \<and>
        (ru_status (?f q) = RRunning \<longleftrightarrow> ru_token (?f q) \<noteq> [])"
      by (simp add: same_run_def succeeded_def)
  next
    fix x assume x: "x \<in> set (proposals s')" "pp_origin_run x \<noteq> []"
    have "x = p \<or> (\<exists>q\<in>set (proposals s). pp_org q = pp_org x \<and> pp_id q = pp_id x \<and>
        pp_origin_run q = pp_origin_run x)"
      using x(1) unfolding t(4) create_proposal_tables(1)[OF published(3)] supersede_proposals
      by (auto elim!: update_whereE)
    moreover have "\<exists>q\<in>set (agent_runs s). holder org i tok q \<and> outcome_of (?f q) p"
      using r published(5-7) by (auto simp: outcome_of_def succeeded_def)
    ultimately show "(\<exists>q\<in>set (proposals s). pp_org q = pp_org x \<and> pp_id q = pp_id x \<and>
        pp_origin_run q = pp_origin_run x) \<or>
        (\<exists>q\<in>set (agent_runs s). holder org i tok q \<and> outcome_of (?f q) x)" by blast
  qed (simp add: t)
qed (use assms(2) in simp)

lemma finish_run_keeps:
  assumes "finish_run H fo fb pid gid org tok r owner result now s = (e, s')" "runs_ok s" "tok \<noteq> []"
    "\<And>q. q \<in> set (agent_runs s) \<Longrightarrow> ru_org q = org \<Longrightarrow> ru_id q = ru_id r \<Longrightarrow> ru_task q = ru_task r"
  shows "runs_ok s'"
proof -
  have fail: "runs_ok (fail_run org i tok code now s)" for i code by (rule fail_run_keeps[OF assms(2,3)])
  have park: "runs_ok s1" if "park_run gid org (ru_id r) tok (ru_task r) o1 i1 q now s = Inr (u, s1)" for o1 i1 q u s1
    using park_run_keeps[OF that assms(2,4)] .
  have pub: "runs_ok s1"
    if "publish_run H fo fb pid org (ru_id r) tok (ru_task r) o1 i1 rel sm ops now s = Inr (u, s1)" for o1 i1 rel sm ops u s1
    using publish_run_keeps[OF that assms(2,3)] .
  show ?thesis using assms(1,2) fail park pub
    by (auto simp: finish_run_def Let_def with_org_def split: sum.splits if_split_asm prod.splits err.splits)
qed

section \<open>Answers and cancellation\<close>

lemma resume_run_keeps:
  assumes "run_ids s0" "gates_ok s0" "queued_ok s0" "tokens_ok s0" "origin_ok s0"
    and wait: "\<And>r. r \<in> set (agent_runs s0) \<Longrightarrow> ru_status r = RWaiting \<Longrightarrow> \<not> waits_on org run gid r \<Longrightarrow>
       \<exists>g\<in>set (gates s0). asks r g"
  shows "runs_ok (resume_run org run gid s0)"
proof -
  let ?s = "resume_run org run gid s0"
  have t: "agent_runs ?s = update_where (waits_on org run gid) requeue (agent_runs s0)" "gates ?s = gates s0"
    by (simp_all add: resume_run_def Let_def enqueue_agent_run_def)
  have same: "\<And>r. same_run r (requeue r)" by (simp add: same_run_def requeue_def)
  have jobs: "set (run_jobs s0) \<subseteq> set (run_jobs ?s)" "proposals ?s = proposals s0"
    by (auto simp: resume_run_def Let_def enqueue_agent_run_def)
  have hit: "(org, run) \<in> set (run_jobs ?s)" if r: "r \<in> set (agent_runs s0)" "waits_on org run gid r" for r
  proof -
    have "length (filter (waits_on org run gid) (agent_runs s0)) = 1"
    proof -
      have d: "distinct (map ru_id (agent_runs s0))" using assms(1) by (simp add: run_ids_def)
      have "q = r" if "q \<in> set (agent_runs s0)" "waits_on org run gid q" for q
        using run_unique[OF assms(1) that(1) r(1)] that(2) r(2) by (simp add: waits_on_def)
      then have "set (filter (waits_on org run gid) (agent_runs s0)) = {r}" unfolding set_filter using r by blast
      moreover have "distinct (filter (waits_on org run gid) (agent_runs s0))"
        using d by (simp add: distinct_map)
      ultimately show ?thesis by (simp flip: distinct_card)
    qed
    then show ?thesis by (simp add: resume_run_def Let_def enqueue_agent_run_def rows_affected_def)
  qed
  have "waiting_ok ?s" unfolding waiting_ok_def t
    using wait by (auto simp: requeue_def elim!: update_whereE)
  moreover have "queued_ok ?s" unfolding queued_ok_def t(1)
  proof (intro ballI impI)
    fix r assume "r \<in> set (update_where (waits_on org run gid) requeue (agent_runs s0))" "ru_status r = RQueued"
    then show "(ru_org r, ru_id r) \<in> set (run_jobs ?s)" using assms(3) jobs(1) hit
      by (auto simp: queued_ok_def requeue_def waits_on_def elim!: update_whereE)
  qed
  moreover have "tokens_ok ?s" using assms(4) unfolding tokens_ok_def t(1)
    by (auto simp: requeue_def elim!: update_whereE)
  moreover have "origin_ok ?s" unfolding origin_ok_def jobs(2)
  proof (intro ballI impI)
    fix p assume "p \<in> set (proposals s0)" "pp_origin_run p \<noteq> []"
    then obtain q where q: "q \<in> set (agent_runs s0)" "outcome_of q p"
      using assms(5) by (auto simp: origin_ok_def)
    then have "\<not> waits_on org run gid q" by (auto simp: outcome_of_def waits_on_def)
    then have "q \<in> set (agent_runs ?s)" using q(1) by (auto simp: t(1) set_update_where)
    with q(2) show "\<exists>r\<in>set (agent_runs ?s). outcome_of r p" by blast
  qed
  ultimately show ?thesis
    using run_ids_update[OF assms(1) t(1) same] gates_ok_runs[OF assms(2) t same]
    by (simp add: runs_ok_def)
qed

text \<open>An update of the gates that opens none.\<close>

lemma gates_ok_close:
  assumes "gates_ok s" "gates s' = update_where P f (gates s)" "agent_runs s' = agent_runs s"
    "\<And>g. gt_id (f g) = gt_id g \<and> gt_org (f g) = gt_org g \<and> gt_run (f g) = gt_run g \<and>
         gt_task (f g) = gt_task g \<and> gt_status (f g) \<noteq> GPending"
  shows "gates_ok s'"
proof -
  have "distinct (map gt_id (gates s'))"
    using assms(1,4) by (simp add: gates_ok_def assms(2) map_key_update_where)
  moreover have "gate_tasks s'" using assms(1,4) unfolding gates_ok_def gate_tasks_def assms(2,3)
    by (fastforce elim!: update_whereE)
  moreover have "one_pending (gates s')" using assms(1,4) unfolding gates_ok_def one_pending_def assms(2)
    by (auto elim!: update_whereE)
  ultimately show ?thesis by (simp add: gates_ok_def)
qed

lemma resolve_gate_keeps:
  assumes "resolve_gate eid org i actor rv response now s = Inr (g', s')" "runs_ok s"
  shows "runs_ok s'"
  using assms(1)
proof (cases rule: resolve_gate_cases)
  case (resolved g)
  note ok = runs_okD[OF assms(2)]
  let ?P = "\<lambda>g. gt_org g = org \<and> gt_id g = i"
  let ?s1 = "s\<lparr>gates := update_where ?P (answered response actor now) (gates s)\<rparr>"
  let ?s2 = "case gt_run g of None \<Rightarrow> ?s1 | Some run \<Rightarrow> resume_run org run i ?s1"
  have g: "g \<in> set (gates s)" "?P g" using row_SomeD[OF resolved(1)] by auto
  have g1: "gates_ok ?s1"
    by (rule gates_ok_close[OF ok(2), where P = ?P and f = "answered response actor now"])
       (simp_all add: answered_def)
  have r1: "run_ids ?s1" "queued_ok ?s1" "tokens_ok ?s1" "origin_ok ?s1"
    using ok by (simp_all add: run_ids_def queued_ok_def tokens_ok_def origin_ok_def)
  have w: "\<exists>h\<in>set (gates ?s1). asks r h"
    if r: "r \<in> set (agent_runs s)" "ru_status r = RWaiting" "\<And>run. gt_run g = Some run \<Longrightarrow> \<not> waits_on org run i r" for r
  proof -
    obtain h where h: "h \<in> set (gates s)" "asks r h" using ok(3) r(1,2) by (auto simp: waiting_ok_def)
    have "\<not> ?P h"
    proof
      assume P: "?P h"
      then have "h = g" using gate_unique[OF ok(2) h(1) g(1)] g(2) by simp
      then show False using h(2) r(2) r(3)[of "ru_id r"] P by (simp add: asks_def waits_on_def)
    qed
    then have "h \<in> set (gates ?s1)" using h(1) by (auto simp: set_update_where)
    with h(2) show ?thesis by blast
  qed
  have "runs_ok ?s2"
  proof (cases "gt_run g")
    case None
    have "waiting_ok ?s1" unfolding waiting_ok_def using w None by simp
    then show ?thesis using g1 r1 None by (simp add: runs_ok_def)
  next
    case (Some run)
    have "runs_ok (resume_run org run i ?s1)"
      by (rule resume_run_keeps[OF r1(1) g1 r1(2-4)]) (use w Some in simp)
    then show ?thesis by (simp add: Some)
  qed
  then show ?thesis unfolding resolved(8) Let_def
    by (rule runs_ok_cong) (auto simp: grows_refl)
qed (use assms(2) in simp)

lemma cancel_task_keeps_runs:
  assumes "cancel_task org i v now s = Inr (x, s')" "runs_ok s"
  shows "runs_ok s'"
proof -
  note t = cancel_task_tables[OF assms(1)]
  have jobs: "run_jobs s' = run_jobs s" using cancel_task_frame[OF assms(1)] by (metis db.select_convs db.surjective db.update_convs)
  let ?P = "\<lambda>r. ru_org r = org \<and> ru_task r = i \<and> open_run (ru_status r)"
  let ?f = "\<lambda>r. r\<lparr>ru_status := RCancelled, ru_finished := Some now, ru_token := [], ru_lease := None\<rparr>"
  let ?s1 = "s\<lparr>agent_runs := update_where ?P ?f (agent_runs s)\<rparr>"
  have ok1: "runs_ok ?s1"
    by (rule runs_ok_update[OF assms(2), where P = ?P and f = ?f]) (auto simp: same_run_def)
  note ok = runs_okD[OF ok1]
  let ?s2 = "?s1\<lparr>gates := gates s'\<rparr>"
  have "gates_ok ?s2"
    by (rule gates_ok_close[OF ok(2)]) (use t(4) in auto)
  moreover have "waiting_ok ?s2" unfolding waiting_ok_def
  proof (intro ballI impI)
    fix r assume r: "r \<in> set (agent_runs ?s2)" "ru_status r = RWaiting"
    then obtain g where g: "g \<in> set (gates s)" "asks r g" using ok(3) by (auto simp: waiting_ok_def)
    have "g \<in> set (gates ?s1)" "gt_run g = Some (ru_id r)" using g by (simp_all add: asks_def)
    then obtain q where q: "q \<in> set (agent_runs ?s1)" "ru_org q = gt_org g" "ru_id q = ru_id r" "ru_task q = gt_task g"
      using gate_tasksD[OF ok(2)] by blast
    then have "q = r" using run_unique[OF ok(1), of q r] r(1) by simp
    moreover have "\<not> (ru_org r = org \<and> ru_task r = i)"
    proof -
      have "r \<in> set (update_where ?P ?f (agent_runs s))" using r(1) by simp
      then show ?thesis using r(2) by (cases rule: update_whereE) auto
    qed
    ultimately have "\<not> (gt_org g = org \<and> gt_task g = i)" using q(2,4) by simp
    then have "g \<in> set (gates ?s2)" using g(1) by (auto simp: t(4) set_update_where)
    with g(2) show "\<exists>g\<in>set (gates ?s2). asks r g" by blast
  qed
  ultimately have ok2: "runs_ok ?s2" using ok
    by (simp add: runs_ok_def run_ids_def queued_ok_def tokens_ok_def origin_ok_def)
  show ?thesis
    by (rule runs_ok_cong[OF ok2])
       (use cancel_task_moves[OF assms(1)] in \<open>simp_all add: t(5) jobs\<close>)
qed

section \<open>Recovery\<close>

lemma announce_ok:
  assumes "announce fe n org ids s = Inr (u, s')"
  shows "s' = s\<lparr>run_jobs := run_jobs s @ map (Pair org) ids,
      events := events s @ map (\<lambda>k. reclaim_event (fe (n + k)) org (ids ! k)) [0..<length ids]\<rparr>"
  using assms
proof (induction fe n org ids s rule: announce.induct)
  case (2 fe n org i ids s)
  then obtain v s1 where e: "insert_event (reclaim_event (fe n) org i) (enqueue_agent_run org i s) = Inr (v, s1)"
      "announce fe (Suc n) org ids s1 = Inr (u, s')"
    by (auto split: sum.splits)
  have s1: "s1 = s\<lparr>run_jobs := run_jobs s @ [(org, i)], events := events s @ [reclaim_event (fe n) org i]\<rparr>"
    using insert_event_ok[OF e(1)] by (simp add: enqueue_agent_run_def)
  then show ?case using "2.IH"[OF e(1) _ e(2)] by (simp add: map_upt_Suc del: upt_Suc)
qed simp

lemma set_lease_order [simp]: "set (lease_order rs) = set rs"
  by (auto simp: lease_order_def)

lemma candidates_stranded:
  "r \<in> set (reclaim_candidates org n now s) \<Longrightarrow> r \<in> set (agent_runs s) \<and> stranded org now s r"
  by (auto simp: reclaim_candidates_def dest: in_set_takeD)

lemma reclaim_ok:
  assumes "reclaim_in_org fe org limit now s = Inr (n, s')"
  obtains ids where
    "ids = map ru_id (reclaim_candidates org (nat (if limit \<le> 0 then max_recover_per_org else limit)) now s)"
    "n = length ids"
    "s' = s\<lparr>agent_runs := update_where (\<lambda>r. ru_org r = org \<and> ru_id r \<in> set ids) reclaimed (agent_runs s),
       run_jobs := run_jobs s @ map (Pair org) ids,
       events := events s @ map (\<lambda>k. reclaim_event (fe k) org (ids ! k)) [0..<length ids]\<rparr>"
proof -
  let ?ids = "map ru_id (reclaim_candidates org (nat (if limit \<le> 0 then max_recover_per_org else limit)) now s)"
  let ?s1 = "s\<lparr>agent_runs := update_where (\<lambda>r. ru_org r = org \<and> ru_id r \<in> set ?ids) reclaimed (agent_runs s)\<rparr>"
  obtain u where a: "announce fe 0 org ?ids ?s1 = Inr (u, s')" and n: "n = length ?ids"
    using assms by (auto simp: reclaim_in_org_def Let_def split: sum.splits)
  show thesis by (rule that[OF refl n]) (use announce_ok[OF a] in simp)
qed

lemma reclaim_keeps:
  assumes "reclaim_in_org fe org limit now s = Inr (n, s')" "runs_ok s"
  shows "runs_ok s'"
proof -
  let ?C = "reclaim_candidates org (nat (if limit \<le> 0 then max_recover_per_org else limit)) now s"
  let ?ids = "map ru_id ?C"
  have s': "s' = s\<lparr>agent_runs := update_where (\<lambda>r. ru_org r = org \<and> ru_id r \<in> set ?ids) reclaimed (agent_runs s),
       run_jobs := run_jobs s @ map (Pair org) ?ids,
       events := events s @ map (\<lambda>k. reclaim_event (fe k) org (?ids ! k)) [0..<length ?ids]\<rparr>"
    using reclaim_ok[OF assms(1)] by metis
  have t: "agent_runs s' = update_where (\<lambda>r. ru_org r = org \<and> ru_id r \<in> set ?ids) reclaimed (agent_runs s)"
    "run_jobs s' = run_jobs s @ map (Pair org) ?ids" "gates s' = gates s" "proposals s' = proposals s"
    by (simp_all add: s')
  show ?thesis
  proof (rule runs_ok_update[OF assms(2) t(1,3)])
    fix r assume r: "r \<in> set (agent_runs s)" "ru_org r = org \<and> ru_id r \<in> set ?ids"
    then obtain q where q: "q \<in> set ?C" "ru_id q = ru_id r" by auto
    have "q = r" using run_unique[OF runs_okD(1)[OF assms(2)] _ r(1) q(2)] candidates_stranded[OF q(1)] by blast
    then have "ru_status r = RRunning" using candidates_stranded[OF q(1)] by (simp add: stranded_def)
    then show "same_run r (reclaimed r) \<and> ru_status r \<noteq> RSucceeded \<and> ru_status (reclaimed r) \<noteq> RWaiting \<and>
        (ru_status (reclaimed r) = RQueued \<longrightarrow> (ru_org r, ru_id r) \<in> set (run_jobs s')) \<and>
        (ru_status (reclaimed r) = RRunning \<longleftrightarrow> ru_token (reclaimed r) \<noteq> [])"
      using r(2) unfolding t(2) by (auto simp: same_run_def reclaimed_def)
  qed (auto simp: t)
qed

text \<open>An event that exists already stops the loop.\<close>

lemma announce_blocked:
  assumes "i \<in> set ids" "\<exists>e\<in>set (events s). ev_org e = org \<and> ev_aggregate e = i \<and> ev_version e = 0 \<and>
      ev_type e = ''agent_run.reclaimed''"
  shows "announce fe n org ids s = Inl Constraint"
  using assms
proof (induction fe n org ids s rule: announce.induct)
  case (2 fe n org j js s)
  show ?case
  proof (cases "insert_event (reclaim_event (fe n) org j) (enqueue_agent_run org j s)")
    case (Inl e)
    then show ?thesis by (auto simp: insert_event_def split: if_split_asm)
  next
    case (Inr r)
    obtain u s1 where r: "r = (u, s1)" by (rule prod.exhaust)
    have new: "\<not> exists_row (\<lambda>x. ev_org x = org \<and> ev_aggregate x = j \<and> ev_version x = 0 \<and>
        ev_type x = ''agent_run.reclaimed'') (events s)"
      using Inr by (auto simp: insert_event_def enqueue_agent_run_def reclaim_event_def split: if_split_asm)
    have ev: "events s1 = events s @ [reclaim_event (fe n) org j]"
      using insert_event_ok[OF Inr[unfolded r]] by (simp add: enqueue_agent_run_def)
    have "i \<noteq> j" using new "2.prems"(2) by (auto simp: exists_row_def)
    then show ?thesis using "2.IH"[OF Inr r[symmetric]] "2.prems" by (auto simp: Inr r ev)
  qed
qed simp

end
