(* ===== verification/RunLife.thy ===== *)
theory RunLife
  imports RunSafety
begin

text \<open>
  The life of runs and gates: which transaction moves a run or a gate, and that an ended run and an
  answered or cancelled gate never change again.
\<close>

section \<open>Runs\<close>

definition run_final :: "agent_run \<Rightarrow> bool" where
  "run_final r \<longleftrightarrow> ru_status r \<in> {RSucceeded, RFailed, RCancelled}"

definition run_born :: "agent_run \<Rightarrow> bool" where
  "run_born r \<longleftrightarrow> ru_status r = RQueued \<and> ru_attempt r = 0 \<and> ru_proposal r = None \<and> ru_token r = []"

text \<open>What a run is about never changes, attempts only grow, and only success names a proposal.\<close>

definition run_move :: "agent_run \<Rightarrow> agent_run \<Rightarrow> bool" where
  "run_move r q \<longleftrightarrow> same_run r q \<and> ru_agent q = ru_agent r \<and> ru_created_by q = ru_created_by r \<and>
     ru_release q = ru_release r \<and> ru_attempt r \<le> ru_attempt q \<and>
     (ru_proposal q \<noteq> ru_proposal r \<longrightarrow> ru_status q = RSucceeded) \<and> (run_final r \<longrightarrow> q = r)"

abbreviation runs_move :: "db \<Rightarrow> db \<Rightarrow> bool" where
  "runs_move s s' \<equiv> grows run_move run_born (agent_runs s) (agent_runs s')"

lemma run_final_iff: "run_final r \<longleftrightarrow> \<not> open_run (ru_status r)"
  by (cases "ru_status r") (simp_all add: run_final_def)

lemma run_move_refl [simp]: "run_move r r"
  by (simp add: run_move_def same_run_def)

lemma run_move_open [simp]:
  "open_run (ru_status r) \<Longrightarrow> run_move r (claimed tok lease now r)"
  "open_run (ru_status r) \<Longrightarrow> run_move r (failed code now r)"
  "open_run (ru_status r) \<Longrightarrow> run_move r (park_on gid r)"
  "open_run (ru_status r) \<Longrightarrow> run_move r (succeeded pid sm now r)"
  "open_run (ru_status r) \<Longrightarrow> run_move r (requeue r)"
  "open_run (ru_status r) \<Longrightarrow> run_move r (reclaimed r)"
  by (simp_all add: run_move_def same_run_def run_final_iff claimed_def failed_def park_on_def
      succeeded_def requeue_def reclaimed_def)

lemma runs_move_update:
  assumes "agent_runs s' = update_where P f (agent_runs s)"
    "\<And>r. r \<in> set (agent_runs s) \<Longrightarrow> P r \<Longrightarrow> run_move r (f r)"
  shows "runs_move s s'"
  unfolding assms(1) by (rule grows_update) (use assms(2) in auto)

lemma runs_move_same: "agent_runs s' = agent_runs s \<Longrightarrow> runs_move s s'"
  by auto

lemma create_run_moves:
  assumes "create_agent_run txt supported i org task actor agent intent now s = Inr (r, s')"
  shows "runs_move s s'"
proof -
  have "agent_runs s' = agent_runs s @ [r]" by (rule create_run_ok[OF assms]) simp
  moreover have "run_born r"
    using assms by (auto simp: create_agent_run_def Let_def run_born_def split: option.splits sum.splits if_split_asm)
  ultimately show ?thesis by (simp, intro grows_append) auto
qed

lemma claim_moves:
  assumes "claim_run budget org i tok now s = Inr (r', s')"
  shows "runs_move s s'"
proof -
  obtain lease where t: "s' = s\<lparr>agent_runs := update_where (\<lambda>r. ru_org r = org \<and> ru_id r = i \<and> claimable now r)
       (claimed tok lease now) (agent_runs s)\<rparr>"
    by (rule claim_run_ok[OF assms(1)]) (rule that; assumption)
  show ?thesis
    by (rule runs_move_update[where P = "\<lambda>r. ru_org r = org \<and> ru_id r = i \<and> claimable now r"
          and f = "claimed tok lease now"])
       (auto simp: t dest: claimable_open)
qed

lemma holder_open:
  "tokens_ok s \<Longrightarrow> tok \<noteq> [] \<Longrightarrow> r \<in> set (agent_runs s) \<Longrightarrow> holder org i tok r \<Longrightarrow> open_run (ru_status r)"
  unfolding tokens_ok_def by fastforce

lemma update_failure_moves:
  assumes "runs_ok s" "tok \<noteq> []"
  shows "runs_move s (update_failure org i tok code now s)"
  by (rule runs_move_update[where P = "holder org i tok" and f = "failed code now"])
     (simp add: update_failure_def, rule run_move_open(2), rule holder_open[OF runs_okD(5)[OF assms(1)] assms(2)])

lemma fail_run_moves: "runs_ok s \<Longrightarrow> tok \<noteq> [] \<Longrightarrow> runs_move s (fail_run org i tok code now s)"
  by (simp add: fail_run_def update_failure_moves)

lemma park_moves:
  assumes "park_run gid org i tok task owner initiator q now s = Inr (u, s')" "runs_ok s"
  shows "runs_move s s'"
proof -
  have one: "open_run (ru_status x)"
    if r: "row (holder org i tok) (agent_runs s) = Some r" "ru_status r = RRunning"
      and x: "x \<in> set (agent_runs s)" "ru_org x = org \<and> ru_id x = i" for r x
  proof -
    have "x = r" using run_unique[OF runs_okD(1)[OF assms(2)] x(1), of r] row_SomeD[OF r(1)] x(2) by simp
    then show ?thesis using r(2) by simp
  qed
  show ?thesis using assms(1)
  proof (cases rule: park_run_cases)
    case (adopted r g)
    show ?thesis
      by (rule runs_move_update[where P = "\<lambda>r. ru_org r = org \<and> ru_id r = i" and f = "park_on (gt_id g)"])
         (simp add: adopted(5), rule run_move_open(3), rule one[OF adopted(1,2)])
  next
    case (asked r g)
    show ?thesis
      by (rule runs_move_update[where P = "\<lambda>r. ru_org r = org \<and> ru_id r = i" and f = "park_on gid"])
         (simp add: asked(12), rule run_move_open(3), rule one[OF asked(1,2)])
  qed auto
qed

lemma publish_moves:
  assumes "publish_run H fo fb pid org i tok task owner initiator release summary ops now s = Inr (u, s')"
    "runs_ok s" "tok \<noteq> []"
  shows "runs_move s s'"
  using assms(1)
proof (cases rule: publish_run_cases)
  case (refused code)
  then show ?thesis using update_failure_moves[OF assms(2,3)] by simp
next
  case (published r p s1)
  show ?thesis
    by (rule runs_move_update[where P = "holder org i tok" and f = "succeeded pid summary now"])
       (simp add: published(4), rule run_move_open(4), rule holder_open[OF runs_okD(5)[OF assms(2)] assms(3)])
qed auto

lemma finish_moves:
  assumes "finish_run H fo fb pid gid org tok r owner result now s = (e, s')" "runs_ok s" "tok \<noteq> []"
  shows "runs_move s s'"
proof -
  have fail: "runs_move s (fail_run org i tok code now s)" for i code by (rule fail_run_moves[OF assms(2,3)])
  have park: "runs_move s s1" if "park_run gid org (ru_id r) tok (ru_task r) o1 i1 q now s = Inr (u, s1)" for o1 i1 q u s1
    using park_moves[OF that assms(2)] .
  have pub: "runs_move s s1"
    if "publish_run H fo fb pid org (ru_id r) tok (ru_task r) o1 i1 rel sm ops now s = Inr (u, s1)" for o1 i1 rel sm ops u s1
    using publish_moves[OF that assms(2,3)] .
  show ?thesis using assms(1) fail park pub
    by (auto simp: finish_run_def Let_def with_org_def split: sum.splits if_split_asm prod.splits err.splits)
qed

lemma resolve_moves:
  assumes "resolve_gate eid org i actor rv response now s = Inr (g', s')"
  shows "runs_move s s'"
  using assms
proof (cases rule: resolve_gate_cases)
  case (resolved g)
  show ?thesis
  proof (cases "gt_run g")
    case None
    then show ?thesis by (auto simp: resolved(8))
  next
    case (Some run)
    show ?thesis
      by (rule runs_move_update[where P = "waits_on org run i" and f = requeue])
         (auto simp: resolved(8) Some resume_run_def Let_def enqueue_agent_run_def waits_on_def)
  qed
qed auto

lemma cancel_task_runs_move:
  assumes "cancel_task org i v now s = Inr (x, s')"
  shows "runs_move s s'"
  by (rule runs_move_update[OF cancel_task_tables(5)[OF assms]])
     (auto simp: run_move_def same_run_def run_final_iff)

lemma reclaim_moves:
  assumes "reclaim_in_org fe org limit now s = Inr (n, s')" "runs_ok s"
  shows "runs_move s s'"
proof -
  let ?C = "reclaim_candidates org (nat (if limit \<le> 0 then max_recover_per_org else limit)) now s"
  have t: "agent_runs s' = update_where (\<lambda>r. ru_org r = org \<and> ru_id r \<in> set (map ru_id ?C)) reclaimed (agent_runs s)"
    by (rule reclaim_ok[OF assms(1)]) simp
  show ?thesis
  proof (rule runs_move_update[OF t])
    fix r assume r: "r \<in> set (agent_runs s)" "ru_org r = org \<and> ru_id r \<in> set (map ru_id ?C)"
    then obtain q where q: "q \<in> set ?C" "ru_id q = ru_id r" by auto
    have "q = r" using run_unique[OF runs_okD(1)[OF assms(2)] _ r(1) q(2)] candidates_stranded[OF q(1)] by blast
    then show "run_move r (reclaimed r)" using candidates_stranded[OF q(1)] by (simp add: stranded_def)
  qed
qed

section \<open>Gates\<close>

definition gate_final :: "gate \<Rightarrow> bool" where
  "gate_final g \<longleftrightarrow> gt_status g \<noteq> GPending"

text \<open>A question is born pending, with a schema that passed the check.\<close>

definition gate_born :: "gate \<Rightarrow> bool" where
  "gate_born g \<longleftrightarrow> gt_status g = GPending \<and> gt_response g = None \<and>
     validate_gate_schema (Some (gt_schema g)) = Inr ()"

definition gate_move :: "gate \<Rightarrow> gate \<Rightarrow> bool" where
  "gate_move g h \<longleftrightarrow> h = g\<lparr>gt_status := gt_status h, gt_response := gt_response h,
       gt_responded_by := gt_responded_by h, gt_responded_at := gt_responded_at h, gt_version := gt_version h\<rparr> \<and>
     (gt_status h = GResolved \<and> gt_status g \<noteq> GResolved \<longrightarrow>
        gt_responded_by h = Some (gt_respondent g) \<and>
        validate_gate_response (gt_schema g) (gt_response h) = Inr ()) \<and>
     (gate_final g \<longrightarrow> h = g)"

abbreviation gates_move :: "db \<Rightarrow> db \<Rightarrow> bool" where
  "gates_move s s' \<equiv> grows gate_move gate_born (gates s) (gates s')"

lemma gate_move_refl [simp]: "gate_move g g"
  by (simp add: gate_move_def)

lemma cancel_task_gates_move:
  assumes "cancel_task org i v now s = Inr (x, s')"
  shows "gates_move s s'"
  unfolding cancel_task_tables(4)[OF assms]
  by (rule grows_update) (auto simp: gate_move_def gate_final_def)

lemma park_gates_move:
  assumes "park_run gid org i tok task owner initiator q now s = Inr (u, s')"
  shows "gates_move s s'"
  using assms
proof (cases rule: park_run_cases)
  case (asked r g)
  have "gate_born g" using asked(6,8,11) by (simp add: gate_born_def pending_for_def)
  then show ?thesis by (simp add: asked(12), intro grows_append) auto
qed auto

lemma resolve_gates_move:
  assumes "resolve_gate eid org i actor rv response now s = Inr (g', s')" "gates_ok s"
  shows "gates_move s s'"
  using assms(1)
proof (cases rule: resolve_gate_cases)
  case (resolved g)
  let ?P = "\<lambda>g. gt_org g = org \<and> gt_id g = i"
  have t: "gates s' = update_where ?P (answered response actor now) (gates s)"
    by (simp add: resolved(8) Let_def split: option.split)
  have g: "g \<in> set (gates s)" "?P g" using row_SomeD[OF resolved(1)] by auto
  show ?thesis unfolding t
  proof (rule grows_update)
    fix h assume "h \<in> set (gates s)" "?P h"
    then have "h = g" using gate_unique[OF assms(2) _ g(1)] g(2) by simp
    then show "gate_move h (answered response actor now h)"
      using resolved(2,3,6) by (simp add: gate_move_def gate_final_def answered_def)
  qed simp
qed auto

end
