(* ===== verification/CoreInv.thy ===== *)
theory CoreInv
  imports Effects Wakeup Handoffs Transition RunLife
begin

text \<open>
  The invariant of the proposal side of the database (proposals, decisions, effects, receipts,
  business operations, tasks, dependencies and the executor's queue), kept by every transaction of
  that side; and what those transactions leave to the other tables.
\<close>

definition put_principal :: "principal \<Rightarrow> db \<Rightarrow> db" where
  "put_principal x s =
     s\<lparr>principals := (if exists_row (\<lambda>p. pr_id p = pr_id x) (principals s)
        then update_where (\<lambda>p. pr_id p = pr_id x \<and> pr_org p = pr_org x) (\<lambda>_. x) (principals s)
        else principals s @ [x])\<rparr>"

definition put_record :: "sim_record \<Rightarrow> db \<Rightarrow> db" where
  "put_record x s =
     (if exists_row (\<lambda>r. sr_id r = sr_id x) (sim_records s) then s
      else s\<lparr>sim_records := sim_records s @ [x]\<rparr>)"

text \<open>River marks a job completed after its worker returned nil; a crash before that repeats it.\<close>

definition end_job :: "bool \<Rightarrow> id \<Rightarrow> id \<Rightarrow> db \<Rightarrow> db" where
  "end_job fin org pid s =
     (if fin then s\<lparr>proposal_jobs := remove1 (org, pid) (proposal_jobs s)\<rparr> else s)"

section \<open>The invariant\<close>

definition core_inv :: "db \<Rightarrow> bool" where
  "core_inv s \<longleftrightarrow>
     proposal_ids s \<and> tasks_ok s \<and> separation s \<and> keys_held s \<and> effects_ok s \<and> receipts_ok s \<and>
     graph_ok dep_edges s \<and> wakeup s"

lemma core_invD:
  assumes "core_inv s"
  shows "proposal_ids s" "tasks_ok s" "separation s" "keys_held s" "effects_ok s" "receipts_ok s"
    "graph_ok dep_edges s" "wakeup s" "bops_wf s"
  using assms by (simp_all add: core_inv_def keys_held_def)

text \<open>The tables the invariant reads.\<close>

lemma core_inv_cong:
  assumes "core_inv s" "proposals s' = proposals s" "tasks s' = tasks s" "decisions s' = decisions s"
    "business_ops s' = business_ops s" "effects s' = effects s" "receipts s' = receipts s"
    "task_deps s' = task_deps s" "proposal_jobs s' = proposal_jobs s"
  shows "core_inv s'"
  using assms(1) unfolding core_inv_def
  by (auto simp: proposal_ids_def tasks_ok_def separation_def keys_held_def bops_wf_def effects_ok_def
      effect_ok_def receipts_ok_def graph_ok_def dep_edges_def wakeup_def ready_def live_task_def
      undone_parent_def assms(2-))

lemma inv_create_task:
  assumes "core_inv s" "create_task org i ti d ow a pj now s = Inr (t, s')"
  shows "core_inv s'"
proof -
  obtain X where s': "s' = s\<lparr>tasks := X\<rparr>" using create_task_frame[OF assms(2)] by blast
  note i = core_invD[OF assms(1)]
  show ?thesis
    using i create_task_tasks[OF assms(2) i(2)] create_task_wakeup[OF assms(2) i(8,2)]
    unfolding core_inv_def
    by (simp add: s' proposal_ids_def separation_def keys_held_def bops_wf_def effects_ok_def
        effect_ok_def receipts_ok_def graph_ok_def dep_edges_def)
qed

lemma inv_add_dependency:
  assumes "core_inv s" "add_dependency org t p s = Inr (u, s')"
  shows "core_inv s'"
proof -
  obtain X where s': "s' = s\<lparr>task_deps := X\<rparr>" using add_dependency_frame[OF assms(2)] by blast
  note i = core_invD[OF assms(1)]
  show ?thesis
    using i task_graph.add_keeps[OF i(7) assms(2)] add_dependency_wakeup[OF assms(2) i(8)]
    unfolding core_inv_def
    by (simp add: s' proposal_ids_def separation_def keys_held_def bops_wf_def effects_ok_def
        effect_ok_def receipts_ok_def tasks_ok_def)
qed

lemma inv_cancel_task:
  assumes "core_inv s" "cancel_task org i v now s = Inr (u, s')"
  shows "core_inv s'"
proof -
  obtain A B C D where s': "s' = s\<lparr>tasks := A, proposals := B, gates := C, agent_runs := D\<rparr>"
    using cancel_task_frame[OF assms(2)] by blast
  note i = core_invD[OF assms(1)]
  have "proposal_ids s'" by (rule proposal_ids_update[OF i(1) cancel_task_tables(3)[OF assms(2)]]) simp
  moreover have "receipts_ok s'" "graph_ok dep_edges s'"
    using i(6,7) by (simp_all add: s' receipts_ok_def graph_ok_def dep_edges_def)
  ultimately show ?thesis
    using cancel_task_tasks[OF assms(2) i(2)] cancel_task_separation[OF assms(2) i(3)]
      cancel_task_keys[OF assms(2) i(4)] cancel_task_effects[OF assms(2) i(5)]
      cancel_task_wakeup[OF assms(2) i(8)]
    by (simp add: core_inv_def)
qed

lemma inv_create_proposal:
  assumes "core_inv s"
    "create_proposal_tx H fo fb pid now org task actor summary origin run ops0 s = Inr (p, s')"
    "pid \<noteq> []"
  shows "core_inv s'"
proof -
  obtain A B where s': "s' = s\<lparr>proposals := A, business_ops := B\<rparr>"
    using create_proposal_tables(2)[OF assms(2)] by blast
  note i = core_invD[OF assms(1)]
  have "receipts_ok s'" "graph_ok dep_edges s'"
    using i(6,7) by (simp_all add: s' receipts_ok_def graph_ok_def dep_edges_def)
  then show ?thesis
    using create_proposal_ids[OF assms(2) i(1) assms(3)] create_proposal_tasks[OF assms(2) i(2)]
      create_proposal_separation[OF assms(2) i(3)] create_proposal_keys[OF assms(2) i(4,1) assms(3)]
      create_proposal_effects[OF assms(2) i(5,9,1) assms(3)] create_proposal_wakeup[OF assms(2) i(8)]
    by (simp add: core_inv_def)
qed

lemma inv_decide:
  assumes "core_inv s" "decide fe i org pid actor kind rv dg re s = Inr (u, s')"
  shows "core_inv s'"
proof -
  note i = core_invD[OF assms(1)]
  have "graph_ok dep_edges s'"
    using assms(2) i(7) by (cases rule: decide_elim) (simp_all add: graph_ok_def dep_edges_def)
  then show ?thesis
    using decide_ids[OF assms(2) i(1)] decide_tasks[OF assms(2) i(2)]
      decide_separation[OF assms(2) i(3,1)] decide_keys[OF assms(2) i(4,1)]
      decide_effects[OF assms(2) i(5,4,1,3)] decide_receipts[OF assms(2) i(6)]
      decide_wakeup[OF assms(2) i(8)]
    by (simp add: core_inv_def)
qed

lemma inv_apply_proposal:
  assumes "core_inv s" "apply_proposal H reg fe org pid s = Inr (u, s')"
  shows "core_inv s'"
proof -
  note i = core_invD[OF assms(1)]
  have "graph_ok dep_edges s' \<and> proposal_ids s'"
    using assms(2)
  proof (cases rule: apply_proposal_cases)
    case (refused p)
    show ?thesis unfolding refused(5)
      using i(7) by (simp add: graph_ok_def dep_edges_def) (rule proposal_ids_update[OF i(1)], simp, simp)
  next
    case (applied p s1 s2)
    show ?thesis unfolding applied(6)
      using i(7) by (simp add: graph_ok_def dep_edges_def complete_tables applied_task_tables(2)[OF applied(5,4)])
        (rule proposal_ids_update[OF i(1) applied_proposals(1)[OF i(1) applied(1,4,5)]], simp)
  qed (use i in \<open>simp_all add: graph_ok_def dep_edges_def proposal_ids_def\<close>)
  then show ?thesis
    using apply_proposal_tasks[OF assms(2) i(2,1)] apply_proposal_separation[OF assms(2) i(3,1)]
      apply_proposal_keys[OF assms(2) i(4,1)] apply_proposal_effects[OF assms(2) i(5,1)]
      apply_proposal_receipts[OF assms(2) i(6,5)] apply_proposal_wakeup[OF assms(2) i(8,1)]
    by (simp add: core_inv_def)
qed

lemma inv_mark_attention:
  assumes "core_inv s" "mark_attention org pid s = Inr (u, s')"
  shows "core_inv s'"
proof -
  note i = core_invD[OF assms(1)]
  have "graph_ok dep_edges s' \<and> proposal_ids s'"
    using assms(2)
  proof (cases rule: mark_attention_cases)
    case (marked p)
    show ?thesis unfolding marked(5)
      using i(7) by (simp add: graph_ok_def dep_edges_def) (rule proposal_ids_update[OF i(1)], simp, simp)
  qed (use i in simp)
  then show ?thesis
    using mark_attention_tasks[OF assms(2) i(2)] mark_attention_separation[OF assms(2) i(3)]
      mark_attention_keys[OF assms(2) i(4)] mark_attention_effects[OF assms(2) i(5,1)]
      mark_attention_receipts[OF assms(2) i(6)] mark_attention_wakeup[OF assms(2) i(8)]
    by (simp add: core_inv_def)
qed

text \<open>A job may end once its proposal is not ready any more.\<close>

lemma inv_end_job:
  assumes "core_inv s" "\<And>q. q \<in> set (proposals s) \<Longrightarrow> pp_org q = org \<Longrightarrow> pp_id q = pid \<Longrightarrow> \<not> ready q s"
  shows "core_inv (end_job fin org pid s)"
proof (cases fin)
  case True
  let ?s = "s\<lparr>proposal_jobs := remove1 (org, pid) (proposal_jobs s)\<rparr>"
  note i = core_invD[OF assms(1)]
  have "wakeup ?s" unfolding wakeup_def
  proof (intro ballI impI)
    fix q assume q: "q \<in> set (proposals ?s)" "ready q ?s"
    then have "ready q s" by (simp add: ready_def live_task_def undone_parent_iff)
    moreover from this have "(pp_org q, pp_id q) \<noteq> (org, pid)" using assms(2) q(1) by auto
    ultimately show "(pp_org q, pp_id q) \<in> set (proposal_jobs ?s)"
      using i(8) q(1) by (simp add: wakeup_def)
  qed
  then show ?thesis using i unfolding core_inv_def end_job_def
    by (simp add: True proposal_ids_def separation_def keys_held_def bops_wf_def effects_ok_def
        effect_ok_def receipts_ok_def tasks_ok_def graph_ok_def dep_edges_def)
qed (use assms(1) in \<open>simp add: end_job_def\<close>)

section \<open>The tables the proposal side leaves alone\<close>

definition same_rest :: "db \<Rightarrow> db \<Rightarrow> bool" where
  "same_rest s s' \<longleftrightarrow> agent_runs s' = agent_runs s \<and> gates s' = gates s \<and> run_jobs s' = run_jobs s \<and>
     releases s' = releases s \<and> templates s' = templates s \<and> agents s' = agents s \<and>
     handoffs s' = handoffs s"

lemma same_rest_refl [simp]: "same_rest s s"
  by (simp add: same_rest_def)

lemma same_rest_trans: "same_rest a b \<Longrightarrow> same_rest b c \<Longrightarrow> same_rest a c"
  by (simp add: same_rest_def)

lemma create_proposal_rest:
  assumes "create_proposal_tx H fo fb pid now org task actor summary origin run ops0 s = Inr (p, s')"
  shows "same_rest s s'"
proof -
  obtain A B where "s' = s\<lparr>proposals := A, business_ops := B\<rparr>"
    using create_proposal_tables(2)[OF assms] by blast
  then show ?thesis by (simp add: same_rest_def)
qed

lemma decide_rest:
  assumes "decide fresh i org pid actor kind revision dg reason s = Inr (u, s')"
  shows "same_rest s s'"
  using assms by (cases rule: decide_elim) (simp_all add: same_rest_def)

lemma apply_proposal_rest:
  assumes "apply_proposal H reg fresh org pid s = Inr (u, s')"
  shows "same_rest s s'"
  using assms
proof (cases rule: apply_proposal_cases)
  case (applied p s1 s2)
  obtain recs effs rs where "s2 = s1\<lparr>sim_records := recs, effects := effs, receipts := receipts s1 @ rs\<rparr>"
    using apply_effects_ok[OF applied(5)] by blast
  then have "same_rest s s2" by (simp add: applied(4) same_rest_def)
  moreover have "same_rest s2 s'"
    by (simp add: applied(6) complete_proposal_def same_rest_def Let_def enqueue_eligible_children_def)
  ultimately show ?thesis by (rule same_rest_trans)
qed (simp_all add: same_rest_def)

lemma mark_attention_rest:
  assumes "mark_attention org pid s = Inr (u, s')"
  shows "same_rest s s'"
  using assms by (cases rule: mark_attention_cases) (simp_all add: same_rest_def)

text \<open>Tasks keep their identity and their version never falls.\<close>

definition task_move :: "task \<Rightarrow> task \<Rightarrow> bool" where
  "task_move t u \<longleftrightarrow> tk_id u = tk_id t \<and> tk_org u = tk_org t \<and> tk_version t \<le> tk_version u"

lemma apply_proposal_task_update:
  assumes "apply_proposal H reg fresh org pid s = Inr (u, s')"
  obtains P f where "tasks s' = update_where P f (tasks s)" "\<And>t. task_move t (f t)"
  using assms
proof (cases rule: apply_proposal_cases)
  case (blocked p)
  show thesis
    by (rule that[of "\<lambda>t. tk_org t = org \<and> tk_id t = pp_task p \<and> \<not> terminal_task (tk_status t)"
          "\<lambda>t. t\<lparr>tk_status := TBlocked\<rparr>"]) (simp_all add: blocked(4) task_move_def)
next
  case (applied p s1 s2)
  show thesis
    by (rule that[of "\<lambda>t. tk_org t = org \<and> tk_id t = pp_task p \<and> tk_status t \<noteq> TCancelled"
          "\<lambda>t. t\<lparr>tk_status := TDone, tk_version := tk_version t + 1\<rparr>"])
       (simp_all add: applied(6) complete_tables applied_task_tables[OF applied(5,4)] task_move_def)
next
  case (skip p)
  show thesis by (rule that[of "\<lambda>_. False" id]) (simp_all add: skip task_move_def update_where_unmatched)
next
  case (refused p)
  show thesis by (rule that[of "\<lambda>_. False" id]) (simp_all add: refused(5) task_move_def update_where_unmatched)
qed

end
