(* ===== verification/Advance.thy ===== *)
theory Advance
  imports CoreInv
begin

text \<open>
  The invariant of the whole database and the moves of its tables, put together per transaction:
  \<open>advance s s'\<close> says that the database \<open>s'\<close> after a transaction satisfies the invariant and that the
  rows of every table with a life cycle moved along it. Every operation of the store advances.
\<close>

section \<open>The invariant and the moves\<close>

definition side_inv :: "db \<Rightarrow> bool" where
  "side_inv s \<longleftrightarrow> runs_ok s \<and> registry_ok s \<and> templates_ok s \<and> handoff_ids s \<and> hops_ok s"

definition db_inv :: "db \<Rightarrow> bool" where
  "db_inv s \<longleftrightarrow> core_inv s \<and> side_inv s"

lemma db_invD:
  assumes "db_inv s"
  shows "core_inv s" "runs_ok s" "registry_ok s" "templates_ok s" "handoff_ids s" "hops_ok s"
  using assms by (simp_all add: db_inv_def side_inv_def)

definition core_part :: "db \<Rightarrow> db \<Rightarrow> bool" where
  "core_part s s' \<longleftrightarrow> core_inv s' \<and> grows proposal_move proposal_born (proposals s) (proposals s')"

definition runs_part :: "db \<Rightarrow> db \<Rightarrow> bool" where
  "runs_part s s' \<longleftrightarrow> runs_ok s' \<and> runs_move s s' \<and> gates_move s s'"

definition registry_part :: "db \<Rightarrow> db \<Rightarrow> bool" where
  "registry_part s s' \<longleftrightarrow> registry_ok s' \<and> releases_move s s'"

definition template_part :: "db \<Rightarrow> db \<Rightarrow> bool" where
  "template_part s s' \<longleftrightarrow> templates_ok s' \<and> templates_move s s'"

definition handoff_part :: "db \<Rightarrow> db \<Rightarrow> bool" where
  "handoff_part s s' \<longleftrightarrow> handoff_ids s' \<and> hops_ok s' \<and> handoffs_move s s'"

definition advance :: "db \<Rightarrow> db \<Rightarrow> bool" where
  "advance s s' \<longleftrightarrow> core_part s s' \<and> runs_part s s' \<and> registry_part s s' \<and> template_part s s' \<and>
     handoff_part s s'"

lemma advanceD:
  assumes "advance s s'"
  shows "db_inv s'" "grows proposal_move proposal_born (proposals s) (proposals s')" "runs_move s s'"
    "gates_move s s'" "releases_move s s'" "templates_move s s'" "handoffs_move s s'"
  using assms by (simp_all add: advance_def core_part_def runs_part_def registry_part_def
      template_part_def handoff_part_def db_inv_def side_inv_def)

section \<open>Parts that a transaction leaves alone\<close>

lemma template_move_refl [simp]: "template_move t t"
  by (simp add: template_move_def)

lemma core_same:
  assumes "db_inv s" "proposals s' = proposals s" "tasks s' = tasks s" "decisions s' = decisions s"
    "business_ops s' = business_ops s" "effects s' = effects s" "receipts s' = receipts s"
    "task_deps s' = task_deps s" "proposal_jobs s' = proposal_jobs s"
  shows "core_part s s'"
  using core_inv_cong[OF db_invD(1)[OF assms(1)] assms(2-)] unfolding core_part_def assms(2) by auto

lemma core_moved: "core_inv s' \<Longrightarrow> proposals_from i s s' \<Longrightarrow> core_part s s'"
  unfolding core_part_def by (auto elim: grows_mono)

lemma runs_same:
  assumes "db_inv s" "agent_runs s' = agent_runs s" "gates s' = gates s" "run_jobs s' = run_jobs s"
    "proposals_move s s'"
  shows "runs_part s s'"
  using runs_ok_cong[OF db_invD(2)[OF assms(1)] assms(2-)] unfolding runs_part_def assms(2,3) by auto

lemma registry_same:
  assumes "db_inv s" "releases s' = releases s"
  shows "registry_part s s'"
  using db_invD(3)[OF assms(1)] unfolding registry_part_def registry_ok_def assms(2) by auto

lemma template_same:
  assumes "db_inv s" "templates s' = templates s" "agents s' = agents s"
  shows "template_part s s'"
  using db_invD(4)[OF assms(1)] templates_ok_cong[OF assms(2,3)] unfolding template_part_def assms(2)
  by auto

lemma handoff_tasks:
  assumes "db_inv s" "handoffs s' = handoffs s" "tasks s' = update_where P f (tasks s)"
    "\<And>t. task_move t (f t)"
  shows "handoff_part s s'"
  using db_invD(5)[OF assms(1)] hops_ok_tasks[OF db_invD(6)[OF assms(1)] assms(3,2)] assms(4)
  unfolding handoff_part_def task_move_def handoff_ids_def assms(2) by auto

lemma handoff_same:
  assumes "db_inv s" "handoffs s' = handoffs s" "tasks s' = tasks s"
  shows "handoff_part s s'"
  by (rule handoff_tasks[OF assms(1,2), where P = "\<lambda>_. False" and f = id])
     (simp_all add: assms(3) update_where_unmatched task_move_def)

lemma advance_refl: "db_inv s \<Longrightarrow> advance s s"
  unfolding advance_def
  by (intro conjI core_same runs_same registry_same template_same handoff_same) auto

text \<open>The proposal side: everything but the tasks is left alone elsewhere.\<close>

lemma advance_core:
  assumes "db_inv s" "core_inv s'" "proposals_move s s'" "same_rest s s'"
    "tasks s' = update_where P f (tasks s)" "\<And>t. task_move t (f t)"
  shows "advance s s'"
  unfolding advance_def using assms(4) unfolding same_rest_def
  by (intro conjI core_moved[OF assms(2,3)] runs_same[OF assms(1)] registry_same[OF assms(1)]
        template_same[OF assms(1)] handoff_tasks[OF assms(1) _ assms(5,6)] assms(3)) auto

lemma advance_core_same:
  assumes "db_inv s" "core_inv s'" "proposals_move s s'" "same_rest s s'" "tasks s' = tasks s"
  shows "advance s s'"
  by (rule advance_core[OF assms(1-4), where P = "\<lambda>_. False" and f = id])
     (simp_all add: assms(5) update_where_unmatched task_move_def)

text \<open>The tables no part reads.\<close>

lemma advance_rest:
  assumes "db_inv s" "proposals s' = proposals s" "tasks s' = tasks s" "decisions s' = decisions s"
    "business_ops s' = business_ops s" "effects s' = effects s" "receipts s' = receipts s"
    "task_deps s' = task_deps s" "proposal_jobs s' = proposal_jobs s" "same_rest s s'"
  shows "advance s s'"
proof (rule advance_core_same[OF assms(1) _ _ assms(10,3)])
  show "core_inv s'" by (rule core_inv_cong[OF db_invD(1)[OF assms(1)] assms(2-9)])
  show "proposals_move s s'" unfolding assms(2) by auto
qed

section \<open>Tasks and proposals\<close>

lemma advance_create_project:
  assumes "create_project org i n d s = Inr (x, s')" "db_inv s"
  shows "advance s s'"
proof -
  obtain X where s': "s' = s\<lparr>projects := X\<rparr>" using create_project_frame[OF assms(1)] by blast
  show ?thesis by (rule advance_rest[OF assms(2)]) (simp_all add: s' same_rest_def)
qed

lemma advance_create_task:
  assumes "create_task org i ti d ow a pj now s = Inr (t, s')" "db_inv s"
  shows "advance s s'"
proof -
  have s': "s' = s\<lparr>tasks := tasks s @ [t]\<rparr>" and i: "i \<notin> tk_id ` set (tasks s)" "tk_id t = i"
    using assms(1) by (auto simp: create_task_def Let_def exists_row_def split: if_splits)
  note d = db_invD[OF assms(2)]
  have fresh: "\<not> (tk_org t = ho_org h \<and> tk_id t = ho_task h)" if "h \<in> set (handoffs s)" for h
    using d(6) that i unfolding hops_ok_def by force
  have t: "tasks s' = tasks s @ [t]" "handoffs s' = handoffs s" by (simp_all add: s')
  have "hops_ok s'" using d(6) fresh unfolding hops_ok_def t by simp
  moreover have "handoff_ids s'" using d(5) by (simp add: handoff_ids_def t)
  ultimately have "handoff_part s s'" unfolding handoff_part_def t(2) by auto
  moreover have "core_part s s'"
    by (rule core_moved[OF inv_create_task[OF d(1) assms(1)]]) (auto simp: s')
  ultimately show ?thesis unfolding advance_def
    by (intro conjI runs_same[OF assms(2)] registry_same[OF assms(2)] template_same[OF assms(2)])
       (auto simp: s')
qed

lemma advance_add_dependency:
  assumes "add_dependency org t p s = Inr (x, s')" "db_inv s"
  shows "advance s s'"
proof -
  obtain X where s': "s' = s\<lparr>task_deps := X\<rparr>" using add_dependency_frame[OF assms(1)] by blast
  show ?thesis
    by (rule advance_core_same[OF assms(2) inv_add_dependency[OF db_invD(1)[OF assms(2)] assms(1)]])
       (auto simp: s' same_rest_def)
qed

lemma advance_cancel_task:
  assumes "cancel_task org i v now s = Inr (x, s')" "db_inv s"
  shows "advance s s'"
proof -
  obtain A B C D where s': "s' = s\<lparr>tasks := A, proposals := B, gates := C, agent_runs := D\<rparr>"
    using cancel_task_frame[OF assms(1)] by blast
  have t: "releases s' = releases s" "templates s' = templates s" "agents s' = agents s"
    "handoffs s' = handoffs s" by (simp_all add: s')
  note d = db_invD[OF assms(2)]
  have "runs_part s s'" unfolding runs_part_def
    using cancel_task_keeps_runs[OF assms(1) d(2)] cancel_task_runs_move[OF assms(1)]
      cancel_task_gates_move[OF assms(1)] by simp
  moreover have "handoff_part s s'"
    by (rule handoff_tasks[OF assms(2) t(4) cancel_task_tables(2)[OF assms(1)]]) (simp add: task_move_def)
  ultimately show ?thesis unfolding advance_def
    by (intro conjI core_moved[OF inv_cancel_task[OF d(1) assms(1)] cancel_task_moves[OF assms(1)]]
        registry_same[OF assms(2) t(1)] template_same[OF assms(2) t(2,3)])
qed

lemma advance_create_proposal:
  assumes "create_proposal H fo fb pid now org task actor summary ops s = Inr (p, s')" "db_inv s" "pid \<noteq> []"
  shows "advance s s'"
proof -
  note c = assms(1)[unfolded create_proposal_def]
  have "tasks s' = tasks s" by (subst create_proposal_tables(2)[OF c]) simp
  then show ?thesis
    by (rule advance_core_same[OF assms(2) inv_create_proposal[OF db_invD(1)[OF assms(2)] c assms(3)]
          create_proposal_moves[OF c] create_proposal_rest[OF c]])
qed

lemma advance_decide:
  assumes "decide fe i org pid actor k rv dg re s = Inr (u, s')" "db_inv s"
  shows "advance s s'"
proof -
  have "tasks s' = tasks s" using assms(1) by (cases rule: decide_elim) simp_all
  then show ?thesis
    by (rule advance_core_same[OF assms(2) inv_decide[OF db_invD(1)[OF assms(2)] assms(1)]
          decide_moves[OF assms(1)] decide_rest[OF assms(1)]])
qed

lemma advance_apply_proposal:
  assumes "apply_proposal H reg fe org pid s = Inr (u, s')" "db_inv s"
  shows "advance s s'"
proof -
  note c = db_invD(1)[OF assms(2)]
  obtain P f where t: "tasks s' = update_where P f (tasks s)" "\<And>t. task_move t (f t)"
    by (rule apply_proposal_task_update[OF assms(1)]) (rule that; assumption)
  show ?thesis
    by (rule advance_core[OF assms(2) inv_apply_proposal[OF c assms(1)]
          apply_proposal_moves[OF assms(1) core_invD(1)[OF c]] apply_proposal_rest[OF assms(1)] t])
qed

lemma advance_mark_attention:
  assumes "mark_attention org pid s = Inr (u, s')" "db_inv s"
  shows "advance s s'"
proof -
  obtain P f where t: "tasks s' = update_where P f (tasks s)" "\<And>t. task_move t (f t)"
    using assms(1)
  proof (cases rule: mark_attention_cases)
    case (marked p)
    show thesis
      by (rule that[where P = "\<lambda>t. tk_org t = org \<and> tk_id t = pp_task p \<and> \<not> terminal_task (tk_status t)"
            and f = "\<lambda>t. t\<lparr>tk_status := TBlocked, tk_version := tk_version t + 1\<rparr>"]) (simp_all add: marked(5) task_move_def)
  qed (rule that[where P = "\<lambda>_. False" and f = id]; simp add: task_move_def update_where_unmatched)
  show ?thesis
    by (rule advance_core[OF assms(2) inv_mark_attention[OF db_invD(1)[OF assms(2)] assms(1)]
          mark_attention_moves[OF assms(1)] mark_attention_rest[OF assms(1)] t])
qed

lemma advance_end_job:
  assumes "advance s0 s" "\<And>q. q \<in> set (proposals s) \<Longrightarrow> pp_org q = org \<Longrightarrow> pp_id q = pid \<Longrightarrow> \<not> ready q s"
  shows "advance s0 (end_job fin org pid s)"
proof -
  note d = advanceD[OF assms(1)]
  let ?s = "end_job fin org pid s"
  have t: "proposals ?s = proposals s" "agent_runs ?s = agent_runs s" "gates ?s = gates s"
    "run_jobs ?s = run_jobs s" "releases ?s = releases s" "templates ?s = templates s"
    "agents ?s = agents s" "handoffs ?s = handoffs s" "tasks ?s = tasks s"
    by (simp_all add: end_job_def)
  have i: "core_inv ?s" by (rule inv_end_job[OF db_invD(1)[OF d(1)] assms(2)])
  have "runs_ok ?s" by (rule runs_ok_cong[OF db_invD(2)[OF d(1)] t(2-4)]) (auto simp: t(1))
  moreover have "registry_ok ?s" "templates_ok ?s" "handoff_ids ?s" "hops_ok ?s"
    using db_invD[OF d(1)] by (simp_all add: registry_ok_def templates_ok_def handoff_ids_def hops_ok_def t)
  ultimately show ?thesis using i d
    unfolding advance_def core_part_def runs_part_def registry_part_def template_part_def handoff_part_def t
    by blast
qed

section \<open>Handoffs\<close>

text \<open>Only offers moved.\<close>

lemma advance_handoffs:
  assumes "db_inv s" "s' = s\<lparr>handoffs := X\<rparr>" "handoff_part s s'"
  shows "advance s s'"
  unfolding advance_def using assms(3)
  by (intro conjI core_same[OF assms(1)] runs_same[OF assms(1)] registry_same[OF assms(1)]
        template_same[OF assms(1)]) (auto simp: assms(2))

lemma advance_create_handoff:
  assumes "create_handoff_expiring org i task actor recipient role summary expires now s = Inr (h, s')"
    "db_inv s"
  shows "advance s s'"
proof -
  note d = db_invD[OF assms(2)]
  have s': "s' = s\<lparr>handoffs := handoffs s @ [h]\<rparr>" "i \<notin> ho_id ` set (handoffs s)"
    by (rule create_handoff_ok[OF assms(1)], assumption)+
  have "ho_id h = i"
    using assms(1) by (auto simp: create_handoff_expiring_def Let_def split: if_split_asm option.splits)
  then have "handoff_ids s'" using d(5) s'(2) by (auto simp: s'(1) handoff_ids_def)
  moreover have "hops_ok s'"
    using create_handoff_hops[OF assms(1) d(6)] core_invD(2)[OF d(1)] by (simp add: tasks_ok_def)
  ultimately show ?thesis using create_handoff_moves[OF assms(1)]
    by (intro advance_handoffs[OF assms(2) s'(1)]) (simp add: handoff_part_def)
qed

lemma advance_offer:
  "create_handoff org i task actor recipient role summary app now s = Inr (h, s') \<Longrightarrow> db_inv s \<Longrightarrow> advance s s'"
  unfolding create_handoff_def by (rule advance_create_handoff)

lemma handoff_ids_update:
  "handoff_ids s \<Longrightarrow> handoffs s' = update_where P f (handoffs s) \<Longrightarrow> (\<And>h. ho_id (f h) = ho_id h) \<Longrightarrow>
     handoff_ids s'"
  by (simp add: handoff_ids_def map_key_update_where)

lemma expire_part: "db_inv s \<Longrightarrow> handoff_part s (expire_due_handoffs org i now s)"
  using db_invD(5,6)[of s] by (simp add: handoff_part_def expire_hops expire_moves)

lemma advance_expire: "db_inv s \<Longrightarrow> advance s (expire_due_handoffs org i now s)"
  by (rule advance_handoffs[OF _ expire_due_handoffs_def expire_part])

lemma advance_accept_handoff:
  assumes "accept_handoff org i actor now s0 = Inr (u, s')" "db_inv s0"
  shows "advance s0 s'"
  using assms(1)
proof (cases rule: accept_handoff_cases)
  case again
  then show ?thesis using advance_expire[OF assms(2)] by simp
next
  case (accepted s h t)
  note d = db_invD[OF assms(2)]
  let ?P = "\<lambda>t. tk_org t = org \<and> tk_id t = ho_task h"
  let ?g = "\<lambda>t. if ho_role h = ''owner'' then t\<lparr>tk_owner := actor, tk_version := tk_version t + 1\<rparr>
      else t\<lparr>tk_assignee := Some actor, tk_version := tk_version t + 1\<rparr>"
  have T: "tasks s' = update_where ?P ?g (tasks s0)" by (simp add: accepted(1,10))
  have same: "proposals s' = proposals s0" "decisions s' = decisions s0" "business_ops s' = business_ops s0"
    "effects s' = effects s0" "receipts s' = receipts s0" "task_deps s' = task_deps s0"
    "proposal_jobs s' = proposal_jobs s0" "agent_runs s' = agent_runs s0" "gates s' = gates s0"
    "run_jobs s' = run_jobs s0" "releases s' = releases s0" "templates s' = templates s0"
    "agents s' = agents s0"
    by (simp_all add: accepted(1,10) expire_due_handoffs_def)
  have np: "proposals s' = update_where (\<lambda>_. False) id (proposals s0)"
    by (simp add: same update_where_unmatched)
  have g: "tk_id (?g v) = tk_id v" "tk_org (?g v) = tk_org v" "tk_status (?g v) = tk_status v" for v
    by simp_all
  note c = core_invD[OF d(1)]
  have "tasks_ok s'" by (rule tasks_ok_update[OF c(2) T _ np]) simp_all
  moreover have "wakeup s'"
    by (rule wakeup_update[OF c(8) T _ _ _ _ np]) (simp_all add: same)
  ultimately have "core_inv s'" using c unfolding core_inv_def
    by (simp add: proposal_ids_def separation_def keys_held_def bops_wf_def effects_ok_def
        effect_ok_def receipts_ok_def graph_ok_def dep_edges_def same)
  then have core: "core_part s0 s'" unfolding core_part_def same(1) by auto
  have "hops_ok s'"
    using accept_handoff_hops[OF assms(1) d(5,6)] c(2) by (simp add: tasks_ok_def)
  moreover have "handoff_ids s'"
    by (rule handoff_ids_update[of s]) (use d(5) accepted(1) in simp, simp add: accepted(10), simp)
  ultimately have "handoff_part s0 s'" unfolding handoff_part_def
    using accept_handoff_moves[OF assms(1) d(5)] by blast
  then show ?thesis unfolding advance_def
    by (intro conjI core runs_same[OF assms(2)] registry_same[OF assms(2)] template_same[OF assms(2)])
       (auto simp: same)
qed

lemma advance_reply:
  assumes "reply_handoff who denied f org i actor now s0 = Inr (u, s')" "db_inv s0"
    "\<And>k. open_handoff (ho_state k) \<Longrightarrow> handoff_move k (f k)"
    "\<And>h. ho_id (f h) = ho_id h \<and> ho_org (f h) = ho_org h \<and> ho_task (f h) = ho_task h \<and>
       ho_role (f h) = ho_role h \<and> ho_offered (f h) = ho_offered h \<and> ho_state (f h) \<noteq> HAccepted"
  shows "advance s0 s'"
proof -
  note d = db_invD[OF assms(2)]
  obtain s X where s: "s = expire_due_handoffs org i now s0"
    and s': "s' = s\<lparr>handoffs := update_where (\<lambda>h. ho_org h = org \<and> ho_id h = i) f (handoffs s)\<rparr>"
    by (rule reply_handoff_ok[OF assms(1)]) (rule that; assumption)
  obtain X where X: "s' = s0\<lparr>handoffs := X\<rparr>" using s' s unfolding expire_due_handoffs_def by simp
  have "handoff_ids s'"
    by (rule handoff_ids_update[of s]) (use d(5) s in simp, use s' in simp, use assms(4) in blast)
  moreover have "hops_ok s'" by (rule reply_handoff_hops[OF assms(1) d(5,6)]) (use assms(4) in blast)
  moreover have "handoffs_move s0 s'" by (rule reply_handoff_moves[OF assms(1) d(5) assms(3)])
  ultimately show ?thesis by (intro advance_handoffs[OF assms(2) X]) (simp add: handoff_part_def)
qed

lemma advance_clarify:
  "clarify_handoff org i actor question now s = Inr (u, s') \<Longrightarrow> db_inv s \<Longrightarrow> advance s s'"
  unfolding clarify_handoff_def by (erule advance_reply) auto

lemma advance_cancel_handoff:
  "cancel_handoff org i actor reason now s = Inr (u, s') \<Longrightarrow> db_inv s \<Longrightarrow> advance s s'"
  unfolding cancel_handoff_def by (erule advance_reply) auto

lemma advance_decline:
  "decline_handoff org i actor reason now s = Inr (u, s') \<Longrightarrow> db_inv s \<Longrightarrow> advance s s'"
  unfolding decline_handoff_def recipient_resolve_def by (erule advance_reply) auto

lemma advance_list_handoffs:
  assumes "list_handoffs org actor now s = Inr (hs, s')" "db_inv s"
  shows "advance s s'"
proof -
  note d = db_invD[OF assms(2)]
  have s': "s' = s\<lparr>handoffs := update_where (\<lambda>h. ho_org h = org \<and> handoff_due now h)
      (expire_handoff now) (handoffs s)\<rparr>"
    using assms(1) by (auto simp: list_handoffs_def Let_def)
  have t: "handoffs s' = update_where (\<lambda>h. ho_org h = org \<and> handoff_due now h) (expire_handoff now) (handoffs s)"
    by (simp add: s')
  have "handoff_ids s'" by (rule handoff_ids_update[OF d(5) t]) (simp add: expire_handoff_def)
  moreover have "hops_ok s'"
    by (rule hops_ok_handoffs[OF d(6) t]) (auto simp: s' handoff_due_def expire_handoff_def)
  ultimately show ?thesis using list_handoffs_moves[OF assms(1)]
    by (intro advance_handoffs[OF assms(2) s']) (simp add: handoff_part_def)
qed

lemma advance_peek_handoff:
  assumes "peek_handoff org i actor now s = Inr (h, s')" "db_inv s"
  shows "advance s s'"
proof -
  have "s' = expire_due_handoffs org i now s"
    using assms(1) by (auto simp: peek_handoff_def Let_def split: option.splits)
  then show ?thesis using advance_expire[OF assms(2)] by simp
qed

section \<open>The registry, agents and templates\<close>

lemma advance_releases:
  assumes "db_inv s" "s' = s\<lparr>releases := X\<rparr>" "registry_ok s'" "releases_move s s'"
  shows "advance s s'"
  unfolding advance_def registry_part_def using assms(3,4)
  by (intro conjI core_same[OF assms(1)] runs_same[OF assms(1)] handoff_same[OF assms(1)]
        template_same[OF assms(1)]) (auto simp: assms(2))

lemma advance_create_release:
  assumes "create_registry_release i org actor q now s = Inr (r, s')" "db_inv s"
  shows "advance s s'"
  by (rule advance_releases[OF assms(2) create_release_ok(1)[OF assms(1)]
        create_release_keeps[OF assms(1) db_invD(3)[OF assms(2)]]])

lemma advance_transition:
  assumes "transition_registry_release org i role target expected now s = Inr (q, s')" "db_inv s"
  shows "advance s s'"
proof -
  obtain X where X: "s' = s\<lparr>releases := X\<rparr>"
    by (rule transition_ok[OF assms(1)]) (rule that; assumption)
  show ?thesis by (rule advance_releases[OF assms(2) X transition_keeps[OF assms(1) db_invD(3)[OF assms(2)]]])
qed

lemma advance_grant:
  assumes "grant_registry_capabilities org role i caps expected now s = Inr (q, s')" "db_inv s"
  shows "advance s s'"
proof -
  obtain X where X: "s' = s\<lparr>releases := X\<rparr>"
    by (rule grant_ok[OF assms(1)]) (rule that; assumption)
  show ?thesis by (rule advance_releases[OF assms(2) X grant_keeps[OF assms(1) db_invD(3)[OF assms(2)]]])
qed

lemma advance_templates:
  assumes "db_inv s" "s' = s\<lparr>templates := X, agents := Y\<rparr>" "templates_ok s'" "templates_move s s'"
  shows "advance s s'"
  unfolding advance_def template_part_def using assms(3,4)
  by (intro conjI core_same[OF assms(1)] runs_same[OF assms(1)] handoff_same[OF assms(1)]
        registry_same[OF assms(1)]) (auto simp: assms(2))

lemma advance_create_agent:
  assumes "create_agent i org name harness owner caps s = Inr (a, s')" "db_inv s"
  shows "advance s s'"
proof -
  have s': "s' = s\<lparr>templates := templates s, agents := agents s @ [a]\<rparr>"
    using create_agent_ok(1)[OF assms(1)] by simp
  show ?thesis
    by (rule advance_templates[OF assms(2) s' create_agent_keeps[OF assms(1) db_invD(4)[OF assms(2)]]])
       (auto simp: s')
qed

lemma advance_create_template:
  assumes "create_agent_template i org actor name version harness description caps instructions now s
     = Inr (x, s')" "db_inv s"
  shows "advance s s'"
proof -
  obtain t where "s' = s\<lparr>templates := templates s @ [t]\<rparr>"
    by (rule create_template_ok[OF assms(1)]) (rule that; assumption)
  then have s': "s' = s\<lparr>templates := templates s @ [t], agents := agents s\<rparr>" by simp
  show ?thesis
    by (rule advance_templates[OF assms(2) s' create_template_keeps[OF assms(1) db_invD(4)[OF assms(2)]]])
qed

lemma advance_publish_template:
  assumes "publish_agent_template supported org actor i expected s = Inr (x, s')" "db_inv s"
  shows "advance s s'"
proof -
  obtain X where "s' = s\<lparr>templates := X\<rparr>" by (rule publish_ok[OF assms(1)]) (rule that; assumption)
  then have s': "s' = s\<lparr>templates := X, agents := agents s\<rparr>" by simp
  show ?thesis
    by (rule advance_templates[OF assms(2) s' publish_keeps[OF assms(1) db_invD(4)[OF assms(2)]]])
qed

lemma advance_from_template:
  assumes "create_agent_from_template i org actor name template caps instructions s = Inr (x, s')" "db_inv s"
  shows "advance s s'"
proof -
  obtain a where "s' = s\<lparr>agents := agents s @ [a]\<rparr>"
    by (rule from_template_ok[OF assms(1)]) (rule that; assumption)
  then have s': "s' = s\<lparr>templates := templates s, agents := agents s @ [a]\<rparr>" by simp
  show ?thesis
    by (rule advance_templates[OF assms(2) s' from_template_keeps[OF assms(1) db_invD(4)[OF assms(2)]]])
       (auto simp: s')
qed

section \<open>Runs and gates\<close>

text \<open>Runs, gates, their queue and the events moved, nothing else.\<close>

lemma advance_runs:
  assumes "db_inv s" "s' = s\<lparr>agent_runs := A, gates := B, run_jobs := C, events := D\<rparr>"
    "runs_ok s'" "runs_move s s'" "gates_move s s'"
  shows "advance s s'"
  unfolding advance_def runs_part_def using assms(3-5)
  by (intro conjI core_same[OF assms(1)] handoff_same[OF assms(1)] registry_same[OF assms(1)]
        template_same[OF assms(1)]) (auto simp: assms(2))

lemma advance_create_run:
  assumes "create_agent_run txt supported i org task actor agent intent now s = Inr (r, s')" "db_inv s" "i \<noteq> []"
  shows "advance s s'"
proof -
  have "s' = s\<lparr>agent_runs := agent_runs s @ [r], run_jobs := run_jobs s @ [(org, i)]\<rparr>"
    by (rule create_run_ok[OF assms(1)])
  then have s': "s' = s\<lparr>agent_runs := agent_runs s @ [r], gates := gates s,
      run_jobs := run_jobs s @ [(org, i)], events := events s\<rparr>" by simp
  show ?thesis
    by (rule advance_runs[OF assms(2) s' create_run_keeps[OF assms(1) db_invD(2)[OF assms(2)] assms(3)]
          create_run_moves[OF assms(1)]]) (auto simp: s')
qed

lemma advance_claim_run:
  assumes "claim_run budget org i tok now s = Inr (r, s')" "db_inv s" "tok \<noteq> []"
  shows "advance s s'"
proof -
  obtain X where "s' = s\<lparr>agent_runs := X\<rparr>" by (rule claim_run_ok[OF assms(1)]) (rule that; assumption)
  then have s': "s' = s\<lparr>agent_runs := X, gates := gates s, run_jobs := run_jobs s, events := events s\<rparr>"
    by simp
  show ?thesis
    by (rule advance_runs[OF assms(2) s' claim_run_keeps[OF assms(1) db_invD(2)[OF assms(2)] assms(3)]
          claim_moves[OF assms(1)]]) (auto simp: s')
qed

text \<open>A worker takes its job off the queue once its run is not queued.\<close>

lemma advance_drop_job:
  assumes "advance s0 s"
    "\<And>r. r \<in> set (agent_runs s) \<Longrightarrow> ru_org r = org \<Longrightarrow> ru_id r = i \<Longrightarrow> ru_status r \<noteq> RQueued"
  shows "advance s0 (s\<lparr>run_jobs := remove1 (org, i) (run_jobs s)\<rparr>)"
proof -
  note d = advanceD[OF assms(1)]
  let ?s = "s\<lparr>run_jobs := remove1 (org, i) (run_jobs s)\<rparr>"
  have "core_inv ?s" by (rule core_inv_cong[OF db_invD(1)[OF d(1)]]) simp_all
  moreover have "runs_ok ?s" by (rule queued_drop[OF db_invD(2)[OF d(1)] assms(2)])
  moreover have "registry_ok ?s" "templates_ok ?s" "handoff_ids ?s" "hops_ok ?s"
    using db_invD[OF d(1)] by (simp_all add: registry_ok_def templates_ok_def handoff_ids_def hops_ok_def)
  ultimately show ?thesis using d(2-)
    unfolding advance_def core_part_def runs_part_def registry_part_def template_part_def handoff_part_def
    by simp
qed

text \<open>A job comes back: its worker died or returned an error.\<close>

lemma advance_job_back:
  assumes "db_inv s"
  shows "advance s (s\<lparr>run_jobs := run_jobs s @ [x]\<rparr>)"
proof (rule advance_runs[OF assms, where A = "agent_runs s" and B = "gates s" and C = "run_jobs s @ [x]"
      and D = "events s"])
  show "runs_ok (s\<lparr>run_jobs := run_jobs s @ [x]\<rparr>)"
    by (rule runs_ok_update[OF db_invD(2)[OF assms], where P = "\<lambda>_. False" and f = id])
       (auto simp: update_where_unmatched)
qed auto

lemma advance_fail_run:
  assumes "db_inv s" "tok \<noteq> []"
  shows "advance s (fail_run org i tok code now s)"
proof -
  let ?s = "fail_run org i tok code now s"
  have s': "?s = s\<lparr>agent_runs := agent_runs ?s, gates := gates s, run_jobs := run_jobs s, events := events s\<rparr>"
    by (simp add: fail_run_def update_failure_def)
  show ?thesis
    by (rule advance_runs[OF assms(1) s' fail_run_keeps[OF db_invD(2)[OF assms(1)] assms(2)]
          fail_run_moves[OF db_invD(2)[OF assms(1)] assms(2)]]) (auto simp: fail_run_def update_failure_def)
qed

lemma advance_park_run:
  assumes "park_run gid org i tok task owner initiator q now s = Inr (u, s')" "db_inv s"
    "\<And>r. r \<in> set (agent_runs s) \<Longrightarrow> ru_org r = org \<Longrightarrow> ru_id r = i \<Longrightarrow> ru_task r = task"
  shows "advance s s'"
proof -
  obtain A B where "s' = s\<lparr>agent_runs := A, gates := B\<rparr>"
    using assms(1)
  proof (cases rule: park_run_cases)
    case idle
    then show thesis using that[where A = "agent_runs s" and B = "gates s"] by simp
  next
    case (adopted r g)
    show thesis by (rule that[where B = "gates s"]) (simp add: adopted(5))
  next
    case (asked r g)
    show thesis by (rule that[where A = "agent_runs s'" and B = "gates s'"]) (simp add: asked(12))
  qed
  then have s': "s' = s\<lparr>agent_runs := A, gates := B, run_jobs := run_jobs s, events := events s\<rparr>" by simp
  note r = db_invD(2)[OF assms(2)]
  show ?thesis
    by (rule advance_runs[OF assms(2) s' park_run_keeps[OF assms(1) r assms(3)] park_moves[OF assms(1) r]
          park_gates_move[OF assms(1)]])
qed

lemma advance_publish_run:
  assumes "publish_run H fo fb pid org i tok task owner initiator release summary ops now s = Inr (u, s')"
    "db_inv s" "tok \<noteq> []" "pid \<noteq> []"
  shows "advance s s'"
  using assms(1)
proof (cases rule: publish_run_cases)
  case idle
  then show ?thesis using advance_refl[OF assms(2)] by simp
next
  case (refused code)
  let ?s = "update_failure org i tok code now s"
  have s': "?s = s\<lparr>agent_runs := agent_runs ?s, gates := gates s, run_jobs := run_jobs s, events := events s\<rparr>"
    by (simp add: update_failure_def)
  note r = db_invD(2)[OF assms(2)]
  show ?thesis unfolding refused
    by (rule advance_runs[OF assms(2) s' update_failure_keeps[OF r assms(3)] update_failure_moves[OF r assms(3)]])
       (auto simp: update_failure_def)
next
  case (published r p s1)
  note d = db_invD[OF assms(2)]
  note c = published(3)
  have rest: "same_rest s s1" by (rule create_proposal_rest[OF c])
  have t: "tasks s1 = tasks s" by (subst create_proposal_tables(2)[OF c]) simp
  have eq: "gates s' = gates s" "run_jobs s' = run_jobs s" "releases s' = releases s" "templates s' = templates s"
    "agents s' = agents s" "handoffs s' = handoffs s" "tasks s' = tasks s" "proposals s' = proposals s1"
    "decisions s' = decisions s1" "business_ops s' = business_ops s1" "effects s' = effects s1"
    "receipts s' = receipts s1" "task_deps s' = task_deps s1" "proposal_jobs s' = proposal_jobs s1"
    "tasks s' = tasks s1"
    using rest t by (simp_all add: published(4) same_rest_def)
  have "core_inv s'"
    by (rule core_inv_cong[OF inv_create_proposal[OF d(1) c assms(4)] eq(8,15,9-14)])
  moreover have "proposals_from i s s'" using create_proposal_moves[OF c] by (simp add: eq)
  ultimately have "core_part s s'" by (rule core_moved)
  moreover have "runs_part s s'" unfolding runs_part_def
    using publish_run_keeps[OF assms(1) d(2) assms(3)] publish_moves[OF assms(1) d(2) assms(3)]
    by (auto simp: eq)
  ultimately show ?thesis unfolding advance_def
    by (intro conjI registry_same[OF assms(2)] template_same[OF assms(2)] handoff_same[OF assms(2)]) (simp_all add: eq)
qed

lemma advance_finish_run:
  assumes "finish_run H fo fb pid gid org tok r owner result now s = (e, s')" "db_inv s" "tok \<noteq> []" "pid \<noteq> []"
    "\<And>q. q \<in> set (agent_runs s) \<Longrightarrow> ru_org q = org \<Longrightarrow> ru_id q = ru_id r \<Longrightarrow> ru_task q = ru_task r"
  shows "advance s s'"
proof -
  have fail: "advance s (fail_run org i tok code now s)" for i code by (rule advance_fail_run[OF assms(2,3)])
  have park: "advance s s1" if "park_run gid org (ru_id r) tok (ru_task r) o1 i1 q now s = Inr (u, s1)" for o1 i1 q u s1
    using advance_park_run[OF that assms(2,5)] .
  have pub: "advance s s1"
    if "publish_run H fo fb pid org (ru_id r) tok (ru_task r) o1 i1 rel sm ops now s = Inr (u, s1)" for o1 i1 rel sm ops u s1
    using advance_publish_run[OF that assms(2,3,4)] .
  show ?thesis using assms(1) fail park pub advance_refl[OF assms(2)]
    by (auto simp: finish_run_def Let_def with_org_def split: sum.splits if_split_asm prod.splits err.splits)
qed

lemma advance_resolve_gate:
  assumes "resolve_gate eid org i actor rv response now s = Inr (g, s')" "db_inv s"
  shows "advance s s'"
proof -
  note r = db_invD(2)[OF assms(2)]
  obtain A B C D where s': "s' = s\<lparr>agent_runs := A, gates := B, run_jobs := C, events := D\<rparr>"
    using assms(1)
  proof (cases rule: resolve_gate_cases)
    case replay
    show thesis by (rule that[where A = "agent_runs s" and B = "gates s" and C = "run_jobs s" and D = "events s"])
         (simp add: replay)
  next
    case (resolved g0)
    show thesis
      by (rule that[where A = "agent_runs s'" and B = "gates s'" and C = "run_jobs s'" and D = "events s'"])
         (simp add: resolved(8) Let_def resume_run_def enqueue_agent_run_def split: option.split)
  qed
  show ?thesis
    by (rule advance_runs[OF assms(2) s' resolve_gate_keeps[OF assms(1) r] resolve_moves[OF assms(1)]
          resolve_gates_move[OF assms(1) runs_okD(2)[OF r]]])
qed

lemma advance_reclaim:
  assumes "reclaim_in_org fe org limit now s = Inr (n, s')" "db_inv s"
  shows "advance s s'"
proof -
  note r = db_invD(2)[OF assms(2)]
  obtain A C D where "s' = s\<lparr>agent_runs := A, run_jobs := C, events := D\<rparr>"
    by (rule reclaim_ok[OF assms(1)]) (rule that; assumption)
  then have s': "s' = s\<lparr>agent_runs := A, gates := gates s, run_jobs := C, events := D\<rparr>" by simp
  show ?thesis
    by (rule advance_runs[OF assms(2) s' reclaim_keeps[OF assms(1) r] reclaim_moves[OF assms(1) r]]) (auto simp: s')
qed

end
