(* ===== verification/System.thy ===== *)
theory System
  imports Advance
begin

text \<open>
  The running program: the database, the executor jobs whose connectors refused an operation and
  whose second transaction has not run yet, and the workers that took an agent run's job and are
  between the transactions of \<^verbatim>\<open>ExecuteAgentRun\<close>. An action is one transaction of one of them; the
  advisory lock that \<^verbatim>\<open>WithOrg\<close> takes makes the transactions of an organization run one after
  another, and the actions of different workers interleave freely. Actions of the environment add
  principals (or change a role or revoke one) and records, answer for the runner, and kill workers.
\<close>

text \<open>
  A worker that claimed nothing and asks why, one that holds a claim, and one that has read the
  request for the runner. All carry the organization; the last two the token of their claim.
\<close>

datatype worker =
    Checking id id
  | Holding id string agent_run
  | Ready id string agent_run id run_request

record sys =
  store :: db
  refused_jobs :: "(id \<times> id) list"
  workers :: "worker list"

datatype action =
    ASeed
  | AOrganization id string
  | APrincipal principal
  | ARecord sim_record
  | AProject id id string string
  | ATask id id string string id id id time
  | ADependency id id id
  | ACancel id id int time
  | APropose "nat \<Rightarrow> id" "nat \<Rightarrow> id" id time id id id string "operation list"
  | ADecide "nat \<Rightarrow> id" id id id id string int string string
  | AApply "nat \<Rightarrow> id" id id bool
  | AAttention id id bool
  | AOffer id id id id id string string time time
  | AAccept id id id time
  | AClarify id id id string time
  | AWithdraw id id id string time
  | ADecline id id id string time
  | AHandoffs id id time
  | APeek id id id time
  | ARelease id id id registry_create time
  | ATransition id id string string int time
  | AGrant id string id "string list" int time
  | AAgent id id string string id "string list"
  | ATemplate id id id string string string string "string list" string time
  | APublish "string \<Rightarrow> bool" id id id int
  | AInstance id id id string id "string list option" string
  | ARun "json \<Rightarrow> string" "string \<Rightarrow> bool" id id id id id string time
  | AFetch "string \<Rightarrow> int" id id string time
  | ACheck worker
  | AGather worker time
  | AFinish "nat \<Rightarrow> id" "nat \<Rightarrow> id" id id worker "err + run_result" time
  | ACrash worker
  | AResolve id id id id int "json option" time
  | AReclaim "nat \<Rightarrow> id" id int time

definition init_sys :: sys where
  "init_sys = \<lparr>store = empty_db, refused_jobs = [], workers = []\<rparr>"

text \<open>The job of an agent run leaves the queue when a worker takes it and comes back when it fails.\<close>

definition take_job :: "id \<Rightarrow> id \<Rightarrow> db \<Rightarrow> db" where
  "take_job org i s = s\<lparr>run_jobs := remove1 (org, i) (run_jobs s)\<rparr>"

fun worker_job :: "worker \<Rightarrow> id \<times> id" where
  "worker_job (Checking org i) = (org, i)"
| "worker_job (Holding org tok r) = (org, ru_id r)"
| "worker_job (Ready org tok r owner req) = (org, ru_id r)"

definition retry_job :: "worker \<Rightarrow> db \<Rightarrow> db" where
  "retry_job w s = s\<lparr>run_jobs := run_jobs s @ [worker_job w]\<rparr>"

definition on_worker :: "worker \<Rightarrow> (db \<Rightarrow> db) \<Rightarrow> worker list \<Rightarrow> sys \<Rightarrow> sys" where
  "on_worker w f ws y =
     (if w \<notin> set (workers y) then y
      else y\<lparr>store := f (store y), workers := ws @ remove1 w (workers y)\<rparr>)"

fun check_step :: "worker \<Rightarrow> sys \<Rightarrow> sys" where
  "check_step (Checking org i) y =
     (case not_claimed org i (store y) of
        Inr _ \<Rightarrow> on_worker (Checking org i) (\<lambda>s. s) [] y
      | Inl _ \<Rightarrow> on_worker (Checking org i) (retry_job (Checking org i)) [] y)"
| "check_step w y = y"

fun gather_step :: "worker \<Rightarrow> time \<Rightarrow> sys \<Rightarrow> sys" where
  "gather_step (Holding org tok r) now y =
     (case gather org r (store y) of
        Inl _ \<Rightarrow> on_worker (Holding org tok r) (fail_run org (ru_id r) tok ''internal_error'' now) [] y
      | Inr (req, owner) \<Rightarrow> on_worker (Holding org tok r) (\<lambda>s. s) [Ready org tok r owner req] y)"
| "gather_step w now y = y"

text \<open>An error of the last transaction fails the job, which is tried again.\<close>

fun finish_step ::
    "(json \<Rightarrow> string) \<Rightarrow> (nat \<Rightarrow> id) \<Rightarrow> (nat \<Rightarrow> id) \<Rightarrow> id \<Rightarrow> id \<Rightarrow> worker \<Rightarrow> (err + run_result) \<Rightarrow> time \<Rightarrow>
     sys \<Rightarrow> sys" where
  "finish_step H fo fb pid gid (Ready org tok r owner req) result now y =
     on_worker (Ready org tok r owner req)
       (\<lambda>s. case finish_run H fo fb pid gid org tok r owner result now s of
          (Inr _, s') \<Rightarrow> s'
        | (Inl _, s') \<Rightarrow> retry_job (Ready org tok r owner req) s') [] y"
| "finish_step H fo fb pid gid w result now y = y"

fun step :: "(json \<Rightarrow> string) \<Rightarrow> registry \<Rightarrow> action \<Rightarrow> sys \<Rightarrow> sys" where
  "step H reg ASeed y = y\<lparr>store := seed (store y)\<rparr>"
| "step H reg (AOrganization i n) y = y\<lparr>store := seed_org i n (store y)\<rparr>"
| "step H reg (APrincipal x) y = y\<lparr>store := put_principal x (store y)\<rparr>"
| "step H reg (ARecord x) y = y\<lparr>store := put_record x (store y)\<rparr>"
| "step H reg (AProject org i n d) y = y\<lparr>store := commit (create_project org i n d) (store y)\<rparr>"
| "step H reg (ATask org i ti d ow a pj now) y =
     y\<lparr>store := commit (create_task org i ti d ow a pj now) (store y)\<rparr>"
| "step H reg (ADependency org t p) y = y\<lparr>store := commit (add_dependency org t p) (store y)\<rparr>"
| "step H reg (ACancel org i v now) y = y\<lparr>store := commit (cancel_task org i v now) (store y)\<rparr>"
| "step H reg (APropose fo fb pid now org t actor sm ops) y =
     y\<lparr>store := commit (create_proposal H fo fb pid now org t actor sm ops) (store y)\<rparr>"
| "step H reg (ADecide fe i org pid actor k rv dg re) y =
     y\<lparr>store := commit (decide fe i org pid actor k rv dg re) (store y)\<rparr>"
| "step H reg (AApply fe org pid fin) y =
     (if (org, pid) \<notin> set (proposal_jobs (store y)) then y
      else case apply_proposal H reg fe org pid (store y) of
        Inr (_, s) \<Rightarrow> y\<lparr>store := end_job fin org pid s\<rparr>
      | Inl e \<Rightarrow> if connector_refusal e then y\<lparr>refused_jobs := (org, pid) # refused_jobs y\<rparr> else y)"
| "step H reg (AAttention org pid fin) y =
     (if (org, pid) \<notin> set (refused_jobs y) then y
      else case mark_attention org pid (store y) of
        Inr (_, s) \<Rightarrow> y\<lparr>store := end_job fin org pid s,
                        refused_jobs := remove1 (org, pid) (refused_jobs y)\<rparr>
      | Inl e \<Rightarrow> y)"
| "step H reg (AOffer org i task actor rec role sm app now) y =
     y\<lparr>store := commit (create_handoff org i task actor rec role sm app now) (store y)\<rparr>"
| "step H reg (AAccept org i actor now) y = y\<lparr>store := commit (accept_handoff org i actor now) (store y)\<rparr>"
| "step H reg (AClarify org i actor q now) y =
     y\<lparr>store := commit (clarify_handoff org i actor q now) (store y)\<rparr>"
| "step H reg (AWithdraw org i actor re now) y =
     y\<lparr>store := commit (cancel_handoff org i actor re now) (store y)\<rparr>"
| "step H reg (ADecline org i actor re now) y =
     y\<lparr>store := commit (decline_handoff org i actor re now) (store y)\<rparr>"
| "step H reg (AHandoffs org actor now) y = y\<lparr>store := commit (list_handoffs org actor now) (store y)\<rparr>"
| "step H reg (APeek org i actor now) y = y\<lparr>store := commit (peek_handoff org i actor now) (store y)\<rparr>"
| "step H reg (ARelease i org actor q now) y =
     y\<lparr>store := commit (create_registry_release i org actor q now) (store y)\<rparr>"
| "step H reg (ATransition org i role target rv now) y =
     y\<lparr>store := commit (transition_registry_release org i role target rv now) (store y)\<rparr>"
| "step H reg (AGrant org role i caps rv now) y =
     y\<lparr>store := commit (grant_registry_capabilities org role i caps rv now) (store y)\<rparr>"
| "step H reg (AAgent i org n h ow caps) y =
     y\<lparr>store := commit (create_agent i org n h ow caps) (store y)\<rparr>"
| "step H reg (ATemplate i org actor n v h d caps ins now) y =
     y\<lparr>store := commit (create_agent_template i org actor n v h d caps ins now) (store y)\<rparr>"
| "step H reg (APublish supported org actor i rv) y =
     y\<lparr>store := commit (publish_agent_template supported org actor i rv) (store y)\<rparr>"
| "step H reg (AInstance i org actor n tpl caps ins) y =
     y\<lparr>store := commit (create_agent_from_template i org actor n tpl caps ins) (store y)\<rparr>"
| "step H reg (ARun txt supported i org task actor agent intent now) y =
     y\<lparr>store := commit (create_agent_run txt supported i org task actor agent intent now) (store y)\<rparr>"
| "step H reg (AFetch budget org i tok now) y =
     (if (org, i) \<notin> set (run_jobs (store y)) then y
      else case claim_run budget org i tok now (store y) of
        Inl e \<Rightarrow> y\<lparr>store := take_job org i (store y), workers := Checking org i # workers y\<rparr>
      | Inr (r, s) \<Rightarrow> y\<lparr>store := take_job org i s, workers := Holding org tok r # workers y\<rparr>)"
| "step H reg (ACheck w) y = check_step w y"
| "step H reg (AGather w now) y = gather_step w now y"
| "step H reg (AFinish fo fb pid gid w result now) y = finish_step H fo fb pid gid w result now y"
| "step H reg (ACrash w) y = on_worker w (retry_job w) [] y"
| "step H reg (AResolve eid org i actor rv response now) y =
     y\<lparr>store := commit (resolve_gate eid org i actor rv response now) (store y)\<rparr>"
| "step H reg (AReclaim fe org limit now) y =
     y\<lparr>store := commit (reclaim_in_org fe org limit now) (store y)\<rparr>"

text \<open>\<^verbatim>\<open>platform.NewID\<close> returns 32 hexadecimal digits; all that is used is that it is not empty.\<close>

fun legal :: "action \<Rightarrow> bool" where
  "legal (APropose fo fb pid now org t actor sm ops) = (pid \<noteq> [])"
| "legal (ARun txt supported i org task actor agent intent now) = (i \<noteq> [])"
| "legal (AFetch budget org i tok now) = (tok \<noteq> [])"
| "legal (AFinish fo fb pid gid w result now) = (pid \<noteq> [])"
| "legal a = True"

abbreviation reachable_sys :: "(json \<Rightarrow> string) \<Rightarrow> registry \<Rightarrow> sys \<Rightarrow> bool" where
  "reachable_sys H reg \<equiv> reachable init_sys legal (step H reg)"

section \<open>The invariant\<close>

text \<open>A worker with a claim works on a run that exists and has not changed its task.\<close>

fun worker_ok :: "db \<Rightarrow> worker \<Rightarrow> bool" where
  "worker_ok s (Checking org i) = True"
| "worker_ok s (Holding org tok r) =
     (tok \<noteq> [] \<and> ru_org r = org \<and> (\<exists>q\<in>set (agent_runs s). same_run r q))"
| "worker_ok s (Ready org tok r owner req) =
     (tok \<noteq> [] \<and> ru_org r = org \<and> (\<exists>q\<in>set (agent_runs s). same_run r q))"

definition sys_inv :: "sys \<Rightarrow> bool" where
  "sys_inv y \<longleftrightarrow> db_inv (store y) \<and> (\<forall>w\<in>set (workers y). worker_ok (store y) w)"

lemma sys_invD:
  assumes "sys_inv y"
  shows "db_inv (store y)" "w \<in> set (workers y) \<Longrightarrow> worker_ok (store y) w"
  using assms by (simp_all add: sys_inv_def)

lemma worker_ok_advance:
  assumes "advance s s'" "worker_ok s w"
  shows "worker_ok s' w"
proof -
  have keep: "\<exists>q\<in>set (agent_runs s'). same_run r q" if old: "\<exists>q\<in>set (agent_runs s). same_run r q" for r
  proof -
    obtain q where q: "q \<in> set (agent_runs s)" "same_run r q" using old by blast
    obtain q' where "q' \<in> set (agent_runs s')" "run_move q q'"
      using grows_ex[OF advanceD(3)[OF assms(1)] q(1)] by blast
    with q(2) show ?thesis by (auto simp: run_move_def same_run_def)
  qed
  show ?thesis using assms(2) keep by (cases w) auto
qed

text \<open>What a step has to give: the store advances and every worker is an old one or in order.\<close>

definition good_step :: "sys \<Rightarrow> sys \<Rightarrow> bool" where
  "good_step y y' \<longleftrightarrow> advance (store y) (store y') \<and>
     (\<forall>w\<in>set (workers y'). w \<in> set (workers y) \<or> worker_ok (store y') w)"

lemma good_store:
  "advance (store y) s \<Longrightarrow> good_step y (y\<lparr>store := s\<rparr>)"
  by (simp add: good_step_def)

lemma good_refl: "sys_inv y \<Longrightarrow> good_step y y"
  by (simp add: good_step_def advance_refl sys_invD)

lemma good_commit:
  assumes "sys_inv y" "\<And>x s'. f (store y) = Inr (x, s') \<Longrightarrow> db_inv (store y) \<Longrightarrow> advance (store y) s'"
  shows "good_step y (y\<lparr>store := commit f (store y)\<rparr>)"
proof (rule good_store, rule commit_induct)
  show "advance (store y) (store y)" using assms(1) by (simp add: advance_refl sys_invD)
qed (use assms(2) sys_invD(1)[OF assms(1)] in blast)

lemma good_inv: "sys_inv y \<Longrightarrow> good_step y y' \<Longrightarrow> sys_inv y'"
  unfolding good_step_def sys_inv_def using advanceD(1) worker_ok_advance by blast

lemma good_on_worker:
  assumes "sys_inv y" "w \<in> set (workers y) \<Longrightarrow> advance (store y) (f (store y))"
    "\<And>v. w \<in> set (workers y) \<Longrightarrow> v \<in> set ws \<Longrightarrow> worker_ok (f (store y)) v"
  shows "good_step y (on_worker w f ws y)"
proof (cases "w \<in> set (workers y)")
  case False
  then show ?thesis using good_refl[OF assms(1)] by (simp add: on_worker_def)
next
  case True
  have "set (remove1 w (workers y)) \<subseteq> set (workers y)" by (rule set_remove1_subset)
  with True show ?thesis using assms(2,3)
    by (simp add: on_worker_def good_step_def) blast
qed

lemma advance_retry: "db_inv s \<Longrightarrow> advance s (retry_job w s)"
  unfolding retry_job_def by (rule advance_job_back)

text \<open>Seeding and the environment write three tables no part reads.\<close>

definition seeds :: "db \<Rightarrow> db \<Rightarrow> bool" where
  "seeds s s' \<longleftrightarrow> proposals s' = proposals s \<and> tasks s' = tasks s \<and> decisions s' = decisions s \<and>
     business_ops s' = business_ops s \<and> effects s' = effects s \<and> receipts s' = receipts s \<and>
     task_deps s' = task_deps s \<and> proposal_jobs s' = proposal_jobs s \<and> same_rest s s'"

lemma seeds_trans: "seeds a b \<Longrightarrow> seeds b c \<Longrightarrow> seeds a c"
  by (simp add: seeds_def same_rest_def)

lemma seeds_each:
  "seeds s (seed_org i n s)" "seeds s (seed_principal o1 i n r s)" "seeds s (seed_record o1 i g d s)"
  "seeds s (put_principal x s)" "seeds s (put_record z s)"
  by (simp_all add: seeds_def seed_org_def seed_principal_def seed_record_def put_principal_def
      put_record_def same_rest_def)

lemma seed_seeds: "seeds s (seed s)"
  unfolding seed_def seed_fixture_def
  by (rule seeds_trans[OF _ seeds_each(1)] seeds_trans[OF _ seeds_each(2)] seeds_trans[OF _ seeds_each(3)])+
     (simp add: seeds_def)

lemma advance_seeds: "seeds s s' \<Longrightarrow> db_inv s \<Longrightarrow> advance s s'"
  by (rule advance_rest) (simp_all add: seeds_def)

section \<open>Steps with a worker\<close>

lemma good_fetch:
  assumes "sys_inv y" "tok \<noteq> []"
  shows "good_step y (step H reg (AFetch budget org i tok now) y)"
proof (cases "(org, i) \<in> set (run_jobs (store y))")
  case False
  then show ?thesis using good_refl[OF assms(1)] by simp
next
  case True
  note d = sys_invD(1)[OF assms(1)]
  show ?thesis
  proof (cases "claim_run budget org i tok now (store y)")
    case (Inl e)
    have "advance (store y) (take_job org i (store y))" unfolding take_job_def
      by (rule advance_drop_job[OF advance_refl[OF d]]) (use claim_not_queued[OF Inl] in blast)
    then show ?thesis by (simp add: True Inl good_step_def)
  next
    case (Inr x)
    obtain r s where x: "x = (r, s)" by (rule prod.exhaust)
    note c = Inr[unfolded x]
    have a: "advance (store y) s" by (rule advance_claim_run[OF c d assms(2)])
    have "advance (store y) (take_job org i s)" unfolding take_job_def
      by (rule advance_drop_job[OF a]) (use claimed_not_queued[OF c] in blast)
    moreover obtain q lease where q: "q \<in> set (agent_runs (store y))" "ru_org q = org"
        "r = claimed tok lease now q"
      by (rule claim_run_ok[OF c]) (rule that; assumption)
    obtain q' where q': "q' \<in> set (agent_runs s)" "run_move q q'"
      using grows_ex[OF advanceD(3)[OF a] q(1)] by blast
    have "worker_ok (take_job org i s) (Holding org tok r)"
      using assms(2) q q' by (auto simp: take_job_def claimed_def run_move_def same_run_def)
    ultimately show ?thesis by (simp add: True Inr x good_step_def)
  qed
qed

lemma worker_task:
  assumes "db_inv s" "q0 \<in> set (agent_runs s)" "same_run r q0" "ru_org r = org"
    "q \<in> set (agent_runs s)" "ru_org q = org" "ru_id q = ru_id r"
  shows "ru_task q = ru_task r"
proof -
  have "q = q0"
    using run_unique[OF runs_okD(1)[OF db_invD(2)[OF assms(1)]] assms(5,2)] assms(3,7)
    by (simp add: same_run_def)
  then show ?thesis using assms(3) by (simp add: same_run_def)
qed

lemma good_check: "sys_inv y \<Longrightarrow> good_step y (check_step w y)"
proof (cases w)
  case (Checking org i)
  assume y: "sys_inv y"
  note d = sys_invD(1)[OF y]
  have "good_step y (on_worker w (\<lambda>s. s) [] y)" "good_step y (on_worker w (retry_job w) [] y)"
    by (rule good_on_worker[OF y]; simp add: advance_refl[OF d] advance_retry[OF d])+
  then show ?thesis by (simp add: Checking split: sum.split)
qed (simp_all add: good_refl)

lemma good_gather:
  assumes "sys_inv y"
  shows "good_step y (gather_step w now y)"
proof (cases w)
  case (Holding org tok r)
  note d = sys_invD(1)[OF assms]
  have t: "w \<in> set (workers y) \<Longrightarrow> worker_ok (store y) w" by (rule sys_invD(2)[OF assms])
  have "good_step y (on_worker w (fail_run org (ru_id r) tok ''internal_error'' now) [] y)"
    by (rule good_on_worker[OF assms]) (use advance_fail_run[OF d] t in \<open>auto simp: Holding\<close>)
  moreover have "good_step y (on_worker w (\<lambda>s. s) [Ready org tok r owner req] y)" for owner req
    by (rule good_on_worker[OF assms]) (use advance_refl[OF d] t in \<open>auto simp: Holding\<close>)
  ultimately show ?thesis by (simp add: Holding split: sum.split prod.split)
qed (simp_all add: good_refl assms)

lemma good_finish:
  assumes "sys_inv y" "pid \<noteq> []"
  shows "good_step y (finish_step H fo fb pid gid w result now y)"
proof (cases w)
  case (Ready org tok r owner req)
  note d = sys_invD(1)[OF assms(1)]
  let ?f = "\<lambda>s. case finish_run H fo fb pid gid org tok r owner result now s of
          (Inr _, s') \<Rightarrow> s' | (Inl _, s') \<Rightarrow> retry_job (Ready org tok r owner req) s'"
  have "good_step y (on_worker w ?f [] y)"
  proof (rule good_on_worker[OF assms(1)])
    assume "w \<in> set (workers y)"
    then have ok: "worker_ok (store y) w" by (rule sys_invD(2)[OF assms(1)])
    then obtain q0 where q0: "q0 \<in> set (agent_runs (store y))" "same_run r q0" "ru_org r = org" "tok \<noteq> []"
      by (auto simp: Ready)
    obtain e s' where fin: "finish_run H fo fb pid gid org tok r owner result now (store y) = (e, s')"
      by (rule prod.exhaust)
    have a: "advance (store y) s'"
      by (rule advance_finish_run[OF fin d q0(4) assms(2)]) (rule worker_task[OF d q0(1-3)])
    have "advance s' (retry_job w s')" by (rule advance_retry[OF advanceD(1)[OF a]])
    then have "advance (store y) (retry_job w s')" using a
      unfolding advance_def core_part_def runs_part_def registry_part_def template_part_def
        handoff_part_def retry_job_def by simp
    then show "advance (store y) (?f (store y))" using a by (simp add: fin Ready split: sum.split)
  qed simp
  then show ?thesis by (simp add: Ready)
qed (simp_all add: good_refl assms)

section \<open>Every step keeps the invariant\<close>

lemma good_apply:
  assumes "sys_inv y"
  shows "good_step y (step H reg (AApply fe org pid fin) y)"
proof (cases "apply_proposal H reg fe org pid (store y)")
  case (Inl e)
  then show ?thesis using good_refl[OF assms] by (auto simp: good_step_def)
next
  case (Inr r)
  note d = sys_invD(1)[OF assms]
  obtain u s where r: "r = (u, s)" by (rule prod.exhaust)
  have "advance (store y) (end_job fin org pid s)"
    by (rule advance_end_job[OF advance_apply_proposal[OF Inr[unfolded r] d]])
       (rule apply_proposal_consumes[OF Inr[unfolded r] core_invD(1)[OF db_invD(1)[OF d]]])
  then show ?thesis using good_refl[OF assms] good_store by (simp add: Inr r)
qed

lemma good_attention:
  assumes "sys_inv y"
  shows "good_step y (step H reg (AAttention org pid fin) y)"
proof (cases "mark_attention org pid (store y)")
  case (Inl e)
  then show ?thesis using good_refl[OF assms] by simp
next
  case (Inr r)
  note d = sys_invD(1)[OF assms]
  obtain u s where r: "r = (u, s)" by (rule prod.exhaust)
  have "advance (store y) (end_job fin org pid s)"
    by (rule advance_end_job[OF advance_mark_attention[OF Inr[unfolded r] d]])
       (rule mark_attention_consumes[OF Inr[unfolded r]])
  then show ?thesis using good_refl[OF assms] by (simp add: Inr r good_step_def)
qed

lemma good_seeds: "sys_inv y \<Longrightarrow> seeds (store y) s \<Longrightarrow> good_step y (y\<lparr>store := s\<rparr>)"
  by (rule good_store, rule advance_seeds, assumption, rule sys_invD(1))

lemmas good_seed = good_seeds[OF _ seeds_each(1)] good_seeds[OF _ seeds_each(4)]
  good_seeds[OF _ seeds_each(5)] good_seeds[OF _ seed_seeds]

lemma good_transactions:
  assumes "sys_inv y"
  shows "good_step y (step H reg (AProject org i n d) y)"
    "good_step y (step H reg (ATask org i ti de ow a pj now) y)"
    "good_step y (step H reg (ADependency org t p) y)"
    "good_step y (step H reg (ACancel org i v now) y)"
    "good_step y (step H reg (ADecide fe i org pid actor k rv dg re) y)"
    "good_step y (step H reg (AOffer org i task actor rec role sm app now) y)"
    "good_step y (step H reg (AAccept org i actor now) y)"
    "good_step y (step H reg (AClarify org i actor q now) y)"
    "good_step y (step H reg (AWithdraw org i actor re now) y)"
    "good_step y (step H reg (ADecline org i actor re now) y)"
    "good_step y (step H reg (AHandoffs org actor now) y)"
    "good_step y (step H reg (APeek org i actor now) y)"
    "good_step y (step H reg (ARelease i org actor rq now) y)"
    "good_step y (step H reg (ATransition org i ro target rv now) y)"
    "good_step y (step H reg (AGrant org ro i caps rv now) y)"
    "good_step y (step H reg (AAgent i org n h ow caps) y)"
    "good_step y (step H reg (ATemplate i org actor n ve h d caps ins now) y)"
    "good_step y (step H reg (APublish supported org actor i rv) y)"
    "good_step y (step H reg (AInstance i org actor n tpl scope ins) y)"
    "good_step y (step H reg (AResolve eid org i actor rv response now) y)"
    "good_step y (step H reg (AReclaim fe org limit now) y)"
  by (simp, rule good_commit[OF assms],
      erule (1) advance_create_project advance_create_task advance_add_dependency advance_cancel_task
        advance_decide advance_offer advance_accept_handoff
        advance_clarify advance_cancel_handoff advance_decline advance_list_handoffs
        advance_peek_handoff advance_create_release advance_transition advance_grant
        advance_create_agent advance_create_template advance_publish_template advance_from_template
        advance_resolve_gate advance_reclaim)+

lemma good_any_step:
  assumes "sys_inv y" "legal a"
  shows "good_step y (step H reg a y)"
proof (cases a)
  case (APropose fo fb pid now org t actor sm ops)
  then show ?thesis using assms(2)
    by simp (rule good_commit[OF assms(1)], erule (1) advance_create_proposal, simp)
next
  case (ARun tx supported i org task actor agent intent now)
  then show ?thesis using assms(2)
    by simp (rule good_commit[OF assms(1)], erule (1) advance_create_run, simp)
next
  case (AFetch budget org i tok now)
  then show ?thesis using assms(2) good_fetch[OF assms(1)] by (simp del: step.simps)
next
  case (AFinish fo fb pid gid w result now)
  then show ?thesis using assms(2) good_finish[OF assms(1)] by simp
next
  case (ACrash w)
  then show ?thesis
    using good_on_worker[OF assms(1), of w "retry_job w" "[]"] advance_retry[OF sys_invD(1)[OF assms(1)]]
    by simp
next
  case (AApply fe org pid fin)
  show ?thesis unfolding AApply by (rule good_apply[OF assms(1)])
next
  case (AAttention org pid fin)
  show ?thesis unfolding AAttention by (rule good_attention[OF assms(1)])
qed (simp only: good_transactions[OF assms(1)] |
     simp add: good_seed[OF assms(1)] good_check[OF assms(1)] good_gather[OF assms(1)])+

lemma sys_init: "sys_inv init_sys"
  by (simp add: init_sys_def empty_db_def sys_inv_def db_inv_def side_inv_def core_inv_def
      proposal_ids_def tasks_ok_def separation_def keys_held_def bops_wf_def effects_ok_def
      receipts_ok_def verified_ids_def graph_ok_def dep_edges_def wakeup_def acyclic_def runs_ok_def
      run_ids_def gates_ok_def gate_tasks_def one_pending_def waiting_ok_def queued_ok_def tokens_ok_def
      origin_ok_def registry_ok_def release_keys_def one_active_def templates_ok_def handoff_ids_def
      hops_ok_def accepted_owner_hops_def)

interpretation workforce: invariant_system init_sys legal "step H reg" sys_inv for H reg
  by unfold_locales (blast intro: sys_init good_inv good_any_step)+

lemma reachable_db: "reachable_sys H reg y \<Longrightarrow> db_inv (store y)"
  by (rule sys_invD(1), rule workforce.reachable_inv)

lemma step_advance: "sys_inv y \<Longrightarrow> legal a \<Longrightarrow> advance (store y) (store (step H reg a y))"
  using good_any_step by (simp add: good_step_def)

end
