(* ===== verification/Demo.thy ===== *)
theory Demo
  imports System
begin

text \<open>
  A small organization on which the properties are exercised: a requester \<open>r\<close>, an approver \<open>a\<close>, a
  document record, a task and a proposal that updates the document. The digest is a constant
  function here, the connectors are the simulators of \<^verbatim>\<open>connectors.NewRegistry\<close>.
\<close>

definition demo_hash :: "json \<Rightarrow> string" where
  "demo_hash j = ''d''"

text \<open>The k-th identifier of a kind.\<close>

definition nth_id :: "string \<Rightarrow> nat \<Rightarrow> id" where
  "nth_id c n = c @ replicate n CHR ''x''"

abbreviation demo_step :: "action \<Rightarrow> sys \<Rightarrow> sys" where
  "demo_step \<equiv> step demo_hash new_registry"

definition demo_doc :: sim_record where
  "demo_doc = \<lparr>sr_id = ''doc'', sr_org = ''o'', sr_integration = ''documents'', sr_version = 1,
     sr_data = JObj [(''title'', JStr ''old'')]\<rparr>"

definition demo_op :: "string \<Rightarrow> string \<Rightarrow> operation" where
  "demo_op i key = \<lparr>op_id = i, op_integration = ''documents'', op_action = ''update'', op_key = key,
     op_target = ''doc'', op_version = 1, op_payload = Some (JObj [(''title'', JStr ''new'')])\<rparr>"

definition demo_people :: "action list" where
  "demo_people =
    [AOrganization ''o'' ''Org'',
     APrincipal \<lparr>pr_id = ''r'', pr_org = ''o'', pr_name = ''R'', pr_role = Requester, pr_active = True\<rparr>,
     APrincipal \<lparr>pr_id = ''a'', pr_org = ''o'', pr_name = ''A'', pr_role = Approver, pr_active = True\<rparr>,
     ARecord demo_doc, ATask ''o'' ''t'' ''T'' '''' ''r'' '''' '''' 1,
     ATask ''o'' ''u'' ''U'' '''' ''r'' '''' '''' 1]"

text \<open>Endorsed by its creator and approved.\<close>

definition demo_approval :: "operation list \<Rightarrow> action list" where
  "demo_approval ops =
    [APropose (nth_id ''op'') (nth_id ''b'') ''p'' 2 ''o'' ''t'' ''r'' ''S'' ops,
     ADecide (nth_id ''e'') ''d1'' ''o'' ''p'' ''r'' ''endorse'' 1 ''d'' '''',
     ADecide (nth_id ''e'') ''d2'' ''o'' ''p'' ''a'' ''approve'' 1 ''d'' '''']"

definition demo_start :: sys where
  "demo_start = steps demo_step demo_people init_sys"

definition demo_approved :: sys where
  "demo_approved = steps demo_step (demo_approval [demo_op ''op1'' ''K1'']) demo_start"

definition demo_done :: sys where
  "demo_done = demo_step (AApply (nth_id ''rc'') ''o'' ''p'' True) demo_approved"

lemma reachable_start: "reachable_sys demo_hash new_registry demo_start"
  unfolding demo_start_def
  by (rule reachable_run[OF reachable.reach_init]) (simp add: demo_people_def)

lemma reachable_approved: "reachable_sys demo_hash new_registry demo_approved"
  unfolding demo_approved_def
  by (rule reachable_run[OF reachable_start]) (simp add: demo_approval_def)

lemma reachable_done: "reachable_sys demo_hash new_registry demo_done"
  unfolding demo_done_def by (rule reachable.reach_step[OF reachable_approved]) simp

text \<open>The requester's task depends on another and is offered to the approver.\<close>

definition demo_offered :: sys where
  "demo_offered = steps demo_step
     [ADependency ''o'' ''t'' ''u'', AOffer ''o'' ''ho'' ''t'' ''r'' ''a'' ''owner'' ''please'' 5 5] demo_start"

lemma reachable_offered: "reachable_sys demo_hash new_registry demo_offered"
  unfolding demo_offered_def by (rule reachable_run[OF reachable_start]) simp

section \<open>Agent runs\<close>

text \<open>
  A harness release taken to active, an agent of it and two runs on the task \<open>u\<close>; the first is
  claimed, asks a question and is parked, or publishes a proposal.
\<close>

definition demo_release :: registry_create where
  "demo_release = \<lparr>rq_family = ''simulator'', rq_kind = ''harness'', rq_version = ''1'', rq_digest = ''d'',
     rq_manifest = None, rq_requested = [''read_records''], rq_granted = [], rq_compat = [], rq_simulation = True\<rparr>"

definition demo_admission :: "action list" where
  "demo_admission =
    [ARelease ''h'' ''o'' ''r'' demo_release 3,
     ATransition ''o'' ''h'' ''admin'' ''verified'' 1 4, ATransition ''o'' ''h'' ''admin'' ''approved'' 2 5,
     ATransition ''o'' ''h'' ''admin'' ''installed'' 3 6, ATransition ''o'' ''h'' ''admin'' ''active'' 4 7,
     AAgent ''ag'' ''o'' ''Agent'' ''simulator'' ''r'' [''read_records''],
     ARun (\<lambda>_. []) (\<lambda>h. h = ''simulator'') ''run'' ''o'' ''u'' ''r'' ''ag'' ''work'' 8,
     ARun (\<lambda>_. []) (\<lambda>h. h = ''simulator'') ''run2'' ''o'' ''u'' ''r'' ''ag'' ''work'' 8]"

definition demo_admitted :: sys where
  "demo_admitted = steps demo_step demo_admission demo_start"

definition demo_claimed :: sys where
  "demo_claimed = demo_step (AFetch (\<lambda>_. 30) ''o'' ''run'' ''tok'' 9) demo_admitted"

definition demo_ready :: sys where
  "demo_ready = demo_step (AGather (hd (workers demo_claimed)) 10) demo_claimed"

definition demo_question :: run_result where
  "demo_question = \<lparr>rs_status = ''waiting'', rs_failure = [], rs_draft = None,
     rs_gate = Some \<lparr>gq_kind = ''clarification'', gq_prompt = ''which?'', gq_schema = None, gq_respondent = []\<rparr>\<rparr>"

definition demo_work :: run_result where
  "demo_work = \<lparr>rs_status = ''succeeded'', rs_failure = [],
     rs_draft = Some \<lparr>dr_summary = ''S'', dr_operations = [demo_op ''op9'' ''K9'']\<rparr>, rs_gate = None\<rparr>"

definition demo_finish :: "run_result \<Rightarrow> time \<Rightarrow> sys \<Rightarrow> sys" where
  "demo_finish res now y =
     demo_step (AFinish (nth_id ''op'') (nth_id ''b'') ''pr'' ''g'' (hd (workers y)) (Inr res) now) y"

definition demo_parked :: sys where
  "demo_parked = demo_finish demo_question 11 demo_ready"

definition demo_published :: sys where
  "demo_published = demo_finish demo_work 11 demo_ready"

lemma reachable_admitted: "reachable_sys demo_hash new_registry demo_admitted"
  unfolding demo_admitted_def
  by (rule reachable_run[OF reachable_start]) (simp add: demo_admission_def)

lemma reachable_claimed: "reachable_sys demo_hash new_registry demo_claimed"
  unfolding demo_claimed_def by (rule reachable.reach_step[OF reachable_admitted]) simp

lemma reachable_ready: "reachable_sys demo_hash new_registry demo_ready"
  unfolding demo_ready_def by (rule reachable.reach_step[OF reachable_claimed]) simp

lemma reachable_finish:
  "reachable_sys demo_hash new_registry y \<Longrightarrow> reachable_sys demo_hash new_registry (demo_finish res now y)"
  unfolding demo_finish_def by (erule reachable.reach_step) simp

lemma reachable_parked: "reachable_sys demo_hash new_registry demo_parked"
  unfolding demo_parked_def by (rule reachable_finish[OF reachable_ready])

lemma reachable_published: "reachable_sys demo_hash new_registry demo_published"
  unfolding demo_published_def by (rule reachable_finish[OF reachable_ready])

end
