(* ===== verification/Boards.thy ===== *)
theory Boards
  imports System
begin

text \<open>
  The two projections: the work of a person, \<^verbatim>\<open>internal/store/workboard.go\<close>, and the state of an agent,
  \<^verbatim>\<open>internal/store/agentboard.go\<close>.
\<close>

section \<open>The work board\<close>

datatype relevance = Accountable | Executing | HandoffOffered

record board_item =
  wb_task :: id
  wb_title :: string
  wb_status :: task_status
  wb_version :: int
  wb_created :: time
  wb_relevance :: relevance
  wb_blocker :: "(id \<times> string \<times> id) option"

text \<open>The unmet prerequisite created first.\<close>

definition blocker :: "task \<Rightarrow> db \<Rightarrow> task option" where
  "blocker t s =
     (case sort_key tk_created
        (filter (\<lambda>p. tk_org p = tk_org t \<and> tk_status p \<noteq> TDone \<and>
                     exists_row (\<lambda>d. td_org d = tk_org t \<and> td_task d = tk_id t \<and> td_parent d = tk_id p) (task_deps s))
           (tasks s)) of
        [] \<Rightarrow> None | p # _ \<Rightarrow> Some p)"

definition offered_to :: "id \<Rightarrow> time \<Rightarrow> task \<Rightarrow> handoff \<Rightarrow> bool" where
  "offered_to actor now t h \<longleftrightarrow> ho_org h = tk_org t \<and> ho_task h = tk_id t \<and> ho_recipient h = actor \<and>
     open_handoff (ho_state h) \<and> (case ho_expires h of None \<Rightarrow> True | Some e \<Rightarrow> now < e)"

definition relevance_of :: "id \<Rightarrow> task \<Rightarrow> relevance" where
  "relevance_of actor t =
     (if tk_owner t = actor then Accountable
      else if tk_assignee t = Some actor then Executing else HandoffOffered)"

definition on_board :: "id \<Rightarrow> id \<Rightarrow> time \<Rightarrow> db \<Rightarrow> task \<Rightarrow> bool" where
  "on_board org actor now s t \<longleftrightarrow> tk_org t = org \<and> \<not> terminal_task (tk_status t) \<and>
     (tk_owner t = actor \<or> tk_assignee t = Some actor \<or> exists_row (offered_to actor now t) (handoffs s))"

definition board_item_of :: "id \<Rightarrow> db \<Rightarrow> task \<Rightarrow> board_item" where
  "board_item_of actor s t =
     \<lparr>wb_task = tk_id t, wb_title = tk_title t, wb_status = tk_status t, wb_version = tk_version t,
      wb_created = tk_created t, wb_relevance = relevance_of actor t,
      wb_blocker = map_option (\<lambda>p. (tk_id p, tk_title p, tk_owner p)) (blocker t s)\<rparr>"

definition work_board :: "id \<Rightarrow> id \<Rightarrow> time \<Rightarrow> db \<Rightarrow> board_item list" where
  "work_board org actor now s =
     map (board_item_of actor s)
       (sort_key tk_created (sort_key tk_id (filter (on_board org actor now s) (tasks s))))"

section \<open>The agent board\<close>

record agent_board_view =
  ab_agent :: agent
  ab_running :: "agent_run list"
  ab_queued :: "agent_run list"
  ab_parked :: "agent_run list"
  ab_tasks :: "task list"
  ab_gates :: "gate list"
  ab_active :: bool

definition runs_in :: "id \<Rightarrow> id \<Rightarrow> run_status \<Rightarrow> db \<Rightarrow> agent_run list" where
  "runs_in org agent st s =
     filter (\<lambda>r. ru_status r = st)
       (sort_key ru_created (filter (\<lambda>r. ru_org r = org \<and> ru_agent r = agent \<and> open_run (ru_status r))
          (agent_runs s)))"

definition agent_board :: "id \<Rightarrow> id \<Rightarrow> db \<Rightarrow> err + agent_board_view" where
  "agent_board org i s =
     (case row (\<lambda>a. ag_id a = i) (list_agents org s) of
        None \<Rightarrow> Inl NoRows
      | Some a \<Rightarrow>
         (let running = runs_in org i RRunning s
          in Inr \<lparr>ab_agent = a, ab_running = running, ab_queued = runs_in org i RQueued s,
                  ab_parked = runs_in org i RWaiting s,
                  ab_tasks = sort_key tk_created
                    (filter (\<lambda>t. tk_org t = org \<and> \<not> terminal_task (tk_status t) \<and>
                        exists_row (\<lambda>r. ru_org r = tk_org t \<and> ru_task r = tk_id t \<and> ru_agent r = i)
                          (agent_runs s)) (tasks s)),
                  ab_gates = sort_key gt_created
                    (filter (\<lambda>g. gt_org g = org \<and> gt_status g = GPending \<and>
                        exists_row (\<lambda>r. ru_org r = gt_org g \<and> gt_run g = Some (ru_id r) \<and> ru_agent r = i)
                          (agent_runs s)) (gates s)),
                  ab_active = (running \<noteq> [])\<rparr>))"

section \<open>Lemmas\<close>

lemma set_runs_in:
  "set (runs_in org i st s) = {r \<in> set (agent_runs s). ru_org r = org \<and> ru_agent r = i \<and>
     open_run (ru_status r) \<and> ru_status r = st}"
  by (auto simp: runs_in_def)

text \<open>A prerequisite that is not done.\<close>

definition holds_up :: "db \<Rightarrow> task \<Rightarrow> task \<Rightarrow> bool" where
  "holds_up s t p \<longleftrightarrow> p \<in> set (tasks s) \<and> tk_org p = tk_org t \<and> tk_status p \<noteq> TDone \<and>
     (\<exists>d\<in>set (task_deps s). td_org d = tk_org t \<and> td_task d = tk_id t \<and> td_parent d = tk_id p)"

lemma blocker_first:
  "case blocker t s of
     None \<Rightarrow> \<forall>p. \<not> holds_up s t p
   | Some p \<Rightarrow> holds_up s t p \<and> (\<forall>q. holds_up s t q \<longrightarrow> tk_created p \<le> tk_created q)"
proof -
  let ?xs = "filter (\<lambda>p. tk_org p = tk_org t \<and> tk_status p \<noteq> TDone \<and>
      exists_row (\<lambda>d. td_org d = tk_org t \<and> td_task d = tk_id t \<and> td_parent d = tk_id p) (task_deps s)) (tasks s)"
  have mem: "q \<in> set (sort_key tk_created ?xs) \<longleftrightarrow> holds_up s t q" for q
    by (auto simp: holds_up_def exists_row_def)
  have sorted: "sorted (map tk_created (sort_key tk_created ?xs))" by (rule sorted_sort_key)
  show ?thesis
  proof (cases "sort_key tk_created ?xs")
    case Nil
    then show ?thesis using mem by (simp add: blocker_def)
  next
    case (Cons p ps)
    then have "blocker t s = Some p" by (simp add: blocker_def)
    moreover have "holds_up s t p" using mem[of p] Cons by simp
    moreover have "tk_created p \<le> tk_created q" if "holds_up s t q" for q
      using mem[of q] sorted that unfolding Cons by auto
    ultimately show ?thesis by simp
  qed
qed

lemma work_board_rows:
  assumes "distinct (map tk_id (tasks s))"
  shows "distinct (map wb_task (work_board org actor now s))" "sorted (map wb_created (work_board org actor now s))"
    "x \<in> set (work_board org actor now s) \<longleftrightarrow> (\<exists>t\<in>set (tasks s). on_board org actor now s t \<and> x = board_item_of actor s t)"
proof -
  have d: "distinct (tasks s)" "inj_on tk_id (set (tasks s))" using assms by (simp_all add: distinct_map)
  have "inj_on tk_id (set (filter (on_board org actor now s) (tasks s)))"
    by (rule inj_on_subset[OF d(2)]) auto
  then show "distinct (map wb_task (work_board org actor now s))"
    using d(1) by (simp add: work_board_def distinct_map comp_inj_on_iff[symmetric] inj_on_def board_item_of_def)
  have "map wb_created (work_board org actor now s) =
      map tk_created (sort_key tk_created (sort_key tk_id (filter (on_board org actor now s) (tasks s))))"
    by (simp add: work_board_def board_item_of_def)
  then show "sorted (map wb_created (work_board org actor now s))" by simp
  show "x \<in> set (work_board org actor now s) \<longleftrightarrow> (\<exists>t\<in>set (tasks s). on_board org actor now s t \<and> x = board_item_of actor s t)"
    by (auto simp: work_board_def)
qed

lemma board_item_shows:
  "wb_task (board_item_of actor s t) = tk_id t" "wb_title (board_item_of actor s t) = tk_title t"
  "wb_status (board_item_of actor s t) = tk_status t" "wb_version (board_item_of actor s t) = tk_version t"
  "wb_created (board_item_of actor s t) = tk_created t" "wb_relevance (board_item_of actor s t) = relevance_of actor t"
  "case wb_blocker (board_item_of actor s t) of
     None \<Rightarrow> \<forall>p. \<not> holds_up s t p
   | Some (i, ti, ow) \<Rightarrow> \<exists>p. holds_up s t p \<and> tk_id p = i \<and> tk_title p = ti \<and> tk_owner p = ow \<and>
       (\<forall>q. holds_up s t q \<longrightarrow> tk_created p \<le> tk_created q)"
  using blocker_first[where s = s and t = t] by (auto simp: board_item_of_def split: option.splits)

end
