(* ===== verification/Organization.thy ===== *)
theory Organization
  imports Registry
begin

text \<open>
  The organization structure, \<^verbatim>\<open>internal/store/organization.go\<close>: positions, the directory of people and
  effective-dated relationships. A relationship holds in a half-open interval; \<open>re_to = None\<close> is the
  open end. Times are the microseconds a \<^verbatim>\<open>timestamptz\<close> keeps. The exclusion constraint of migration
  014 is part of the insertion, as are the other constraints.
\<close>

section \<open>Positions and people\<close>

definition create_position :: "id \<Rightarrow> id \<Rightarrow> id \<Rightarrow> string \<Rightarrow> id \<Rightarrow> time \<Rightarrow> position tx" where
  "create_position i org actor name parent now s =
     (case require_active_principal org actor s of
        Inl e \<Rightarrow> Inl e
      | Inr _ \<Rightarrow>
          if parent \<noteq> [] \<and> \<not> exists_row (\<lambda>p. po_org p = org \<and> po_id p = parent) (positions s)
          then Inl (Msg ''parent position not found'')
          else if exists_row (\<lambda>p. po_id p = i) (positions s) then Inl Constraint
          else
           (let p = \<lparr>po_id = i, po_org = org, po_name = name,
                     po_parent = (if parent = [] then None else Some parent),
                     po_version = 1, po_created = now\<rparr>
            in Inr (p, s\<lparr>positions := positions s @ [p]\<rparr>)))"

definition list_positions :: "id \<Rightarrow> db \<Rightarrow> position list" where
  "list_positions org s = sort_key po_name (sort_key po_id (filter (\<lambda>p. po_org p = org) (positions s)))"

record person =
  pe_id :: id
  pe_name :: string
  pe_role :: role
  pe_active :: bool

definition list_people :: "id \<Rightarrow> db \<Rightarrow> person list" where
  "list_people org s =
     map (\<lambda>p. \<lparr>pe_id = pr_id p, pe_name = pr_name p, pe_role = pr_role p, pe_active = pr_active p\<rparr>)
       (sort_key pr_name (sort_key pr_id (filter (\<lambda>p. pr_org p = org) (principals s))))"

section \<open>Intervals\<close>

definition before_end :: "time \<Rightarrow> time option \<Rightarrow> bool" where
  "before_end t e \<longleftrightarrow> (case e of None \<Rightarrow> True | Some x \<Rightarrow> t < x)"

text \<open>\<^verbatim>\<open>valid @> t\<close> and \<^verbatim>\<open>valid && window\<close>.\<close>

definition holds_at :: "time \<Rightarrow> relationship \<Rightarrow> bool" where
  "holds_at t r \<longleftrightarrow> re_from r \<le> t \<and> before_end t (re_to r)"

definition overlaps :: "time \<Rightarrow> time option \<Rightarrow> relationship \<Rightarrow> bool" where
  "overlaps from to r \<longleftrightarrow> before_end (re_from r) to \<and> before_end from (re_to r)"

section \<open>Relationships\<close>

text \<open>
  \<open>chain_above E n xs\<close> are the rows of the recursive query above the working set \<open>xs\<close>, down to \<open>n\<close>
  further levels: \<^verbatim>\<open>union all\<close> keeps duplicates.
\<close>

fun chain_above :: "(id \<times> id) list \<Rightarrow> nat \<Rightarrow> id list \<Rightarrow> id list" where
  "chain_above E 0 xs = []"
| "chain_above E (Suc n) xs =
     (let ys = concat (map (\<lambda>x. map snd (filter (\<lambda>e. fst e = x) E)) xs)
      in ys @ chain_above E n ys)"

definition max_chain :: nat where
  "max_chain = 64"

definition manager_edges :: "id \<Rightarrow> time \<Rightarrow> time option \<Rightarrow> db \<Rightarrow> (id \<times> id) list" where
  "manager_edges org from to s =
     map (\<lambda>r. (re_subject r, re_object r))
       (filter (\<lambda>r. re_org r = org \<and> re_kind r = ''reports_to'' \<and> overlaps from to r) (relationships s))"

definition detect_management_cycle ::
    "id \<Rightarrow> id \<Rightarrow> id \<Rightarrow> time \<Rightarrow> time option \<Rightarrow> db \<Rightarrow> err + unit" where
  "detect_management_cycle org subject manager from to s =
     (if subject \<in> set (chain_above (manager_edges org from to s) max_chain [manager])
      then Inl (Msg ''relationship would create a management cycle'') else Inr ())"

definition relationship_kinds :: "string list" where
  "relationship_kinds = [''reports_to'', ''member_of'', ''covers_for'']"

text \<open>The row the exclusion constraint \<^verbatim>\<open>org_relationships_one_manager\<close> would reject.\<close>

definition second_manager :: "relationship \<Rightarrow> relationship \<Rightarrow> bool" where
  "second_manager r q \<longleftrightarrow> re_kind r = ''reports_to'' \<and> re_kind q = ''reports_to'' \<and> re_org q = re_org r \<and>
     re_subject q = re_subject r \<and> overlaps (re_from r) (re_to r) q"

definition create_relationship ::
    "id \<Rightarrow> id \<Rightarrow> id \<Rightarrow> id \<Rightarrow> string \<Rightarrow> id \<Rightarrow> time \<Rightarrow> time option \<Rightarrow> time \<Rightarrow> relationship tx" where
  "create_relationship i org actor subject kind object from to now s =
     (if kind \<notin> set relationship_kinds then Inl (Msg ''unsupported relationship kind'')
      else if \<not> before_end from to then Inl (Msg ''relationship would end before it starts'')
      else case require_active_principal org actor s of
        Inl e \<Rightarrow> Inl e
      | Inr _ \<Rightarrow> (case require_active_principal org subject s of
          Inl e \<Rightarrow> Inl e
        | Inr _ \<Rightarrow>
           (case (if kind = ''member_of''
                  then (if exists_row (\<lambda>p. po_org p = org \<and> po_id p = object) (positions s)
                        then Inr () else Inl (Msg ''position not found''))
                  else require_active_principal org object s) of
              Inl e \<Rightarrow> Inl e
            | Inr _ \<Rightarrow>
               (case (if kind = ''reports_to''
                      then detect_management_cycle org subject object from to s else Inr ()) of
                  Inl e \<Rightarrow> Inl e
                | Inr _ \<Rightarrow>
                   (let r = \<lparr>re_id = i, re_org = org, re_subject = subject, re_kind = kind,
                             re_object = object, re_from = from, re_to = to, re_created_by = actor,
                             re_created = now\<rparr>
                    in if exists_row (\<lambda>q. re_id q = i) (relationships s) \<or>
                          exists_row (second_manager r) (relationships s)
                       then Inl Constraint
                       else Inr (r, s\<lparr>relationships := relationships s @ [r]\<rparr>))))))"

definition end_relationship :: "id \<Rightarrow> id \<Rightarrow> id \<Rightarrow> time \<Rightarrow> unit tx" where
  "end_relationship org actor i ends s =
     (case require_active_principal org actor s of
        Inl e \<Rightarrow> Inl e
      | Inr _ \<Rightarrow> (case row (\<lambda>r. re_org r = org \<and> re_id r = i) (relationships s) of
          None \<Rightarrow> Inl NoRows
        | Some r \<Rightarrow>
            if \<not> re_from r < ends then Inl (Msg ''relationship must end after it began'')
            else Inr ((), s\<lparr>relationships := update_where
                   (\<lambda>r. re_org r = org \<and> re_id r = i \<and> before_end ends (re_to r))
                   (\<lambda>r. r\<lparr>re_to := Some ends\<rparr>) (relationships s)\<rparr>)))"

definition relationships_as_of :: "id \<Rightarrow> time \<Rightarrow> db \<Rightarrow> relationship list" where
  "relationships_as_of org t s =
     sort_key re_kind (sort_key re_subject (sort_key re_from
       (filter (\<lambda>r. re_org r = org \<and> holds_at t r) (relationships s))))"

section \<open>The invariant\<close>

text \<open>Intervals are not empty, and two managers of a person never hold at the same time.\<close>

definition org_ok :: "db \<Rightarrow> bool" where
  "org_ok s \<longleftrightarrow> distinct (map re_id (relationships s)) \<and>
     (\<forall>r\<in>set (relationships s). before_end (re_from r) (re_to r)) \<and>
     (\<forall>r\<in>set (relationships s). \<forall>q\<in>set (relationships s). second_manager r q \<longrightarrow> q = r)"

lemma org_okD:
  assumes "org_ok s"
  shows "distinct (map re_id (relationships s))"
    "r \<in> set (relationships s) \<Longrightarrow> before_end (re_from r) (re_to r)"
    "r \<in> set (relationships s) \<Longrightarrow> q \<in> set (relationships s) \<Longrightarrow> second_manager r q \<Longrightarrow> q = r"
  using assms unfolding org_ok_def by blast+

lemma overlaps_sym: "overlaps (re_from r) (re_to r) q = overlaps (re_from q) (re_to q) r"
  by (auto simp: overlaps_def)

lemma second_manager_sym: "second_manager r q = second_manager q r"
  by (auto simp: second_manager_def overlaps_sym[of r q])

lemma holds_overlaps: "holds_at t r \<Longrightarrow> holds_at t q \<Longrightarrow> overlaps (re_from r) (re_to r) q"
  by (auto simp: holds_at_def overlaps_def before_end_def split: option.splits)

lemma create_relationship_ok:
  assumes "create_relationship i org actor subject kind object from to now s = Inr (r, s')"
  obtains "s' = s\<lparr>relationships := relationships s @ [r]\<rparr>"
    "r = \<lparr>re_id = i, re_org = org, re_subject = subject, re_kind = kind, re_object = object,
          re_from = from, re_to = to, re_created_by = actor, re_created = now\<rparr>"
    "before_end from to" "\<not> exists_row (\<lambda>q. re_id q = i) (relationships s)"
    "\<not> exists_row (second_manager r) (relationships s)"
    "kind = ''reports_to'' \<Longrightarrow> detect_management_cycle org subject object from to s = Inr ()"
proof -
  note d = assms[unfolded create_relationship_def Let_def]
  have k: "kind \<in> set relationship_kinds" using d by (auto split: if_split_asm)
  note d1 = d[unfolded not_not if_not_P[OF not_not[THEN iffD2, OF k]]]
  have b: "before_end from to" using d1 by (auto split: if_split_asm)
  note d2 = d1[unfolded if_not_P[OF not_not[THEN iffD2, OF b]]]
  obtain u1 where a: "require_active_principal org actor s = Inr u1" using d2 by (auto split: sum.splits)
  note d3 = d2[unfolded a sum.case]
  obtain u2 where a2: "require_active_principal org subject s = Inr u2" using d3 by (auto split: sum.splits)
  note d4 = d3[unfolded a2 sum.case]
  obtain u3 where a3: "(if kind = ''member_of''
                  then (if exists_row (\<lambda>p. po_org p = org \<and> po_id p = object) (positions s)
                        then Inr () else Inl (Msg ''position not found''))
                  else require_active_principal org object s) = Inr u3" using d4 by (auto split: sum.splits)
  note d5 = d4[unfolded a3 sum.case]
  obtain u4 where a4: "(if kind = ''reports_to''
                      then detect_management_cycle org subject object from to s else Inr ()) = Inr u4"
    using d5 by (auto split: sum.splits)
  note d6 = d5[unfolded a4 sum.case]
  show thesis
    by (rule that) (use d6 b a4 in \<open>auto split: if_split_asm\<close>)
qed

lemma create_relationship_keeps:
  assumes "create_relationship i org actor subject kind object from to now s = Inr (r, s')" "org_ok s"
  shows "org_ok s'"
proof -
  have s': "s' = s\<lparr>relationships := relationships s @ [r]\<rparr>"
    and r: "before_end (re_from r) (re_to r)" "re_id r = i"
    and f: "i \<notin> re_id ` set (relationships s)" "\<forall>q\<in>set (relationships s). \<not> second_manager r q"
    by (rule create_relationship_ok[OF assms(1)]; auto simp: exists_row_def)+
  have t: "relationships s' = relationships s @ [r]" by (simp add: s')
  show ?thesis using org_okD[OF assms(2)] r f second_manager_sym
    unfolding org_ok_def t by (auto simp: image_iff)
qed

lemma end_relationship_ok:
  assumes "end_relationship org actor i ends s = Inr (u, s')"
  obtains r where "r \<in> set (relationships s)" "re_org r = org" "re_id r = i" "re_from r < ends"
    "s' = s\<lparr>relationships := update_where
                   (\<lambda>r. re_org r = org \<and> re_id r = i \<and> before_end ends (re_to r))
                   (\<lambda>r. r\<lparr>re_to := Some ends\<rparr>) (relationships s)\<rparr>"
  using assms by (auto simp: end_relationship_def split: if_split_asm sum.splits option.splits
      dest!: row_SomeD)

text \<open>An end inside the interval shortens it.\<close>

lemma shorten_overlaps:
  "before_end ends (re_to r) \<Longrightarrow> re_from r < ends \<Longrightarrow> overlaps a b (r\<lparr>re_to := Some ends\<rparr>) \<Longrightarrow> overlaps a b r"
  by (auto simp: overlaps_def before_end_def split: option.splits)

lemma end_relationship_keeps:
  assumes "end_relationship org actor i ends s = Inr (u, s')" "org_ok s"
  shows "org_ok s'"
proof -
  let ?P = "\<lambda>r. re_org r = org \<and> re_id r = i \<and> before_end ends (re_to r)"
  let ?f = "\<lambda>r. r\<lparr>re_to := Some ends\<rparr>"
  obtain r where r: "r \<in> set (relationships s)" "re_id r = i" "re_from r < ends"
    and s': "s' = s\<lparr>relationships := update_where ?P ?f (relationships s)\<rparr>"
    by (rule end_relationship_ok[OF assms(1)]) (rule that; assumption)
  have t: "relationships s' = update_where ?P ?f (relationships s)" by (simp add: s')
  note ok = org_okD[OF assms(2)]
  have one: "x = r" if "x \<in> set (relationships s)" "?P x" for x
    using unique_key_row[OF ok(1) that(1) r(1)] that(2) r(2) by simp
  have older: "\<exists>y\<in>set (relationships s). re_id y = re_id x \<and> re_org y = re_org x \<and> re_kind y = re_kind x \<and>
      re_subject y = re_subject x \<and> re_from y = re_from x \<and> before_end (re_from x) (re_to x) \<and>
      (\<forall>a b. overlaps a b x \<longrightarrow> overlaps a b y) \<and> x = (if ?P y then ?f y else y)"
    if "x \<in> set (relationships s')" for x
    using that unfolding t
  proof (cases rule: update_whereE)
    case (hit y)
    then have y: "y = r" using one by blast
    have "overlaps a b x \<Longrightarrow> overlaps a b y" for a b
      using shorten_overlaps[of ends y a b] hit r(3) y by simp
    then show ?thesis using hit y r(3) by (intro bexI[OF _ hit(1)]) (auto simp: before_end_def)
  next
    case miss
    then show ?thesis using ok(2) by (intro bexI[OF _ miss(1)]) auto
  qed
  have "q = x" if xq: "x \<in> set (relationships s')" "q \<in> set (relationships s')" "second_manager x q" for x q
  proof -
    obtain y where y: "y \<in> set (relationships s)" "re_kind y = re_kind x" "re_org y = re_org x"
        "re_subject y = re_subject x" "re_from y = re_from x" "\<And>a b. overlaps a b x \<Longrightarrow> overlaps a b y"
        "x = (if ?P y then ?f y else y)"
      using older[OF xq(1)] by blast
    obtain z where z: "z \<in> set (relationships s)" "re_kind z = re_kind q" "re_org z = re_org q"
        "re_subject z = re_subject q" "re_from z = re_from q" "\<And>a b. overlaps a b q \<Longrightarrow> overlaps a b z"
        "q = (if ?P z then ?f z else z)"
      using older[OF xq(2)] by blast
    have "overlaps (re_from x) (re_to x) z" using z(6) xq(3) unfolding second_manager_def by blast
    then have "overlaps (re_from z) (re_to z) y" using y(6) by (simp only: overlaps_sym[of x z])
    then have "overlaps (re_from y) (re_to y) z" by (simp add: overlaps_sym[of y z])
    then have "second_manager y z"
      using xq(3) y(2-4) z(2-4) by (simp add: second_manager_def)
    then have "z = y" by (rule ok(3)[OF y(1) z(1)])
    then show ?thesis using y(7) z(7) by simp
  qed
  moreover have "before_end (re_from x) (re_to x)" if "x \<in> set (relationships s')" for x
    using older[OF that] by blast
  moreover have "distinct (map re_id (relationships s'))"
    using ok(1) by (simp add: t map_key_update_where)
  ultimately show ?thesis unfolding org_ok_def by blast
qed

section \<open>The reporting chain\<close>

lemma set_level: "set (concat (map (\<lambda>x. map snd (filter (\<lambda>e. fst e = x) E)) xs)) = set E `` set xs"
  by force

lemma chain_sound: "y \<in> set (chain_above E n xs) \<Longrightarrow> \<exists>x\<in>set xs. (x, y) \<in> (set E)\<^sup>+"
proof (induction n arbitrary: xs)
  case (Suc n)
  let ?ys = "concat (map (\<lambda>x. map snd (filter (\<lambda>e. fst e = x) E)) xs)"
  have img: "\<exists>x\<in>set xs. (x, z) \<in> set E" if "z \<in> set ?ys" for z
    using that set_level[of E xs] by blast
  from Suc.prems consider "y \<in> set ?ys" | "y \<in> set (chain_above E n ?ys)" by (auto simp: Let_def)
  then show ?case
  proof cases
    case 1
    then show ?thesis using img by blast
  next
    case 2
    then obtain z where "z \<in> set ?ys" "(z, y) \<in> (set E)\<^sup>+" using Suc.IH by blast
    then show ?thesis using img by (meson trancl_into_trancl2)
  qed
qed simp

text \<open>\<open>n\<close> levels are every path of at most \<open>n\<close> edges.\<close>

lemma chain_complete: "x \<in> set xs \<Longrightarrow> (x, y) \<in> set E ^^ k \<Longrightarrow> 0 < k \<Longrightarrow> k \<le> n \<Longrightarrow> y \<in> set (chain_above E n xs)"
proof (induction n arbitrary: x xs k)
  case (Suc n)
  let ?ys = "concat (map (\<lambda>x. map snd (filter (\<lambda>e. fst e = x) E)) xs)"
  obtain j where k: "k = Suc j" using Suc.prems(3) by (cases k) auto
  obtain z where z: "(x, z) \<in> set E" "(z, y) \<in> set E ^^ j"
    using Suc.prems(2) unfolding k by (meson relpow_Suc_D2)
  have "z \<in> set ?ys" using z(1) Suc.prems(1) set_level[of E xs] by blast
  moreover from this have "y \<in> set (chain_above E n ?ys)" if "0 < j"
    using Suc.IH[OF _ z(2) that] Suc.prems(4) k by simp
  ultimately show ?case using z(2) by (cases "j = 0") (auto simp: Let_def)
qed simp

lemma no_chain_iff:
  "detect_management_cycle org subject manager from to s = Inr () \<longleftrightarrow>
     subject \<notin> set (chain_above (manager_edges org from to s) max_chain [manager])"
  by (simp add: detect_management_cycle_def)

end
