(* ===== verification/Milestones.thy ===== *)
theory Milestones
  imports Organization Graph
begin

text \<open>
  Planning: milestones with acceptance evidence, \<^verbatim>\<open>internal/store/milestones.go\<close>, their prerequisites and
  their completion. Dates are days since 1970-01-01, times microseconds since then; the server's time
  zone is UTC, so the day of an instant is its quotient.
\<close>

section \<open>Operations\<close>

abbreviation find_milestone :: "id \<Rightarrow> id \<Rightarrow> db \<Rightarrow> milestone option" where
  "find_milestone org i s \<equiv> row (\<lambda>m. mi_org m = org \<and> mi_id m = i) (milestones s)"

definition create_milestone ::
    "id \<Rightarrow> id \<Rightarrow> id \<Rightarrow> id \<Rightarrow> string \<Rightarrow> string \<Rightarrow> int option \<Rightarrow> int option \<Rightarrow> time \<Rightarrow> milestone tx" where
  "create_milestone i org actor project name evidence committed forecast now s =
     (if trim_space name = [] then Inl (Msg ''a milestone name is required'')
      else if trim_space evidence = []
      then Inl (Msg ''acceptance evidence is required: without it, 'met' means nothing'')
      else case require_active_principal org actor s of
        Inl e \<Rightarrow> Inl e
      | Inr _ \<Rightarrow>
          if \<not> exists_row (\<lambda>p. pj_org p = org \<and> pj_id p = project) (projects s)
          then Inl (Msg ''project not found'')
          else if exists_row (\<lambda>m. mi_id m = i) (milestones s) then Inl Constraint
          else
           (let m = \<lparr>mi_id = i, mi_org = org, mi_project = project, mi_name = name,
                     mi_evidence = evidence, mi_committed = committed, mi_forecast = forecast,
                     mi_status = MPlanned, mi_met_at = None, mi_met_evidence = [], mi_version = 1,
                     mi_created = now\<rparr>
            in Inr (m, s\<lparr>milestones := milestones s @ [m]\<rparr>)))"

definition get_milestone :: "id \<Rightarrow> id \<Rightarrow> db \<Rightarrow> err + milestone" where
  "get_milestone org i s = (case find_milestone org i s of None \<Rightarrow> Inl NoRows | Some m \<Rightarrow> Inr m)"

text \<open>The prerequisites of a milestone that are not met; a list with one entry per dependency row.\<close>

definition unmet_parents :: "id \<Rightarrow> id \<Rightarrow> db \<Rightarrow> milestone list" where
  "unmet_parents org i s =
     concat (map (\<lambda>d. filter (\<lambda>p. mi_org p = org \<and> mi_id p = md_parent d \<and> mi_status p \<noteq> MMet) (milestones s))
       (filter (\<lambda>d. md_org d = org \<and> md_milestone d = i) (milestone_deps s)))"

definition day_of :: "time \<Rightarrow> int" where
  "day_of t = t div 86400000000"

definition planning_day :: "milestone \<Rightarrow> int" where
  "planning_day m = (case mi_committed m of Some d \<Rightarrow> d | None \<Rightarrow>
     (case mi_forecast m of Some d \<Rightarrow> d | None \<Rightarrow> day_of (mi_created m)))"

definition list_milestones :: "id \<Rightarrow> id \<Rightarrow> db \<Rightarrow> (milestone \<times> nat) list" where
  "list_milestones org project s =
     map (\<lambda>m. (m, length (unmet_parents (mi_org m) (mi_id m) s)))
       (sort_key planning_day (sort_key mi_name
         (filter (\<lambda>m. mi_org m = org \<and> (project = [] \<or> mi_project m = project)) (milestones s))))"

definition set_milestone_forecast :: "id \<Rightarrow> id \<Rightarrow> id \<Rightarrow> int option \<Rightarrow> milestone tx" where
  "set_milestone_forecast org actor i forecast s =
     (case require_active_principal org actor s of
        Inl e \<Rightarrow> Inl e
      | Inr _ \<Rightarrow> (case find_milestone org i s of
          None \<Rightarrow> Inl NoRows
        | Some m \<Rightarrow>
            if mi_status m = MCancelled then Inl (Msg ''a cancelled milestone cannot be re-planned'')
            else
             (let f = (\<lambda>m. m\<lparr>mi_forecast := forecast, mi_version := mi_version m + 1\<rparr>)
              in Inr (f m, s\<lparr>milestones := update_where (\<lambda>m. mi_org m = org \<and> mi_id m = i) f
                        (milestones s)\<rparr>))))"

definition md_edges :: "id \<Rightarrow> db \<Rightarrow> (id \<times> id) list" where
  "md_edges org s =
     map (\<lambda>d. (md_milestone d, md_parent d)) (filter (\<lambda>d. md_org d = org) (milestone_deps s))"

definition add_milestone_dependency :: "id \<Rightarrow> id \<Rightarrow> id \<Rightarrow> unit tx" where
  "add_milestone_dependency org i parent s =
     (if i = parent then Inl (Msg ''a milestone cannot depend on itself'')
      else if find_milestone org i s = None \<or> find_milestone org parent s = None
      then Inl (Msg ''milestone not found'')
      else if i \<in> set (reach (md_edges org s) parent) then Inl (Msg ''dependency cycle'')
      else if exists_row (\<lambda>d. md_org d = org \<and> md_milestone d = i \<and> md_parent d = parent) (milestone_deps s)
      then Inr ((), s)
      else Inr ((), s\<lparr>milestone_deps := milestone_deps s @
                       [\<lparr>md_org = org, md_milestone = i, md_parent = parent\<rparr>]\<rparr>))"

definition complete_milestone :: "id \<Rightarrow> id \<Rightarrow> id \<Rightarrow> string \<Rightarrow> int \<Rightarrow> time \<Rightarrow> unit tx" where
  "complete_milestone org actor i evidence version now s =
     (if trim_space evidence = [] then Inl (Msg ''completion evidence is required'')
      else case require_active_principal org actor s of
        Inl e \<Rightarrow> Inl e
      | Inr _ \<Rightarrow> (case find_milestone org i s of
          None \<Rightarrow> Inl NoRows
        | Some m \<Rightarrow>
            if mi_version m \<noteq> version then Inl (Msg ''stale milestone revision'')
            else if mi_status m = MMet then Inl (Msg ''milestone is already met'')
            else if mi_status m = MCancelled then Inl (Msg ''a cancelled milestone cannot be met'')
            else if unmet_parents org i s \<noteq> [] then Inl (Msg ''prerequisite milestones are not yet met'')
            else Inr ((), s\<lparr>milestones := update_where (\<lambda>m. mi_org m = org \<and> mi_id m = i)
                   (\<lambda>m. m\<lparr>mi_status := MMet, mi_met_at := Some now, mi_met_evidence := evidence,
                          mi_version := mi_version m + 1\<rparr>) (milestones s)\<rparr>)))"

section \<open>The dependency graph\<close>

lemma md_edges_append:
  "md_edges o1 (s\<lparr>milestone_deps := milestone_deps s @ [d]\<rparr>) =
     md_edges o1 s @ (if md_org d = o1 then [(md_milestone d, md_parent d)] else [])"
  by (simp add: md_edges_def)

lemma md_edges_mem:
  "(i, p) \<in> set (md_edges org s) \<longleftrightarrow>
     exists_row (\<lambda>d. md_org d = org \<and> md_milestone d = i \<and> md_parent d = p) (milestone_deps s)"
  by (force simp: md_edges_def exists_row_def)

interpretation milestone_graph: dep_graph md_edges add_milestone_dependency
proof
  fix o1 t p s and x :: unit and s'
  assume a: "add_milestone_dependency o1 t p s = Inr (x, s')"
  then show "t \<noteq> p \<and> t \<notin> set (reach (md_edges o1 s) p)"
    by (auto simp: add_milestone_dependency_def split: if_splits)
  show "set (md_edges o1 s') = insert (t, p) (set (md_edges o1 s))"
  proof (cases "(t, p) \<in> set (md_edges o1 s)")
    case True
    with a have "s' = s" by (simp add: add_milestone_dependency_def md_edges_mem split: if_splits)
    with True show ?thesis by auto
  next
    case False
    with a have "s' = s\<lparr>milestone_deps := milestone_deps s @
        [\<lparr>md_org = o1, md_milestone = t, md_parent = p\<rparr>]\<rparr>"
      by (simp add: add_milestone_dependency_def md_edges_mem split: if_splits)
    then show ?thesis by (simp add: md_edges_append)
  qed
  fix o2 assume "o2 \<noteq> o1"
  then show "set (md_edges o2 s') = set (md_edges o2 s)" using a
    by (auto simp: add_milestone_dependency_def md_edges_append split: if_splits)
qed

lemma set_unmet_parents:
  "set (unmet_parents org i s) =
     {p \<in> set (milestones s). mi_org p = org \<and> mi_status p \<noteq> MMet \<and> (i, mi_id p) \<in> set (md_edges org s)}"
  by (force simp: unmet_parents_def md_edges_def)

lemma unmet_parents_Nil:
  "unmet_parents org i s = [] \<longleftrightarrow>
     (\<forall>p\<in>set (milestones s). mi_org p = org \<longrightarrow> (i, mi_id p) \<in> set (md_edges org s) \<longrightarrow> mi_status p = MMet)"
proof -
  have "unmet_parents org i s = [] \<longleftrightarrow> set (unmet_parents org i s) = {}" by simp
  then show ?thesis unfolding set_unmet_parents by blast
qed

text \<open>
  In a finite acyclic relation every set of nodes that is not empty has one whose successors are all
  outside of it.
\<close>

lemma acyclic_sink:
  assumes "acyclic E" "finite E" "X \<noteq> {}"
  shows "\<exists>x\<in>X. \<forall>y. (x, y) \<in> E \<longrightarrow> y \<notin> X"
proof -
  have "wf (E\<inverse>)" using finite_acyclic_wf_converse[OF assms(2,1)] .
  then obtain x where "x \<in> X" "\<And>y. (y, x) \<in> E\<inverse> \<Longrightarrow> y \<notin> X" using assms(3) by (metis ex_in_conv wfE_min)
  then show ?thesis by auto
qed

section \<open>The invariant\<close>

definition milestones_ok :: "db \<Rightarrow> bool" where
  "milestones_ok s \<longleftrightarrow> distinct (map mi_id (milestones s)) \<and> graph_ok md_edges s \<and>
     (\<forall>m\<in>set (milestones s). trim_space (mi_evidence m) \<noteq> [] \<and>
        (mi_status m = MMet \<longrightarrow> trim_space (mi_met_evidence m) \<noteq> []))"

text \<open>What a milestone promises: its name, its evidence and its committed day never change.\<close>

definition milestone_final :: "milestone \<Rightarrow> bool" where
  "milestone_final m \<longleftrightarrow> mi_status m = MMet"

definition milestone_born :: "milestone \<Rightarrow> bool" where
  "milestone_born m \<longleftrightarrow> mi_status m = MPlanned \<and> mi_version m = 1 \<and> trim_space (mi_evidence m) \<noteq> []"

definition milestone_move :: "milestone \<Rightarrow> milestone \<Rightarrow> bool" where
  "milestone_move m n \<longleftrightarrow>
     mi_id n = mi_id m \<and> mi_org n = mi_org m \<and> mi_project n = mi_project m \<and> mi_name n = mi_name m \<and>
     mi_evidence n = mi_evidence m \<and> mi_committed n = mi_committed m \<and> mi_created n = mi_created m \<and>
     mi_version m \<le> mi_version n \<and>
     (milestone_final m \<longrightarrow> milestone_final n \<and> mi_met_evidence n = mi_met_evidence m \<and>
        mi_met_at n = mi_met_at m)"

abbreviation milestones_move :: "db \<Rightarrow> db \<Rightarrow> bool" where
  "milestones_move s s' \<equiv> grows milestone_move milestone_born (milestones s) (milestones s')"

lemma milestone_move_refl [simp]: "milestone_move m m"
  by (simp add: milestone_move_def)

lemma create_milestone_ok:
  assumes "create_milestone i org actor project name evidence committed forecast now s = Inr (m, s')"
  shows "s' = s\<lparr>milestones := milestones s @ [m]\<rparr>" "milestone_born m" "mi_id m = i"
    "i \<notin> mi_id ` set (milestones s)"
  using assms
  by (auto simp: create_milestone_def Let_def milestone_born_def exists_row_def split: if_split_asm sum.splits)

lemma create_milestone_keeps:
  assumes "create_milestone i org actor project name evidence committed forecast now s = Inr (m, s')"
    "milestones_ok s"
  shows "milestones_ok s'" "milestones_move s s'"
proof -
  note c = create_milestone_ok[OF assms(1)]
  have t: "milestones s' = milestones s @ [m]" "milestone_deps s' = milestone_deps s" by (simp_all add: c(1))
  show "milestones_ok s'" using assms(2) c(2-4)
    by (auto simp: milestones_ok_def t graph_ok_def md_edges_def milestone_born_def)
  show "milestones_move s s'" unfolding t using c(2) by (intro grows_append) auto
qed

lemma set_forecast_ok:
  assumes "set_milestone_forecast org actor i forecast s = Inr (m, s')"
  shows "s' = s\<lparr>milestones := update_where (\<lambda>m. mi_org m = org \<and> mi_id m = i)
     (\<lambda>m. m\<lparr>mi_forecast := forecast, mi_version := mi_version m + 1\<rparr>) (milestones s)\<rparr>"
  using assms by (auto simp: set_milestone_forecast_def Let_def split: if_split_asm sum.splits option.splits)

text \<open>An update in place that keeps identifiers, declared evidence and what being met records.\<close>

lemma milestones_update:
  assumes "milestones_ok s" "milestones s' = update_where P f (milestones s)" "milestone_deps s' = milestone_deps s"
    "\<And>m. m \<in> set (milestones s) \<Longrightarrow> P m \<Longrightarrow> milestone_move m (f m) \<and>
       (mi_status (f m) = MMet \<longrightarrow> trim_space (mi_met_evidence (f m)) \<noteq> [])"
  shows "milestones_ok s'" "milestones_move s s'"
proof -
  have same: "mi_id (f m) = mi_id m \<and> mi_evidence (f m) = mi_evidence m"
    if "m \<in> set (milestones s)" "P m" for m
    using assms(4)[OF that] by (simp add: milestone_move_def)
  have "map mi_id (milestones s') = map mi_id (milestones s)"
    unfolding assms(2) using same by (auto simp: update_where_def)
  moreover have "trim_space (mi_evidence m) \<noteq> [] \<and> (mi_status m = MMet \<longrightarrow> trim_space (mi_met_evidence m) \<noteq> [])"
    if "m \<in> set (milestones s')" for m
    using that unfolding assms(2)
  proof (cases rule: update_whereE)
    case (hit x)
    then show ?thesis using same[of x] assms(1) assms(4)[of x] by (auto simp: milestones_ok_def)
  next
    case miss
    then show ?thesis using assms(1) by (auto simp: milestones_ok_def)
  qed
  ultimately show "milestones_ok s'" using assms(1,3)
    by (simp add: milestones_ok_def graph_ok_def md_edges_def)
  show "milestones_move s s'" unfolding assms(2) by (rule grows_update) (use assms(4) in auto)
qed

lemma set_forecast_keeps:
  assumes "set_milestone_forecast org actor i forecast s = Inr (m, s')" "milestones_ok s"
  shows "milestones_ok s'" "milestones_move s s'"
proof -
  have s': "milestones s' = update_where (\<lambda>m. mi_org m = org \<and> mi_id m = i)
       (\<lambda>m. m\<lparr>mi_forecast := forecast, mi_version := mi_version m + 1\<rparr>) (milestones s)"
    "milestone_deps s' = milestone_deps s"
    by (simp_all add: set_forecast_ok[OF assms(1)])
  show "milestones_ok s'" "milestones_move s s'"
    by (rule milestones_update[OF assms(2) s']; use assms(2) in
        \<open>auto simp: milestone_move_def milestone_final_def milestones_ok_def\<close>)+
qed

lemma complete_ok:
  assumes "complete_milestone org actor i evidence version now s = Inr (u, s')"
  obtains m where "find_milestone org i s = Some m" "mi_version m = version" "mi_status m \<noteq> MMet"
    "mi_status m \<noteq> MCancelled" "unmet_parents org i s = []" "trim_space evidence \<noteq> []"
    "s' = s\<lparr>milestones := update_where (\<lambda>m. mi_org m = org \<and> mi_id m = i)
       (\<lambda>m. m\<lparr>mi_status := MMet, mi_met_at := Some now, mi_met_evidence := evidence,
              mi_version := mi_version m + 1\<rparr>) (milestones s)\<rparr>"
  using assms
  by (auto simp: complete_milestone_def split: if_split_asm sum.splits option.splits)

lemma complete_keeps:
  assumes "complete_milestone org actor i evidence version now s = Inr (u, s')" "milestones_ok s"
  shows "milestones_ok s'" "milestones_move s s'"
proof -
  let ?P = "\<lambda>m. mi_org m = org \<and> mi_id m = i"
  let ?f = "\<lambda>m. m\<lparr>mi_status := MMet, mi_met_at := Some now, mi_met_evidence := evidence,
              mi_version := mi_version m + 1\<rparr>"
  obtain m where m: "find_milestone org i s = Some m" "mi_status m \<noteq> MMet" "trim_space evidence \<noteq> []"
    and s': "s' = s\<lparr>milestones := update_where ?P ?f (milestones s)\<rparr>"
    by (rule complete_ok[OF assms(1)]) (rule that; assumption)
  have t: "milestones s' = update_where ?P ?f (milestones s)" "milestone_deps s' = milestone_deps s"
    by (simp_all add: s')
  have mem: "m \<in> set (milestones s)" "mi_id m = i" using row_SomeD[OF m(1)] by auto
  have d: "distinct (map mi_id (milestones s))" using assms(2) by (simp add: milestones_ok_def)
  have "milestone_move x (?f x) \<and> (mi_status (?f x) = MMet \<longrightarrow> trim_space (mi_met_evidence (?f x)) \<noteq> [])"
    if "x \<in> set (milestones s)" "?P x" for x
  proof -
    have "x = m" using unique_key_row[OF d that(1) mem(1)] that(2) mem(2) by simp
    then show ?thesis using m(2,3) by (simp add: milestone_move_def milestone_final_def)
  qed
  then show "milestones_ok s'" "milestones_move s s'"
    using milestones_update[OF assms(2) t] by blast+
qed

lemma add_milestone_dependency_frame:
  "add_milestone_dependency org i p s = Inr (u, s') \<Longrightarrow> s' = s\<lparr>milestone_deps := milestone_deps s'\<rparr>"
  by (auto simp: add_milestone_dependency_def split: if_splits)

lemma add_milestone_dependency_keeps:
  assumes "add_milestone_dependency org i p s = Inr (u, s')" "milestones_ok s"
  shows "milestones_ok s'" "milestones_move s s'"
proof -
  obtain X where s': "s' = s\<lparr>milestone_deps := X\<rparr>"
    using add_milestone_dependency_frame[OF assms(1)] by blast
  have t: "milestones s' = milestones s" by (simp add: s')
  show "milestones_ok s'"
    using milestone_graph.add_keeps[OF _ assms(1)] assms(2) unfolding milestones_ok_def t by blast
  show "milestones_move s s'" unfolding t by auto
qed

end
