(* ===== verification/Identity.thy ===== *)
theory Identity
  imports Gates Transition
begin

text \<open>
  External accounts and browser sessions: \<^verbatim>\<open>internal/store/identity_admin.go\<close>,
  \<^verbatim>\<open>oidc_identity.go\<close>, \<^verbatim>\<open>identity.go\<close> and \<^verbatim>\<open>sessions.go\<close>. The tables \<open>identity_links\<close>,
  \<open>sessions\<close> and \<open>logins\<close> carry no row-level security. \<open>sha\<close> is \<^verbatim>\<open>platform.HashToken\<close>, the
  random token of a session an argument; durations are microseconds. Each operation is one step,
  also \<^verbatim>\<open>ReadSession\<close>, whose three reads and one write are separate statements in the code.
\<close>

section \<open>Principals and the audit trail\<close>

text \<open>\<^verbatim>\<open>platform.Identity\<close>.\<close>

record ident =
  iy_id :: id
  iy_org :: id
  iy_role :: role
  iy_name :: string

definition ident_of :: "principal \<Rightarrow> ident" where
  "ident_of p = \<lparr>iy_id = pr_id p, iy_org = pr_org p, iy_role = pr_role p, iy_name = pr_name p\<rparr>"

definition principal_in_tx :: "id \<Rightarrow> id \<Rightarrow> db \<Rightarrow> err + ident" where
  "principal_in_tx org i s =
     (case row (\<lambda>p. pr_org p = org \<and> pr_id p = i \<and> pr_active p) (principals s) of
        None \<Rightarrow> Inl NoRows | Some p \<Rightarrow> Inr (ident_of p))"

text \<open>\<^verbatim>\<open>ResolveIdentity\<close> runs the same query in a transaction of the organization claimed.\<close>

definition resolve_identity :: "id \<Rightarrow> id \<Rightarrow> db \<Rightarrow> err + ident" where
  "resolve_identity org i s = principal_in_tx org i s"

definition next_version :: "id \<Rightarrow> id \<Rightarrow> db \<Rightarrow> int" where
  "next_version org agg s =
     max0 (map ev_version (filter (\<lambda>e. ev_org e = org \<and> ev_aggregate e = agg) (events s))) + 1"

definition audit_tx :: "id \<Rightarrow> id \<Rightarrow> id \<Rightarrow> string \<Rightarrow> string \<Rightarrow> jmap \<Rightarrow> unit tx" where
  "audit_tx eid org agg typ actor payload s =
     insert_event \<lparr>ev_id = eid, ev_org = org, ev_aggregate = agg, ev_version = next_version org agg s,
       ev_type = typ, ev_actor = actor, ev_payload = JObj payload\<rparr> s"

section \<open>Links\<close>

abbreviation find_link :: "string \<Rightarrow> string \<Rightarrow> db \<Rightarrow> identity_link option" where
  "find_link issuer subject s \<equiv> row (\<lambda>l. il_issuer l = issuer \<and> il_subject l = subject) (identity_links s)"

definition list_identity_links :: "id \<Rightarrow> db \<Rightarrow> err + identity_link list" where
  "list_identity_links org s =
     (if org = [] then Inl (Msg ''org is required'')
      else Inr (sort_key (\<lambda>l. - il_created l) (sort_key il_subject
             (filter (\<lambda>l. il_org l = org) (identity_links s)))))"

text \<open>The primary key of a link is its issuer and subject, whatever the organization.\<close>

definition link_identity_in_tx :: "id \<Rightarrow> string \<Rightarrow> string \<Rightarrow> id \<Rightarrow> string \<Rightarrow> time \<Rightarrow> unit tx" where
  "link_identity_in_tx org issuer subject who by now s =
     (if find_principal org who s = None
      then Inl (Msg ''principal does not exist in this organization'')
      else case find_link issuer subject s of
        Some l \<Rightarrow>
          if il_principal l = who
          then Inr ((), s\<lparr>identity_links := update_where
                 (\<lambda>l. il_issuer l = issuer \<and> il_subject l = subject \<and> \<not> il_active l)
                 (\<lambda>l. l\<lparr>il_active := True\<rparr>) (identity_links s)\<rparr>)
          else Inl (Msg ''this external account is already linked to a different principal'')
      | None \<Rightarrow>
          Inr ((), s\<lparr>identity_links := identity_links s @
            [\<lparr>il_issuer = issuer, il_subject = subject, il_org = org, il_principal = who,
              il_created = now, il_created_by = by, il_active = True\<rparr>]\<rparr>))"

definition count_active_links :: "id \<Rightarrow> id \<Rightarrow> db \<Rightarrow> nat" where
  "count_active_links org who s =
     length (filter (\<lambda>l. il_org l = org \<and> il_principal l = who \<and> il_active l) (identity_links s))"

definition link_identity_by_admin ::
    "id \<Rightarrow> id \<Rightarrow> string \<Rightarrow> string \<Rightarrow> id \<Rightarrow> string \<Rightarrow> time \<Rightarrow> unit tx" where
  "link_identity_by_admin eid org issuer subject who actor now s =
     (if org = [] \<or> issuer = [] \<or> subject = [] \<or> who = [] \<or> actor = []
      then Inl (Msg ''org, issuer, subject, principal and actor are required'')
      else case link_identity_in_tx org issuer subject who actor now s of
        Inl e \<Rightarrow> Inl e
      | Inr (_, s') \<Rightarrow> audit_tx eid org who ''identity_link.created'' actor
          [(''issuer'', JStr issuer), (''subject'', JStr subject), (''principal_id'', JStr who)] s')"

text \<open>Ends the sessions that satisfy a condition and are not ended yet; the count is \<^verbatim>\<open>RowsAffected\<close>.\<close>

definition revoke_where :: "(session \<Rightarrow> bool) \<Rightarrow> time \<Rightarrow> db \<Rightarrow> nat \<times> db" where
  "revoke_where P now s =
     (let Q = (\<lambda>x. P x \<and> se_revoked x = None)
      in (rows_affected Q (sessions s),
          s\<lparr>sessions := update_where Q (\<lambda>x. x\<lparr>se_revoked := Some now\<rparr>) (sessions s)\<rparr>))"

definition unlink_identity_by_admin ::
    "id \<Rightarrow> id \<Rightarrow> string \<Rightarrow> string \<Rightarrow> string \<Rightarrow> time \<Rightarrow> nat tx" where
  "unlink_identity_by_admin eid org issuer subject actor now s =
     (if org = [] \<or> issuer = [] \<or> subject = [] \<or> actor = []
      then Inl (Msg ''org, issuer, subject and actor are required'')
      else case row (\<lambda>l. il_org l = org \<and> il_issuer l = issuer \<and> il_subject l = subject \<and> il_active l)
                 (identity_links s) of
        None \<Rightarrow> Inl (Msg ''no active link found for this external account in this organization'')
      | Some l \<Rightarrow> (case principal_in_tx org (il_principal l) s of
          Inl e \<Rightarrow> Inl e
        | Inr p \<Rightarrow>
            if iy_role p = Admin \<and> count_active_links org (il_principal l) s \<le> 1
            then Inl (Msg ''refusing to unlink the last external account of an active administrator'')
            else
             (let s1 = s\<lparr>identity_links := update_where
                     (\<lambda>l. il_org l = org \<and> il_issuer l = issuer \<and> il_subject l = subject \<and> il_active l)
                     (\<lambda>l. l\<lparr>il_active := False\<rparr>) (identity_links s)\<rparr>;
                  (n, s2) = revoke_where (\<lambda>x. se_issuer x = issuer \<and> se_subject x = subject) now s1
              in case audit_tx eid org (il_principal l) ''identity_link.revoked'' actor
                    [(''issuer'', JStr issuer), (''subject'', JStr subject),
                     (''principal_id'', JStr (il_principal l)),
                     (''sessions_revoked'', JNum (IntLit (int n)))] s2 of
                   Inl e \<Rightarrow> Inl e | Inr (_, s3) \<Rightarrow> Inr (n, s3))))"

text \<open>The two operations without an audit record.\<close>

definition link_oidc_identity ::
    "id \<Rightarrow> string \<Rightarrow> string \<Rightarrow> id \<Rightarrow> string \<Rightarrow> time \<Rightarrow> unit tx" where
  "link_oidc_identity org issuer subject who by now s =
     (if org = [] \<or> issuer = [] \<or> subject = [] \<or> who = [] \<or> by = []
      then Inl (Msg ''org, issuer, subject, principal and actor are required'')
      else link_identity_in_tx org issuer subject who by now s)"

definition unlink_oidc_identity :: "id \<Rightarrow> string \<Rightarrow> string \<Rightarrow> unit tx" where
  "unlink_oidc_identity org issuer subject s =
     (let P = (\<lambda>l. il_org l = org \<and> il_issuer l = issuer \<and> il_subject l = subject \<and> il_active l)
      in if rows_affected P (identity_links s) = 0
         then Inl (Msg ''no active link found for this external account in this organization'')
         else Inr ((), s\<lparr>identity_links := update_where P (\<lambda>l. l\<lparr>il_active := False\<rparr>) (identity_links s)\<rparr>))"

definition resolve_oidc_identity :: "string \<Rightarrow> string \<Rightarrow> db \<Rightarrow> err + ident" where
  "resolve_oidc_identity issuer subject s =
     (let refused = Inl (Msg ''no platform identity is linked to this external account'')
      in if issuer = [] \<or> subject = [] then refused
         else case row (\<lambda>l. il_issuer l = issuer \<and> il_subject l = subject \<and> il_active l) (identity_links s) of
                None \<Rightarrow> refused
              | Some l \<Rightarrow> (case resolve_identity (il_org l) (il_principal l) s of
                    Inl _ \<Rightarrow> refused | Inr p \<Rightarrow> Inr p))"

section \<open>The first administrator\<close>

record bootstrap_request =
  bq_org :: string
  bq_org_name :: string
  bq_principal :: string
  bq_name :: string
  bq_role :: string
  bq_issuer :: string
  bq_subject :: string
  bq_actor :: string

record bootstrap_result =
  br_org :: bool
  br_principal :: bool
  br_linked :: bool

definition role_of :: "string \<Rightarrow> role option" where
  "role_of r = (if r = ''requester'' then Some Requester else if r = ''approver'' then Some Approver
     else if r = ''admin'' then Some Admin else None)"

definition ensure_organization :: "id \<Rightarrow> string \<Rightarrow> db \<Rightarrow> bool \<times> db" where
  "ensure_organization org nm s =
     (if exists_row (\<lambda>x. og_id x = org) (organizations s) then (False, s)
      else (True, s\<lparr>organizations := organizations s @ [\<lparr>og_id = org, og_name = nm\<rparr>]\<rparr>))"

definition ensure_principal :: "id \<Rightarrow> id \<Rightarrow> string \<Rightarrow> role \<Rightarrow> bool tx" where
  "ensure_principal org i nm r s =
     (if find_principal org i s \<noteq> None
      then Inr (False, s\<lparr>principals := update_where (\<lambda>p. pr_org p = org \<and> pr_id p = i)
                          (\<lambda>p. p\<lparr>pr_active := True\<rparr>) (principals s)\<rparr>)
      else if exists_row (\<lambda>p. pr_id p = i) (principals s) then Inl Constraint
      else Inr (True, s\<lparr>principals := principals s @
             [\<lparr>pr_id = i, pr_org = org, pr_name = nm, pr_role = r, pr_active = True\<rparr>]\<rparr>))"

definition bootstrap_identity :: "id \<Rightarrow> bootstrap_request \<Rightarrow> time \<Rightarrow> bootstrap_result tx" where
  "bootstrap_identity eid q now s =
     (let org = trim_space (bq_org q); i = trim_space (bq_principal q);
          issuer = trim_space (bq_issuer q); subject = trim_space (bq_subject q);
          actor = trim_space (bq_actor q)
      in if org = [] \<or> i = [] \<or> issuer = [] \<or> subject = [] \<or> actor = []
         then Inl (Msg ''org, principal, issuer, subject and actor are required'')
         else case role_of (bq_role q) of
           None \<Rightarrow> Inl (Msg ''role must be requester, approver or admin'')
         | Some r \<Rightarrow>
            (let nm = (if bq_name q = [] then i else bq_name q);
                 onm = (if bq_org_name q = [] then org else bq_org_name q);
                 (oc, s1) = ensure_organization org onm s
             in case ensure_principal org i nm r s1 of
                  Inl e \<Rightarrow> Inl e
                | Inr (pc, s2) \<Rightarrow> (case link_identity_in_tx org issuer subject i actor now s2 of
                    Inl e \<Rightarrow> Inl e
                  | Inr (_, s3) \<Rightarrow> (case audit_tx eid org i ''identity.bootstrap'' actor
                        [(''org_id'', JStr org), (''principal_id'', JStr i), (''issuer'', JStr issuer),
                         (''subject'', JStr subject), (''org_created'', JBool oc),
                         (''principal_created'', JBool pc)] s3 of
                      Inl e \<Rightarrow> Inl e
                    | Inr (_, s4) \<Rightarrow> Inr (\<lparr>br_org = oc, br_principal = pc, br_linked = True\<rparr>, s4)))))"

section \<open>Logins\<close>

definition create_login :: "string \<Rightarrow> string \<Rightarrow> string \<Rightarrow> string \<Rightarrow> int \<Rightarrow> time \<Rightarrow> unit tx" where
  "create_login h verifier nonce return_to ttl now s =
     (if h = [] \<or> verifier = [] \<or> nonce = [] then Inl (Msg ''state hash, verifier and nonce are required'')
      else if ttl \<le> 0 then Inl (Msg ''login transaction requires a positive ttl'')
      else if exists_row (\<lambda>x. lt_hash x = h) (logins s) then Inl Constraint
      else Inr ((), s\<lparr>logins := logins s @
             [\<lparr>lt_hash = h, lt_verifier = verifier, lt_nonce = nonce,
               lt_return = (if return_to = [] then ''/'' else return_to),
               lt_expires = now + ttl, lt_consumed = None\<rparr>]\<rparr>))"

definition usable_login :: "string \<Rightarrow> time \<Rightarrow> login \<Rightarrow> bool" where
  "usable_login h now x \<longleftrightarrow> lt_hash x = h \<and> lt_consumed x = None \<and> now < lt_expires x"

definition consume_login :: "string \<Rightarrow> time \<Rightarrow> login tx" where
  "consume_login h now s =
     (case row (usable_login h now) (logins s) of
        None \<Rightarrow> Inl LoginUnusable
      | Some x \<Rightarrow> Inr (x, s\<lparr>logins := update_where (usable_login h now)
                        (\<lambda>x. x\<lparr>lt_consumed := Some now\<rparr>) (logins s)\<rparr>))"

definition hour :: int where
  "hour = 3600000000"

definition purgeable :: "time \<Rightarrow> login \<Rightarrow> bool" where
  "purgeable now x \<longleftrightarrow> lt_expires x < now - hour \<or> (case lt_consumed x of None \<Rightarrow> False | Some t \<Rightarrow> t < now - hour)"

definition purge_logins :: "time \<Rightarrow> nat tx" where
  "purge_logins now s = Inr (rows_affected (purgeable now) (logins s),
     s\<lparr>logins := filter (\<lambda>x. \<not> purgeable now x) (logins s)\<rparr>)"

section \<open>Sessions\<close>

definition create_session ::
    "(string \<Rightarrow> string) \<Rightarrow> string \<Rightarrow> id \<Rightarrow> id \<Rightarrow> string \<Rightarrow> string \<Rightarrow> string \<Rightarrow> int \<Rightarrow> time \<Rightarrow> string tx" where
  "create_session sha token org who issuer subject csrf ttl now s =
     (if org = [] \<or> who = [] \<or> issuer = [] \<or> subject = [] \<or> csrf = []
      then Inl (Msg ''org, principal, issuer, subject and csrf token are required'')
      else if ttl \<le> 0 then Inl (Msg ''session requires a positive ttl'')
      else if exists_row (\<lambda>x. se_hash x = sha token) (sessions s) \<or> find_principal org who s = None
      then Inl Constraint
      else Inr (token, s\<lparr>sessions := sessions s @
             [\<lparr>se_hash = sha token, se_org = org, se_principal = who, se_issuer = issuer,
               se_subject = subject, se_csrf = csrf, se_expires = now + ttl, se_seen = now,
               se_revoked = None\<rparr>]\<rparr>))"

definition read_session :: "(string \<Rightarrow> string) \<Rightarrow> string \<Rightarrow> time \<Rightarrow> (session \<times> ident) tx" where
  "read_session sha token now s =
     (if token = [] then Inl SessionInvalid
      else case row (\<lambda>x. se_hash x = sha token \<and> se_revoked x = None \<and> now < se_expires x) (sessions s) of
        None \<Rightarrow> Inl SessionInvalid
      | Some x \<Rightarrow> (case resolve_identity (se_org x) (se_principal x) s of
          Inl _ \<Rightarrow> Inl SessionInvalid
        | Inr p \<Rightarrow> (case find_link (se_issuer x) (se_subject x) s of
            None \<Rightarrow> Inl SessionInvalid
          | Some l \<Rightarrow>
              if \<not> il_active l \<or> il_org l \<noteq> se_org x \<or> il_principal l \<noteq> se_principal x
              then Inl SessionInvalid
              else Inr ((x, p), s\<lparr>sessions := update_where (\<lambda>x. se_hash x = sha token)
                     (\<lambda>x. x\<lparr>se_seen := now\<rparr>) (sessions s)\<rparr>))))"

definition revoke_session :: "(string \<Rightarrow> string) \<Rightarrow> string \<Rightarrow> time \<Rightarrow> unit tx" where
  "revoke_session sha token now s = Inr ((), snd (revoke_where (\<lambda>x. se_hash x = sha token) now s))"

definition revoke_sessions_for_identity :: "string \<Rightarrow> string \<Rightarrow> time \<Rightarrow> nat tx" where
  "revoke_sessions_for_identity issuer subject now s =
     (if issuer = [] \<or> subject = [] then Inl (Msg ''issuer and subject are required'')
      else Inr (revoke_where (\<lambda>x. se_issuer x = issuer \<and> se_subject x = subject) now s))"

definition revoke_sessions_for_principal :: "id \<Rightarrow> id \<Rightarrow> time \<Rightarrow> nat tx" where
  "revoke_sessions_for_principal org who now s =
     (if org = [] \<or> who = [] then Inl (Msg ''org and principal are required'')
      else Inr (revoke_where (\<lambda>x. se_org x = org \<and> se_principal x = who) now s))"

end
