(* ===== verification/Tokens.thy ===== *)
theory Tokens
  imports Prelude "HOL-Library.Word"
begin

unbundle bit_operations_syntax

text \<open>
  The token primitives of the browser flow, \<^verbatim>\<open>internal/platform/tokens.go\<close>: opaque tokens, their stored
  hash, PKCE verifiers and the check of a post-login destination. Random bytes are an argument, SHA-256
  the parameter \<open>sha256\<close>; base64 (URL alphabet, no padding), hexadecimal and the constant-time comparison
  are the functions of the Go standard library.
\<close>

section \<open>Encodings\<close>

definition alphabet64 :: string where
  "alphabet64 = ''ABCDEFGHIJKLMNOPQRSTUVWXYZabcdefghijklmnopqrstuvwxyz0123456789-_''"

definition digit64 :: "nat \<Rightarrow> char" where
  "digit64 n = alphabet64 ! n"

fun encode64 :: "8 word list \<Rightarrow> string" where
  "encode64 (a # b # c # xs) =
     (let n = unat a * 65536 + unat b * 256 + unat c
      in digit64 (n div 262144) # digit64 (n div 4096 mod 64) # digit64 (n div 64 mod 64) #
         digit64 (n mod 64) # encode64 xs)"
| "encode64 [a, b] =
     (let n = (unat a * 256 + unat b) * 4
      in [digit64 (n div 4096), digit64 (n div 64 mod 64), digit64 (n mod 64)])"
| "encode64 [a] = (let n = unat a * 16 in [digit64 (n div 64), digit64 (n mod 64)])"
| "encode64 [] = []"

definition hex_digits :: string where
  "hex_digits = ''0123456789abcdef''"

definition encode_hex :: "8 word list \<Rightarrow> string" where
  "encode_hex bs = concat (map (\<lambda>b. [hex_digits ! (unat b div 16), hex_digits ! (unat b mod 16)]) bs)"

definition char_byte :: "char \<Rightarrow> 8 word" where
  "char_byte c = of_nat (of_char c)"

text \<open>\<^verbatim>\<open>subtle.ConstantTimeCompare\<close>: the lengths, then one pass over all the bytes.\<close>

definition constant_time_compare :: "string \<Rightarrow> string \<Rightarrow> bool" where
  "constant_time_compare a b \<longleftrightarrow> length a = length b \<and>
     fold (\<lambda>(x, y) v. v OR (char_byte x XOR char_byte y)) (zip a b) 0 = 0"

section \<open>Tokens\<close>

definition opaque_token_bytes :: nat where
  "opaque_token_bytes = 32"

definition new_opaque_token :: "8 word list \<Rightarrow> string" where
  "new_opaque_token bs = encode64 bs"

definition hash_token :: "(string \<Rightarrow> 8 word list) \<Rightarrow> string \<Rightarrow> string" where
  "hash_token sha256 token = encode_hex (sha256 token)"

definition tokens_equal :: "string \<Rightarrow> string \<Rightarrow> bool" where
  "tokens_equal a b = constant_time_compare a b"

section \<open>PKCE\<close>

definition pkce_unreserved :: string where
  "pkce_unreserved = ''ABCDEFGHIJKLMNOPQRSTUVWXYZabcdefghijklmnopqrstuvwxyz0123456789-._~''"

definition new_pkce_verifier :: "8 word list \<Rightarrow> string" where
  "new_pkce_verifier bs = map (\<lambda>v. pkce_unreserved ! (unat v mod length pkce_unreserved)) bs"

definition pkce_challenge :: "(string \<Rightarrow> 8 word list) \<Rightarrow> string \<Rightarrow> string" where
  "pkce_challenge sha256 v = encode64 (sha256 v)"

definition validate_pkce_verifier :: "string \<Rightarrow> string + unit" where
  "validate_pkce_verifier v =
     (if length v < 43 \<or> length v > 128 then Inl ''code verifier must be 43 to 128 characters''
      else if \<exists>c\<in>set v. c \<notin> set pkce_unreserved
      then Inl ''code verifier contains a character outside the unreserved set''
      else Inr ())"

section \<open>The destination after a login\<close>

definition control_char :: "char \<Rightarrow> bool" where
  "control_char c \<longleftrightarrow> (of_char c :: nat) < 32 \<or> (of_char c :: nat) = 127"

definition safe_return_to :: "string \<Rightarrow> string" where
  "safe_return_to raw =
     (if raw = [] then ''/''
      else if \<exists>c\<in>set raw. control_char c then ''/''
      else if \<not> has_prefix raw ''/'' then ''/''
      else if length raw > 1 \<and> (raw ! 1 = CHR ''/'' \<or> raw ! 1 = CHR 0x5C) then ''/''
      else if contains_str raw [CHR 0x5C] \<or> contains_str raw ''://'' then ''/''
      else if contains_str (to_lower raw) ''%2f'' \<or> contains_str (to_lower raw) ''%5c'' then ''/''
      else raw)"

section \<open>The encodings lose nothing\<close>

definition value64 :: "char \<Rightarrow> nat" where
  "value64 c = length (takeWhile (\<lambda>d. d \<noteq> c) alphabet64)"

fun decode64 :: "string \<Rightarrow> 8 word list" where
  "decode64 (p # q # r # t # xs) =
     (let n = value64 p * 262144 + value64 q * 4096 + value64 r * 64 + value64 t
      in of_nat (n div 65536) # of_nat (n div 256 mod 256) # of_nat (n mod 256) # decode64 xs)"
| "decode64 [p, q, r] =
     (let n = value64 p * 4096 + value64 q * 64 + value64 r in [of_nat (n div 1024), of_nat (n div 4 mod 256)])"
| "decode64 [p, q] = (let n = value64 p * 64 + value64 q in [of_nat (n div 16)])"
| "decode64 _ = []"

lemma value64_digit64: "n < 64 \<Longrightarrow> value64 (digit64 n) = n"
proof -
  have "list_all (\<lambda>n. value64 (digit64 n) = n) [0..<64]" by code_simp
  then show "n < 64 \<Longrightarrow> value64 (digit64 n) = n" by (simp add: list_all_iff)
qed

lemma digit64_in: "n < 64 \<Longrightarrow> digit64 n \<in> set alphabet64"
  unfolding digit64_def by (rule nth_mem) (simp add: alphabet64_def)

lemma byte_bound: "unat (a :: 8 word) < 256"
  using unsigned_less[of a] by simp

text \<open>The digits of a number in base 64, and of one in base 256.\<close>

lemma base64_digits:
  fixes n :: nat
  shows "n div 64 * 64 + n mod 64 = n"
    "n div 4096 * 4096 + n div 64 mod 64 * 64 + n mod 64 = n"
    "n div 262144 * 262144 + n div 4096 mod 64 * 4096 + n div 64 mod 64 * 64 + n mod 64 = n"
proof -
  have d: "n div 4096 = n div 64 div 64" "n div 262144 = n div 4096 div 64"
    by (simp_all add: div_mult2_eq[symmetric])
  note m = div_mult_mod_eq[of n 64] div_mult_mod_eq[of "n div 64" 64] div_mult_mod_eq[of "n div 4096" 64]
  show "n div 64 * 64 + n mod 64 = n" by simp
  show "n div 4096 * 4096 + n div 64 mod 64 * 64 + n mod 64 = n" using m(1,2) d(1) by linarith
  show "n div 262144 * 262144 + n div 4096 mod 64 * 4096 + n div 64 mod 64 * 64 + n mod 64 = n"
    using m d by linarith
qed

lemma base256_digits:
  fixes a b c :: nat
  assumes "a < 256" "b < 256" "c < 256"
  shows "(a * 65536 + b * 256 + c) div 65536 = a" "(a * 65536 + b * 256 + c) div 256 mod 256 = b"
    "(a * 65536 + b * 256 + c) mod 256 = c" "(a * 65536 + b * 256 + c) div 262144 < 64"
    "(a * 256 + b) * 4 div 1024 = a" "(a * 256 + b) * 4 div 4 mod 256 = b" "(a * 256 + b) * 4 div 4096 < 64"
    "a * 16 div 16 = a" "a * 16 div 64 < 64"
proof -
  have m: "(k * 256 + r) mod 256 = r" if "r < 256" for k r :: nat using that by (simp add: mod_mult_self3)
  have e: "a * 65536 + b * 256 + c = (a * 256 + b) * 256 + c" by simp
  have "(a * 65536 + b * 256 + c) div 256 = a * 256 + b" by (rule div_nat_eqI) (use assms in \<open>simp_all add: algebra_simps\<close>)
  then show "(a * 65536 + b * 256 + c) div 256 mod 256 = b" using m assms(2) by simp
  show "(a * 65536 + b * 256 + c) div 65536 = a" "(a * 256 + b) * 4 div 1024 = a"
    by (rule div_nat_eqI; use assms in \<open>simp add: algebra_simps\<close>)+
  show "(a * 65536 + b * 256 + c) mod 256 = c" unfolding e by (rule m[OF assms(3)])
  show "(a * 65536 + b * 256 + c) div 262144 < 64" "(a * 256 + b) * 4 div 4096 < 64" "a * 16 div 64 < 64"
    by (rule less_mult_imp_div_less; use assms in simp)+
  show "(a * 256 + b) * 4 div 4 mod 256 = b" "a * 16 div 16 = a" using m assms(2) by simp_all
qed

lemma decode_encode64: "decode64 (encode64 bs) = bs"
proof (induction bs rule: encode64.induct)
  case (1 a b c xs)
  let ?n = "unat a * 65536 + unat b * 256 + unat c"
  note n = base256_digits[OF byte_bound[of a] byte_bound[of b] byte_bound[of c]]
  have v: "value64 (digit64 (?n div 262144)) * 262144 + value64 (digit64 (?n div 4096 mod 64)) * 4096 +
      value64 (digit64 (?n div 64 mod 64)) * 64 + value64 (digit64 (?n mod 64)) = ?n"
    using n(4) base64_digits(3)[of ?n] by (simp only: value64_digit64 mod_less_divisor zero_less_numeral)
  show ?case unfolding encode64.simps Let_def decode64.simps v n(1-3) using 1[OF refl] by simp
next
  case (2 a b)
  let ?n = "(unat a * 256 + unat b) * 4"
  note n = base256_digits[OF byte_bound[of a] byte_bound[of b] byte_bound[of b]]
  have v: "value64 (digit64 (?n div 4096)) * 4096 + value64 (digit64 (?n div 64 mod 64)) * 64 +
      value64 (digit64 (?n mod 64)) = ?n"
    using n(7) base64_digits(2)[of ?n] by (simp only: value64_digit64 mod_less_divisor zero_less_numeral)
  show ?case unfolding encode64.simps Let_def decode64.simps v n(5,6) by simp
next
  case (3 a)
  let ?n = "unat a * 16"
  note n = base256_digits[OF byte_bound[of a] byte_bound[of a] byte_bound[of a]]
  have v: "value64 (digit64 (?n div 64)) * 64 + value64 (digit64 (?n mod 64)) = ?n"
    using n(9) base64_digits(1)[of ?n] by (simp only: value64_digit64 mod_less_divisor zero_less_numeral)
  show ?case unfolding encode64.simps Let_def decode64.simps v n(8) by simp
qed simp

lemma encode64_chars: "set (encode64 bs) \<subseteq> set alphabet64"
proof (induction bs rule: encode64.induct)
  case (1 a b c xs)
  note n = base256_digits[OF byte_bound[of a] byte_bound[of b] byte_bound[of c]]
  show ?case using 1[OF refl] n(4) by (simp only: encode64.simps Let_def set_simps insert_subset digit64_in
        mod_less_divisor zero_less_numeral simp_thms)
next
  case (2 a b)
  note n = base256_digits[OF byte_bound[of a] byte_bound[of b] byte_bound[of b]]
  show ?case using n(7) by (simp only: encode64.simps Let_def set_simps insert_subset digit64_in
        mod_less_divisor zero_less_numeral empty_subsetI simp_thms)
next
  case (3 a)
  note n = base256_digits[OF byte_bound[of a] byte_bound[of a] byte_bound[of a]]
  show ?case using n(9) by (simp only: encode64.simps Let_def set_simps insert_subset digit64_in
        mod_less_divisor zero_less_numeral empty_subsetI simp_thms)
qed simp

lemma length_encode64: "length (encode64 bs) = (4 * length bs + 2) div 3"
proof (induction bs rule: encode64.induct)
  case (1 a b c xs)
  have "4 * (Suc (Suc (Suc n))) + 2 = (4 * n + 2) + 4 * 3" for n :: nat by simp
  then have "(4 * (Suc (Suc (Suc n))) + 2) div 3 = (4 * n + 2) div 3 + 4" for n :: nat
    by (simp only: div_mult_self1)
  then show ?case using 1[OF refl] by (simp add: Let_def)
qed (simp_all add: Let_def)

section \<open>Properties\<close>

text \<open>
  Tokens keep their entropy: a token determines the random bytes it was made of, its characters are those of
  the URL alphabet, and 32 bytes make 43 characters.
\<close>

lemma opaque_token_roundtrip:
  "decode64 (new_opaque_token bs) = bs \<and> set (new_opaque_token bs) \<subseteq> set alphabet64 \<and>
   (length bs = opaque_token_bytes \<longrightarrow> length (new_opaque_token bs) = 43)"
  by (simp add: new_opaque_token_def decode_encode64 encode64_chars length_encode64 opaque_token_bytes_def)

lemma opaque_token_roundtrip_witness:
  "length (new_opaque_token (replicate 32 (255 :: 8 word))) = 43 \<and>
   decode64 (new_opaque_token (replicate 32 (255 :: 8 word))) = replicate 32 255"
  using opaque_token_roundtrip[of "replicate 32 255"] by (simp add: opaque_token_bytes_def)

lemma char_byte_inj: "char_byte c = char_byte d \<longleftrightarrow> c = d"
proof
  assume "char_byte c = char_byte d"
  then have "unat (char_byte c) = unat (char_byte d)" by simp
  moreover have "unat (char_byte e) = of_char e" for e
    unfolding char_byte_def by (subst unat_of_nat) (simp add: take_bit_nat_eq_self)
  ultimately show "c = d" by simp
qed simp

lemma or_zero: "(v :: 8 word) OR w = 0 \<longleftrightarrow> v = 0 \<and> w = 0"
  by (auto simp: bit_eq_iff bit_or_iff)

lemma xor_zero: "(v :: 8 word) XOR w = 0 \<longleftrightarrow> v = w"
  by (auto simp: bit_eq_iff bit_xor_iff)

lemma fold_compare:
  "length a = length b \<Longrightarrow>
   fold (\<lambda>(x, y) v. v OR (char_byte x XOR char_byte y)) (zip a b) w = 0 \<longleftrightarrow> w = 0 \<and> a = b"
  by (induction a b arbitrary: w rule: list_induct2) (auto simp: or_zero xor_zero char_byte_inj)

text \<open>The constant-time comparison of tokens is their equality, whatever the lengths.\<close>

lemma tokens_equal_iff: "tokens_equal a b \<longleftrightarrow> a = b"
  using fold_compare[of a b 0] by (auto simp: tokens_equal_def constant_time_compare_def)

text \<open>
  A generated PKCE verifier is always accepted by the check that precedes the exchange; it is made of the
  unreserved characters and as long as the specification allows.
\<close>

lemma generated_verifier_valid:
  assumes "length bs = 128"
  shows "validate_pkce_verifier (new_pkce_verifier bs) = Inr ()"
proof -
  have "unat v mod length pkce_unreserved < length pkce_unreserved" for v :: "8 word"
    by (rule mod_less_divisor) (simp add: pkce_unreserved_def)
  then have "pkce_unreserved ! (unat v mod length pkce_unreserved) \<in> set pkce_unreserved" for v :: "8 word"
    by (rule nth_mem)
  then show ?thesis using assms by (auto simp: validate_pkce_verifier_def new_pkce_verifier_def)
qed

lemma generated_verifier_valid_witness:
  "validate_pkce_verifier (new_pkce_verifier (replicate 128 255)) = Inr ()"
  by (rule generated_verifier_valid) simp

text \<open>
  The characters of a verifier are not equally likely: the first 58 have four bytes each, the last eight three.
\<close>

definition preimages :: "char \<Rightarrow> nat" where
  "preimages c = length (filter (\<lambda>v. new_pkce_verifier [word_of_nat v] = [c]) [0..<256])"

lemma verifier_bias: "preimages CHR ''A'' = 4 \<and> preimages CHR ''~'' = 3"
  unfolding preimages_def by (intro conjI; code_simp)

definition local_path :: "string \<Rightarrow> bool" where
  "local_path p \<longleftrightarrow> (\<exists>r. p = CHR ''/'' # r \<and> (r = [] \<or> hd r \<noteq> CHR ''/'')) \<and>
     (\<forall>c\<in>set p. \<not> control_char c \<and> c \<noteq> CHR 0x5C) \<and> (\<nexists>a b. p = a @ ''://'' @ b) \<and>
     (\<nexists>a b. to_lower p = a @ ''%2f'' @ b) \<and> (\<nexists>a b. to_lower p = a @ ''%5c'' @ b)"

lemma contains_char: "contains_str s [c] \<longleftrightarrow> c \<in> set s"
  by (auto simp: contains_str_iff in_set_conv_decomp)

lemma second_char: "length p > 1 \<and> (p ! 1 = c) \<longleftrightarrow> (\<exists>r. tl p = c # r)"
  by (cases p; cases "tl p") auto

lemma local_path_iff:
  "local_path p \<longleftrightarrow> (\<exists>r. p = CHR ''/'' # r \<and> (r = [] \<or> hd r \<noteq> CHR ''/'')) \<and>
     (\<forall>c\<in>set p. \<not> control_char c \<and> c \<noteq> CHR 0x5C) \<and> \<not> contains_str p ''://'' \<and>
     \<not> contains_str (to_lower p) ''%2f'' \<and> \<not> contains_str (to_lower p) ''%5c''"
  by (simp only: local_path_def contains_str_iff)

lemma local_path_root: "local_path ''/''"
  by (auto simp: local_path_def control_char_def to_lower_def lower_char_def Let_def Cons_eq_append_conv)

text \<open>
  The destination after a login stays on the site: the check returns exactly the destinations that are a path
  from the root, without a second slash or backslash after the first, a control character, a backslash, a
  scheme separator or an encoded slash or backslash, and the root for everything else; what it returns passes
  it again.
\<close>

lemma safe_return_to_local:
  "safe_return_to raw = (if local_path raw then raw else ''/'') \<and> local_path (safe_return_to raw)"
proof -
  have "local_path raw \<longleftrightarrow> raw \<noteq> [] \<and> \<not> (\<exists>c\<in>set raw. control_char c) \<and> has_prefix raw ''/'' \<and>
      \<not> (length raw > 1 \<and> (raw ! 1 = CHR ''/'' \<or> raw ! 1 = CHR 0x5C)) \<and>
      \<not> (contains_str raw [CHR 0x5C] \<or> contains_str raw ''://'') \<and>
      \<not> (contains_str (to_lower raw) ''%2f'' \<or> contains_str (to_lower raw) ''%5c'')"
  proof (cases raw)
    case (Cons c r)
    then show ?thesis unfolding local_path_iff contains_char
      by (cases r) (auto simp: has_prefix_iff simp del: contains_str.simps)
  qed (simp add: local_path_def)
  then have "safe_return_to raw = (if local_path raw then raw else ''/'')" by (auto simp: safe_return_to_def)
  then show ?thesis using local_path_root by simp
qed

end
