(* ===== verification/Simulator.thy ===== *)
theory Simulator
  imports AgentRuns
begin

text \<open>
  Runners: the choice of a runner, its time budget and the simulator that stands in for a harness,
  \<^verbatim>\<open>internal/runner/runner.go\<close> and \<^verbatim>\<open>internal/runner/simulator.go\<close>. The configured command-line runners
  (\<^verbatim>\<open>cliConfigs\<close>) are a list of identifiers with their timeouts in seconds; \<open>sha\<close> is the hexadecimal
  SHA-256 of a document's text.
\<close>

section \<open>Choosing a runner\<close>

record cli_config =
  cl_id :: string
  cl_timeout :: int

datatype runner = SimulatorRunner | CliRunner cli_config

definition new_runner :: "cli_config list \<Rightarrow> string \<Rightarrow> err + runner" where
  "new_runner clis i =
     (if i = ''simulator'' then Inr SimulatorRunner
      else case row (\<lambda>c. cl_id c = i) clis of
        Some c \<Rightarrow> Inr (CliRunner c)
      | None \<Rightarrow> Inl (Msg ''unknown runner''))"

definition run_budget :: "cli_config list \<Rightarrow> string \<Rightarrow> int" where
  "run_budget clis i =
     (case row (\<lambda>c. cl_id c = i) clis of Some c \<Rightarrow> cl_timeout c | None \<Rightarrow> 30)"

definition available :: "cli_config list \<Rightarrow> string list" where
  "available clis = ''simulator'' # map cl_id clis"

definition runner_supported :: "cli_config list \<Rightarrow> string \<Rightarrow> bool" where
  "runner_supported clis i \<longleftrightarrow> i \<in> set (available clis)"

lemma supported_new: "runner_supported clis i \<longleftrightarrow> (\<exists>r. new_runner clis i = Inr r)"
  by (auto simp: runner_supported_def available_def new_runner_def row_None_iff split: option.splits
      dest!: row_SomeD)

section \<open>The simulator\<close>

fun digits :: "nat \<Rightarrow> string" where
  "digits n = (if n < 10 then [char_of (48 + n)] else digits (n div 10) @ [char_of (48 + n mod 10)])"

declare digits.simps [simp del]

text \<open>\<^verbatim>\<open>%d\<close>.\<close>

definition show_int :: "int \<Rightarrow> string" where
  "show_int i = (if i < 0 then CHR ''-'' # digits (nat (- i)) else digits (nat i))"

definition clarification_schema :: json where
  "clarification_schema =
     JObj [(''properties'',
              JObj [(''supplier_email'', JObj [(''type'', JStr ''string'')]),
                    (''quantity'', JObj [(''type'', JStr ''integer'')])]),
           (''required'', JArr [JStr ''supplier_email'', JStr ''quantity''])]"

definition wants_clarification :: "string \<Rightarrow> bool" where
  "wants_clarification intent \<longleftrightarrow>
     list_ex (contains_str intent) [''clarify'', ''ask'', ''missing'']"

text \<open>\<^verbatim>\<open>Request.Answer\<close>: the first input of the name (the raw text of a value is never empty).\<close>

definition answer :: "run_request \<Rightarrow> string \<Rightarrow> json option" where
  "answer req name = map_of (rq_inputs req) name"

definition first_record :: "sim_record list \<Rightarrow> string \<Rightarrow> sim_record option" where
  "first_record recs integration = row (\<lambda>r. sr_integration r = integration) recs"

definition business_fact_key :: "(json \<Rightarrow> string) \<Rightarrow> string \<Rightarrow> string \<Rightarrow> id \<Rightarrow> int \<Rightarrow> json \<Rightarrow> string" where
  "business_fact_key sha integration action target version payload =
     integration @ '':'' @ action @ '':'' @ target @ '':'' @ show_int version @ '':'' @ take 16 (sha payload)"

definition draft_op :: "(json \<Rightarrow> string) \<Rightarrow> string \<Rightarrow> string \<Rightarrow> sim_record \<Rightarrow> json \<Rightarrow> operation" where
  "draft_op sha integration action target payload =
     \<lparr>op_id = [], op_integration = integration, op_action = action,
      op_key = business_fact_key sha integration action (sr_id target) (sr_version target) payload,
      op_target = sr_id target, op_version = sr_version target, op_payload = Some payload\<rparr>"

definition failed_result :: "string \<Rightarrow> run_result" where
  "failed_result code =
     \<lparr>rs_status = ''failed'', rs_failure = code, rs_draft = None, rs_gate = None\<rparr>"

definition succeeded_result :: "string \<Rightarrow> operation list \<Rightarrow> run_result" where
  "succeeded_result summary ops =
     \<lparr>rs_status = ''succeeded'', rs_failure = [],
      rs_draft = Some \<lparr>dr_summary = summary, dr_operations = ops\<rparr>, rs_gate = None\<rparr>"

text \<open>
  The email and the quantity a person gave, decoded into a string and a float64; null leaves the
  zero value. \<^verbatim>\<open>int64\<close> of a float64 beyond its range is its least value.
\<close>

definition read_email :: "json \<Rightarrow> string option" where
  "read_email v =
     (case get_str (Some v) of None \<Rightarrow> None | Some e \<Rightarrow> if trim_space e = [] then None else Some e)"

definition read_quantity :: "json \<Rightarrow> int option" where
  "read_quantity v =
     (case (case v of JNull \<Rightarrow> Some 0 | JNum n \<Rightarrow> f64 n | _ \<Rightarrow> None) of
        None \<Rightarrow> None
      | Some q \<Rightarrow>
         (let t = (if q < 0 then \<lceil>q\<rceil> else \<lfloor>q\<rfloor>);
              i = (if - (2 ^ 63) \<le> t \<and> t < 2 ^ 63 then t else - (2 ^ 63))
          in if q \<noteq> of_int i then None else Some i))"

definition mail_payload :: "string \<Rightarrow> string \<Rightarrow> string \<Rightarrow> json" where
  "mail_payload recipient subject body =
     JObj [(''attachments'', JArr []), (''bcc'', JArr []), (''body'', JStr body),
           (''recipients'', JArr [JStr recipient]), (''subject'', JStr subject)]"

definition clarify :: "(json \<Rightarrow> string) \<Rightarrow> run_request \<Rightarrow> run_result" where
  "clarify sha req =
     (case (answer req ''supplier_email'', answer req ''quantity'') of
        (Some e, Some q) \<Rightarrow>
          (case read_email e of
             None \<Rightarrow> failed_result ''invalid_input''
           | Some email \<Rightarrow> (case read_quantity q of
               None \<Rightarrow> failed_result ''invalid_input''
             | Some qty \<Rightarrow> (case first_record (rq_records req) ''mail'' of
                 None \<Rightarrow> failed_result ''no_suitable_record''
               | Some target \<Rightarrow>
                   succeeded_result (''Prepared supplier follow-up for '' @ email)
                     [draft_op sha ''mail'' ''send'' target
                        (mail_payload email (''Stock adjustment request prepared by run '' @ rq_run req)
                           (''Requesting a stock adjustment of '' @ show_int qty @ '' units.''))])))
      | _ \<Rightarrow>
          \<lparr>rs_status = ''waiting'', rs_failure = [], rs_draft = None,
           rs_gate = Some \<lparr>gq_kind = ''missing_information'',
             gq_prompt = ''Which supplier should this follow-up go to, and what quantity should be proposed?'',
             gq_schema = Some (Some clarification_schema), gq_respondent = []\<rparr>\<rparr>)"

text \<open>The integration, the action and the payload an intent asks for; the last match counts.\<close>

definition simulated_work :: "string \<Rightarrow> id \<Rightarrow> string \<times> string \<times> json" where
  "simulated_work intent run =
     (if contains_str intent ''mail''
      then (''mail'', ''send'', mail_payload ''recipient@example.com'' (''Prepared by run '' @ run)
              (''Prepared by run '' @ run))
      else if contains_str intent ''document''
      then (''documents'', ''update'', JObj [(''title'', JStr (''Prepared by run '' @ run))])
      else (''inventory'', ''adjust'', JObj [(''delta'', JNum (IntLit 1))]))"

text \<open>\<open>cancelled\<close>: the context was done before the run began.\<close>

definition simulator_run :: "(json \<Rightarrow> string) \<Rightarrow> bool \<Rightarrow> run_request \<Rightarrow> err + run_result" where
  "simulator_run sha cancelled req =
     (if cancelled then Inl (Msg ''context canceled'')
      else
       (let intent = to_lower (rq_intent req) in
        if wants_clarification intent then Inr (clarify sha req)
        else
         (let (integration, action, payload) = simulated_work intent (rq_run req) in
          case first_record (rq_records req) integration of
            None \<Rightarrow> Inr (failed_result ''no_suitable_record'')
          | Some target \<Rightarrow>
              Inr (succeeded_result (''Prepared '' @ integration @ '' proposal'')
                     [draft_op sha integration action target payload]))))"

section \<open>The drafts pass the connectors\<close>

lemma json_integer_one [simp]: "json_integer (JNum (IntLit 1)) = Some 1"
  by (rule json_integer_lit) (simp add: max_safe_def)

lemma mail_fn_ok: "\<exists>d. mail_fn (Some (mail_payload r (c # cs) (b # bs))) data = Inr d"
  by (simp add: mail_fn_def mail_payload_def parse_def get_strs_def get_str_def)

lemma document_fn_ok: "\<exists>d. document_fn (Some (JObj [(''title'', JStr t)])) data = Inr d"
  by (simp add: document_fn_def parse_def get_str_ptr_def Let_def)

lemma inventory_fn_ok:
  "Option.bind (map_of data ''quantity'') json_integer = Some q \<Longrightarrow> 0 \<le> q \<Longrightarrow> q < max_safe \<Longrightarrow>
     \<exists>d. inventory_fn (Some (JObj [(''delta'', JNum (IntLit 1))])) data = Inr d"
  by (simp add: inventory_fn_def parse_def max_safe_def)

definition prepares_on :: "sim_record \<Rightarrow> operation \<Rightarrow> bool" where
  "prepares_on r op \<longleftrightarrow> sr_integration r = op_integration op \<and> op_target op = sr_id r \<and>
     op_version op = sr_version r \<and>
     (\<exists>c. new_registry (op_integration op) = Some c \<and> cn_validate c op = Inr () \<and>
        (\<forall>data. sr_id r \<noteq> [] \<longrightarrow>
           (op_integration op = ''inventory'' \<longrightarrow>
              (\<exists>q. Option.bind (map_of data ''quantity'') json_integer = Some q \<and> 0 \<le> q \<and> q < max_safe)) \<longrightarrow>
           (\<exists>n. cn_prepare c \<lparr>cr_id = sr_id r, cr_version = sr_version r, cr_data = data\<rparr> op = Inr n)))"

lemma mail_draft: "sr_integration r = ''mail'' \<Longrightarrow>
    prepares_on r (draft_op sha ''mail'' ''send'' r (mail_payload e (c # cs) (b # bs)))"
  using mail_fn_ok[of e c cs b bs]
  by (auto simp: prepares_on_def draft_op_def new_registry_def mail_connector_def mail_validate_def
      mail_prepare_def prep_def check_def mail_manifest_def split: sum.splits) (metis Inl_Inr_False)

lemma document_draft: "sr_integration r = ''documents'' \<Longrightarrow>
    prepares_on r (draft_op sha ''documents'' ''update'' r (JObj [(''title'', JStr t)]))"
  using document_fn_ok[of t]
  by (auto simp: prepares_on_def draft_op_def new_registry_def document_connector_def
      document_validate_def document_prepare_def prep_def check_def document_manifest_def
      split: sum.splits) (metis Inl_Inr_False)

lemma inventory_draft: "sr_integration r = ''inventory'' \<Longrightarrow>
    prepares_on r (draft_op sha ''inventory'' ''adjust'' r (JObj [(''delta'', JNum (IntLit 1))]))"
  using inventory_fn_ok
  by (auto simp: prepares_on_def draft_op_def new_registry_def inventory_connector_def
      inventory_validate_def inventory_prepare_def prep_def check_def inventory_manifest_def
      split: sum.splits) (metis Inl_Inr_False)

lemma first_recordD: "first_record rs i = Some r \<Longrightarrow> r \<in> set rs \<and> sr_integration r = i"
  unfolding first_record_def by (drule row_SomeD)

lemma clarify_draft:
  assumes "rs_draft (clarify sha req) = Some d" "op \<in> set (dr_operations d)"
  shows "\<exists>r\<in>set (rq_records req). prepares_on r op"
proof -
  obtain r e subject body where r: "first_record (rq_records req) ''mail'' = Some r"
    and op: "op = draft_op sha ''mail'' ''send'' r (mail_payload e (CHR ''S'' # subject) (CHR ''R'' # body))"
    using assms by (auto simp: clarify_def failed_result_def succeeded_result_def split: option.splits)
  then show ?thesis using mail_draft first_recordD[OF r] by blast
qed

lemma work_draft:
  assumes "first_record rs (fst (simulated_work intent run)) = Some r"
  shows "prepares_on r (draft_op sha (fst (simulated_work intent run)) (fst (snd (simulated_work intent run))) r
           (snd (snd (simulated_work intent run))))"
  using first_recordD[OF assms] mail_draft document_draft inventory_draft
  by (auto simp: simulated_work_def split: if_split_asm)

lemma simulator_answers: "\<exists>res. simulator_run sha False req = Inr res"
  by (simp add: simulator_run_def Let_def split_beta split: option.split)

section \<open>Properties\<close>

definition demo_mailbox :: sim_record where
  "demo_mailbox = \<lparr>sr_id = ''m'', sr_org = ''o'', sr_integration = ''mail'', sr_version = 1, sr_data = JObj []\<rparr>"

definition demo_request :: "string \<Rightarrow> jmap \<Rightarrow> run_request" where
  "demo_request intent inputs = \<lparr>rq_org = ''o'', rq_task = ''t'', rq_run = ''r'', rq_agent = ''a'',
     rq_harness = ''simulator'', rq_intent = intent, rq_records = [demo_mailbox], rq_inputs = inputs\<rparr>"

definition demo_inputs :: jmap where
  "demo_inputs = [(''supplier_email'', JStr ''s@x''), (''quantity'', JNum (IntLit 3))]"

text \<open>
  C32. Every operation the simulator drafts is one the connectors accept: it is validated by the
  connector of its integration and its preparation succeeds on the record it names, at the version
  the runner was given (for the inventory, on a record whose quantity leaves room for one more).
\<close>

theorem simulator_drafts_prepare:
  assumes "simulator_run sha cancelled req = Inr res" "rs_draft res = Some d" "op \<in> set (dr_operations d)"
  shows "\<exists>r\<in>set (rq_records req). prepares_on r op"
proof (cases "wants_clarification (to_lower (rq_intent req))")
  case True
  then show ?thesis using assms clarify_draft
    by (auto simp: simulator_run_def Let_def split: if_split_asm)
next
  case False
  let ?w = "simulated_work (to_lower (rq_intent req)) (rq_run req)"
  obtain r where r: "first_record (rq_records req) (fst ?w) = Some r"
    and op: "op = draft_op sha (fst ?w) (fst (snd ?w)) r (snd (snd ?w))"
    using assms False
    by (auto simp: simulator_run_def Let_def split_beta failed_result_def succeeded_result_def
        split: if_split_asm option.splits)
  show ?thesis using work_draft[OF r] first_recordD[OF r] op by blast
qed

theorem simulator_drafts_prepare_witness:
  "let req = demo_request ''send the mail'' [];
       op = hd (dr_operations (the (rs_draft (projr (simulator_run (\<lambda>_. ''h'') False req)))))
   in \<exists>r\<in>set (rq_records req). prepares_on r op"
proof -
  let ?req = "demo_request ''send the mail'' []"
  let ?res = "projr (simulator_run (\<lambda>_. ''h'') False ?req)"
  let ?d = "the (rs_draft ?res)"
  have "simulator_run (\<lambda>_. ''h'') False ?req = Inr ?res" "rs_draft ?res = Some ?d"
    "hd (dr_operations ?d) \<in> set (dr_operations ?d)" by code_simp+
  then show ?thesis unfolding Let_def by (rule simulator_drafts_prepare)
qed

text \<open>
  C33. A clarification ends: the schema of the simulator's question passes the platform's check, and
  once an answer that the platform accepts for it is among the inputs, the run does not ask again.
\<close>

theorem clarification_ends:
  "validate_gate_schema (Some clarification_schema) = Inr () \<and>
   (validate_gate_response clarification_schema (Some (JObj kvs)) = Inr () \<longrightarrow>
      (\<forall>req earlier later res. rq_inputs req = earlier @ last_entries kvs @ later \<longrightarrow>
         simulator_run sha cancelled req = Inr res \<longrightarrow> rs_status res \<noteq> ''waiting''))"
proof (intro conjI impI allI)
  show "validate_gate_schema (Some clarification_schema) = Inr ()" by code_simp
  fix req earlier later res
  assume a: "validate_gate_response clarification_schema (Some (JObj kvs)) = Inr ()"
    and i: "rq_inputs req = earlier @ last_entries kvs @ later"
    and r: "simulator_run sha cancelled req = Inr res"
  have "parse_gate_schema clarification_schema = Some
      \<lparr>gs_properties = Some [(''supplier_email'', \<lparr>gf_type = ''string'', gf_items = None\<rparr>),
          (''quantity'', \<lparr>gf_type = ''integer'', gf_items = None\<rparr>)],
        gs_requested = None, gs_required = [''supplier_email'', ''quantity'']\<rparr>" by code_simp
  moreover have "clarification_schema \<noteq> JObj []" by (simp add: clarification_schema_def)
  ultimately have "{''supplier_email'', ''quantity''} \<subseteq> dom (map_of (last_entries kvs))"
    using a by (auto simp: accepted_iff)
  then have "{''supplier_email'', ''quantity''} \<subseteq> dom (map_of (rq_inputs req))" by (auto simp: i)
  then have "rs_status (clarify sha req) \<noteq> ''waiting''"
    by (auto simp: clarify_def answer_def failed_result_def succeeded_result_def split: option.splits)
  then show "rs_status res \<noteq> ''waiting''" using r
    by (auto simp: simulator_run_def Let_def split_beta failed_result_def succeeded_result_def
        split: if_split_asm option.splits)
qed

theorem clarification_ends_witness:
  "validate_gate_response clarification_schema (Some (JObj demo_inputs)) = Inr () \<and>
   (\<exists>res. simulator_run (\<lambda>_. ''h'') False (demo_request ''clarify'' demo_inputs) = Inr res \<and>
      rs_status res \<noteq> ''waiting'')"
proof -
  have a: "validate_gate_response clarification_schema (Some (JObj demo_inputs)) = Inr ()" by code_simp
  have i: "rq_inputs (demo_request ''clarify'' demo_inputs) = [] @ last_entries demo_inputs @ []" by code_simp
  obtain res where "simulator_run (\<lambda>_. ''h'') False (demo_request ''clarify'' demo_inputs) = Inr res"
    using simulator_answers by blast
  then show ?thesis
    using clarification_ends[of demo_inputs "\<lambda>_. ''h''" False] a i by blast
qed

text \<open>
  The keywords are not narrow: an intent that mentions the word task contains the keyword ask, so
  every such run of the simulator stops to ask although nothing is missing.
\<close>

lemma task_intent_asks:
  "contains_str (to_lower (rq_intent req)) ''task'' \<Longrightarrow> rq_inputs req = [] \<Longrightarrow>
     \<exists>res. simulator_run sha False req = Inr res \<and> rs_status res = ''waiting''"
proof -
  assume t: "contains_str (to_lower (rq_intent req)) ''task''" and i: "rq_inputs req = []"
  then obtain a b where "to_lower (rq_intent req) = a @ ''task'' @ b" by (auto simp: contains_str_iff)
  then have "to_lower (rq_intent req) = (a @ ''t'') @ ''ask'' @ b" by simp
  then have "contains_str (to_lower (rq_intent req)) ''ask''" unfolding contains_str_iff by blast
  then have "wants_clarification (to_lower (rq_intent req))" by (simp add: wants_clarification_def)
  then show ?thesis using i by (simp add: simulator_run_def Let_def clarify_def answer_def)
qed

lemma task_intent_asks_witness:
  "\<exists>res. simulator_run (\<lambda>_. ''h'') False (demo_request ''finish the task'' []) = Inr res \<and>
     rs_status res = ''waiting''"
  by (rule task_intent_asks) (code_simp, simp add: demo_request_def)

text \<open>
  The key of a drafted document or mail operation is not stable across runs: two runs with the
  same intent on the same records draft payloads that differ by the run's identifier, and their
  keys differ as soon as the hash prefixes of the two payloads do, so both are reserved.
\<close>

lemma document_keys_depend_on_run:
  assumes "r1 \<noteq> r2" "contains_str intent ''document'' \<or> contains_str intent ''mail''"
  defines "w \<equiv> simulated_work intent"
  shows "snd (snd (w r1)) \<noteq> snd (snd (w r2)) \<and>
    (take 16 (sha (snd (snd (w r1)))) \<noteq> take 16 (sha (snd (snd (w r2)))) \<longrightarrow>
       op_key (draft_op sha (fst (w r1)) (fst (snd (w r1))) x (snd (snd (w r1)))) \<noteq>
       op_key (draft_op sha (fst (w r2)) (fst (snd (w r2))) x (snd (snd (w r2)))))"
  using assms(1,2)
  by (auto simp: w_def simulated_work_def mail_payload_def draft_op_def business_fact_key_def)

lemma document_keys_depend_on_run_witness:
  "snd (snd (simulated_work ''document'' ''r1'')) \<noteq> snd (snd (simulated_work ''document'' ''r2''))"
proof -
  have "contains_str ''document'' ''document'' \<or> contains_str ''document'' ''mail''" by code_simp
  then show ?thesis using document_keys_depend_on_run[of "''r1''" "''r2''" "''document''"] by blast
qed

end
