(* ===== verification/Cli.thy ===== *)
theory Cli
  imports Simulator "HOL-Library.Monad_Syntax"
begin

text \<open>
  The configured command-line runner, \<^verbatim>\<open>internal/runner/cli.go\<close>: its configuration, the bounded capture
  of a harness's output, the extraction of the protocol document and the result of a run. The environment
  is a map from names to values, the file system the parameter \<open>stat\<close>, \<^verbatim>\<open>time.ParseDuration\<close> the
  parameter \<open>duration\<close> (in nanoseconds) and the text-to-value half of \<^verbatim>\<open>json.Unmarshal\<close> the parameter
  \<open>jparse\<close>; decoding a value into the protocol's structs is written out here. Strings are bytes, so invalid
  UTF-8 passes unchanged where the code would substitute U+FFFD.
\<close>

section \<open>Configuration\<close>

type_synonym environment = "string \<Rightarrow> string option"

definition getenv :: "environment \<Rightarrow> string \<Rightarrow> string" where
  "getenv env k = (case env k of None \<Rightarrow> [] | Some v \<Rightarrow> v)"

text \<open>\<^verbatim>\<open>strings.Split\<close> at one byte: one more piece than separators.\<close>

fun split_at :: "char \<Rightarrow> string \<Rightarrow> string list" where
  "split_at d [] = [[]]"
| "split_at d (c # s) =
     (if c = d then [] # split_at d s
      else case split_at d s of [] \<Rightarrow> [[c]] | p # ps \<Rightarrow> (c # p) # ps)"

definition split_list_words :: "string \<Rightarrow> string list" where
  "split_list_words s = filter (\<lambda>p. p \<noteq> []) (map trim_space (split_at CHR '','' s))"

definition is_digit :: "char \<Rightarrow> bool" where
  "is_digit c \<longleftrightarrow> CHR ''0'' \<le> c \<and> c \<le> CHR ''9''"

definition digits_value :: "string \<Rightarrow> int" where
  "digits_value ds = foldl (\<lambda>n c. n * 10 + (int (of_char c) - 48)) 0 ds"

text \<open>\<^verbatim>\<open>fmt.Sscanf\<close> with \<^verbatim>\<open>%d\<close>: an optional sign and the digits that follow; what comes after is not read.\<close>

definition parse_bytes :: "string \<Rightarrow> int option" where
  "parse_bytes s =
     (let t = trim_space s;
          sgn = (case t of c # _ \<Rightarrow> if c = CHR ''-'' then -1 else 1 | [] \<Rightarrow> 1);
          u = (case t of c # r \<Rightarrow> if c = CHR ''-'' \<or> c = CHR ''+'' then r else t | [] \<Rightarrow> []);
          ds = takeWhile is_digit u;
          n = sgn * digits_value ds
      in if ds = [] \<or> n < - (2 ^ 63) \<or> 2 ^ 63 \<le> n then None else Some n)"

datatype word_error = TrailingBackslash | UnbalancedQuote | EmptyWord

text \<open>
  The loop of \<^verbatim>\<open>splitWords\<close>: the rest of the line, the words so far, the current word, whether a word
  has begun and the open quote.
\<close>

fun split_loop ::
    "string \<Rightarrow> string list \<Rightarrow> string \<Rightarrow> bool \<Rightarrow> char option \<Rightarrow> word_error + string list" where
  "split_loop [] ws cur inw quote =
     (if quote \<noteq> None then Inl UnbalancedQuote
      else (let out = (if inw then ws @ [cur] else ws)
            in if [] \<in> set out then Inl EmptyWord else Inr out))"
| "split_loop (r # s) ws cur inw (Some q) =
     (if r = q then split_loop s ws cur inw None else split_loop s ws (cur @ [r]) inw (Some q))"
| "split_loop (r # s) ws cur inw None =
     (if r = CHR 0x5C
      then (case s of [] \<Rightarrow> Inl TrailingBackslash | c # s' \<Rightarrow> split_loop s' ws (cur @ [c]) True None)
      else if r = CHR 0x27 \<or> r = CHR 0x22 then split_loop s ws cur True (Some r)
      else if r = CHR '' '' \<or> r = CHR 0x09 \<or> r = CHR 0x0A
      then (if inw then split_loop s (ws @ [cur]) [] False None else split_loop s ws cur inw None)
      else split_loop s ws (cur @ [r]) True None)"

definition split_words :: "string \<Rightarrow> word_error + string list" where
  "split_words s = split_loop s [] [] False None"

record cli_runner =
  cl_name :: string
  cl_command :: "string list"
  cl_limit :: int
  cl_budget :: int
  cl_env :: "string list"
  cl_path :: string

definition default_runner_path :: string where
  "default_runner_path = ''/usr/local/bin:/usr/bin:/bin''"

definition second :: int where
  "second = 1000000000"

definition upper_char :: "char \<Rightarrow> char" where
  "upper_char c = (let n = of_char c :: nat in if 97 \<le> n \<and> n \<le> 122 then char_of (n - 32) else c)"

definition env_key :: "string \<Rightarrow> string" where
  "env_key i = map (\<lambda>c. upper_char (if c = CHR ''-'' then CHR ''_'' else c)) i"

definition runner_var :: "string \<Rightarrow> string \<Rightarrow> string" where
  "runner_var i suffix = ''WORKFORCE_RUNNER_CLI_'' @ env_key i @ suffix"

definition cli_config_of :: "(string \<Rightarrow> int option) \<Rightarrow> environment \<Rightarrow> string \<Rightarrow> cli_runner option" where
  "cli_config_of duration env i =
     (case split_words (getenv env (runner_var i ''_COMMAND'')) of
        Inl _ \<Rightarrow> None
      | Inr [] \<Rightarrow> None
      | Inr ws \<Rightarrow>
         (let path = getenv env (runner_var i ''_PATH'');
              timeout = (case duration (getenv env (runner_var i ''_TIMEOUT'')) of
                  None \<Rightarrow> 120 * second
                | Some d \<Rightarrow> if d \<le> 0 then 120 * second else min d (600 * second));
              limit = (case parse_bytes (getenv env (runner_var i ''_MAXOUTPUT'')) of
                  None \<Rightarrow> 2 ^ 20 | Some n \<Rightarrow> if 0 < n then n else 2 ^ 20)
          in Some \<lparr>cl_name = i, cl_command = ws, cl_limit = limit,
                   cl_budget = (if getenv env (runner_var i ''_TIMEOUT'') = [] then 120 * second else timeout),
                   cl_env = split_list_words (getenv env (runner_var i ''_ENV'')),
                   cl_path = (if path = [] then default_runner_path else path)\<rparr>))"

definition cli_configs :: "(string \<Rightarrow> int option) \<Rightarrow> environment \<Rightarrow> cli_runner list" where
  "cli_configs duration env =
     List.map_filter (cli_config_of duration env) (split_list_words (getenv env ''WORKFORCE_RUNNER_CLI_IDS''))"

section \<open>The executable\<close>

text \<open>\<^verbatim>\<open>filepath.Clean\<close> of a Unix path, on its segments; the stack is the cleaned path, reversed.\<close>

definition clean_step :: "bool \<Rightarrow> string \<Rightarrow> string list \<Rightarrow> string list" where
  "clean_step rooted seg st =
     (if seg = [] \<or> seg = ''.'' then st
      else if seg = ''..''
      then (case st of [] \<Rightarrow> if rooted then [] else [''..'']
                     | t # rest \<Rightarrow> if t = ''..'' then ''..'' # st else rest)
      else seg # st)"

definition clean_path :: "string \<Rightarrow> string" where
  "clean_path p =
     (let rooted = has_prefix p ''/'';
          body = join ''/'' (rev (fold (clean_step rooted) (split_at CHR ''/'' p) []))
      in if rooted then ''/'' @ body else if body = [] then ''.'' else body)"

record file_info =
  fi_dir :: bool
  fi_exec :: bool

definition resolve_binary :: "(string \<Rightarrow> file_info option) \<Rightarrow> string \<Rightarrow> string \<Rightarrow> err + string" where
  "resolve_binary stat cmd path_list =
     (if has_prefix cmd ''/''
      then (case stat cmd of
              Some f \<Rightarrow> if fi_dir f then Inl (Msg ''configured executable not found'') else Inr cmd
            | None \<Rightarrow> Inl (Msg ''configured executable not found''))
      else (case List.find (\<lambda>c. case stat c of None \<Rightarrow> False | Some f \<Rightarrow> \<not> fi_dir f \<and> fi_exec f)
                  (map (\<lambda>d. clean_path (d @ ''/'' @ cmd)) (filter (\<lambda>d. d \<noteq> []) (split_at CHR '':'' path_list))) of
              Some c \<Rightarrow> Inr c
            | None \<Rightarrow> Inl (Msg ''configured executable not found on the configured PATH'')))"

section \<open>Bounded capture\<close>

record cap_writer =
  cw_buf :: string
  cw_limit :: nat
  cw_overflowed :: bool

text \<open>The writer after a write, and whether the overflow was signalled.\<close>

definition cap_write :: "string \<Rightarrow> cap_writer \<Rightarrow> cap_writer \<times> bool" where
  "cap_write p w =
     (if cw_overflowed w then (w, False)
      else let remaining = int (cw_limit w) - int (length (cw_buf w))
           in if remaining \<le> 0 then (w\<lparr>cw_overflowed := True\<rparr>, True)
              else if remaining < int (length p)
              then (w\<lparr>cw_buf := cw_buf w @ take (nat remaining) p, cw_overflowed := True\<rparr>, True)
              else (w\<lparr>cw_buf := cw_buf w @ p\<rparr>, False))"

definition cap_all :: "nat \<Rightarrow> string list \<Rightarrow> cap_writer" where
  "cap_all limit ps = fold (\<lambda>p w. fst (cap_write p w)) ps \<lparr>cw_buf = [], cw_limit = limit, cw_overflowed = False\<rparr>"

definition tail_text :: "string \<Rightarrow> nat \<Rightarrow> string" where
  "tail_text s n = (if length s \<le> n then s else ''...'' @ drop (length s - n) s)"

section \<open>The protocol document\<close>

text \<open>
  Decoding an object into a struct: a field takes the values of all keys that equal its name up to the case of
  letters, in order. Null leaves a string or an integer as it is; a value of another type is an error.
  A repeated \<^verbatim>\<open>operations\<close> counts with its last value.
\<close>

definition field_values :: "string \<Rightarrow> jmap \<Rightarrow> json list" where
  "field_values n kvs = map snd (filter (\<lambda>kv. to_lower (fst kv) = n) kvs)"

definition str_value :: "json \<Rightarrow> string option" where
  "str_value v = (case v of JStr s \<Rightarrow> Some s | _ \<Rightarrow> None)"

definition int_value :: "json \<Rightarrow> int option" where
  "int_value v = (case v of
     JNum (IntLit i) \<Rightarrow> if - (2 ^ 63) \<le> i \<and> i < 2 ^ 63 then Some i else None | _ \<Rightarrow> None)"

definition bool_value :: "json \<Rightarrow> bool option" where
  "bool_value v = (case v of JBool b \<Rightarrow> Some b | _ \<Rightarrow> None)"

text \<open>A field of a plain type, with its zero value, and a pointer to one.\<close>

definition scalar_field :: "(json \<Rightarrow> 'a option) \<Rightarrow> 'a \<Rightarrow> string \<Rightarrow> jmap \<Rightarrow> 'a option" where
  "scalar_field read zero n kvs =
     map_option (\<lambda>xs. last (zero # xs)) (those (map read (filter (\<lambda>v. v \<noteq> JNull) (field_values n kvs))))"

definition pointer_field :: "(json \<Rightarrow> 'a option) \<Rightarrow> string \<Rightarrow> jmap \<Rightarrow> 'a option option" where
  "pointer_field read n kvs =
     map_option (\<lambda>xs. last (None # xs))
       (those (map (\<lambda>v. if v = JNull then Some None else map_option Some (read v)) (field_values n kvs)))"

text \<open>A \<^verbatim>\<open>json.RawMessage\<close> field keeps any value; \<open>None\<close> is the nil one.\<close>

definition raw_field :: "string \<Rightarrow> jmap \<Rightarrow> json option" where
  "raw_field n kvs = last (None # map Some (field_values n kvs))"

record cli_op =
  co_integration :: string
  co_action :: string
  co_key :: string
  co_target :: string
  co_version :: int
  co_payload :: "json option"

record cli_gate =
  cg_kind :: string
  cg_prompt :: string
  cg_schema :: "json option"

record cli_reply =
  rp_status :: string
  rp_summary :: string
  rp_failure :: string
  rp_operations :: "cli_op list"
  rp_gate :: "cli_gate option"

definition decode_op :: "json \<Rightarrow> cli_op option" where
  "decode_op v =
     do { kvs \<leftarrow> as_map v;
          integration \<leftarrow> scalar_field str_value [] ''integration'' kvs;
          action \<leftarrow> scalar_field str_value [] ''action'' kvs;
          key \<leftarrow> scalar_field str_value [] ''business_key'' kvs;
          target \<leftarrow> scalar_field str_value [] ''target_id'' kvs;
          version \<leftarrow> scalar_field int_value 0 ''expected_version'' kvs;
          Some \<lparr>co_integration = integration, co_action = action, co_key = key, co_target = target,
                co_version = version, co_payload = raw_field ''payload'' kvs\<rparr> }"

definition decode_ops :: "json \<Rightarrow> cli_op list option" where
  "decode_ops v = (case v of JNull \<Rightarrow> Some [] | JArr vs \<Rightarrow> those (map decode_op vs) | _ \<Rightarrow> None)"

text \<open>Objects for the same pointer are decoded into the same struct, one after the other, until a null.\<close>

definition merge_objects :: "json list \<Rightarrow> jmap option option" where
  "merge_objects vs = fold (\<lambda>v acc. case (acc, v) of
       (None, _) \<Rightarrow> None
     | (Some m, JNull) \<Rightarrow> Some None
     | (Some m, JObj kvs) \<Rightarrow> Some (Some (case m of None \<Rightarrow> kvs | Some m' \<Rightarrow> m' @ kvs))
     | _ \<Rightarrow> None) vs (Some None)"

definition decode_gate :: "jmap \<Rightarrow> cli_gate option" where
  "decode_gate kvs =
     do { kind \<leftarrow> scalar_field str_value [] ''kind'' kvs;
          prompt \<leftarrow> scalar_field str_value [] ''prompt'' kvs;
          Some \<lparr>cg_kind = kind, cg_prompt = prompt, cg_schema = raw_field ''input_schema'' kvs\<rparr> }"

definition decode_reply :: "json \<Rightarrow> cli_reply option" where
  "decode_reply v =
     do { kvs \<leftarrow> as_map v;
          status \<leftarrow> scalar_field str_value [] ''status'' kvs;
          summary \<leftarrow> scalar_field str_value [] ''summary'' kvs;
          failure \<leftarrow> scalar_field str_value [] ''failure_reason'' kvs;
          all_ops \<leftarrow> those (map decode_ops (field_values ''operations'' kvs));
          gm \<leftarrow> merge_objects (field_values ''gate'' kvs);
          gate \<leftarrow> (case gm of None \<Rightarrow> Some None | Some m \<Rightarrow> map_option Some (decode_gate m));
          Some \<lparr>rp_status = status, rp_summary = summary, rp_failure = failure,
                rp_operations = last ([] # all_ops), rp_gate = gate\<rparr> }"

definition statuses :: "string list" where
  "statuses = [''succeeded'', ''waiting'', ''failed'']"

definition failed_reply :: cli_reply where
  "failed_reply = \<lparr>rp_status = ''failed'', rp_summary = [], rp_failure = ''harness_reported_error'',
     rp_operations = [], rp_gate = None\<rparr>"

text \<open>What an envelope says of itself; an envelope whose three fields do not all decode says nothing.\<close>

definition reports_error :: "json \<Rightarrow> bool" where
  "reports_error v =
     (case do { kvs \<leftarrow> as_map v;
                e \<leftarrow> pointer_field bool_value ''is_error'' kvs;
                sub \<leftarrow> scalar_field str_value [] ''subtype'' kvs;
                c \<leftarrow> pointer_field int_value ''exit_code'' kvs;
                Some (e, sub) } of
        None \<Rightarrow> False
      | Some (e, sub) \<Rightarrow> e = Some True \<or> has_prefix sub ''error'')"

text \<open>The first value a list of texts yields.\<close>

fun first_some :: "('a \<Rightarrow> 'b option) \<Rightarrow> 'a list \<Rightarrow> 'b option" where
  "first_some f [] = None"
| "first_some f (x # xs) = (case f x of Some y \<Rightarrow> Some y | None \<Rightarrow> first_some f xs)"

definition opens_object :: "string \<Rightarrow> bool" where
  "opens_object t \<longleftrightarrow> (case t of c # _ \<Rightarrow> c = CHR ''{'' | [] \<Rightarrow> False)"

definition object_lines :: "string \<Rightarrow> string list" where
  "object_lines t = filter opens_object (map trim_space (split_at CHR 0x0A t))"

text \<open>\<open>n\<close> is the number of envelopes that may still be opened.\<close>

primrec try_decode :: "(string \<Rightarrow> json option) \<Rightarrow> nat \<Rightarrow> json \<Rightarrow> cli_reply option" where
  "try_decode jparse 0 v =
     (case decode_reply v of None \<Rightarrow> None | Some r \<Rightarrow> if rp_status r \<in> set statuses then Some r else None)"
| "try_decode jparse (Suc n) v =
     (case decode_reply v of
        None \<Rightarrow> None
      | Some r \<Rightarrow>
          if rp_status r \<in> set statuses then Some r
          else if reports_error v then Some failed_reply
          else (case Option.bind (as_map v) (\<lambda>kvs. map_of (rev kvs) ''result'') of
            None \<Rightarrow> None
          | Some f \<Rightarrow> (case try_decode jparse n f of
              Some r \<Rightarrow> Some r
            | None \<Rightarrow> (case f of
                JStr t \<Rightarrow>
                 (let body = trim_space t;
                      read = (\<lambda>l. Option.bind (jparse l) (try_decode jparse n))
                  in if opens_object body then first_some read (body # object_lines body) else None)
              | _ \<Rightarrow> None))))"

definition max_unwrap_depth :: nat where
  "max_unwrap_depth = 3"

definition decode_text :: "(string \<Rightarrow> json option) \<Rightarrow> string \<Rightarrow> cli_reply option" where
  "decode_text jparse t = Option.bind (jparse t) (try_decode jparse max_unwrap_depth)"

text \<open>The loop over the lines of an event stream: the last reply, and whether a failure was seen.\<close>

definition stream_step :: "cli_reply \<Rightarrow> cli_reply option \<times> bool \<Rightarrow> cli_reply option \<times> bool" where
  "stream_step r acc =
     (let (found, failed) = acc
      in if rp_status r = ''failed'' then (Some r, True) else if failed then acc else (Some r, False))"

definition extract_protocol :: "(string \<Rightarrow> json option) \<Rightarrow> string \<Rightarrow> err + cli_reply" where
  "extract_protocol jparse raw =
     (let t = trim_space raw
      in if t = [] then Inl (Msg ''empty output'')
         else case decode_text jparse t of
           Some r \<Rightarrow> Inr r
         | None \<Rightarrow>
            (case fst (fold stream_step (List.map_filter (decode_text jparse) (object_lines t)) (None, False)) of
               Some r \<Rightarrow> Inr r
             | None \<Rightarrow> Inl (Msg ''no protocol document found in harness output'')))"

section \<open>The instructions a harness is given\<close>

text \<open>The texts of the source, a backquote standing for the quotation mark in them.\<close>

definition qt :: "string \<Rightarrow> string" where
  "qt t = map (\<lambda>c. if c = CHR 0x60 then CHR 0x22 else c) t"

definition nl :: string where
  "nl = [CHR 0x0A]"

definition field_text :: "field \<Rightarrow> string" where
  "field_text f = fd_name f @ '' ('' @ fd_type f @ '')''"

definition optional_text :: "field \<Rightarrow> string" where
  "optional_text f = field_text f @ (if fd_note f = [] then [] else '' - '' @ fd_note f)"

definition action_text :: "manifest \<Rightarrow> string \<Rightarrow> string" where
  "action_text m a =
     (let req = map field_text (filter fd_required (mf_fields m));
          opt = map optional_text (filter (\<lambda>f. \<not> fd_required f) (mf_fields m))
      in qt ''- integration `'' @ mf_id m @ qt ''`, action `'' @ a @ qt ''`: required payload fields: '' @
         join '', '' req @ nl @
         (if opt = [] then [] else ''    optional: '' @ join '', '' opt @ nl) @
         ''    payload must contain NO other fields'' @ nl)"

definition instructions_head :: string where
  "instructions_head =
     ''You are preparing work for human review. You cannot execute anything.'' @ nl @ nl @
     ''Reply on stdout with ONE JSON object and nothing else, in exactly one of these shapes:'' @ nl @ nl @
     qt ''{`status`:`succeeded`,`summary`:`<short description>`,`operations`:[{`integration`:`<name>`,`action`:`<name>`,`business_key`:`<stable id>`,`target_id`:`<record id>`,`expected_version`:<int>,`payload`:{...}}]}'' @ nl @ nl @
     qt ''{`status`:`waiting`,`summary`:`<why you are asking>`,`gate`:{`kind`:`clarification|selection|missing_information`,`prompt`:`<question>`,`input_schema`:{`properties`:{`field`:{`type`:`string|integer|number|boolean`}},`required`:[`field`]}}}'' @ nl @ nl @
     qt ''{`status`:`failed`,`failure_reason`:`<short public code>`}'' @ nl @ nl @
     ''Accepted operations and their REQUIRED payload fields:'' @ nl"

definition instructions_rules :: string where
  "instructions_rules =
     nl @ ''Rules:'' @ nl @
     qt ''- Propose work only against the records supplied in `records`; never invent an id.'' @ nl @
     ''- expected_version must be the version you were given for that record.'' @ nl @
     qt ''- business_key must identify the REAL-WORLD operation (for example `supplier-followup:ACME-2026-0042`) so the same real operation cannot be applied twice. It must NOT contain this run's id.'' @ nl @
     qt ''- If you need information you do not have, reply `waiting` with a gate. Do not guess.'' @ nl @
     ''- You cannot approve, endorse or execute anything; a human does that.'' @ nl @
     ''- Write nothing but the JSON object to stdout. Diagnostics may go to stderr.'' @ nl"

definition harness_instructions :: string where
  "harness_instructions = instructions_head @
     concat (map (\<lambda>m. concat (map (action_text m) (mf_actions m))) registry_list) @ instructions_rules"

lemma instructions_complete:
  assumes "m \<in> set registry_list" "a \<in> set (mf_actions m)"
  shows "\<exists>u v. harness_instructions = u @ action_text m a @ v"
proof -
  have part: "\<exists>u v. concat (map f xs) = u @ f x @ v" if "x \<in> set xs" for f :: "'b \<Rightarrow> string" and x xs
    using split_list[OF that] by (auto, metis append.assoc)
  obtain u v where m: "concat (map (\<lambda>m. concat (map (action_text m) (mf_actions m))) registry_list) =
      u @ concat (map (action_text m) (mf_actions m)) @ v" using part[OF assms(1)] by blast
  obtain p q where a: "concat (map (action_text m) (mf_actions m)) = p @ action_text m a @ q"
    using part[OF assms(2)] by blast
  show ?thesis unfolding harness_instructions_def m a by (metis append.assoc)
qed

section \<open>The result of a run\<close>

definition max_cli_operations :: nat where
  "max_cli_operations = 8"

definition blank :: "string \<Rightarrow> bool" where
  "blank t \<longleftrightarrow> trim_space t = []"

definition convert_op :: "id \<Rightarrow> (nat \<Rightarrow> id) \<Rightarrow> nat \<Rightarrow> cli_op \<Rightarrow> err + operation" where
  "convert_op run_id f n c =
     (if blank (co_integration c) \<or> blank (co_action c) \<or> blank (co_target c) \<or> blank (co_key c)
      then Inl (Msg ''incomplete operation'')
      else if co_version c < 1 then Inl (Msg ''unversioned operation'')
      else if run_id \<noteq> [] \<and> contains_str (co_key c) run_id
      then Inl (Msg ''business key must identify the real operation, not this run'')
      else case co_payload c of
        None \<Rightarrow> Inl (Msg ''invalid payload'')
      | Some v \<Rightarrow> Inr \<lparr>op_id = f n, op_integration = co_integration c, op_action = co_action c,
                       op_key = co_key c, op_target = co_target c, op_version = co_version c,
                       op_payload = Some v\<rparr>)"

fun convert_ops :: "id \<Rightarrow> (nat \<Rightarrow> id) \<Rightarrow> nat \<Rightarrow> cli_op list \<Rightarrow> err + operation list" where
  "convert_ops run_id f n [] = Inr []"
| "convert_ops run_id f n (c # cs) =
     (case convert_op run_id f n c of
        Inl e \<Rightarrow> Inl e
      | Inr x \<Rightarrow> (case convert_ops run_id f (Suc n) cs of Inl e \<Rightarrow> Inl e | Inr xs \<Rightarrow> Inr (x # xs)))"

definition to_draft :: "string \<Rightarrow> (nat \<Rightarrow> id) \<Rightarrow> cli_reply \<Rightarrow> id \<Rightarrow> err + proposal_draft" where
  "to_draft runner_id f r run_id =
     (if rp_operations r = [] then Inl (Msg ''no operations'')
      else if length (rp_operations r) > max_cli_operations then Inl (Msg ''too many operations'')
      else case convert_ops run_id f 0 (rp_operations r) of
        Inl e \<Rightarrow> Inl e
      | Inr ops \<Rightarrow>
         (let summary = trim_space (rp_summary r)
          in Inr \<lparr>dr_summary = (if summary = [] then ''Prepared by '' @ runner_id else summary),
                  dr_operations = ops\<rparr>))"

definition normalize_gate_kind :: "string \<Rightarrow> string" where
  "normalize_gate_kind k =
     (if k \<in> {''clarification'', ''selection'', ''missing_information''} then k else ''missing_information'')"

definition reason_char :: "char \<Rightarrow> bool" where
  "reason_char r \<longleftrightarrow> r = CHR ''_'' \<or> r = CHR ''-'' \<or> r = CHR ''.'' \<or> (CHR ''a'' \<le> r \<and> r \<le> CHR ''z'') \<or>
     (CHR ''A'' \<le> r \<and> r \<le> CHR ''Z'') \<or> (CHR ''0'' \<le> r \<and> r \<le> CHR ''9'')"

definition sanitize_reason :: "string \<Rightarrow> string" where
  "sanitize_reason s =
     (let t = (if length s > 64 then take 64 s else s)
      in if list_all reason_char t then t else ''invalid_output'')"

definition reply_result :: "string \<Rightarrow> (nat \<Rightarrow> id) \<Rightarrow> id \<Rightarrow> cli_reply \<Rightarrow> run_result" where
  "reply_result runner_id f run_id r =
     (if rp_status r = ''succeeded''
      then (case to_draft runner_id f r run_id of
              Inl _ \<Rightarrow> failed_result ''invalid_output''
            | Inr d \<Rightarrow> \<lparr>rs_status = ''succeeded'', rs_failure = [], rs_draft = Some d, rs_gate = None\<rparr>)
      else if rp_status r = ''waiting''
      then (case rp_gate r of
              None \<Rightarrow> failed_result ''invalid_output''
            | Some g \<Rightarrow>
                if blank (cg_prompt g) then failed_result ''invalid_output''
                else \<lparr>rs_status = ''waiting'', rs_failure = [], rs_draft = None,
                       rs_gate = Some \<lparr>gq_kind = normalize_gate_kind (cg_kind g), gq_prompt = cg_prompt g,
                                      gq_schema = map_option Some (cg_schema g), gq_respondent = []\<rparr>\<rparr>)
      else if rp_status r = ''failed''
      then (let reason = trim_space (rp_failure r)
            in failed_result (sanitize_reason (if reason = [] then ''invalid_output'' else reason)))
      else failed_result ''invalid_output'')"

text \<open>
  What a run meets outside of the code: the operator's acknowledgement, the file system, whether the work
  directories and the process could be created, the writes of the process to its standard output, whether
  the time ran out before it ended and whether it exited without an error.
\<close>

record cli_world =
  wd_env :: environment
  wd_stat :: "string \<Rightarrow> file_info option"
  wd_root_ok :: bool
  wd_scratch_ok :: bool
  wd_start_ok :: bool
  wd_writes :: "string list"
  wd_timeout :: bool
  wd_exit_ok :: bool

definition isolation_acknowledged :: "environment \<Rightarrow> bool" where
  "isolation_acknowledged env \<longleftrightarrow>
     (let v = trim_space (getenv env ''WORKFORCE_RUNNER_ALLOW_UNISOLATED'') in v = ''1'' \<or> to_lower v = ''true'')"

definition cli_run ::
    "(string \<Rightarrow> json option) \<Rightarrow> (nat \<Rightarrow> id) \<Rightarrow> cli_runner \<Rightarrow> run_request \<Rightarrow> cli_world \<Rightarrow> run_result" where
  "cli_run jparse f c req w =
     (if \<not> isolation_acknowledged (wd_env w) then failed_result ''isolation_required''
      else case resolve_binary (wd_stat w) (hd (cl_command c)) (cl_path c) of
        Inl _ \<Rightarrow> failed_result ''harness_unavailable''
      | Inr bin \<Rightarrow>
          if \<not> wd_root_ok w \<or> \<not> wd_scratch_ok w then failed_result ''internal_error''
          else if \<not> wd_start_ok w then failed_result ''harness_unavailable''
          else
           (let out = cap_all (nat (cl_limit c)) (wd_writes w)
            in if cw_overflowed out then failed_result ''output_overflow''
               else if wd_timeout w then failed_result ''timeout''
               else if \<not> wd_exit_ok w then failed_result ''nonzero_exit''
               else (case extract_protocol jparse (cw_buf out) of
                       Inl _ \<Rightarrow> failed_result ''invalid_output''
                     | Inr r \<Rightarrow> reply_result (cl_name c) f (rq_run req) r)))"

text \<open>The environment of the process: the configured path, its scratch directory and the allowed names that are set.\<close>

definition child_env :: "cli_runner \<Rightarrow> string \<Rightarrow> environment \<Rightarrow> (string \<times> string) list" where
  "child_env c scratch env =
     [(''PATH'', cl_path c), (''HOME'', scratch)] @
     List.map_filter (\<lambda>n. map_option (\<lambda>v. (n, v)) (env n)) (cl_env c)"

section \<open>Splitting a command line\<close>

definition quote_word :: "string \<Rightarrow> string" where
  "quote_word w = concat (map (\<lambda>c. [CHR 0x5C, c]) w)"

lemma split_loop_quoted:
  "split_loop (quote_word w @ rest) ws cur inw None = split_loop rest ws (cur @ w) (inw \<or> w \<noteq> []) None"
  by (induction w arbitrary: cur inw) (auto simp: quote_word_def)

lemma split_loop_join:
  assumes "[] \<notin> set (w # us)"
  shows "split_loop (join '' '' (map quote_word (w # us))) ws [] False None = split_loop [] (ws @ butlast (w # us)) (last (w # us)) True None"
  using assms
proof (induction us arbitrary: w ws)
  case Nil
  then show ?case using split_loop_quoted[of w "[]" ws "[]" False] by simp
next
  case (Cons u us)
  have "split_loop (join '' '' (map quote_word (w # u # us))) ws [] False None =
      split_loop ('' '' @ join '' '' (map quote_word (u # us))) ws w True None"
    using Cons.prems split_loop_quoted[of w "'' '' @ join '' '' (map quote_word (u # us))" ws "[]" False]
    by (cases w) simp_all
  also have "\<dots> = split_loop (join '' '' (map quote_word (u # us))) (ws @ [w]) [] False None" by simp
  also have "\<dots> = split_loop [] (ws @ w # butlast (u # us)) (last (u # us)) True None"
    using Cons.IH[of u "ws @ [w]"] Cons.prems by simp
  finally show ?case by simp
qed

lemma split_loop_nonempty: "split_loop s ws cur inw q = Inr out \<Longrightarrow> [] \<notin> set out"
  by (induction s ws cur inw q rule: split_loop.induct) (auto simp: Let_def split: if_split_asm list.splits)

section \<open>Bounded capture keeps a prefix\<close>

lemma cap_fold:
  assumes "[] \<notin> set ps" "cw_buf w = take (cw_limit w) t" "cw_overflowed w \<longleftrightarrow> cw_limit w < length t"
  shows "let v = fold (\<lambda>p w. fst (cap_write p w)) ps w in cw_limit v = cw_limit w \<and>
     cw_buf v = take (cw_limit w) (t @ concat ps) \<and> (cw_overflowed v \<longleftrightarrow> cw_limit w < length (t @ concat ps))"
  using assms
proof (induction ps arbitrary: w t)
  case (Cons p ps)
  let ?w = "fst (cap_write p w)"
  have p: "0 < length p" using Cons.prems(1) by auto
  have w: "cw_limit ?w = cw_limit w" "cw_buf ?w = take (cw_limit w) (t @ p)"
    "cw_overflowed ?w \<longleftrightarrow> cw_limit w < length (t @ p)"
    using p Cons.prems(2,3) by (auto simp: cap_write_def Let_def min_def nat_diff_distrib)
  show ?case using Cons.IH[of ?w "t @ p"] w Cons.prems(1) by simp
qed simp

section \<open>Checks of drafts and reasons\<close>

definition sound_op :: "id \<Rightarrow> operation \<Rightarrow> bool" where
  "sound_op run_id x \<longleftrightarrow> \<not> blank (op_integration x) \<and> \<not> blank (op_action x) \<and> \<not> blank (op_target x) \<and>
     \<not> blank (op_key x) \<and> 1 \<le> op_version x \<and> (run_id \<noteq> [] \<longrightarrow> \<not> contains_str (op_key x) run_id) \<and>
     op_payload x \<noteq> None"

lemma convert_op_sound: "convert_op run_id f n c = Inr x \<Longrightarrow> sound_op run_id x"
  by (auto simp: convert_op_def sound_op_def split: if_split_asm option.splits)

lemma convert_ops_sound:
  "convert_ops run_id f n cs = Inr xs \<Longrightarrow> length xs = length cs \<and> list_all (sound_op run_id) xs"
proof (induction cs arbitrary: n xs)
  case (Cons c cs)
  then obtain x ys where "convert_op run_id f n c = Inr x" "convert_ops run_id f (Suc n) cs = Inr ys" "xs = x # ys"
    by (auto split: sum.splits)
  then show ?case using Cons.IH convert_op_sound by auto
qed simp

lemma to_draft_sound:
  assumes "to_draft i f r run_id = Inr d"
  shows "dr_operations d \<noteq> [] \<and> length (dr_operations d) \<le> 8 \<and> list_all (sound_op run_id) (dr_operations d)"
  using assms convert_ops_sound[of run_id f 0 "rp_operations r"]
  by (auto simp: to_draft_def max_cli_operations_def Let_def split: if_split_asm sum.splits)

definition public_reason :: "string \<Rightarrow> bool" where
  "public_reason t \<longleftrightarrow> t \<noteq> [] \<and> length t \<le> 64 \<and> list_all reason_char t"

lemma public_codes:
  "list_all public_reason [''isolation_required'', ''harness_unavailable'', ''internal_error'', ''output_overflow'',
     ''timeout'', ''nonzero_exit'', ''invalid_output'']"
  by code_simp

lemma sanitize_public: "t \<noteq> [] \<Longrightarrow> public_reason (sanitize_reason t)"
  using public_codes by (auto simp: sanitize_reason_def public_reason_def Let_def)

text \<open>The shape of an honest result.\<close>

definition result_ok :: "id \<Rightarrow> run_result \<Rightarrow> bool" where
  "result_ok run_id res \<longleftrightarrow>
     (rs_status res = ''failed'' \<and> public_reason (rs_failure res) \<and> rs_draft res = None \<and> rs_gate res = None) \<or>
     (rs_status res = ''waiting'' \<and> rs_draft res = None \<and>
        (\<exists>g. rs_gate res = Some g \<and> gq_kind g \<in> set gate_kinds \<and> \<not> blank (gq_prompt g) \<and> gq_respondent g = [])) \<or>
     (rs_status res = ''succeeded'' \<and> rs_gate res = None \<and>
        (\<exists>d. rs_draft res = Some d \<and> dr_operations d \<noteq> [] \<and> length (dr_operations d) \<le> 8 \<and>
           list_all (sound_op run_id) (dr_operations d)))"

lemma failed_ok: "public_reason c \<Longrightarrow> result_ok run_id (failed_result c)"
  by (simp add: result_ok_def failed_result_def)

lemma reply_result_ok: "result_ok run_id (reply_result i f run_id r)"
proof -
  have k: "normalize_gate_kind k \<in> set gate_kinds" for k by (simp add: normalize_gate_kind_def gate_kinds_def)
  have inv: "result_ok run_id (failed_result ''invalid_output'')" using public_codes by (simp add: failed_ok)
  show ?thesis
  proof (cases "rp_status r = ''succeeded''")
    case True
    then show ?thesis using inv to_draft_sound[of i f r run_id]
      by (auto simp: reply_result_def result_ok_def split: sum.splits)
  next
    case False
    have "result_ok run_id (failed_result (sanitize_reason (if t = [] then ''invalid_output'' else t)))" for t
      by (rule failed_ok[OF sanitize_public]) simp
    moreover have "result_ok run_id \<lparr>rs_status = ''waiting'', rs_failure = [], rs_draft = None,
        rs_gate = Some \<lparr>gq_kind = normalize_gate_kind a, gq_prompt = b, gq_schema = c, gq_respondent = []\<rparr>\<rparr>"
      if "\<not> blank b" for a b c using that k by (simp add: result_ok_def)
    ultimately show ?thesis using False inv
      unfolding reply_result_def Let_def by (simp split: option.split del: list.map)
  qed
qed

section \<open>Properties\<close>

text \<open>
  Words survive quoting: a command line that quotes each byte of its words with a backslash is split into
  exactly these words, so no byte of a configured argument has another meaning; and no splitting yields an
  empty word.
\<close>

lemma split_words_roundtrip:
  "([] \<notin> set ws \<longrightarrow> split_words (join '' '' (map quote_word ws)) = Inr ws) \<and>
   (split_words s = Inr us \<longrightarrow> [] \<notin> set us)"
proof (intro conjI impI)
  assume "[] \<notin> set ws"
  then show "split_words (join '' '' (map quote_word ws)) = Inr ws"
  proof (cases ws)
    case (Cons w us)
    have "butlast (w # us) @ [last (w # us)] = w # us" by (rule append_butlast_last_id) simp
    then show ?thesis using split_loop_join[of w us "[]"] \<open>[] \<notin> set ws\<close>
      unfolding split_words_def Cons by (simp add: Let_def del: butlast.simps last.simps)
  qed (simp add: split_words_def)
qed (simp add: split_words_def split_loop_nonempty)

lemma split_words_roundtrip_witness:
  "split_words (join '' '' (map quote_word [''a b'', [CHR 0x27, CHR 0x5C]])) = Inr [''a b'', [CHR 0x27, CHR 0x5C]]"
  using split_words_roundtrip[of "[''a b'', [CHR 0x27, CHR 0x5C]]"] by simp

text \<open>
  The captured output is the first \<open>limit\<close> bytes of what the process wrote, however it was cut into
  writes, and the overflow is noticed exactly when there was more.
\<close>

lemma capture_exact:
  assumes "[] \<notin> set ps"
  shows "cw_buf (cap_all limit ps) = take limit (concat ps) \<and>
    (cw_overflowed (cap_all limit ps) \<longleftrightarrow> limit < length (concat ps))"
  using cap_fold[OF assms, of "\<lparr>cw_buf = [], cw_limit = limit, cw_overflowed = False\<rparr>" "[]"]
  by (simp add: cap_all_def Let_def)

lemma capture_exact_witness:
  "cw_buf (cap_all 3 [''ab'', ''cd'']) = ''abc'' \<and> cw_overflowed (cap_all 3 [''ab'', ''cd''])"
  using capture_exact[of "[''ab'', ''cd'']" 3] by simp

text \<open>
  C39. Whatever a harness does, the platform sees one of three results: a failure with a short public code and
  nothing else, a question of an accepted kind with a prompt and without a respondent of the harness's choice,
  or a draft of one to eight complete, versioned operations whose business keys do not name the run.
\<close>

theorem cli_result_ok: "result_ok (rq_run req) (cli_run jparse f c req w)"
proof -
  have "result_ok (rq_run req) (failed_result code)" if "code \<in> set [''isolation_required'', ''harness_unavailable'',
      ''internal_error'', ''output_overflow'', ''timeout'', ''nonzero_exit'', ''invalid_output'']" for code
    using that public_codes failed_ok unfolding list_all_iff by blast
  then show ?thesis using reply_result_ok
    unfolding cli_run_def Let_def by (auto split: sum.split)
qed

lemma stream_failed:
  "snd acc \<Longrightarrow> (\<exists>r. fst acc = Some r \<and> rp_status r = ''failed'') \<Longrightarrow>
   \<exists>r. fst (fold stream_step rs acc) = Some r \<and> rp_status r = ''failed''"
  by (induction rs arbitrary: acc) (auto simp: stream_step_def split: prod.splits)

lemma stream_failure:
  "r \<in> set rs \<Longrightarrow> rp_status r = ''failed'' \<Longrightarrow>
   \<exists>q. fst (fold stream_step rs acc) = Some q \<and> rp_status q = ''failed''"
proof (induction rs arbitrary: acc)
  case (Cons x rs)
  show ?case
  proof (cases "x = r")
    case True
    have "stream_step r acc = (Some r, True)" using Cons.prems(2) by (simp add: stream_step_def split: prod.split)
    then show ?thesis using stream_failed[of "(Some r, True)" rs] Cons.prems(2) True by simp
  next
    case False
    then show ?thesis using Cons by simp
  qed
qed simp

text \<open>
  C40. In an event stream a failure wins: if the output is no document as a whole and one of its lines reports a
  failure, the reply is a failure, also when another line reports a success after it.
\<close>

theorem failure_wins:
  assumes "decode_text jparse (trim_space raw) = None" "l \<in> set (object_lines (trim_space raw))"
    "decode_text jparse l = Some r" "rp_status r = ''failed''"
  shows "\<exists>q. extract_protocol jparse raw = Inr q \<and> rp_status q = ''failed''"
proof -
  have "r \<in> set (List.map_filter (decode_text jparse) (object_lines (trim_space raw)))"
    using assms(2,3) by (force simp: map_filter_def)
  then obtain q where q: "fst (fold stream_step (List.map_filter (decode_text jparse) (object_lines (trim_space raw)))
      (None, False)) = Some q" "rp_status q = ''failed''"
    using stream_failure[OF _ assms(4)] by blast
  have "object_lines [] = []" by code_simp
  then have "trim_space raw \<noteq> []" using assms(2) by auto
  then show ?thesis using assms(1) q by (simp add: extract_protocol_def Let_def)
qed

text \<open>Two events, read by a parser that knows the two lines.\<close>

definition demo_line :: "string \<Rightarrow> string" where
  "demo_line t = ''{'' @ t"

definition demo_jparse :: "string \<Rightarrow> json option" where
  "demo_jparse t =
     (if t = demo_line ''F'' then Some (JObj [(''status'', JStr ''failed''), (''failure_reason'', JStr ''no'')])
      else if t = demo_line ''S'' then Some (JObj [(''status'', JStr ''succeeded'')]) else None)"

definition demo_stream :: string where
  "demo_stream = demo_line ''F'' @ [CHR 0x0A] @ demo_line ''S''"

theorem failure_wins_witness:
  "\<exists>q. extract_protocol demo_jparse demo_stream = Inr q \<and> rp_status q = ''failed''"
proof (rule failure_wins)
  show "decode_text demo_jparse (trim_space demo_stream) = None" by code_simp
  show "demo_line ''F'' \<in> set (object_lines (trim_space demo_stream))" by code_simp
  show "decode_text demo_jparse (demo_line ''F'') =
      Some \<lparr>rp_status = ''failed'', rp_summary = [], rp_failure = ''no'', rp_operations = [], rp_gate = None\<rparr>"
    by code_simp
qed simp

text \<open>
  Not so inside of an envelope: there the first line that decodes counts, so the success before a failure is taken.
\<close>

lemma wrapped_failure_loses:
  "\<exists>q. decode_text (\<lambda>t. if t = ''E'' then Some (JObj [(''result'', JStr (demo_line ''S'' @ [CHR 0x0A] @ demo_line ''F''))])
      else demo_jparse t) ''E'' = Some q \<and> rp_status q = ''succeeded''"
  by (rule exI, rule conjI, code_simp) code_simp

text \<open>
  An envelope that reports an error is opened all the same when its exit code is not an integer: the three fields
  that tell of the failure are only read together.
\<close>

lemma failed_envelope_opened:
  "\<exists>q. try_decode jparse 1 (JObj [(''is_error'', JBool True), (''exit_code'', JStr ''1''),
       (''result'', JObj [(''status'', JStr ''succeeded'')])]) = Some q \<and> rp_status q = ''succeeded''"
  by (rule exI, rule conjI, code_simp) code_simp

text \<open>
  The configuration is bounded: every configured runner has a command without empty words, a positive time
  limit of at most ten minutes and a positive output limit, and its executable is an absolute path or one found
  in a directory of its own search path.
\<close>

lemma cli_configs_bounded:
  assumes "c \<in> set (cli_configs duration env)"
  shows "cl_command c \<noteq> [] \<and> [] \<notin> set (cl_command c) \<and> 0 < cl_budget c \<and> cl_budget c \<le> 600 * second \<and> 0 < cl_limit c"
proof -
  obtain i where "cli_config_of duration env i = Some c"
    using assms by (force simp: cli_configs_def map_filter_def)
  then show ?thesis
    by (auto simp: cli_config_of_def split_words_def Let_def second_def split: sum.splits list.splits option.splits
        dest: split_loop_nonempty)
qed

end
