(* ===== verification/Http.thy ===== *)
theory Http
  imports System Boards Milestones Organization Identity Tokens Cli
begin

text \<open>
  The edge of the program, \<^verbatim>\<open>internal/api\<close>: requests and responses, the decoding of a body into the struct of
  a handler, how a request is authenticated, and the browser login of \<^verbatim>\<open>bff.go\<close>.

  \<open>hq_body\<close> is the first JSON value of the body, \<open>None\<close> if there is none within the first mebibyte, and
  \<open>hq_trailing\<close> tells whether anything but white space follows it. What the process draws at random and reads from its clocks is part of the request: \<open>hq_now\<close> is the
  clock of the database, \<open>hq_clock\<close> the one of the process. \<^verbatim>\<open>http.ServeMux\<close> redirects paths that are not
  clean; the paths here are clean.
\<close>

section \<open>Requests, responses and configuration\<close>

record http_request =
  hq_method :: string
  hq_path :: string
  hq_authorization :: string
  hq_cookie :: string
  hq_csrf :: string
  hq_query :: "string \<Rightarrow> string"
  hq_body :: "json option"
  hq_trailing :: bool
  hq_id :: id
  hq_ids :: "nat \<Rightarrow> id"
  hq_ids2 :: "nat \<Rightarrow> id"
  hq_random :: "nat \<Rightarrow> 8 word list"
  hq_now :: time
  hq_clock :: time

text \<open>The values that handlers encode, one constructor per Go type; lists are wrapped as \<^verbatim>\<open>items\<close>.\<close>

datatype content =
    CIdentity ident | CProject project | CProjects "project list" | CTask task | CTasks "task list"
  | CAgent agent | CAgents "agent list" | CRelease release | CReleases "release list"
  | CCapabilities capability_check | CManifests "manifest list" | CRecords "sim_record list"
  | CGate gate | CGates "gate list" | CRun agent_run | CRuns "agent_run list"
  | CProposal proposal | CProposals "proposal list" | CDecisions "decision_item list"
  | CEvents "event list" | CReceipts "receipt list" | CHandoff handoff | CHandoffs "handoff list"
  | CWorkBoard "board_item list" | CAgentBoard agent_board_view | CConfiguration agent_configuration
  | CTemplate agent_template | CTemplates "agent_template list" | CPeople "person list"
  | CPosition position | CPositions "position list" | CRelationship relationship
  | CRelationships "relationship list" | CMilestone milestone | CMilestones "(milestone \<times> nat) list"
  | CLink string string id | CLinks "identity_link list" | CUnlinked nat | CStatus string
  | CNoSession | CSession ident string time | CLogoutUrl string | CLoggedOut

record cookie =
  ck_name :: string
  ck_value :: string
  ck_http_only :: bool
  ck_secure :: bool
  ck_age :: int

datatype reply =
    Json nat content
  | Fail nat string string
  | Plain nat string
  | Found "cookie list" string
  | WithCookies "cookie list" content

text \<open>
  The browser login: what the provider's client (\<^verbatim>\<open>platform.OAuthClient\<close>) answers is a parameter. \<open>bf_exchange\<close>
  gives the issuer and the subject of a verified ID token, \<open>bf_logout\<close> is \<^verbatim>\<open>LogoutURL\<close>, the lifetime of a session
  is in seconds.
\<close>

record bff =
  bf_auth_url :: "string \<Rightarrow> string \<Rightarrow> string \<Rightarrow> string"
  bf_exchange :: "string \<Rightarrow> string \<Rightarrow> string \<Rightarrow> (string \<times> string) option"
  bf_ttl :: int
  bf_secure :: bool
  bf_ui :: string
  bf_logout :: string

text \<open>
  The server. \<open>sv_verify\<close> is the verifier of bearer tokens, \<open>sv_sha\<close> SHA-256, \<open>sv_digest\<close> the digest of a
  proposal, \<open>sv_instant\<close> and \<open>sv_day\<close> are \<^verbatim>\<open>time.Parse\<close> for RFC 3339 and dates, \<open>sv_text\<close> is \<^verbatim>\<open>Error()\<close>.
\<close>

record server =
  sv_mode :: string
  sv_tokens :: "string \<Rightarrow> (id \<times> id) option"
  sv_verify :: "(string \<Rightarrow> (string \<times> string) option) option"
  sv_bff :: "bff option"
  sv_sha :: "string \<Rightarrow> 8 word list"
  sv_digest :: "json \<Rightarrow> string"
  sv_json_text :: "json \<Rightarrow> string"
  sv_supported :: "string \<Rightarrow> bool"
  sv_instant :: "string \<Rightarrow> time option"
  sv_day :: "string \<Rightarrow> int option"
  sv_text :: "err \<Rightarrow> string"
  sv_ping :: bool
  sv_ui :: bool

abbreviation token_hash :: "server \<Rightarrow> string \<Rightarrow> string" where
  "token_hash v \<equiv> hash_token (sv_sha v)"

section \<open>Errors\<close>

definition safe_message :: "string \<Rightarrow> string" where
  "safe_message m =
     (if list_ex (contains_str (to_lower m))
           [''sqlstate'', ''select '', ''insert '', ''update '', ''violates'', ''constraint'']
      then ''request could not be completed'' else m)"

definition fail :: "server \<Rightarrow> err \<Rightarrow> reply" where
  "fail v e = (if e = NoRows then Fail 404 ''not_found'' ''resource not found''
               else Fail 409 ''conflict'' (safe_message (sv_text v e)))"

definition invalid :: "string \<Rightarrow> reply" where
  "invalid m = Fail 422 ''invalid_request'' m"

definition not_found :: reply where
  "not_found = Fail 404 ''not_found'' ''not found''"

definition unauthenticated :: reply where
  "unauthenticated = Fail 401 ''unauthenticated'' ''authentication failed''"

section \<open>Bodies\<close>

definition read_body :: "(jmap \<Rightarrow> 'a option) \<Rightarrow> http_request \<Rightarrow> 'a option" where
  "read_body f rq =
     (case hq_body rq of None \<Rightarrow> None | Some v \<Rightarrow> if hq_trailing rq then None else Option.bind (as_map v) f)"

abbreviation str_field :: "string \<Rightarrow> jmap \<Rightarrow> string option" where
  "str_field \<equiv> scalar_field str_value []"

abbreviation int_field :: "string \<Rightarrow> jmap \<Rightarrow> int option" where
  "int_field \<equiv> scalar_field int_value 0"

definition strs_value :: "json \<Rightarrow> string list option" where
  "strs_value w = (case w of
     JArr xs \<Rightarrow> those (map (\<lambda>x. if x = JNull then Some [] else str_value x) xs) | _ \<Rightarrow> None)"

text \<open>A slice may be nil, which one handler tells from empty.\<close>

abbreviation strs_field :: "string \<Rightarrow> jmap \<Rightarrow> string list option option" where
  "strs_field \<equiv> pointer_field strs_value"

abbreviation slice :: "'a list option \<Rightarrow> 'a list" where
  "slice x \<equiv> (case x of None \<Rightarrow> [] | Some xs \<Rightarrow> xs)"

definition operation_value :: "json \<Rightarrow> operation option" where
  "operation_value w =
     do { kvs \<leftarrow> as_map w;
          i \<leftarrow> str_field ''id'' kvs;
          integration \<leftarrow> str_field ''integration'' kvs;
          action \<leftarrow> str_field ''action'' kvs;
          key \<leftarrow> str_field ''business_key'' kvs;
          target \<leftarrow> str_field ''target_id'' kvs;
          version \<leftarrow> int_field ''expected_version'' kvs;
          Some \<lparr>op_id = i, op_integration = integration, op_action = action, op_key = key, op_target = target,
                op_version = version, op_payload = raw_field ''payload'' kvs\<rparr> }"

definition operations_value :: "json \<Rightarrow> operation list option" where
  "operations_value w = (case w of JArr xs \<Rightarrow> those (map operation_value xs) | _ \<Rightarrow> None)"

definition object_value :: "json \<Rightarrow> unit option" where
  "object_value w = (case w of JObj _ \<Rightarrow> if decode w = None then None else Some () | _ \<Rightarrow> None)"

definition release_value :: "jmap \<Rightarrow> registry_create option" where
  "release_value kvs =
     do { family \<leftarrow> str_field ''family'' kvs;
          kind \<leftarrow> str_field ''kind'' kvs;
          version \<leftarrow> str_field ''version'' kvs;
          dg \<leftarrow> str_field ''digest'' kvs;
          requested \<leftarrow> strs_field ''requested_capabilities'' kvs;
          granted \<leftarrow> strs_field ''granted_capabilities'' kvs;
          compat \<leftarrow> str_field ''compatibility_range'' kvs;
          simulation \<leftarrow> scalar_field bool_value False ''simulation'' kvs;
          _ \<leftarrow> pointer_field object_value ''provenance'' kvs;
          _ \<leftarrow> pointer_field object_value ''license_info'' kvs;
          Some \<lparr>rq_family = family, rq_kind = kind, rq_version = version, rq_digest = dg,
                rq_manifest = raw_field ''manifest'' kvs, rq_requested = slice requested,
                rq_granted = slice granted, rq_compat = compat, rq_simulation = simulation\<rparr> }"

section \<open>Authentication\<close>

definition bearer_prefix :: string where
  "bearer_prefix = ''Bearer ''"

text \<open>\<^verbatim>\<open>auth\<close>: every failure is the same to the caller.\<close>

definition auth_bearer :: "server \<Rightarrow> string \<Rightarrow> db \<Rightarrow> ident option" where
  "auth_bearer v header s =
     (let h = trim_space header in
      if \<not> has_prefix h bearer_prefix then None
      else
       (let raw = trim_space (drop (length bearer_prefix) h) in
        if sv_mode v = ''local'' then
          (case sv_tokens v raw of
             None \<Rightarrow> None
           | Some (org, i) \<Rightarrow> (case resolve_identity org i s of Inl _ \<Rightarrow> None | Inr p \<Rightarrow> Some p))
        else if sv_mode v = ''oidc'' then
          (case sv_verify v of
             None \<Rightarrow> None
           | Some verify \<Rightarrow> (case verify raw of
               None \<Rightarrow> None
             | Some (issuer, subject) \<Rightarrow>
                 (case resolve_oidc_identity issuer subject s of Inl _ \<Rightarrow> None | Inr p \<Rightarrow> Some p)))
        else None))"

text \<open>Reading a session writes when it was last seen.\<close>

definition session_identity :: "server \<Rightarrow> http_request \<Rightarrow> db \<Rightarrow> (ident \<times> session) option \<times> db" where
  "session_identity v rq s =
     (if sv_bff v = None \<or> hq_cookie rq = [] then (None, s)
      else case with_org (read_session (token_hash v) (hq_cookie rq) (hq_now rq)) s of
        (Inl _, s') \<Rightarrow> (None, s')
      | (Inr (x, p), s') \<Rightarrow> (Some (p, x), s'))"

text \<open>The caller, and the session if the browser presented it by itself.\<close>

definition authorize :: "server \<Rightarrow> http_request \<Rightarrow> db \<Rightarrow> (ident \<times> session option) option \<times> db" where
  "authorize v rq s =
     (if has_prefix (trim_space (hq_authorization rq)) bearer_prefix
      then (map_option (\<lambda>p. (p, None)) (auth_bearer v (hq_authorization rq) s), s)
      else case session_identity v rq s of
        (None, s') \<Rightarrow> (None, s')
      | (Some (p, x), s') \<Rightarrow> (Some (p, Some x), s'))"

definition state_changing :: "string \<Rightarrow> bool" where
  "state_changing m \<longleftrightarrow> m \<notin> {''GET'', ''HEAD'', ''OPTIONS''}"

definition csrf_ok :: "http_request \<Rightarrow> string \<Rightarrow> bool" where
  "csrf_ok rq want \<longleftrightarrow> want \<noteq> [] \<and> tokens_equal (trim_space (hq_csrf rq)) want"

section \<open>The browser login\<close>

definition session_cookie_name :: string where
  "session_cookie_name = ''__Host-workforce_session''"

definition login_ttl :: int where
  "login_ttl = 600 * 1000000"

definition session_cookie :: "bff \<Rightarrow> string \<Rightarrow> int \<Rightarrow> cookie" where
  "session_cookie b x age = \<lparr>ck_name = session_cookie_name, ck_value = x, ck_http_only = True,
     ck_secure = bf_secure b, ck_age = age\<rparr>"

definition csrf_cookie :: "bff \<Rightarrow> string \<Rightarrow> int \<Rightarrow> cookie" where
  "csrf_cookie b x age = \<lparr>ck_name = ''workforce_csrf'', ck_value = x, ck_http_only = False,
     ck_secure = bf_secure b, ck_age = age\<rparr>"

definition redirect_target :: "bff \<Rightarrow> string \<Rightarrow> string" where
  "redirect_target b path = (if bf_ui b = [] then path else bf_ui b @ path)"

definition auth_error :: reply where
  "auth_error = Plain 401 ''authentication failed''"

definition auth_error_codes :: "string list" where
  "auth_error_codes = [''unlinked'', ''login_failed'', ''login_expired'', ''provider_refused'', ''session_unusable'']"

definition auth_redirect_error :: "bff \<Rightarrow> string \<Rightarrow> reply" where
  "auth_redirect_error b code =
     (if bf_ui b \<noteq> [] \<and> code \<in> set auth_error_codes then Found [] (bf_ui b @ ''/?auth_error='' @ code)
      else auth_error)"

definition wrong_method :: reply where
  "wrong_method = Plain 405 ''method not allowed''"

definition handle_login :: "server \<Rightarrow> http_request \<Rightarrow> db \<Rightarrow> reply \<times> db" where
  "handle_login v rq s =
     (case sv_bff v of
        None \<Rightarrow> (auth_error, s)
      | Some b \<Rightarrow>
          if hq_method rq \<noteq> ''GET'' then (wrong_method, s)
          else
           (let state = new_opaque_token (hq_random rq 0); nonce = new_opaque_token (hq_random rq 1);
                verifier = new_pkce_verifier (hq_random rq 2);
                return_to = safe_return_to (hq_query rq ''return_to'')
            in case with_org (create_login (token_hash v state) verifier nonce return_to login_ttl (hq_now rq)) s of
                 (Inl _, s') \<Rightarrow> (auth_error, s')
               | (Inr _, s') \<Rightarrow> (Found [] (bf_auth_url b state nonce (pkce_challenge (sv_sha v) verifier)), s')))"

text \<open>From the claims of the provider to the session; the login transaction is already spent.\<close>

definition open_session :: "server \<Rightarrow> bff \<Rightarrow> http_request \<Rightarrow> string \<Rightarrow> login \<Rightarrow> db \<Rightarrow> reply \<times> db" where
  "open_session v b rq code lt s =
     (case bf_exchange b code (lt_verifier lt) (lt_nonce lt) of
        None \<Rightarrow> (auth_redirect_error b ''login_failed'', s)
      | Some (issuer, subject) \<Rightarrow> (case resolve_oidc_identity issuer subject s of
          Inl _ \<Rightarrow> (auth_redirect_error b ''unlinked'', s)
        | Inr p \<Rightarrow>
            if iy_org p = [] then (auth_redirect_error b ''unlinked'', s)
            else
             (let csrf = new_opaque_token (hq_random rq 0)
              in case with_org (create_session (token_hash v) (new_opaque_token (hq_random rq 1)) (iy_org p) (iy_id p)
                                  issuer subject csrf (bf_ttl b * 1000000) (hq_now rq)) s of
                   (Inl _, s') \<Rightarrow> (auth_redirect_error b ''login_failed'', s')
                 | (Inr raw, s') \<Rightarrow>
                     (Found [session_cookie b raw (bf_ttl b), csrf_cookie b csrf (bf_ttl b)]
                        (redirect_target b (safe_return_to (lt_return lt))), s'))))"

definition handle_callback :: "server \<Rightarrow> http_request \<Rightarrow> db \<Rightarrow> reply \<times> db" where
  "handle_callback v rq s =
     (case sv_bff v of
        None \<Rightarrow> (auth_error, s)
      | Some b \<Rightarrow>
          if hq_method rq \<noteq> ''GET'' then (wrong_method, s)
          else if hq_query rq ''error'' \<noteq> [] then (auth_redirect_error b ''provider_refused'', s)
          else if hq_query rq ''code'' = [] \<or> hq_query rq ''state'' = []
          then (auth_redirect_error b ''login_failed'', s)
          else case with_org (consume_login (token_hash v (hq_query rq ''state'')) (hq_now rq)) s of
            (Inl _, s') \<Rightarrow> (auth_redirect_error b ''login_expired'', s')
          | (Inr lt, s') \<Rightarrow> open_session v b rq (hq_query rq ''code'') lt s')"

definition handle_logout :: "server \<Rightarrow> http_request \<Rightarrow> db \<Rightarrow> reply \<times> db" where
  "handle_logout v rq s =
     (case sv_bff v of
        None \<Rightarrow> (auth_error, s)
      | Some b \<Rightarrow>
          if hq_method rq \<noteq> ''POST'' then (wrong_method, s)
          else
           (let cleared = [session_cookie b [] (- 1), csrf_cookie b [] (- 1)];
                done = WithCookies cleared (if bf_logout b = [] then CLoggedOut else CLogoutUrl (bf_logout b));
                leave = (\<lambda>s. (done, commit (revoke_session (token_hash v) (hq_cookie rq) (hq_now rq)) s))
            in if hq_cookie rq = [] then (done, s)
               else case with_org (read_session (token_hash v) (hq_cookie rq) (hq_now rq)) s of
                 (Inl _, s') \<Rightarrow> leave s'
               | (Inr (x, _), s') \<Rightarrow>
                   if \<not> csrf_ok rq (se_csrf x) then (Plain 403 ''csrf check failed'', s') else leave s'))"

definition handle_session :: "server \<Rightarrow> http_request \<Rightarrow> db \<Rightarrow> reply \<times> db" where
  "handle_session v rq s =
     (case sv_bff v of
        None \<Rightarrow> (auth_error, s)
      | Some b \<Rightarrow>
          if hq_method rq \<noteq> ''GET'' then (wrong_method, s)
          else case session_identity v rq s of
            (None, s') \<Rightarrow> (Json 200 CNoSession, s')
          | (Some (p, x), s') \<Rightarrow> (Json 200 (CSession p (se_csrf x) (se_expires x)), s'))"

end
