(* ===== verification/Planning.thy ===== *)
theory Planning
  imports Milestones Transition Tasks
begin

text \<open>
  The organization structure and the milestones as a running system. Their tables are written by the
  operations of \<open>Organization\<close> and \<open>Milestones\<close> alone, so every other transaction of the program is one
  action: any change of the rest of the database.
\<close>

datatype plan_action =
    PPosition id id id string id time
  | PRelate id id id id string id time "time option" time
  | PEnd id id id time
  | PMilestone id id id id string string "int option" "int option" time
  | PForecast id id id "int option"
  | PRequire id id id
  | PComplete id id id string int time
  | PElse "db \<Rightarrow> db"

definition keep_plan :: "db \<Rightarrow> db \<Rightarrow> db" where
  "keep_plan s s' = s'\<lparr>positions := positions s, relationships := relationships s,
     milestones := milestones s, milestone_deps := milestone_deps s\<rparr>"

fun plan_step :: "plan_action \<Rightarrow> db \<Rightarrow> db" where
  "plan_step (PPosition i org actor n parent now) s = commit (create_position i org actor n parent now) s"
| "plan_step (PRelate i org actor su k ob from to now) s =
     commit (create_relationship i org actor su k ob from to now) s"
| "plan_step (PEnd org actor i t) s = commit (end_relationship org actor i t) s"
| "plan_step (PMilestone i org actor pj n ev cd fd now) s =
     commit (create_milestone i org actor pj n ev cd fd now) s"
| "plan_step (PForecast org actor i fd) s = commit (set_milestone_forecast org actor i fd) s"
| "plan_step (PRequire org i p) s = commit (add_milestone_dependency org i p) s"
| "plan_step (PComplete org actor i ev v now) s = commit (complete_milestone org actor i ev v now) s"
| "plan_step (PElse f) s = keep_plan s (f s)"

abbreviation reachable_plan :: "db \<Rightarrow> bool" where
  "reachable_plan \<equiv> reachable empty_db (\<lambda>_. True) plan_step"

section \<open>Who reports to whom at an instant\<close>

definition reports_at :: "id \<Rightarrow> time \<Rightarrow> db \<Rightarrow> (id \<times> id) set" where
  "reports_at org t s = {(re_subject r, re_object r) | r. r \<in> set (relationships s) \<and> re_org r = org \<and>
     re_kind r = ''reports_to'' \<and> holds_at t r}"

lemma reports_single:
  assumes "org_ok s" "(x, y) \<in> reports_at org t s" "(x, z) \<in> reports_at org t s"
  shows "y = z"
proof -
  obtain r q where rq: "r \<in> set (relationships s)" "q \<in> set (relationships s)" "re_org r = org" "re_org q = org"
      "re_kind r = ''reports_to''" "re_kind q = ''reports_to''" "holds_at t r" "holds_at t q"
      "re_subject r = x" "re_subject q = x" "re_object r = y" "re_object q = z"
    using assms(2,3) by (auto simp: reports_at_def)
  then have "second_manager r q" using holds_overlaps by (simp add: second_manager_def)
  then have "q = r" by (rule org_okD(3)[OF assms(1) rq(1,2)])
  then show ?thesis using rq by simp
qed

text \<open>Every loop of at most 65 steps is a person who reports to themselves.\<close>

definition loops_trivial :: "db \<Rightarrow> bool" where
  "loops_trivial s \<longleftrightarrow> (\<forall>org t x k. 0 < k \<longrightarrow> k \<le> Suc max_chain \<longrightarrow>
     (x, x) \<in> reports_at org t s ^^ k \<longrightarrow> (x, x) \<in> reports_at org t s)"

lemma relpow_subset:
  fixes E F :: "('a \<times> 'a) set"
  assumes "E \<subseteq> F"
  shows "E ^^ k \<subseteq> F ^^ k"
proof (induction k)
  case (Suc k)
  then show ?case unfolding relpow.simps by (rule relcomp_mono[OF _ assms])
qed simp

text \<open>A path that is new after adding an edge has a last use of it.\<close>

lemma last_use:
  "(x, y) \<in> insert (a, b) E ^^ n \<Longrightarrow> (x, y) \<notin> E ^^ n \<Longrightarrow> \<exists>j<n. (b, y) \<in> E ^^ j"
proof (induction n arbitrary: x)
  case (Suc n)
  obtain z where z: "(x, z) \<in> insert (a, b) E" "(z, y) \<in> insert (a, b) E ^^ n"
    using Suc.prems(1) by (meson relpow_Suc_D2)
  show ?case
  proof (cases "(z, y) \<in> E ^^ n")
    case True
    then have "(x, z) \<notin> E" using Suc.prems(2) relpow_Suc_I2 by metis
    then show ?thesis using z(1) True by auto
  next
    case False
    then show ?thesis using Suc.IH[OF z(2)] less_SucI by blast
  qed
qed simp

lemma first_use:
  "(x, y) \<in> insert (a, b) E ^^ n \<Longrightarrow> (x, y) \<notin> E ^^ n \<Longrightarrow>
     \<exists>i m. (x, a) \<in> E ^^ i \<and> (b, y) \<in> insert (a, b) E ^^ m \<and> Suc (i + m) = n"
proof (induction n arbitrary: x)
  case (Suc n)
  obtain z where z: "(x, z) \<in> insert (a, b) E" "(z, y) \<in> insert (a, b) E ^^ n"
    using Suc.prems(1) by (meson relpow_Suc_D2)
  show ?case
  proof (cases "(x, z) \<in> E")
    case True
    then have "(z, y) \<notin> E ^^ n" using Suc.prems(2) relpow_Suc_I2 by metis
    then obtain i m where "(z, a) \<in> E ^^ i" "(b, y) \<in> insert (a, b) E ^^ m" "Suc (i + m) = n"
      using Suc.IH[OF z(2)] by blast
    moreover from this True have "(x, a) \<in> E ^^ Suc i" using relpow_Suc_I2 by metis
    ultimately show ?thesis by (intro exI[of _ "Suc i"] exI[of _ m]) simp
  next
    case False
    then show ?thesis using z by (intro exI[of _ 0] exI[of _ n]) auto
  qed
qed simp

lemma new_loop:
  assumes "(x, x) \<in> insert (a, b) E ^^ k" "(x, x) \<notin> E ^^ k"
  shows "\<exists>j<k. (b, a) \<in> E ^^ j"
proof -
  obtain i m where im: "(x, a) \<in> E ^^ i" "(b, x) \<in> insert (a, b) E ^^ m" "Suc (i + m) = k"
    using first_use[OF assms] by blast
  obtain j where j: "j \<le> m" "(b, x) \<in> E ^^ j"
    using last_use[OF im(2)] im(2) by (cases "(b, x) \<in> E ^^ m") (auto intro: less_imp_le)
  then have "(b, a) \<in> E ^^ (j + i)" using im(1) by (auto simp: relpow_add)
  then show ?thesis using j(1) im(3) by (intro exI[of _ "j + i"]) simp
qed

lemma stuck_loop:
  assumes "\<And>y. (x, y) \<in> E \<Longrightarrow> y = x" "(x, z) \<in> E ^^ k"
  shows "z = x"
  using assms(2)
proof (induction k arbitrary: z)
  case (Suc k)
  then obtain y where "(x, y) \<in> E ^^ k" "(y, z) \<in> E" by auto
  then show ?case using Suc.IH assms(1) by blast
qed simp

lemma create_relationship_loops:
  assumes "create_relationship i org actor subject kind object from to now s = Inr (r, s')"
    "org_ok s" "loops_trivial s"
  shows "loops_trivial s'"
  unfolding loops_trivial_def
proof (intro allI impI)
  fix o1 t x k
  assume k: "0 < k" "k \<le> Suc max_chain" and loop: "(x, x) \<in> reports_at o1 t s' ^^ k"
  have s': "relationships s' = relationships s @ [r]"
    and r: "re_org r = org" "re_subject r = subject" "re_object r = object" "re_kind r = kind"
      "re_from r = from" "re_to r = to"
    and chk: "kind = ''reports_to'' \<Longrightarrow> detect_management_cycle org subject object from to s = Inr ()"
    by (rule create_relationship_ok[OF assms(1)]; simp)+
  let ?E = "reports_at o1 t s"
  show "(x, x) \<in> reports_at o1 t s'"
  proof (cases "o1 = org \<and> kind = ''reports_to'' \<and> holds_at t r")
    case False
    then have "reports_at o1 t s' = ?E" using r by (auto simp: reports_at_def s')
    then show ?thesis using assms(3) k loop unfolding loops_trivial_def by metis
  next
    case True
    then have E: "reports_at o1 t s' = insert (subject, object) ?E" using r by (auto simp: reports_at_def s')
    have sub: "?E \<subseteq> set (manager_edges org from to s)"
      using True r holds_overlaps[of t r] by (fastforce simp: reports_at_def manager_edges_def)
    have only: "object = subject" if j: "j < k" "(object, subject) \<in> ?E ^^ j" for j
    proof (rule ccontr)
      assume ne: "object \<noteq> subject"
      have "(object, subject) \<in> set (manager_edges org from to s) ^^ j"
        using j(2) relpow_subset[OF sub] by blast
      moreover have "0 < j" using ne j(2) by (cases j) auto
      ultimately have "subject \<in> set (chain_above (manager_edges org from to s) max_chain [object])"
        using chain_complete[of object "[object]"] j(1) k(2) by simp
      then show False using chk True by (simp add: no_chain_iff)
    qed
    show ?thesis
    proof (cases "(x, x) \<in> ?E ^^ k")
      case True
      then show ?thesis using assms(3) k unfolding loops_trivial_def E by blast
    next
      case False
      have self: "object = subject"
        using new_loop[OF loop[unfolded E] False] only by blast
      have ok: "org_ok s'" by (rule create_relationship_keeps[OF assms(1,2)])
      obtain i m where im: "(subject, x) \<in> insert (subject, object) ?E ^^ m"
        using first_use[OF loop[unfolded E] False] self by blast
      have "y = subject" if "(subject, y) \<in> reports_at o1 t s'" for y
        using reports_single[OF ok that, of subject] by (simp add: E self)
      then have "x = subject" using stuck_loop[of subject "reports_at o1 t s'" x m] im by (simp add: E)
      then show ?thesis by (simp add: E self)
    qed
  qed
qed

lemma end_relationship_loops:
  assumes "end_relationship org actor i ends s = Inr (u, s')" "org_ok s" "loops_trivial s"
  shows "loops_trivial s'"
  unfolding loops_trivial_def
proof (intro allI impI)
  fix o1 t x k
  assume k: "0 < k" "k \<le> Suc max_chain" and loop: "(x, x) \<in> reports_at o1 t s' ^^ k"
  obtain r0 where t: "relationships s' = update_where
      (\<lambda>r. re_org r = org \<and> re_id r = i \<and> before_end ends (re_to r))
      (\<lambda>r. r\<lparr>re_to := Some ends\<rparr>) (relationships s)"
    by (rule end_relationship_ok[OF assms(1)]) simp
  have sub: "reports_at o1 t s' \<subseteq> reports_at o1 t s"
  proof
    fix e assume "e \<in> reports_at o1 t s'"
    then obtain r where r: "r \<in> set (relationships s')" "re_org r = o1" "re_kind r = ''reports_to''"
        "holds_at t r" "e = (re_subject r, re_object r)" by (auto simp: reports_at_def)
    from r(1) show "e \<in> reports_at o1 t s" unfolding t
    proof (cases rule: update_whereE)
      case (hit q)
      have "holds_at t q" using r(4) hit(2,3) by (auto simp: holds_at_def before_end_def split: option.splits)
      then show ?thesis using r hit unfolding reports_at_def by auto
    next
      case miss
      then show ?thesis using r unfolding reports_at_def by auto
    qed
  qed
  then have "(x, x) \<in> reports_at o1 t s ^^ k" using loop relpow_subset by blast
  then have x: "(x, x) \<in> reports_at o1 t s" using assms(3) k unfolding loops_trivial_def by blast
  obtain y where y: "(x, y) \<in> reports_at o1 t s'"
    using loop k(1) by (metis gr0_conv_Suc relpow_Suc_D2)
  then have "y = x" using reports_single[OF assms(2) _ x] sub by blast
  then show "(x, x) \<in> reports_at o1 t s'" using y by simp
qed

section \<open>The invariant\<close>

definition plan_inv :: "db \<Rightarrow> bool" where
  "plan_inv s \<longleftrightarrow> org_ok s \<and> loops_trivial s \<and> milestones_ok s"

definition plan_good :: "db \<Rightarrow> db \<Rightarrow> bool" where
  "plan_good s s' \<longleftrightarrow> plan_inv s' \<and> milestones_move s s'"

lemma plan_invD:
  assumes "plan_inv s"
  shows "org_ok s" "loops_trivial s" "milestones_ok s"
  using assms by (simp_all add: plan_inv_def)

lemma plan_same:
  assumes "plan_inv s" "relationships s' = relationships s" "milestones s' = milestones s"
    "milestone_deps s' = milestone_deps s"
  shows "plan_good s s'"
  using assms(1) unfolding plan_good_def plan_inv_def assms(3)
  by (auto simp: org_ok_def loops_trivial_def reports_at_def milestones_ok_def graph_ok_def md_edges_def assms(2-))

lemma plan_relations:
  assumes "plan_inv s" "org_ok s'" "loops_trivial s'" "milestones s' = milestones s"
    "milestone_deps s' = milestone_deps s"
  shows "plan_good s s'"
  using assms(1-3) unfolding plan_good_def plan_inv_def assms(4)
  by (auto simp: milestones_ok_def graph_ok_def md_edges_def assms(4,5))

lemma plan_milestones:
  assumes "plan_inv s" "milestones_ok s'" "milestones_move s s'" "relationships s' = relationships s"
  shows "plan_good s s'"
  using assms unfolding plan_good_def plan_inv_def
  by (simp add: org_ok_def loops_trivial_def reports_at_def)

lemma plan_commit:
  assumes "plan_inv s" "\<And>x s'. f s = Inr (x, s') \<Longrightarrow> plan_good s s'"
  shows "plan_good s (commit f s)"
  by (rule commit_induct) (use assms plan_same[of s s] in auto)

lemma plan_good_step:
  assumes "plan_inv s"
  shows "plan_good s (plan_step a s)"
proof (cases a)
  case (PPosition i org actor n parent now)
  have "plan_good s s'" if c: "create_position i org actor n parent now s = Inr (x, s')" for x s'
  proof -
    obtain X where s': "s' = s\<lparr>positions := X\<rparr>"
      using c by (auto simp: create_position_def Let_def split: if_split_asm sum.splits)
    show ?thesis by (rule plan_same[OF assms]) (simp_all add: s')
  qed
  then show ?thesis by (simp add: PPosition plan_commit[OF assms])
next
  case (PRelate i org actor su k ob fr to now)
  have "plan_good s s'" if c: "create_relationship i org actor su k ob fr to now s = Inr (x, s')" for x s'
  proof -
    have s': "s' = s\<lparr>relationships := relationships s @ [x]\<rparr>" by (rule create_relationship_ok[OF c])
    show ?thesis
      by (rule plan_relations[OF assms create_relationship_keeps[OF c plan_invD(1)[OF assms]]
            create_relationship_loops[OF c plan_invD(1,2)[OF assms]]]) (simp_all add: s')
  qed
  then show ?thesis by (simp add: PRelate plan_commit[OF assms])
next
  case (PEnd org actor i t)
  have "plan_good s s'" if c: "end_relationship org actor i t s = Inr (x, s')" for x s'
  proof -
    obtain X where s': "s' = s\<lparr>relationships := X\<rparr>"
      by (rule end_relationship_ok[OF c]) (rule that; assumption)
    show ?thesis
      by (rule plan_relations[OF assms end_relationship_keeps[OF c plan_invD(1)[OF assms]]
            end_relationship_loops[OF c plan_invD(1,2)[OF assms]]]) (simp_all add: s')
  qed
  then show ?thesis by (simp add: PEnd plan_commit[OF assms])
next
  case (PMilestone i org actor pj n ev cd fd now)
  have "plan_good s s'" if c: "create_milestone i org actor pj n ev cd fd now s = Inr (x, s')" for x s'
    by (rule plan_milestones[OF assms create_milestone_keeps[OF c plan_invD(3)[OF assms]]])
       (simp add: create_milestone_ok(1)[OF c])
  then show ?thesis by (simp add: PMilestone plan_commit[OF assms])
next
  case (PForecast org actor i fd)
  have "plan_good s s'" if c: "set_milestone_forecast org actor i fd s = Inr (x, s')" for x s'
    by (rule plan_milestones[OF assms set_forecast_keeps[OF c plan_invD(3)[OF assms]]])
       (simp add: set_forecast_ok[OF c])
  then show ?thesis by (simp add: PForecast plan_commit[OF assms])
next
  case (PRequire org i p)
  have "plan_good s s'" if c: "add_milestone_dependency org i p s = Inr (x, s')" for x s'
    by (rule plan_milestones[OF assms add_milestone_dependency_keeps[OF c plan_invD(3)[OF assms]]])
       (subst add_milestone_dependency_frame[OF c], simp)
  then show ?thesis by (simp add: PRequire plan_commit[OF assms])
next
  case (PComplete org actor i ev v now)
  have "plan_good s s'" if c: "complete_milestone org actor i ev v now s = Inr (x, s')" for x s'
  proof -
    obtain X where s': "s' = s\<lparr>milestones := X\<rparr>" by (rule complete_ok[OF c]) (rule that; assumption)
    show ?thesis
      by (rule plan_milestones[OF assms complete_keeps[OF c plan_invD(3)[OF assms]]]) (simp add: s')
  qed
  then show ?thesis by (simp add: PComplete plan_commit[OF assms])
next
  case (PElse f)
  show ?thesis unfolding PElse
    by (rule plan_same[OF assms]) (simp_all add: keep_plan_def)
qed

lemma plan_init: "plan_inv empty_db"
  by (auto simp: plan_inv_def org_ok_def loops_trivial_def reports_at_def milestones_ok_def graph_ok_def
      md_edges_def empty_db_def acyclic_def relpow_empty)

interpretation planning: invariant_system empty_db "\<lambda>_. True" plan_step plan_inv
  by unfold_locales (use plan_init plan_good_step in \<open>auto simp: plan_good_def\<close>)

interpretation milestone_life: lifecycle empty_db "\<lambda>_. True" plan_step plan_inv
    milestones milestone_move milestone_born "\<lambda>_. False"
  by unfold_locales (use plan_good_step in \<open>auto simp: plan_good_def empty_db_def\<close>)

section \<open>Properties\<close>

definition demo_staff :: "plan_action list" where
  "demo_staff =
    [PElse (\<lambda>s. s\<lparr>principals :=
       [\<lparr>pr_id = ''a'', pr_org = ''o'', pr_name = ''A'', pr_role = Admin, pr_active = True\<rparr>,
        \<lparr>pr_id = ''b'', pr_org = ''o'', pr_name = ''B'', pr_role = Requester, pr_active = True\<rparr>],
       projects := [\<lparr>pj_id = ''p'', pj_org = ''o'', pj_name = ''P'', pj_description = [], pj_version = 1\<rparr>]\<rparr>),
     PRelate ''r1'' ''o'' ''a'' ''b'' ''reports_to'' ''a'' 10 None 5]"

definition demo_plan :: "plan_action list" where
  "demo_plan = demo_staff @
    [PMilestone ''m1'' ''o'' ''a'' ''p'' ''M1'' ''report filed'' None None 6,
     PMilestone ''m2'' ''o'' ''a'' ''p'' ''M2'' ''audit passed'' None None 6,
     PRequire ''o'' ''m2'' ''m1'', PComplete ''o'' ''a'' ''m1'' ''see report'' 1 7]"

definition demo_planned :: db where
  "demo_planned = steps plan_step demo_plan empty_db"

lemma reachable_planned: "reachable_plan demo_planned"
  unfolding demo_planned_def by (rule reachable_run[OF reachable.reach_init]) (simp add: demo_plan_def demo_staff_def)

lemma all_equal_short:
  assumes "distinct xs" "\<And>a b. a \<in> set xs \<Longrightarrow> b \<in> set xs \<Longrightarrow> a = b"
  shows "length xs \<le> 1"
proof (rule ccontr)
  assume "\<not> length xs \<le> 1"
  then have "0 < length xs" "1 < length xs" by auto
  then have "xs ! 0 \<in> set xs" "xs ! 1 \<in> set xs" "xs ! 0 \<noteq> xs ! 1"
    using assms(1) by (simp_all add: nth_eq_iff_index_eq)
  then show False using assms(2) by blast
qed

text \<open>
  One manager at a time: in every reachable state the relationships in effect at any instant hold
  at most one reporting line of a person.
\<close>

lemma one_manager_as_of:
  assumes "reachable_plan s"
  shows "length (filter (\<lambda>r. re_kind r = ''reports_to'' \<and> re_subject r = x) (relationships_as_of org t s)) \<le> 1"
proof -
  have ok: "org_ok s" using plan_invD(1)[OF planning.reachable_inv[OF assms]] .
  let ?P = "\<lambda>r. re_kind r = ''reports_to'' \<and> re_subject r = x"
  let ?rs = "filter ?P (relationships_as_of org t s)"
  have d: "distinct ?rs" using org_okD(1)[OF ok]
    by (simp add: relationships_as_of_def distinct_map)
  have "a = b" if "a \<in> set ?rs" "b \<in> set ?rs" for a b
  proof -
    have ab: "a \<in> set (relationships s)" "b \<in> set (relationships s)" "second_manager a b"
      using that holds_overlaps by (auto simp: relationships_as_of_def second_manager_def)
    show ?thesis using org_okD(3)[OF ok ab] by simp
  qed
  then show ?thesis by (rule all_equal_short[OF d])
qed

lemma one_manager_as_of_witness:
  "length (filter (\<lambda>r. re_kind r = ''reports_to'' \<and> re_subject r = ''b'')
     (relationships_as_of ''o'' 11 demo_planned)) \<le> 1 \<and> ''b'' \<in> re_subject ` set (relationships demo_planned)"
proof
  show "''b'' \<in> re_subject ` set (relationships demo_planned)" by code_simp
qed (rule one_manager_as_of[OF reachable_planned])

text \<open>
  Reporting lines have no loops: at any instant, following managers for at most 65 steps never
  leads back to a person, except when the person is their own manager.
\<close>

lemma reporting_loops_trivial:
  assumes "reachable_plan s" "0 < k" "k \<le> 65" "(x, x) \<in> reports_at org t s ^^ k"
  shows "(x, x) \<in> reports_at org t s"
proof -
  have "k \<le> Suc max_chain" using assms(3) by (simp add: max_chain_def)
  then show ?thesis
    using plan_invD(2)[OF planning.reachable_inv[OF assms(1)]] assms(2,4) unfolding loops_trivial_def by blast
qed

lemma reporting_loops_trivial_witness:
  "(''a'', ''a'') \<in> reports_at ''o'' 11 (plan_step (PRelate ''r2'' ''o'' ''a'' ''a'' ''reports_to'' ''a'' 10 None 8) demo_planned)"
proof -
  let ?s = "plan_step (PRelate ''r2'' ''o'' ''a'' ''a'' ''reports_to'' ''a'' 10 None 8) demo_planned"
  have "list_ex (\<lambda>r. re_org r = ''o'' \<and> re_kind r = ''reports_to'' \<and> holds_at 11 r \<and> re_subject r = ''a'' \<and>
      re_object r = ''a'') (relationships ?s)" by code_simp
  then have e: "(''a'', ''a'') \<in> reports_at ''o'' 11 ?s" unfolding list_ex_iff reports_at_def by (clarsimp, metis)
  have "(''a'', ''a'') \<in> reports_at ''o'' 11 ?s ^^ 2" using relcompI[OF e e] by (simp add: numeral_2_eq_2)
  moreover have "reachable_plan ?s" by (rule reachable.reach_step[OF reachable_planned]) simp
  ultimately show ?thesis by (intro reporting_loops_trivial[where k = 2]) simp_all
qed

text \<open>
  The cycle check does not see a person who reports to themselves: such a relationship is
  accepted whenever the person is active and has no other manager in the interval.
\<close>

lemma self_report_accepted:
  assumes "require_active_principal org x s = Inr ()" "before_end from to"
    "\<not> exists_row (\<lambda>q. re_id q = i) (relationships s)"
    "\<And>q. q \<in> set (relationships s) \<Longrightarrow> re_org q = org \<Longrightarrow> re_subject q = x \<Longrightarrow>
       re_kind q = ''reports_to'' \<Longrightarrow> \<not> overlaps from to q"
  shows "\<exists>r s'. create_relationship i org x x ''reports_to'' x from to now s = Inr (r, s') \<and>
     re_subject r = x \<and> re_object r = x \<and> r \<in> set (relationships s')"
proof -
  let ?E = "manager_edges org from to s"
  have none: "map snd (filter (\<lambda>e. fst e = x) ?E) = []"
    using assms(4) by (auto simp: manager_edges_def filter_empty_conv)
  have "chain_above ?E n [] = []" for n by (induction n) simp_all
  then have "chain_above ?E n [x] = []" for n using none by (cases n) (simp_all add: Let_def)
  then have chk: "detect_management_cycle org x x from to s = Inr ()" by (simp add: detect_management_cycle_def)
  have one: "\<not> (\<exists>q\<in>set (relationships s). re_kind q = ''reports_to'' \<and> re_org q = org \<and> re_subject q = x \<and>
      overlaps from to q)" using assms(4) by blast
  show ?thesis using assms(1-3) chk one
    by (simp add: create_relationship_def relationship_kinds_def exists_row_def second_manager_def Let_def)
qed

lemma self_report_accepted_witness:
  "\<exists>r s'. create_relationship ''r2'' ''o'' ''a'' ''a'' ''reports_to'' ''a'' 10 None 8 demo_planned = Inr (r, s') \<and>
     re_subject r = ''a'' \<and> re_object r = ''a'' \<and> r \<in> set (relationships s')"
proof (rule self_report_accepted)
  have "list_all (\<lambda>q. re_subject q \<noteq> ''a'') (relationships demo_planned)" by code_simp
  then show "\<And>q. q \<in> set (relationships demo_planned) \<Longrightarrow> re_org q = ''o'' \<Longrightarrow> re_subject q = ''a'' \<Longrightarrow>
      re_kind q = ''reports_to'' \<Longrightarrow> \<not> overlaps 10 None q" by (auto simp: list_all_iff)
qed code_simp+

text \<open>
  Planning never deadlocks: as long as a milestone of an organization is not met, one of its
  milestones that are not met has every prerequisite met, so it can be completed.
\<close>

lemma milestones_can_progress:
  assumes "reachable_plan s" "m \<in> set (milestones s)" "mi_org m = org" "mi_status m \<noteq> MMet"
  shows "\<exists>n\<in>set (milestones s). mi_org n = org \<and> mi_status n \<noteq> MMet \<and> unmet_parents org (mi_id n) s = []"
proof -
  have ok: "milestones_ok s" using plan_invD(3)[OF planning.reachable_inv[OF assms(1)]] .
  let ?X = "mi_id ` {n \<in> set (milestones s). mi_org n = org \<and> mi_status n \<noteq> MMet}"
  have "acyclic (set (md_edges org s))" using ok by (simp add: milestones_ok_def graph_ok_def)
  moreover have "?X \<noteq> {}" using assms(2-4) by auto
  ultimately obtain x where x: "x \<in> ?X" "\<forall>y. (x, y) \<in> set (md_edges org s) \<longrightarrow> y \<notin> ?X"
    using acyclic_sink[of "set (md_edges org s)" ?X] by blast
  then obtain n where n: "n \<in> set (milestones s)" "mi_org n = org" "mi_status n \<noteq> MMet" "mi_id n = x" by auto
  have "unmet_parents org (mi_id n) s = []"
    unfolding unmet_parents_Nil n(4) using x(2) by blast
  then show ?thesis using n by blast
qed

lemma milestones_can_progress_witness:
  "\<exists>n\<in>set (milestones demo_planned). mi_org n = ''o'' \<and> mi_status n \<noteq> MMet \<and>
     unmet_parents ''o'' (mi_id n) demo_planned = []"
proof -
  let ?m = "hd (tl (milestones demo_planned))"
  have "?m \<in> set (milestones demo_planned)" "mi_org ?m = ''o''" "mi_status ?m \<noteq> MMet" by code_simp+
  then show ?thesis by (rule milestones_can_progress[OF reachable_planned])
qed

text \<open>
  Met is final: once a milestone is met it stays met, on the evidence recorded, and its
  declared evidence and committed day are what they were when it was created.
\<close>

lemma met_stays_met:
  assumes "reachable_plan s" "m \<in> set (milestones s)" "mi_status m = MMet"
  shows "\<exists>n\<in>set (milestones (steps plan_step as s)). mi_id n = mi_id m \<and> mi_status n = MMet \<and>
     mi_met_evidence n = mi_met_evidence m \<and> trim_space (mi_met_evidence n) \<noteq> [] \<and>
     mi_evidence n = mi_evidence m \<and> mi_committed n = mi_committed m"
proof -
  have inv: "plan_inv s" by (rule planning.reachable_inv[OF assms(1)])
  obtain n where n: "n \<in> set (milestones (steps plan_step as s))" "milestone_move\<^sup>*\<^sup>* m n"
    using milestone_life.rows_run[OF inv _ assms(2), of as] by (auto simp: list_all_iff)
  have "mi_id n = mi_id m \<and> mi_status n = MMet \<and> mi_met_evidence n = mi_met_evidence m \<and>
      mi_evidence n = mi_evidence m \<and> mi_committed n = mi_committed m"
    using n(2)
  proof induction
    case base
    then show ?case using assms(3) by simp
  next
    case (step y z)
    then show ?case by (auto simp: milestone_move_def milestone_final_def)
  qed
  moreover have "trim_space (mi_met_evidence m) \<noteq> []"
    using plan_invD(3)[OF inv] assms(2,3) by (auto simp: milestones_ok_def)
  ultimately show ?thesis using n(1) by auto
qed

lemma met_stays_met_witness:
  "\<exists>n\<in>set (milestones (steps plan_step [PForecast ''o'' ''a'' ''m1'' (Some 3)] demo_planned)).
     mi_id n = ''m1'' \<and> mi_status n = MMet \<and> mi_met_evidence n = ''see report''"
proof -
  let ?m = "hd (milestones demo_planned)"
  have m: "?m \<in> set (milestones demo_planned)" "mi_status ?m = MMet" "mi_id ?m = ''m1''"
    "mi_met_evidence ?m = ''see report''" by code_simp+
  show ?thesis using met_stays_met[OF reachable_planned m(1,2)] unfolding m(3,4) by blast
qed

text \<open>
  A prerequisite can be added to a milestone that is already met: then the milestone is met
  although a prerequisite of it is not.
\<close>

lemma met_gains_prerequisite:
  "\<exists>s m. reachable_plan s \<and> m \<in> set (milestones s) \<and> mi_status m = MMet \<and>
     unmet_parents (mi_org m) (mi_id m) s \<noteq> []"
proof (intro exI conjI)
  let ?as = "demo_staff @ [PMilestone ''m1'' ''o'' ''a'' ''p'' ''M1'' ''e'' None None 6,
     PMilestone ''m2'' ''o'' ''a'' ''p'' ''M2'' ''e'' None None 6, PComplete ''o'' ''a'' ''m1'' ''e'' 1 7,
     PRequire ''o'' ''m1'' ''m2'']"
  let ?s = "steps plan_step ?as empty_db"
  show "reachable_plan ?s" by (rule reachable_run[OF reachable.reach_init]) (simp add: demo_staff_def)
  show "hd (milestones ?s) \<in> set (milestones ?s)" "mi_status (hd (milestones ?s)) = MMet"
    "unmet_parents (mi_org (hd (milestones ?s))) (mi_id (hd (milestones ?s))) ?s \<noteq> []" by code_simp+
qed

end
