(* ===== verification/Accounts.thy ===== *)
theory Accounts
  imports Identity
begin

text \<open>
  External accounts, logins and sessions as a running system. Their tables are written by the operations of
  \<open>Identity\<close> alone; every other transaction of the program is one action, which keeps these tables
  and removes no principal. Properties: an account belongs to one principal for good, a session is read
  exactly while its link and principal are active, a revoked session is dead, a login is used once.
\<close>

datatype account_action =
    ILink id id string string id string time
  | IUnlink id id string string string time
  | ILinkOidc id string string id string time
  | IUnlinkOidc id string string
  | IBootstrap id bootstrap_request time
  | ICreateLogin string string string string int time
  | IConsume string time
  | IPurge time
  | ICreateSession string id id string string string int time
  | IRead string time
  | IRevoke string time
  | IRevokeIdentity string string time
  | IRevokePrincipal id id time
  | IElse "db \<Rightarrow> db"

definition keep_accounts :: "db \<Rightarrow> db \<Rightarrow> db" where
  "keep_accounts s s' = s'\<lparr>identity_links := identity_links s, sessions := sessions s, logins := logins s\<rparr>"

fun account_step :: "(string \<Rightarrow> string) \<Rightarrow> account_action \<Rightarrow> db \<Rightarrow> db" where
  "account_step sha (ILink eid org iss sub who actor now) s =
     commit (link_identity_by_admin eid org iss sub who actor now) s"
| "account_step sha (IUnlink eid org iss sub actor now) s =
     commit (unlink_identity_by_admin eid org iss sub actor now) s"
| "account_step sha (ILinkOidc org iss sub who by now) s = commit (link_oidc_identity org iss sub who by now) s"
| "account_step sha (IUnlinkOidc org iss sub) s = commit (unlink_oidc_identity org iss sub) s"
| "account_step sha (IBootstrap eid q now) s = commit (bootstrap_identity eid q now) s"
| "account_step sha (ICreateLogin h v n r ttl now) s = commit (create_login h v n r ttl now) s"
| "account_step sha (IConsume h now) s = commit (consume_login h now) s"
| "account_step sha (IPurge now) s = commit (purge_logins now) s"
| "account_step sha (ICreateSession tok org who iss sub csrf ttl now) s =
     commit (create_session sha tok org who iss sub csrf ttl now) s"
| "account_step sha (IRead tok now) s = commit (read_session sha tok now) s"
| "account_step sha (IRevoke tok now) s = commit (revoke_session sha tok now) s"
| "account_step sha (IRevokeIdentity iss sub now) s = commit (revoke_sessions_for_identity iss sub now) s"
| "account_step sha (IRevokePrincipal org who now) s = commit (revoke_sessions_for_principal org who now) s"
| "account_step sha (IElse f) s = keep_accounts s (f s)"

section \<open>How the tables move\<close>

definition has_principal :: "principal list \<Rightarrow> id \<Rightarrow> id \<Rightarrow> bool" where
  "has_principal ps org i \<longleftrightarrow> exists_row (\<lambda>p. pr_org p = org \<and> pr_id p = i) ps"

definition principals_keep :: "principal list \<Rightarrow> principal list \<Rightarrow> bool" where
  "principals_keep ps qs \<longleftrightarrow> (distinct (map pr_id ps) \<longrightarrow> distinct (map pr_id qs)) \<and>
     (\<forall>org i. has_principal ps org i \<longrightarrow> has_principal qs org i)"

fun legal_account :: "account_action \<Rightarrow> bool" where
  "legal_account (IElse f) \<longleftrightarrow> (\<forall>s. principals_keep (principals s) (principals (f s)))"
| "legal_account _ \<longleftrightarrow> True"

abbreviation reachable_accounts :: "(string \<Rightarrow> string) \<Rightarrow> db \<Rightarrow> bool" where
  "reachable_accounts sha \<equiv> reachable empty_db legal_account (account_step sha)"

abbreviation link_key :: "identity_link \<Rightarrow> string \<times> string" where
  "link_key l \<equiv> (il_issuer l, il_subject l)"

definition link_move :: "identity_link \<Rightarrow> identity_link \<Rightarrow> bool" where
  "link_move l m \<longleftrightarrow> m = l\<lparr>il_active := il_active m\<rparr>"

definition session_move :: "session \<Rightarrow> session \<Rightarrow> bool" where
  "session_move x y \<longleftrightarrow> y = x\<lparr>se_seen := se_seen y, se_revoked := se_revoked y\<rparr> \<and>
     (se_revoked x \<noteq> None \<longrightarrow> se_revoked y = se_revoked x)"

definition session_born :: "session \<Rightarrow> bool" where
  "session_born x \<longleftrightarrow> se_revoked x = None \<and> se_issuer x \<noteq> [] \<and> se_subject x \<noteq> []"

definition links_step :: "principal list \<Rightarrow> identity_link list \<Rightarrow> identity_link list \<Rightarrow> bool" where
  "links_step ps L M \<longleftrightarrow> grows link_move (\<lambda>l. il_active l \<and> has_principal ps (il_org l) (il_principal l)) L M \<and>
     (distinct (map link_key L) \<longrightarrow> distinct (map link_key M))"

definition sessions_step :: "principal list \<Rightarrow> session list \<Rightarrow> session list \<Rightarrow> bool" where
  "sessions_step ps X Y \<longleftrightarrow>
     grows session_move (\<lambda>x. session_born x \<and> has_principal ps (se_org x) (se_principal x)) X Y \<and>
     (distinct (map se_hash X) \<longrightarrow> distinct (map se_hash Y))"

text \<open>A used login stays used; a hash that was not there before is one of \<open>C\<close>.\<close>

definition logins_step :: "string set \<Rightarrow> login list \<Rightarrow> login list \<Rightarrow> bool" where
  "logins_step C X Y \<longleftrightarrow> (distinct (map lt_hash X) \<longrightarrow> distinct (map lt_hash Y)) \<and>
     (\<forall>y\<in>set Y. lt_hash y \<in> C \<or>
        (\<exists>x\<in>set X. lt_hash x = lt_hash y \<and> (lt_consumed x \<noteq> None \<longrightarrow> lt_consumed y \<noteq> None)))"

fun created :: "account_action \<Rightarrow> string set" where
  "created (ICreateLogin h v n r ttl now) = {h}"
| "created _ = {}"

definition accounts_step :: "string set \<Rightarrow> db \<Rightarrow> db \<Rightarrow> bool" where
  "accounts_step C s s' \<longleftrightarrow> principals_keep (principals s) (principals s') \<and>
     links_step (principals s') (identity_links s) (identity_links s') \<and>
     sessions_step (principals s') (sessions s) (sessions s') \<and> logins_step C (logins s) (logins s')"

definition accounts_ok :: "db \<Rightarrow> bool" where
  "accounts_ok s \<longleftrightarrow> distinct (map pr_id (principals s)) \<and> distinct (map link_key (identity_links s)) \<and>
     (\<forall>l\<in>set (identity_links s). has_principal (principals s) (il_org l) (il_principal l)) \<and>
     distinct (map se_hash (sessions s)) \<and>
     (\<forall>x\<in>set (sessions s). has_principal (principals s) (se_org x) (se_principal x)) \<and>
     distinct (map lt_hash (logins s))"

lemma principals_keep_refl [simp]: "principals_keep ps ps"
  by (simp add: principals_keep_def)

lemma link_move_refl [simp]: "link_move l l"
  by (simp add: link_move_def)

lemma session_move_refl [simp]: "session_move x x"
  by (simp add: session_move_def)

lemma links_step_refl [simp]: "links_step ps L L"
  by (simp add: links_step_def grows_refl)

lemma sessions_step_refl [simp]: "sessions_step ps X X"
  by (simp add: sessions_step_def grows_refl)

lemma logins_step_refl [simp]: "logins_step C X X"
  by (auto simp: logins_step_def)

lemma accounts_okD:
  assumes "accounts_ok s"
  shows "distinct (map pr_id (principals s))" "distinct (map link_key (identity_links s))"
    "distinct (map se_hash (sessions s))" "distinct (map lt_hash (logins s))"
  using assms by (simp_all add: accounts_ok_def)

lemma accounts_step_ok:
  assumes "accounts_step C s s'" "accounts_ok s"
  shows "accounts_ok s'"
proof -
  have st: "principals_keep (principals s) (principals s')"
    "grows link_move (\<lambda>l. il_active l \<and> has_principal (principals s') (il_org l) (il_principal l))
       (identity_links s) (identity_links s')"
    "grows session_move (\<lambda>x. session_born x \<and> has_principal (principals s') (se_org x) (se_principal x))
       (sessions s) (sessions s')"
    "distinct (map link_key (identity_links s'))" "distinct (map se_hash (sessions s'))"
    "distinct (map lt_hash (logins s'))"
    using assms unfolding accounts_step_def links_step_def sessions_step_def logins_step_def accounts_ok_def
    by blast+
  have keep: "has_principal (principals s') org i" if "has_principal (principals s) org i" for org i
    using st(1) that by (simp add: principals_keep_def)
  have "has_principal (principals s') (il_org l) (il_principal l)" if "l \<in> set (identity_links s')" for l
    using st(2) that
  proof (cases rule: grows_cases)
    case (moved k)
    then have "il_org l = il_org k" "il_principal l = il_principal k"
      unfolding link_move_def by (metis identity_link.select_convs identity_link.surjective identity_link.update_convs)+
    then show ?thesis using keep assms(2) moved(1) by (simp add: accounts_ok_def)
  qed simp
  moreover have "has_principal (principals s') (se_org x) (se_principal x)" if "x \<in> set (sessions s')" for x
    using st(3) that
  proof (cases rule: grows_cases)
    case (moved k)
    then have "se_org x = se_org k" "se_principal x = se_principal k"
      unfolding session_move_def by (metis session.select_convs session.surjective session.update_convs)+
    then show ?thesis using keep assms(2) moved(1) by (simp add: accounts_ok_def)
  qed simp
  ultimately show ?thesis
    using st assms(2) unfolding accounts_ok_def principals_keep_def by blast
qed

section \<open>Every operation moves the tables\<close>

lemma links_activity:
  "links_step ps L (update_where P (\<lambda>l. l\<lparr>il_active := b\<rparr>) L)"
  unfolding links_step_def
  by (auto intro!: grows_update simp: link_move_def map_key_update_where[where k = link_key])

lemma links_append:
  assumes "\<forall>k\<in>set L. link_key k \<noteq> link_key l" "il_active l" "has_principal ps (il_org l) (il_principal l)"
  shows "links_step ps L (L @ [l])"
  using assms unfolding links_step_def by (auto intro!: grows_append grows_refl)

lemma sessions_revoked:
  "sessions_step ps X (update_where (\<lambda>x. P x \<and> se_revoked x = None) (\<lambda>x. x\<lparr>se_revoked := Some t\<rparr>) X)"
  unfolding sessions_step_def
  by (auto intro!: grows_update simp: session_move_def map_key_update_where[where k = se_hash])

lemma sessions_seen:
  "sessions_step ps X (update_where P (\<lambda>x. x\<lparr>se_seen := t\<rparr>) X)"
  unfolding sessions_step_def
  by (auto intro!: grows_update simp: session_move_def map_key_update_where[where k = se_hash])

lemma sessions_append:
  assumes "\<not> exists_row (\<lambda>y. se_hash y = se_hash x) X" "session_born x"
    "has_principal ps (se_org x) (se_principal x)"
  shows "sessions_step ps X (X @ [x])"
  using assms unfolding sessions_step_def by (auto intro!: grows_append grows_refl simp: exists_row_def)

lemma audit_frame: "audit_tx eid org agg typ actor pl s = Inr (u, s') \<Longrightarrow> \<exists>X. s' = s\<lparr>events := X\<rparr>"
  by (auto simp: audit_tx_def insert_event_def split: if_split_asm)

lemma find_principal_has: "find_principal org i s \<noteq> None \<longleftrightarrow> has_principal (principals s) org i"
  by (auto simp: has_principal_def exists_row_def row_None_iff)

lemma link_in_tx:
  assumes "link_identity_in_tx org iss sub who by now s = Inr (u, s')"
  shows "\<exists>X. s' = s\<lparr>identity_links := X\<rparr> \<and> links_step (principals s) (identity_links s) X"
proof -
  have p: "has_principal (principals s) org who"
    using assms by (auto simp: link_identity_in_tx_def find_principal_has[symmetric] split: if_split_asm)
  show ?thesis
  proof (cases "find_link iss sub s")
    case (Some l)
    then show ?thesis using assms
      by (auto simp: link_identity_in_tx_def intro: links_activity split: if_split_asm)
  next
    case None
    then have "\<forall>k\<in>set (identity_links s). link_key k \<noteq> (iss, sub)" by (auto simp: row_None_iff)
    then show ?thesis using assms None p
      by (intro exI conjI) (auto simp: link_identity_in_tx_def split: if_split_asm intro!: links_append)
  qed
qed

lemma step_links:
  assumes "s' = s\<lparr>identity_links := X, events := E\<rparr>" "links_step (principals s) (identity_links s) X"
  shows "accounts_step {} s s'"
  unfolding assms(1) accounts_step_def using assms(2) by simp

lemma step_sessions:
  assumes "s' = s\<lparr>sessions := Y\<rparr>" "sessions_step (principals s) (sessions s) Y"
  shows "accounts_step {} s s'"
  unfolding assms(1) accounts_step_def using assms(2) by simp

lemma link_by_admin_step:
  assumes "link_identity_by_admin eid org iss sub who actor now s = Inr (u, s')"
  shows "accounts_step {} s s'"
proof -
  obtain v t where t: "link_identity_in_tx org iss sub who actor now s = Inr (v, t)"
    "\<exists>E. s' = t\<lparr>events := E\<rparr>"
    using assms audit_frame by (fastforce simp: link_identity_by_admin_def split: if_split_asm sum.splits)
  then obtain X E where "t = s\<lparr>identity_links := X\<rparr>" "links_step (principals s) (identity_links s) X"
    "s' = t\<lparr>events := E\<rparr>" using link_in_tx by blast
  then show ?thesis by (intro step_links[where X = X and E = E]) simp_all
qed

lemma unlink_ok:
  assumes "unlink_identity_by_admin eid org iss sub actor now s = Inr (n, s')"
  obtains l p E where
    "row (\<lambda>l. il_org l = org \<and> il_issuer l = iss \<and> il_subject l = sub \<and> il_active l) (identity_links s) = Some l"
    "principal_in_tx org (il_principal l) s = Inr p"
    "iy_role p = Admin \<longrightarrow> 1 < count_active_links org (il_principal l) s"
    "s' = s\<lparr>identity_links := update_where
             (\<lambda>l. il_org l = org \<and> il_issuer l = iss \<and> il_subject l = sub \<and> il_active l)
             (\<lambda>l. l\<lparr>il_active := False\<rparr>) (identity_links s),
           sessions := update_where (\<lambda>x. (se_issuer x = iss \<and> se_subject x = sub) \<and> se_revoked x = None)
             (\<lambda>x. x\<lparr>se_revoked := Some now\<rparr>) (sessions s), events := E\<rparr>"
    "n = rows_affected (\<lambda>x. (se_issuer x = iss \<and> se_subject x = sub) \<and> se_revoked x = None) (sessions s)"
proof -
  let ?P = "\<lambda>l. il_org l = org \<and> il_issuer l = iss \<and> il_subject l = sub \<and> il_active l"
  obtain l where l: "row ?P (identity_links s) = Some l"
    using assms by (auto simp: unlink_identity_by_admin_def split: if_split_asm option.splits)
  obtain p where p: "principal_in_tx org (il_principal l) s = Inr p"
    using assms l by (auto simp: unlink_identity_by_admin_def split: if_split_asm sum.splits)
  note u = assms[unfolded unlink_identity_by_admin_def l p revoke_where_def Let_def option.case sum.case prod.case]
  have r: "iy_role p = Admin \<longrightarrow> 1 < count_active_links org (il_principal l) s"
    using u by (auto split: if_split_asm)
  have "n = rows_affected (\<lambda>x. (se_issuer x = iss \<and> se_subject x = sub) \<and> se_revoked x = None) (sessions s)"
    "\<exists>E. s' = s\<lparr>identity_links := update_where ?P (\<lambda>l. l\<lparr>il_active := False\<rparr>) (identity_links s),
       sessions := update_where (\<lambda>x. (se_issuer x = iss \<and> se_subject x = sub) \<and> se_revoked x = None)
             (\<lambda>x. x\<lparr>se_revoked := Some now\<rparr>) (sessions s), events := E\<rparr>"
    using u by (auto split: if_split_asm sum.splits prod.splits dest!: audit_frame)
  then show thesis using that[OF l p r] by blast
qed

lemma unlink_step:
  assumes "unlink_identity_by_admin eid org iss sub actor now s = Inr (n, s')"
  shows "accounts_step {} s s'"
proof -
  obtain E where s': "s' = s\<lparr>identity_links := update_where
             (\<lambda>l. il_org l = org \<and> il_issuer l = iss \<and> il_subject l = sub \<and> il_active l)
             (\<lambda>l. l\<lparr>il_active := False\<rparr>) (identity_links s),
           sessions := update_where (\<lambda>x. (se_issuer x = iss \<and> se_subject x = sub) \<and> se_revoked x = None)
             (\<lambda>x. x\<lparr>se_revoked := Some now\<rparr>) (sessions s), events := E\<rparr>"
    by (rule unlink_ok[OF assms]) (rule that; assumption)
  show ?thesis unfolding s' accounts_step_def
    using sessions_revoked[of "principals s" "sessions s" "\<lambda>x. se_issuer x = iss \<and> se_subject x = sub" now]
    by (simp add: links_activity)
qed

lemma ensure_principal_keep:
  assumes "ensure_principal org i nm r s = Inr (b, s')"
  shows "\<exists>ps. s' = s\<lparr>principals := ps\<rparr> \<and> principals_keep (principals s) ps"
proof (cases "find_principal org i s")
  case (Some p)
  then show ?thesis using assms
    by (auto simp: ensure_principal_def principals_keep_def has_principal_def
        map_key_update_where[where k = pr_id] exists_row_update_where)
next
  case None
  then show ?thesis using assms
    by (intro exI[of _ "principals s'"])
       (auto simp: ensure_principal_def principals_keep_def has_principal_def exists_row_def split: if_split_asm)
qed

lemma ensure_organization_frame: "\<exists>os. snd (ensure_organization org nm s) = s\<lparr>organizations := os\<rparr>"
  by (cases "exists_row (\<lambda>x. og_id x = org) (organizations s)")
     (auto simp: ensure_organization_def intro: exI[of _ "organizations s"])

lemma bootstrap_ok:
  assumes "bootstrap_identity eid q now s = Inr (res, s')"
  obtains oc s1 r pc s2 s3 u v where
    "ensure_organization (trim_space (bq_org q))
       (if bq_org_name q = [] then trim_space (bq_org q) else bq_org_name q) s = (oc, s1)"
    "ensure_principal (trim_space (bq_org q)) (trim_space (bq_principal q))
       (if bq_name q = [] then trim_space (bq_principal q) else bq_name q) r s1 = Inr (pc, s2)"
    "link_identity_in_tx (trim_space (bq_org q)) (trim_space (bq_issuer q)) (trim_space (bq_subject q))
       (trim_space (bq_principal q)) (trim_space (bq_actor q)) now s2 = Inr (u, s3)"
    "audit_tx eid (trim_space (bq_org q)) (trim_space (bq_principal q)) ''identity.bootstrap''
       (trim_space (bq_actor q))
       [(''org_id'', JStr (trim_space (bq_org q))), (''principal_id'', JStr (trim_space (bq_principal q))),
        (''issuer'', JStr (trim_space (bq_issuer q))), (''subject'', JStr (trim_space (bq_subject q))),
        (''org_created'', JBool oc), (''principal_created'', JBool pc)] s3 = Inr (v, s')"
    "role_of (bq_role q) = Some r" "res = \<lparr>br_org = oc, br_principal = pc, br_linked = True\<rparr>"
    "trim_space (bq_org q) \<noteq> []" "trim_space (bq_principal q) \<noteq> []" "trim_space (bq_issuer q) \<noteq> []"
    "trim_space (bq_subject q) \<noteq> []" "trim_space (bq_actor q) \<noteq> []"
  using assms unfolding bootstrap_identity_def Let_def
  by (auto split: if_split_asm option.split_asm prod.split_asm sum.split_asm)

lemma bootstrap_step:
  assumes "bootstrap_identity eid q now s = Inr (res, s')"
  shows "accounts_step {} s s'"
proof (rule bootstrap_ok[OF assms])
  fix oc s1 r pc s2 s3 u v
  assume b: "ensure_organization (trim_space (bq_org q))
       (if bq_org_name q = [] then trim_space (bq_org q) else bq_org_name q) s = (oc, s1)"
    "ensure_principal (trim_space (bq_org q)) (trim_space (bq_principal q))
       (if bq_name q = [] then trim_space (bq_principal q) else bq_name q) r s1 = Inr (pc, s2)"
    "link_identity_in_tx (trim_space (bq_org q)) (trim_space (bq_issuer q)) (trim_space (bq_subject q))
       (trim_space (bq_principal q)) (trim_space (bq_actor q)) now s2 = Inr (u, s3)"
    "audit_tx eid (trim_space (bq_org q)) (trim_space (bq_principal q)) ''identity.bootstrap''
       (trim_space (bq_actor q))
       [(''org_id'', JStr (trim_space (bq_org q))), (''principal_id'', JStr (trim_space (bq_principal q))),
        (''issuer'', JStr (trim_space (bq_issuer q))), (''subject'', JStr (trim_space (bq_subject q))),
        (''org_created'', JBool oc), (''principal_created'', JBool pc)] s3 = Inr (v, s')"
  obtain os where s1: "s1 = s\<lparr>organizations := os\<rparr>" using ensure_organization_frame b(1) by (metis snd_conv)
  obtain ps where ps: "s2 = s1\<lparr>principals := ps\<rparr>" "principals_keep (principals s1) ps"
    using ensure_principal_keep[OF b(2)] by blast
  obtain X where X: "s3 = s2\<lparr>identity_links := X\<rparr>" "links_step (principals s2) (identity_links s2) X"
    using link_in_tx[OF b(3)] by blast
  obtain E where E: "s' = s3\<lparr>events := E\<rparr>" using audit_frame[OF b(4)] by blast
  show ?thesis using ps(2) X(2) unfolding E X(1) ps(1) s1 accounts_step_def by simp
qed

lemma revoke_where_step: "accounts_step {} s (snd (revoke_where P now s))"
  using sessions_revoked[of "principals s" "sessions s" P now]
  by (simp add: revoke_where_def Let_def accounts_step_def)

lemma revoke_where_step': "revoke_where P now s = (n, s') \<Longrightarrow> accounts_step {} s s'"
  using revoke_where_step[of s P now] by simp

lemma logins_append:
  assumes "\<forall>x\<in>set X. lt_hash x \<noteq> lt_hash y"
  shows "logins_step {lt_hash y} X (X @ [y])"
  using assms unfolding logins_step_def by auto

lemma logins_used: "logins_step C X (update_where P (\<lambda>x. x\<lparr>lt_consumed := Some t\<rparr>) X)"
  unfolding logins_step_def ball_update_where by (auto simp: map_key_update_where[where k = lt_hash])

lemma logins_filter: "logins_step C X (filter P X)"
  unfolding logins_step_def by (auto simp: distinct_map_filter)

lemma commit_step:
  assumes "\<And>x s'. f s = Inr (x, s') \<Longrightarrow> accounts_step C s s'"
  shows "accounts_step C s (commit f s)"
  by (rule commit_induct) (use assms in \<open>auto simp: accounts_step_def\<close>)

lemma account_step_moves:
  assumes "legal_account a"
  shows "accounts_step (created a) s (account_step sha a s)"
proof (cases a)
  case (ICreateLogin h v n r ttl now)
  have "accounts_step {h} s s'" if c: "create_login h v n r ttl now s = Inr (x, s')" for x s'
  proof -
    let ?y = "\<lparr>lt_hash = h, lt_verifier = v, lt_nonce = n, lt_return = (if r = [] then ''/'' else r),
               lt_expires = now + ttl, lt_consumed = None\<rparr>"
    have "s' = s\<lparr>logins := logins s @ [?y]\<rparr>" "\<forall>x\<in>set (logins s). lt_hash x \<noteq> lt_hash ?y"
      using c by (auto simp: create_login_def exists_row_def split: if_split_asm)
    then show ?thesis using logins_append[of "logins s" ?y] by (simp add: accounts_step_def)
  qed
  then show ?thesis by (simp add: ICreateLogin commit_step)
next
  case (IConsume h now)
  show ?thesis unfolding IConsume account_step.simps created.simps
    by (rule commit_step) (auto simp: consume_login_def accounts_step_def logins_used split: option.splits)
next
  case (IPurge now)
  show ?thesis unfolding IPurge account_step.simps created.simps
    by (rule commit_step) (auto simp: purge_logins_def accounts_step_def logins_filter)
next
  case (ICreateSession tok org who iss sub csrf ttl now)
  have "accounts_step {} s s'" if "create_session sha tok org who iss sub csrf ttl now s = Inr (x, s')" for x s'
  proof -
    have "has_principal (principals s) org who"
      using that by (auto simp: create_session_def find_principal_has[symmetric] split: if_split_asm)
    then show ?thesis
      using that by (auto simp: create_session_def accounts_step_def session_born_def intro!: sessions_append split: if_split_asm)
  qed
  then show ?thesis by (simp add: ICreateSession commit_step)
next
  case (IRead tok now)
  have "accounts_step {} s s'" if "read_session sha tok now s = Inr (x, s')" for x s'
    using that by (intro step_sessions[where Y = "update_where (\<lambda>x. se_hash x = sha tok) (\<lambda>x. x\<lparr>se_seen := now\<rparr>) (sessions s)"])
      (auto simp: read_session_def sessions_seen split: if_split_asm option.splits sum.splits)
  then show ?thesis by (simp add: IRead commit_step)
next
  case (IUnlinkOidc org iss sub)
  have "accounts_step {} s s'" if "unlink_oidc_identity org iss sub s = Inr (x, s')" for x s'
    using that by (auto simp: unlink_oidc_identity_def Let_def accounts_step_def links_activity split: if_split_asm)
  then show ?thesis by (simp add: IUnlinkOidc commit_step)
next
  case (ILinkOidc org iss sub who by' now)
  have "accounts_step {} s s'" if "link_oidc_identity org iss sub who by' now s = Inr (x, s')" for x s'
    using that link_in_tx[of org iss sub who by' now s x s']
    by (auto simp: link_oidc_identity_def accounts_step_def split: if_split_asm)
  then show ?thesis by (simp add: ILinkOidc commit_step)
next
  case (IRevoke tok now)
  show ?thesis unfolding IRevoke account_step.simps
    by (rule commit_step) (auto simp: revoke_session_def revoke_where_step)
next
  case (IRevokeIdentity iss sub now)
  show ?thesis unfolding IRevokeIdentity account_step.simps
    by (rule commit_step) (auto simp: revoke_sessions_for_identity_def intro: revoke_where_step' split: if_split_asm)
next
  case (IRevokePrincipal org who now)
  show ?thesis unfolding IRevokePrincipal account_step.simps
    by (rule commit_step) (auto simp: revoke_sessions_for_principal_def intro: revoke_where_step' split: if_split_asm)
next
  case (IElse f)
  then show ?thesis using assms by (simp add: accounts_step_def keep_accounts_def)
qed (auto intro!: commit_step intro: link_by_admin_step unlink_step bootstrap_step)

interpretation accounts: invariant_system empty_db legal_account "account_step sha" accounts_ok for sha
proof unfold_locales
  show "accounts_ok empty_db" by (simp add: accounts_ok_def empty_db_def)
qed (rule accounts_step_ok[OF account_step_moves])

interpretation link_life: lifecycle empty_db legal_account "account_step sha" accounts_ok
    identity_links link_move il_active "\<lambda>_. False" for sha
  by unfold_locales
     (use account_step_moves in \<open>auto simp: accounts_step_def links_step_def empty_db_def intro: grows_mono\<close>)

interpretation session_life: lifecycle empty_db legal_account "account_step sha" accounts_ok
    sessions session_move session_born "\<lambda>_. False" for sha
  by unfold_locales
     (use account_step_moves in \<open>auto simp: accounts_step_def sessions_step_def empty_db_def intro: grows_mono\<close>)

lemma link_moves:
  assumes "link_move\<^sup>*\<^sup>* l m"
  shows "m = l\<lparr>il_active := il_active m\<rparr>"
  using assms
proof (induction rule: rtranclp_induct)
  case (step y z)
  then show ?case unfolding link_move_def by (cases l; cases y; cases z) simp
qed simp

lemma link_moveD:
  assumes "link_move\<^sup>*\<^sup>* l m"
  shows "il_issuer m = il_issuer l" "il_subject m = il_subject l" "il_org m = il_org l"
    "il_principal m = il_principal l"
  by (subst link_moves[OF assms]; simp)+

lemma session_moveD:
  assumes "session_move x y"
  shows "se_hash y = se_hash x" "se_org y = se_org x" "se_principal y = se_principal x"
    "se_issuer y = se_issuer x" "se_subject y = se_subject x" "se_expires y = se_expires x"
    "se_revoked x \<noteq> None \<Longrightarrow> se_revoked y \<noteq> None"
proof -
  have y: "y = x\<lparr>se_seen := se_seen y, se_revoked := se_revoked y\<rparr>" using assms by (simp add: session_move_def)
  show "se_hash y = se_hash x" "se_org y = se_org x" "se_principal y = se_principal x"
    "se_issuer y = se_issuer x" "se_subject y = se_subject x" "se_expires y = se_expires x"
    by (subst y; simp)+
  show "se_revoked x \<noteq> None \<Longrightarrow> se_revoked y \<noteq> None" using assms by (simp add: session_move_def)
qed

lemma session_moves:
  assumes "session_move\<^sup>*\<^sup>* x y"
  shows "session_move x y"
  using assms
proof (induction rule: rtranclp_induct)
  case (step y z)
  then show ?case unfolding session_move_def by (cases x; cases y; cases z) simp
qed simp

text \<open>The row an account or a token finds.\<close>

lemma find_link_ok:
  assumes "accounts_ok s" "l \<in> set (identity_links s)"
  shows "find_link (il_issuer l) (il_subject l) s = Some l"
  by (rule row_unique[OF accounts_okD(2)[OF assms(1)] assms(2)]) auto

lemma active_link_iff:
  assumes "accounts_ok s"
  shows "row (\<lambda>l. il_issuer l = iss \<and> il_subject l = sub \<and> il_active l) (identity_links s) =
    (case find_link iss sub s of None \<Rightarrow> None | Some l \<Rightarrow> if il_active l then Some l else None)"
proof (cases "find_link iss sub s")
  case None
  then have "row (\<lambda>l. il_issuer l = iss \<and> il_subject l = sub \<and> il_active l) (identity_links s) = None"
    by (auto simp: row_None_iff)
  then show ?thesis using None by simp
next
  case (Some l)
  then have l: "l \<in> set (identity_links s)" "il_issuer l = iss" "il_subject l = sub" by (auto dest: row_SomeD)
  show ?thesis
  proof (cases "il_active l")
    case True
    have "row (\<lambda>l. il_issuer l = iss \<and> il_subject l = sub \<and> il_active l) (identity_links s) = Some l"
      by (rule row_unique[OF accounts_okD(2)[OF assms] l(1)]) (use l True in auto)
    then show ?thesis using Some True by simp
  next
    case False
    have "k = l" if "k \<in> set (identity_links s)" "il_issuer k = iss" "il_subject k = sub" for k
      using unique_key_row[OF accounts_okD(2)[OF assms] that(1) l(1)] that(2,3) l(2,3) by simp
    then show ?thesis using Some False by (auto simp: row_None_iff)
  qed
qed

lemma session_account_nonempty:
  assumes "reachable_accounts sha s" "x \<in> set (sessions s)"
  shows "se_issuer x \<noteq> []" "se_subject x \<noteq> []"
proof -
  have "\<forall>x\<in>set (sessions s). se_issuer x \<noteq> [] \<and> se_subject x \<noteq> []"
  proof (rule session_life.rows_all[OF assms(1)])
    fix r r' assume "session_move r r'" "se_issuer r \<noteq> [] \<and> se_subject r \<noteq> []"
    then show "se_issuer r' \<noteq> [] \<and> se_subject r' \<noteq> []" using session_moveD[of r r'] by simp
  qed (simp add: session_born_def)
  then show "se_issuer x \<noteq> []" "se_subject x \<noteq> []" using assms(2) by auto
qed

definition live_session :: "string \<Rightarrow> time \<Rightarrow> session \<Rightarrow> bool" where
  "live_session h now x \<longleftrightarrow> se_hash x = h \<and> se_revoked x = None \<and> now < se_expires x"

lemma live_row:
  assumes "accounts_ok s"
  shows "row (live_session h now) (sessions s) = Some x \<longleftrightarrow> x \<in> set (sessions s) \<and> live_session h now x"
proof
  assume "x \<in> set (sessions s) \<and> live_session h now x"
  then show "row (live_session h now) (sessions s) = Some x"
    by (intro row_unique[OF accounts_okD(3)[OF assms]]) (auto simp: live_session_def)
qed (rule row_SomeD)

lemma resolve_oidc_iff:
  assumes "accounts_ok s" "iss \<noteq> []" "sub \<noteq> []"
  shows "resolve_oidc_identity iss sub s = Inr p \<longleftrightarrow>
    (\<exists>l. find_link iss sub s = Some l \<and> il_active l \<and> resolve_identity (il_org l) (il_principal l) s = Inr p)"
  using assms(2,3) unfolding resolve_oidc_identity_def active_link_iff[OF assms(1)] Let_def
  by (auto split: option.splits sum.splits)

lemma resolve_identity_key:
  "resolve_identity org i s = Inr p \<Longrightarrow> org = iy_org p \<and> i = iy_id p"
  by (auto simp: resolve_identity_def principal_in_tx_def ident_of_def dest: row_SomeD split: option.splits)

lemma read_session_iff:
  "read_session sha tok now s = Inr ((x, p), s') \<longleftrightarrow> tok \<noteq> [] \<and>
     row (live_session (sha tok) now) (sessions s) = Some x \<and>
     resolve_identity (se_org x) (se_principal x) s = Inr p \<and>
     (\<exists>l. find_link (se_issuer x) (se_subject x) s = Some l \<and> il_active l \<and> il_org l = se_org x \<and>
        il_principal l = se_principal x) \<and>
     s' = s\<lparr>sessions := update_where (\<lambda>x. se_hash x = sha tok) (\<lambda>x. x\<lparr>se_seen := now\<rparr>) (sessions s)\<rparr>"
  unfolding read_session_def live_session_def by (auto split: option.splits sum.splits)

lemma revoked_dead:
  assumes "accounts_ok s" "list_all legal_account as" "x \<in> set (sessions s)" "se_hash x = sha tok"
    "se_revoked x \<noteq> None"
  shows "read_session sha tok now (steps (account_step sha) as s) = Inl SessionInvalid"
proof -
  let ?t = "steps (account_step sha) as s"
  have ok: "accounts_ok ?t" by (rule accounts.run_inv[OF assms(1,2)])
  obtain y where y: "y \<in> set (sessions ?t)" "session_move x y"
    using session_life.rows_run[OF assms(1,2,3)] session_moves by blast
  then have h: "se_hash y = sha tok" "se_revoked y \<noteq> None"
    using assms(4,5) session_moveD[OF y(2)] by simp_all
  have "\<not> live_session (sha tok) now z" if "z \<in> set (sessions ?t)" for z
    using unique_key_row[OF accounts_okD(3)[OF ok] that y(1)] h by (auto simp: live_session_def)
  then have "row (live_session (sha tok) now) (sessions ?t) = None" by (simp add: row_None_iff)
  then show ?thesis by (auto simp: read_session_def live_session_def[abs_def])
qed

section \<open>Properties\<close>

text \<open>
  C35. A session gives exactly the authority a fresh sign-in with its account would give: a token is read
  as an identity iff its session is neither revoked nor expired and the account resolves, at that moment,
  to that identity, which is the principal the session was created for.
\<close>

theorem session_equals_sign_in:
  assumes "reachable_accounts sha s" "tok \<noteq> []"
  shows "(\<exists>s'. read_session sha tok now s = Inr ((x, p), s')) \<longleftrightarrow>
    x \<in> set (sessions s) \<and> se_hash x = sha tok \<and> se_revoked x = None \<and> now < se_expires x \<and>
    resolve_oidc_identity (se_issuer x) (se_subject x) s = Inr p \<and>
    iy_org p = se_org x \<and> iy_id p = se_principal x"
proof -
  have ok: "accounts_ok s" by (rule accounts.reachable_inv[OF assms(1)])
  show ?thesis
  proof (cases "x \<in> set (sessions s)")
    case True
    note n = session_account_nonempty[OF assms(1) True]
    show ?thesis unfolding read_session_iff live_row[OF ok] resolve_oidc_iff[OF ok n]
      using True assms(2) by (auto simp: live_session_def) (frule resolve_identity_key, simp)+
  next
    case False
    then show ?thesis unfolding read_session_iff live_row[OF ok] by blast
  qed
qed

text \<open>
  C36. Removing an external account ends its sessions for good: after an administrator unlinked it, no
  session it had is ever read again, whatever happens afterwards, also if it is linked again.
\<close>

theorem unlink_ends_sessions:
  assumes "reachable_accounts sha s" "unlink_identity_by_admin eid org iss sub actor t s = Inr (n, s')"
    "x \<in> set (sessions s)" "se_issuer x = iss" "se_subject x = sub" "se_hash x = sha tok"
    "list_all legal_account as"
  shows "read_session sha tok now (steps (account_step sha) as s') = Inl SessionInvalid"
proof -
  have ok: "accounts_ok s'"
    using accounts_step_ok[OF unlink_step[OF assms(2)] accounts.reachable_inv[OF assms(1)]] .
  obtain L E where s': "s' = s\<lparr>identity_links := L, sessions := update_where
      (\<lambda>x. (se_issuer x = iss \<and> se_subject x = sub) \<and> se_revoked x = None)
      (\<lambda>x. x\<lparr>se_revoked := Some t\<rparr>) (sessions s), events := E\<rparr>"
    by (rule unlink_ok[OF assms(2)]) (rule that; assumption)
  let ?y = "if se_revoked x = None then x\<lparr>se_revoked := Some t\<rparr> else x"
  have "?y \<in> set (sessions s')" using assms(3-5) by (auto simp: s' update_where_def)
  moreover have "se_hash ?y = sha tok" "se_revoked ?y \<noteq> None" using assms(6) by auto
  ultimately show ?thesis by (rule revoked_dead[OF ok assms(7)])
qed

text \<open>
  C37. An account is bound for good: once an external account is linked to a principal, it never resolves
  to any other principal, in any organization.
\<close>

theorem account_bound:
  assumes "reachable_accounts sha s" "l \<in> set (identity_links s)" "list_all legal_account as"
    "resolve_oidc_identity (il_issuer l) (il_subject l) (steps (account_step sha) as s) = Inr p"
  shows "iy_org p = il_org l \<and> iy_id p = il_principal l"
proof -
  let ?t = "steps (account_step sha) as s"
  have ok: "accounts_ok s" by (rule accounts.reachable_inv[OF assms(1)])
  have ok': "accounts_ok ?t" by (rule accounts.run_inv[OF ok assms(3)])
  obtain m where m: "m \<in> set (identity_links ?t)" "link_move\<^sup>*\<^sup>* l m"
    using link_life.rows_run[OF ok assms(3,2)] by blast
  then have k: "il_issuer m = il_issuer l" "il_subject m = il_subject l" "il_org m = il_org l"
      "il_principal m = il_principal l" using link_moveD[OF m(2)] by simp_all
  then have "find_link (il_issuer l) (il_subject l) ?t = Some m" using find_link_ok[OF ok' m(1)] by simp
  then have "resolve_identity (il_org m) (il_principal m) ?t = Inr p"
    using assms(4) unfolding resolve_oidc_identity_def active_link_iff[OF ok'] Let_def
    by (auto split: if_split_asm option.splits sum.splits)
  then show ?thesis using resolve_identity_key k by auto
qed

text \<open>A hash that no login can be used with stays so until a login is created with it.\<close>

definition used_up :: "string \<Rightarrow> login list \<Rightarrow> bool" where
  "used_up h X \<longleftrightarrow> (\<forall>x\<in>set X. lt_hash x = h \<longrightarrow> lt_consumed x \<noteq> None)"

lemma used_up_step:
  assumes "accounts_step C s s'" "h \<notin> C" "used_up h (logins s)"
  shows "used_up h (logins s')"
proof -
  have *: "\<forall>y\<in>set (logins s'). lt_hash y \<in> C \<or>
      (\<exists>x\<in>set (logins s). lt_hash x = lt_hash y \<and> (lt_consumed x \<noteq> None \<longrightarrow> lt_consumed y \<noteq> None))"
    using assms(1) by (simp add: accounts_step_def logins_step_def)
  show ?thesis unfolding used_up_def
  proof (intro ballI impI)
    fix y assume y: "y \<in> set (logins s')" "lt_hash y = h"
    then obtain x where "x \<in> set (logins s)" "lt_hash x = h" "lt_consumed x \<noteq> None \<longrightarrow> lt_consumed y \<noteq> None"
      using *[rule_format, OF y(1)] assms(2) by auto
    then show "lt_consumed y \<noteq> None" using assms(3) by (simp add: used_up_def)
  qed
qed

lemma used_up_run:
  assumes "used_up h (logins s)" "list_all legal_account as" "list_all (\<lambda>a. h \<notin> created a) as"
  shows "used_up h (logins (steps (account_step sha) as s))"
  using assms
proof (induction as arbitrary: s)
  case (Cons a as)
  then show ?case using used_up_step[OF account_step_moves[of a s sha]] by simp
qed simp

lemma consume_uses_up:
  assumes "accounts_ok s" "consume_login h t s = Inr (x, s')"
  shows "used_up h (logins s')"
proof -
  have x: "x \<in> set (logins s)" "usable_login h t x"
    and s': "s' = s\<lparr>logins := update_where (usable_login h t) (\<lambda>x. x\<lparr>lt_consumed := Some t\<rparr>) (logins s)\<rparr>"
    using assms(2) by (auto simp: consume_login_def dest: row_SomeD split: option.splits)
  have "y = x" if "y \<in> set (logins s)" "lt_hash y = h" for y
    using unique_key_row[OF accounts_okD(4)[OF assms(1)] that(1) x(1)] that(2) x(2) by (simp add: usable_login_def)
  then show ?thesis using x(2) by (auto simp: used_up_def s' table_simps)
qed

text \<open>
  A login is used once: after a callback claimed it, every later callback with the same state value is
  refused, as long as no new login is created under that value.
\<close>

lemma login_used_once:
  assumes "reachable_accounts sha s" "consume_login h t s = Inr (x, s')"
    "list_all legal_account as" "list_all (\<lambda>a. h \<notin> created a) as"
  shows "consume_login h now (steps (account_step sha) as s') = Inl LoginUnusable"
proof -
  have "used_up h (logins (steps (account_step sha) as s'))"
    by (rule used_up_run[OF consume_uses_up[OF accounts.reachable_inv[OF assms(1)] assms(2)] assms(3,4)])
  then have "row (usable_login h now) (logins (steps (account_step sha) as s')) = None"
    by (auto simp: row_None_iff used_up_def usable_login_def)
  then show ?thesis by (simp add: consume_login_def)
qed

text \<open>
  A deactivated principal cannot be unlinked: the removal of its account fails and its sessions and link
  stay as they are.
\<close>

lemma inactive_not_unlinked:
  assumes "reachable_accounts sha s" "l \<in> set (identity_links s)" "il_active l"
    "\<And>p. p \<in> set (principals s) \<Longrightarrow> pr_org p = il_org l \<Longrightarrow> pr_id p = il_principal l \<Longrightarrow> \<not> pr_active p"
    "il_org l \<noteq> []" "il_issuer l \<noteq> []" "il_subject l \<noteq> []" "actor \<noteq> []"
  shows "with_org (unlink_identity_by_admin eid (il_org l) (il_issuer l) (il_subject l) actor now) s = (Inl NoRows, s)"
proof -
  have ok: "accounts_ok s" by (rule accounts.reachable_inv[OF assms(1)])
  have "row (\<lambda>k. il_org k = il_org l \<and> il_issuer k = il_issuer l \<and> il_subject k = il_subject l \<and> il_active k)
      (identity_links s) = Some l"
    by (rule row_unique[OF accounts_okD(2)[OF ok] assms(2)]) (use assms(3) in auto)
  moreover have "principal_in_tx (il_org l) (il_principal l) s = Inl NoRows"
    using assms(4) by (auto simp: principal_in_tx_def row_None_iff split: option.splits dest: row_SomeD)
  ultimately show ?thesis
    using assms(5-8) by (simp add: unlink_identity_by_admin_def with_org_def)
qed

section \<open>Administrators keep access\<close>

definition active_admin :: "id \<Rightarrow> id \<Rightarrow> db \<Rightarrow> bool" where
  "active_admin org i s \<longleftrightarrow>
     exists_row (\<lambda>p. pr_org p = org \<and> pr_id p = i \<and> pr_role p = Admin \<and> pr_active p) (principals s)"

definition active_account :: "id \<Rightarrow> id \<Rightarrow> db \<Rightarrow> bool" where
  "active_account org i s \<longleftrightarrow>
     exists_row (\<lambda>l. il_org l = org \<and> il_principal l = i \<and> il_active l) (identity_links s)"

text \<open>The actions that are not the raw removal of a link nor outside of this model.\<close>

fun administered :: "account_action \<Rightarrow> bool" where
  "administered (IUnlinkOidc org iss sub) = False"
| "administered (IElse f) = False"
| "administered _ = True"

definition access_kept :: "db \<Rightarrow> db \<Rightarrow> bool" where
  "access_kept s s' \<longleftrightarrow> (\<forall>org i. active_admin org i s \<and> active_account org i s \<longrightarrow>
     active_admin org i s' \<and> active_account org i s')"

lemma access_kept_refl [simp]: "access_kept s s"
  by (simp add: access_kept_def)

lemma access_trans: "access_kept s t \<Longrightarrow> access_kept t u \<Longrightarrow> access_kept s u"
  by (simp add: access_kept_def)

lemma access_same:
  "principals s' = principals s \<Longrightarrow> identity_links s' = identity_links s \<Longrightarrow> access_kept s s'"
  by (simp add: access_kept_def active_admin_def active_account_def)

lemma access_tables [simp]: "access_kept s (s\<lparr>sessions := X\<rparr>)" "access_kept s (s\<lparr>logins := Y\<rparr>)"
  by (simp_all add: access_same)

lemma access_activated:
  "exists_row (\<lambda>l. il_org l = org \<and> il_principal l = i \<and> il_active l) L \<Longrightarrow>
   exists_row (\<lambda>l. il_org l = org \<and> il_principal l = i \<and> il_active l) (update_where P (\<lambda>l. l\<lparr>il_active := True\<rparr>) L)"
  by (auto simp: exists_row_def table_simps)

lemma link_access:
  assumes "link_identity_in_tx org iss sub who by now s = Inr (u, s')"
  shows "access_kept s s'"
proof -
  have "principals s' = principals s" using link_in_tx[OF assms] by auto
  moreover have "active_account o1 i s'" if "active_account o1 i s" for o1 i
    using assms that unfolding active_account_def
    by (auto simp: link_identity_in_tx_def access_activated split: if_split_asm option.splits)
  ultimately show ?thesis by (simp add: access_kept_def active_admin_def)
qed

lemma audit_access: "audit_tx eid org agg typ actor pl s = Inr (u, s') \<Longrightarrow> access_kept s s'"
  by (drule audit_frame) (auto intro: access_same)

lemma ensure_principal_access:
  assumes "ensure_principal org i nm r s = Inr (b, s')"
  shows "access_kept s s'"
proof -
  have "active_admin o1 j s'" if "active_admin o1 j s" for o1 j
    using assms that
    by (auto simp: ensure_principal_def active_admin_def exists_row_def table_simps split: if_split_asm)
  moreover have "identity_links s' = identity_links s" using ensure_principal_keep[OF assms] by auto
  ultimately show ?thesis by (simp add: access_kept_def active_account_def)
qed

lemma bootstrap_access:
  assumes "bootstrap_identity eid q now s = Inr (res, s')"
  shows "access_kept s s'"
proof (rule bootstrap_ok[OF assms])
  fix oc s1 r pc s2 s3 u v
  assume b: "ensure_organization (trim_space (bq_org q))
       (if bq_org_name q = [] then trim_space (bq_org q) else bq_org_name q) s = (oc, s1)"
    "ensure_principal (trim_space (bq_org q)) (trim_space (bq_principal q))
       (if bq_name q = [] then trim_space (bq_principal q) else bq_name q) r s1 = Inr (pc, s2)"
    "link_identity_in_tx (trim_space (bq_org q)) (trim_space (bq_issuer q)) (trim_space (bq_subject q))
       (trim_space (bq_principal q)) (trim_space (bq_actor q)) now s2 = Inr (u, s3)"
    "audit_tx eid (trim_space (bq_org q)) (trim_space (bq_principal q)) ''identity.bootstrap''
       (trim_space (bq_actor q))
       [(''org_id'', JStr (trim_space (bq_org q))), (''principal_id'', JStr (trim_space (bq_principal q))),
        (''issuer'', JStr (trim_space (bq_issuer q))), (''subject'', JStr (trim_space (bq_subject q))),
        (''org_created'', JBool oc), (''principal_created'', JBool pc)] s3 = Inr (v, s')"
  have "s1 = snd (ensure_organization (trim_space (bq_org q))
       (if bq_org_name q = [] then trim_space (bq_org q) else bq_org_name q) s)" by (simp add: b(1))
  then obtain os where "s1 = s\<lparr>organizations := os\<rparr>" using ensure_organization_frame by metis
  then have "access_kept s s1" by (intro access_same) simp_all
  then show ?thesis
    using ensure_principal_access[OF b(2)] link_access[OF b(3)] audit_access[OF b(4)] access_trans by blast
qed

lemma another_link:
  assumes "1 < length (filter P L)" "distinct (map k L)" "l \<in> set L"
  shows "\<exists>m\<in>set L. P m \<and> k m \<noteq> k l"
proof (rule ccontr)
  assume "\<not> ?thesis"
  then have "set (map k (filter P L)) \<subseteq> {k l}" by auto
  then have "card (set (map k (filter P L))) \<le> 1" using card_mono[of "{k l}"] by fastforce
  moreover have "card (set (map k (filter P L))) = length (filter P L)"
    using distinct_card[OF distinct_map_filter[OF assms(2)]] by simp
  ultimately show False using assms(1) by simp
qed

lemma unlink_access:
  assumes "accounts_ok s" "unlink_identity_by_admin eid org iss sub actor now s = Inr (n, s')"
  shows "access_kept s s'"
proof -
  let ?P = "\<lambda>l. il_org l = org \<and> il_issuer l = iss \<and> il_subject l = sub \<and> il_active l"
  obtain l p E Y where l: "row ?P (identity_links s) = Some l" "principal_in_tx org (il_principal l) s = Inr p"
    "iy_role p = Admin \<longrightarrow> 1 < count_active_links org (il_principal l) s"
    and s': "s' = s\<lparr>identity_links := update_where ?P (\<lambda>l. l\<lparr>il_active := False\<rparr>) (identity_links s),
      sessions := Y, events := E\<rparr>"
    by (rule unlink_ok[OF assms(2)]) (rule that; assumption)
  have lm: "l \<in> set (identity_links s)" "?P l" using row_SomeD[OF l(1)] by blast+
  have "active_account o1 i s'" if a: "active_admin o1 i s" "active_account o1 i s" for o1 i
  proof (cases "o1 = org \<and> i = il_principal l")
    case True
    obtain q where q: "q \<in> set (principals s)" "pr_org q = org" "pr_id q = il_principal l" "pr_role q = Admin" "pr_active q"
      using a(1) True by (auto simp: active_admin_def exists_row_def)
    have "row (\<lambda>p. pr_org p = org \<and> pr_id p = il_principal l \<and> pr_active p) (principals s) = Some q"
      by (rule row_unique[OF accounts_okD(1)[OF assms(1)] q(1)]) (use q in auto)
    then have "iy_role p = Admin" using l(2) q(4) by (auto simp: principal_in_tx_def ident_of_def)
    then have "1 < length (filter (\<lambda>k. il_org k = org \<and> il_principal k = il_principal l \<and> il_active k) (identity_links s))"
      using l(3) by (simp add: count_active_links_def)
    then obtain m where "m \<in> set (identity_links s)" "il_org m = org" "il_principal m = il_principal l" "il_active m"
        "link_key m \<noteq> link_key l"
      using another_link[OF _ accounts_okD(2)[OF assms(1)] lm(1)] by blast
    then show ?thesis using True lm(2) by (auto simp: active_account_def s' exists_row_def table_simps)
  next
    case False
    obtain m where m: "m \<in> set (identity_links s)" "il_org m = o1" "il_principal m = i" "il_active m"
      using a(2) by (auto simp: active_account_def exists_row_def)
    have "\<not> ?P m"
      using False m unique_key_row[OF accounts_okD(2)[OF assms(1)] m(1) lm(1)] lm(2) by auto
    then show ?thesis using m by (auto simp: active_account_def s' exists_row_def table_simps)
  qed
  then show ?thesis by (simp add: access_kept_def active_admin_def s')
qed

lemma access_commit:
  assumes "\<And>x s'. f s = Inr (x, s') \<Longrightarrow> access_kept s s'"
  shows "access_kept s (commit f s)"
  by (rule commit_induct) (use assms in auto)

lemma revoke_access: "access_kept s (snd (revoke_where P now s))"
  by (rule access_same) (simp_all add: revoke_where_def Let_def)

lemma revoke_access': "revoke_where P now s = (n, s') \<Longrightarrow> access_kept s s'"
  using revoke_access[of s P now] by simp

text \<open>Every operation on identities but \<^verbatim>\<open>UnlinkOIDCIdentity\<close> keeps the access of active administrators.\<close>

lemma administered_access:
  assumes ok: "accounts_ok s" and a: "administered a"
  shows "access_kept s (account_step sha a s)"
proof (cases a)
  case (ILink eid org iss sub who actor now)
  show ?thesis unfolding ILink account_step.simps
    by (rule access_commit)
       (auto simp: link_identity_by_admin_def intro: access_trans[OF link_access audit_access]
         split: if_split_asm sum.splits)
next
  case (ILinkOidc org iss sub who by' now)
  show ?thesis unfolding ILinkOidc account_step.simps
    by (rule access_commit) (auto simp: link_oidc_identity_def intro: link_access split: if_split_asm)
qed (use a in \<open>auto intro!: access_commit intro: unlink_access[OF ok] bootstrap_access
       revoke_access revoke_access' simp: revoke_session_def revoke_sessions_for_identity_def
       revoke_sessions_for_principal_def create_login_def consume_login_def purge_logins_def
       create_session_def read_session_def split: if_split_asm option.splits sum.splits\<close>)

section \<open>Running the bootstrap again\<close>

lemma update_where_idle: "(\<And>r. r \<in> set t \<Longrightarrow> P r \<Longrightarrow> f r = r) \<Longrightarrow> update_where P f t = t"
  by (induction t) auto

lemma audit_new:
  assumes "\<not> exists_row (\<lambda>e. ev_id e = eid) (events s)"
  shows "audit_tx eid org agg typ actor pl s = Inr ((), s\<lparr>events := events s @
     [\<lparr>ev_id = eid, ev_org = org, ev_aggregate = agg, ev_version = next_version org agg s, ev_type = typ,
       ev_actor = actor, ev_payload = JObj pl\<rparr>]\<rparr>)"
    "\<forall>x\<in>set (events s). ev_org x = org \<and> ev_aggregate x = agg \<longrightarrow> ev_version x < next_version org agg s"
proof -
  show v: "\<forall>x\<in>set (events s). ev_org x = org \<and> ev_aggregate x = agg \<longrightarrow> ev_version x < next_version org agg s"
    using max0_upper[of _ "map ev_version (filter (\<lambda>e. ev_org e = org \<and> ev_aggregate e = agg) (events s))"]
    by (force simp: next_version_def)
  then have "\<not> exists_row (\<lambda>x. ev_org x = org \<and> ev_aggregate x = agg \<and> ev_version x = next_version org agg s \<and>
      ev_type x = typ) (events s)" by (force simp: exists_row_def)
  then show "audit_tx eid org agg typ actor pl s = Inr ((), s\<lparr>events := events s @
     [\<lparr>ev_id = eid, ev_org = org, ev_aggregate = agg, ev_version = next_version org agg s, ev_type = typ,
       ev_actor = actor, ev_payload = JObj pl\<rparr>]\<rparr>)"
    using assms by (simp add: audit_tx_def insert_event_def)
qed

lemma ensure_organization_again:
  "exists_row (\<lambda>x. og_id x = org) (organizations s) \<Longrightarrow> ensure_organization org nm s = (False, s)"
  by (simp add: ensure_organization_def)

lemma ensure_organization_there:
  "ensure_organization org nm s = (b, s') \<Longrightarrow> exists_row (\<lambda>x. og_id x = org) (organizations s')"
  by (auto simp: ensure_organization_def split: if_split_asm)

lemma ensure_principal_there:
  assumes "ensure_principal org i nm r s = Inr (b, s')"
  shows "find_principal org i s' \<noteq> None" "\<forall>p\<in>set (principals s'). pr_org p = org \<and> pr_id p = i \<longrightarrow> pr_active p"
    "organizations s' = organizations s"
proof -
  show "find_principal org i s' \<noteq> None" "organizations s' = organizations s"
    using assms by (auto simp: ensure_principal_def row_None_iff exists_row_def table_simps split: if_split_asm)
  show "\<forall>p\<in>set (principals s'). pr_org p = org \<and> pr_id p = i \<longrightarrow> pr_active p"
  proof (cases "find_principal org i s")
    case None
    then have ps: "principals s' = principals s @ [\<lparr>pr_id = i, pr_org = org, pr_name = nm, pr_role = r, pr_active = True\<rparr>]"
      using assms by (auto simp: ensure_principal_def split: if_split_asm)
    show ?thesis unfolding ps using row_None_iff[THEN iffD1, OF None] by auto
  next
    case (Some p)
    then have ps: "principals s' = update_where (\<lambda>p. pr_org p = org \<and> pr_id p = i) (\<lambda>p. p\<lparr>pr_active := True\<rparr>) (principals s)"
      using assms by (auto simp: ensure_principal_def)
    show ?thesis unfolding ps ball_update_where by auto
  qed
qed

lemma ensure_principal_again:
  assumes "find_principal org i s \<noteq> None" "\<forall>p\<in>set (principals s). pr_org p = org \<and> pr_id p = i \<longrightarrow> pr_active p"
  shows "ensure_principal org i nm r s = Inr (False, s)"
proof -
  have "update_where (\<lambda>p. pr_org p = org \<and> pr_id p = i) (\<lambda>p. p\<lparr>pr_active := True\<rparr>) (principals s) = principals s"
    by (rule update_where_idle) (use assms(2) in auto)
  then show ?thesis using assms(1) by (simp add: ensure_principal_def)
qed

lemma link_there:
  assumes "link_identity_in_tx org iss sub who by now s = Inr (u, s')"
  shows "\<exists>l. find_link iss sub s' = Some l \<and> il_principal l = who"
    "\<forall>l\<in>set (identity_links s'). il_issuer l = iss \<and> il_subject l = sub \<longrightarrow> il_active l"
    "principals s' = principals s" "organizations s' = organizations s"
proof -
  have p: "find_principal org who s \<noteq> None" using assms by (auto simp: link_identity_in_tx_def split: if_split_asm)
  show "principals s' = principals s" "organizations s' = organizations s" using link_in_tx[OF assms] by auto
  show "\<exists>l. find_link iss sub s' = Some l \<and> il_principal l = who"
  proof (cases "find_link iss sub s")
    case None
    then show ?thesis using assms p by (auto simp: link_identity_in_tx_def row_append)
  next
    case (Some l)
    then have "il_principal l = who" "s' = s\<lparr>identity_links := update_where
         (\<lambda>l. il_issuer l = iss \<and> il_subject l = sub \<and> \<not> il_active l) (\<lambda>l. l\<lparr>il_active := True\<rparr>) (identity_links s)\<rparr>"
      using assms p by (auto simp: link_identity_in_tx_def split: if_split_asm)
    then show ?thesis using Some by (simp add: row_update_where_same)
  qed
  show "\<forall>l\<in>set (identity_links s'). il_issuer l = iss \<and> il_subject l = sub \<longrightarrow> il_active l"
  proof (cases "find_link iss sub s")
    case None
    then have ls: "identity_links s' = identity_links s @ [\<lparr>il_issuer = iss, il_subject = sub, il_org = org,
        il_principal = who, il_created = now, il_created_by = by, il_active = True\<rparr>]"
      using assms p by (auto simp: link_identity_in_tx_def)
    show ?thesis unfolding ls using row_None_iff[THEN iffD1, OF None] by auto
  next
    case (Some l)
    then have ls: "identity_links s' = update_where (\<lambda>l. il_issuer l = iss \<and> il_subject l = sub \<and> \<not> il_active l)
        (\<lambda>l. l\<lparr>il_active := True\<rparr>) (identity_links s)"
      using assms p by (auto simp: link_identity_in_tx_def split: if_split_asm)
    show ?thesis unfolding ls ball_update_where by auto
  qed
qed

lemma link_again:
  assumes "find_principal org who s \<noteq> None" "find_link iss sub s = Some l" "il_principal l = who"
    "\<forall>l\<in>set (identity_links s). il_issuer l = iss \<and> il_subject l = sub \<longrightarrow> il_active l"
  shows "link_identity_in_tx org iss sub who by now s = Inr ((), s)"
proof -
  have "update_where (\<lambda>l. il_issuer l = iss \<and> il_subject l = sub \<and> \<not> il_active l) (\<lambda>l. l\<lparr>il_active := True\<rparr>)
      (identity_links s) = identity_links s"
    by (rule update_where_idle) (use assms(4) in auto)
  then show ?thesis using assms(1-3) by (auto simp: link_identity_in_tx_def)
qed

lemma bootstrap_settled:
  assumes "bootstrap_identity eid q now s = Inr (res, s')"
  shows "exists_row (\<lambda>x. og_id x = trim_space (bq_org q)) (organizations s') \<and>
    find_principal (trim_space (bq_org q)) (trim_space (bq_principal q)) s' \<noteq> None \<and>
    (\<forall>p\<in>set (principals s'). pr_org p = trim_space (bq_org q) \<and> pr_id p = trim_space (bq_principal q) \<longrightarrow>
       pr_active p) \<and>
    (\<exists>l. find_link (trim_space (bq_issuer q)) (trim_space (bq_subject q)) s' = Some l \<and>
       il_principal l = trim_space (bq_principal q)) \<and>
    (\<forall>l\<in>set (identity_links s'). il_issuer l = trim_space (bq_issuer q) \<and> il_subject l = trim_space (bq_subject q)
       \<longrightarrow> il_active l)"
proof (rule bootstrap_ok[OF assms], goal_cases)
  case (1 oc s1 r pc s2 s3 u v)
  note o = ensure_organization_there[OF 1(1)] and p = ensure_principal_there[OF 1(2)] and l = link_there[OF 1(3)]
  obtain E where s': "s' = s3\<lparr>events := E\<rparr>" using audit_frame[OF 1(4)] by blast
  have t: "organizations s' = organizations s1" "principals s' = principals s2" "identity_links s' = identity_links s3"
    using p(3) l(3,4) by (simp_all add: s')
  show ?case unfolding t using o p(1,2) l(1,2) by (intro conjI)
qed

text \<open>
  The bootstrap can be repeated: after one succeeded, running it again with a fresh event identifier succeeds,
  creates nothing and changes nothing but the audit trail, where it is recorded after everything before it.
\<close>

lemma bootstrap_again:
  assumes "bootstrap_identity eid q t s = Inr (r, s')" "\<not> exists_row (\<lambda>e. ev_id e = eid') (events s')"
  shows "\<exists>e. bootstrap_identity eid' q t' s' =
      Inr (\<lparr>br_org = False, br_principal = False, br_linked = True\<rparr>, s'\<lparr>events := events s' @ [e]\<rparr>) \<and>
    (\<forall>x\<in>set (events s'). ev_org x = ev_org e \<and> ev_aggregate x = ev_aggregate e \<longrightarrow> ev_version x < ev_version e)"
proof -
  let ?o = "trim_space (bq_org q)" and ?i = "trim_space (bq_principal q)"
  note d = bootstrap_settled[OF assms(1)]
  note again = ensure_organization_again[of ?o s'] ensure_principal_again[of ?o ?i s']
    link_again[of ?o ?i s' "trim_space (bq_issuer q)" "trim_space (bq_subject q)"]
  obtain r0 where q: "role_of (bq_role q) = Some r0" "?o \<noteq> []" "?i \<noteq> []" "trim_space (bq_issuer q) \<noteq> []"
    "trim_space (bq_subject q) \<noteq> []" "trim_space (bq_actor q) \<noteq> []"
    by (rule bootstrap_ok[OF assms(1)])
  have o: "ensure_organization ?o nm s' = (False, s')" for nm using again(1) d by blast
  have p: "ensure_principal ?o ?i nm r0 s' = Inr (False, s')" for nm using again(2) d by blast
  have l: "link_identity_in_tx ?o (trim_space (bq_issuer q)) (trim_space (bq_subject q)) ?i
      (trim_space (bq_actor q)) t' s' = Inr ((), s')" using again(3) d by blast
  show ?thesis unfolding bootstrap_identity_def Let_def
    using q(2-) audit_new[OF assms(2)] by (intro exI conjI) (simp add: q(1) o p l, simp)
qed

section \<open>Examples\<close>

text \<open>
  An organization whose administrator \<open>a\<close> has the account \<open>s1\<close>, bootstrapped, and \<open>s2\<close>, linked later,
  with a session of \<open>s2\<close> and a pending login. The hash is the identity.
\<close>

definition demo_bootstrap :: bootstrap_request where
  "demo_bootstrap = \<lparr>bq_org = ''o'', bq_org_name = [], bq_principal = ''a'', bq_name = [], bq_role = ''admin'',
     bq_issuer = ''i'', bq_subject = ''s1'', bq_actor = ''op''\<rparr>"

definition demo_signed_in :: db where
  "demo_signed_in = steps (account_step (\<lambda>t. t))
     [IBootstrap ''e1'' demo_bootstrap 1, ILink ''e2'' ''o'' ''i'' ''s2'' ''a'' ''a'' 2,
      ICreateLogin ''h'' ''v'' ''n'' [] 600 3, ICreateSession ''tok'' ''o'' ''a'' ''i'' ''s2'' ''csrf'' 100 4] empty_db"

lemma reachable_signed_in: "reachable_accounts (\<lambda>t. t) demo_signed_in"
  unfolding demo_signed_in_def by (rule reachable_run[OF reachable.reach_init]) simp

abbreviation demo_session :: session where
  "demo_session \<equiv> hd (sessions demo_signed_in)"

abbreviation demo_ident :: ident where
  "demo_ident \<equiv> \<lparr>iy_id = ''a'', iy_org = ''o'', iy_role = Admin, iy_name = ''a''\<rparr>"

theorem session_equals_sign_in_witness:
  "\<exists>s'. read_session (\<lambda>t. t) ''tok'' 5 demo_signed_in = Inr ((demo_session, demo_ident), s')"
proof (rule iffD2[OF session_equals_sign_in[OF reachable_signed_in]])
  show "demo_session \<in> set (sessions demo_signed_in) \<and> se_hash demo_session = ''tok'' \<and>
    se_revoked demo_session = None \<and> 5 < se_expires demo_session \<and>
    resolve_oidc_identity (se_issuer demo_session) (se_subject demo_session) demo_signed_in = Inr demo_ident \<and>
    iy_org demo_ident = se_org demo_session \<and> iy_id demo_ident = se_principal demo_session"
    by (intro conjI; code_simp)
qed simp

definition demo_unlinked :: db where
  "demo_unlinked = commit (unlink_identity_by_admin ''e3'' ''o'' ''i'' ''s2'' ''a'' 6) demo_signed_in"

theorem unlink_ends_sessions_witness:
  "read_session (\<lambda>t. t) ''tok'' 8 (steps (account_step (\<lambda>t. t)) [ILink ''e4'' ''o'' ''i'' ''s2'' ''a'' ''a'' 7] demo_unlinked)
     = Inl SessionInvalid"
proof (rule unlink_ends_sessions[OF reachable_signed_in])
  show "unlink_identity_by_admin ''e3'' ''o'' ''i'' ''s2'' ''a'' 6 demo_signed_in = Inr (1, demo_unlinked)"
    by code_simp
  show "demo_session \<in> set (sessions demo_signed_in)" "se_issuer demo_session = ''i''"
    "se_subject demo_session = ''s2''" "se_hash demo_session = ''tok''" by code_simp+
qed simp

theorem account_bound_witness:
  "iy_org demo_ident = ''o'' \<and> iy_id demo_ident = ''a''"
proof -
  let ?l = "hd (tl (identity_links demo_signed_in))" and ?as = "[IRead ''tok'' 5]"
  have l: "?l \<in> set (identity_links demo_signed_in)" "il_org ?l = ''o''" "il_principal ?l = ''a''" by code_simp+
  have "resolve_oidc_identity (il_issuer ?l) (il_subject ?l) (steps (account_step (\<lambda>t. t)) ?as demo_signed_in) = Inr demo_ident"
    by code_simp
  from account_bound[OF reachable_signed_in l(1) _ this] show ?thesis using l(2,3) by simp
qed

lemma login_used_once_witness:
  "consume_login ''h'' 9 (steps (account_step (\<lambda>t. t)) [IPurge 8] (commit (consume_login ''h'' 5) demo_signed_in))
     = Inl LoginUnusable"
proof (rule login_used_once[OF reachable_signed_in])
  show "consume_login ''h'' 5 demo_signed_in =
      Inr (hd (logins demo_signed_in), commit (consume_login ''h'' 5) demo_signed_in)" by code_simp
qed simp_all

text \<open>
  \<^verbatim>\<open>UnlinkOIDCIdentity\<close>, which nothing but the tests calls, has no guard: it takes the only account of an administrator.
\<close>

lemma raw_unlink_locks_out:
  "let s = steps (account_step (\<lambda>t. t)) [IBootstrap ''e1'' demo_bootstrap 1, IUnlinkOidc ''o'' ''i'' ''s1''] empty_db in
     active_admin ''o'' ''a'' s \<and> \<not> active_account ''o'' ''a'' s"
  by code_simp

lemma bootstrap_again_witness:
  "\<exists>s' e. bootstrap_identity ''e3'' demo_bootstrap 9 s' =
      Inr (\<lparr>br_org = False, br_principal = False, br_linked = True\<rparr>, s'\<lparr>events := events s' @ [e]\<rparr>)"
proof -
  let ?s' = "commit (bootstrap_identity ''e1'' demo_bootstrap 1) empty_db"
  have b: "bootstrap_identity ''e1'' demo_bootstrap 1 empty_db =
      Inr (\<lparr>br_org = True, br_principal = True, br_linked = True\<rparr>, ?s')" by code_simp
  have "\<not> exists_row (\<lambda>e. ev_id e = ''e3'') (events ?s')" by code_simp
  from bootstrap_again[OF b this, of 9] show ?thesis by blast
qed

text \<open>The administrator with two accounts, deactivated.\<close>

definition deactivate :: "db \<Rightarrow> db" where
  "deactivate s = s\<lparr>principals := map (\<lambda>p. p\<lparr>pr_active := False\<rparr>) (principals s)\<rparr>"

lemma inactive_not_unlinked_witness:
  "with_org (unlink_identity_by_admin ''e3'' ''o'' ''i'' ''s2'' ''b'' 6)
     (account_step (\<lambda>t. t) (IElse deactivate) demo_signed_in) =
   (Inl NoRows, account_step (\<lambda>t. t) (IElse deactivate) demo_signed_in)"
proof -
  let ?s = "account_step (\<lambda>t. t) (IElse deactivate) demo_signed_in" and ?l = "hd (tl (identity_links demo_signed_in))"
  have "legal_account (IElse deactivate)"
    by (auto simp: deactivate_def principals_keep_def has_principal_def exists_row_def o_def)
  then have r: "reachable_accounts (\<lambda>t. t) ?s" by (rule reachable.reach_step[OF reachable_signed_in])
  have l: "?l \<in> set (identity_links ?s)" "il_active ?l" "il_org ?l = ''o''" "il_issuer ?l = ''i''" "il_subject ?l = ''s2''"
    by code_simp+
  have p: "\<not> pr_active p" if "p \<in> set (principals ?s)" for p
    using that by (auto simp: keep_accounts_def deactivate_def)
  show ?thesis using inactive_not_unlinked[OF r l(1,2), where actor = "''b''"] p unfolding l(3-5) by simp
qed

end
