(* ===== verification/Api.thy ===== *)
theory Api
  imports Http Planning Accounts
begin

text \<open>
  The routes of \<^verbatim>\<open>internal/api/server.go\<close> and \<^verbatim>\<open>identity_admin.go\<close>. Each \<^verbatim>\<open>case\<close> of the switch in \<^verbatim>\<open>api\<close> and each
  condition of \<^verbatim>\<open>routeResource\<close> is a guard, and its body a handler; \<open>routes\<close> lists them in the order of the code
  and the first guard that holds decides.
\<close>

type_synonym handler = "server \<Rightarrow> http_request \<Rightarrow> ident \<Rightarrow> db \<Rightarrow> reply \<times> db"

section \<open>Shapes of handlers\<close>

definition api_path :: "http_request \<Rightarrow> string" where
  "api_path rq = (if has_prefix (hq_path rq) ''/api/v1'' then drop 7 (hq_path rq) else hq_path rq)"

definition has_suffix :: "string \<Rightarrow> string \<Rightarrow> bool" where
  "has_suffix t p \<longleftrightarrow> has_prefix (rev t) (rev p)"

definition trim_slashes :: "string \<Rightarrow> string" where
  "trim_slashes t = rev (dropWhile (\<lambda>c. c = CHR ''/'') (rev (dropWhile (\<lambda>c. c = CHR ''/'') t)))"

definition segments :: "http_request \<Rightarrow> string list" where
  "segments rq = split_at (CHR ''/'') (trim_slashes (api_path rq))"

definition seg :: "nat \<Rightarrow> http_request \<Rightarrow> string" where
  "seg n rq = (if n < length (segments rq) then segments rq ! n else [])"

text \<open>A handler that only reads.\<close>

definition reading :: "(server \<Rightarrow> http_request \<Rightarrow> ident \<Rightarrow> db \<Rightarrow> err + content) \<Rightarrow> handler" where
  "reading f v rq who s = ((case f v rq who s of Inl e \<Rightarrow> fail v e | Inr c \<Rightarrow> Json 200 c), s)"

text \<open>One transaction of the store; \<open>refuse\<close> turns its error into the response.\<close>

definition transact ::
    "(server \<Rightarrow> err \<Rightarrow> reply) \<Rightarrow> nat \<Rightarrow> ('a \<Rightarrow> content) \<Rightarrow> (server \<Rightarrow> http_request \<Rightarrow> ident \<Rightarrow> 'a tx) \<Rightarrow> handler" where
  "transact refuse code c f v rq who s =
     (case with_org (f v rq who) s of
        (Inl e, s') \<Rightarrow> (refuse v e, s')
      | (Inr x, s') \<Rightarrow> (Json code (c x), s'))"

text \<open>A body that must be readable and satisfy a check.\<close>

definition with_body :: "(jmap \<Rightarrow> 'a option) \<Rightarrow> ('a \<Rightarrow> bool) \<Rightarrow> string \<Rightarrow> ('a \<Rightarrow> handler) \<Rightarrow> handler" where
  "with_body f bad m k v rq who s =
     (case read_body f rq of
        None \<Rightarrow> (invalid m, s)
      | Some q \<Rightarrow> if bad q then (invalid m, s) else k q v rq who s)"

text \<open>
  A body whose decoding error is ignored: a field that could not be read is empty, and what follows the first
  value does not matter.
\<close>

definition lenient_str :: "string \<Rightarrow> http_request \<Rightarrow> string" where
  "lenient_str n rq = (case read_body (str_field n) (rq\<lparr>hq_trailing := False\<rparr>) of None \<Rightarrow> [] | Some x \<Rightarrow> x)"

definition segment_count :: "nat \<Rightarrow> handler \<Rightarrow> handler" where
  "segment_count n k v rq who s = (if length (segments rq) \<noteq> n then (not_found, s) else k v rq who s)"

definition role_text :: "role \<Rightarrow> string" where
  "role_text r = (case r of Requester \<Rightarrow> ''requester'' | Approver \<Rightarrow> ''approver'' | Admin \<Rightarrow> ''admin'')"

section \<open>Projects, tasks, agents\<close>

definition get_projects :: handler where
  "get_projects = reading (\<lambda>v rq who s. Inr (CProjects (list_projects (iy_org who) s)))"

definition post_project :: handler where
  "post_project = with_body
     (\<lambda>m. do { n \<leftarrow> str_field ''name'' m; d \<leftarrow> str_field ''description'' m; Some (n, d) })
     (\<lambda>(n, d). n = []) ''name is required''
     (\<lambda>(n, d). transact fail 201 CProject (\<lambda>v rq who. create_project (iy_org who) (hq_id rq) n d))"

definition get_tasks :: handler where
  "get_tasks = reading (\<lambda>v rq who s. Inr (CTasks (list_tasks (iy_org who) s)))"

definition post_task :: handler where
  "post_task = with_body
     (\<lambda>m. do { ti \<leftarrow> str_field ''title'' m; d \<leftarrow> str_field ''description'' m;
               a \<leftarrow> str_field ''assignee_id'' m; p \<leftarrow> str_field ''project_id'' m; Some (ti, d, a, p) })
     (\<lambda>(ti, d, a, p). ti = []) ''title is required''
     (\<lambda>(ti, d, a, p). transact fail 201 CTask
        (\<lambda>v rq who. create_task (iy_org who) (hq_id rq) ti d (iy_id who) a p (hq_now rq)))"

definition get_agents :: handler where
  "get_agents = reading (\<lambda>v rq who s. Inr (CAgents (list_agents (iy_org who) s)))"

definition post_agent :: handler where
  "post_agent = with_body
     (\<lambda>m. do { n \<leftarrow> str_field ''name'' m; h \<leftarrow> str_field ''harness'' m; ow \<leftarrow> str_field ''owner_id'' m;
               cs \<leftarrow> strs_field ''capabilities'' m; Some (n, h, ow, slice cs) })
     (\<lambda>(n, h, ow, cs). n = [] \<or> h = []) ''name and harness are required''
     (\<lambda>(n, h, ow, cs). transact fail 201 CAgent
        (\<lambda>v rq who. create_agent (hq_id rq) (iy_org who) n h (if ow = [] then iy_id who else ow) cs))"

definition get_agent_configuration :: handler where
  "get_agent_configuration = reading (\<lambda>v rq who s.
     map_sum id CConfiguration (agent_configuration_of (sv_json_text v) (iy_org who) (seg 1 rq) s))"

definition get_agent_board :: handler where
  "get_agent_board = reading (\<lambda>v rq who s. map_sum id CAgentBoard (agent_board (iy_org who) (seg 1 rq) s))"

section \<open>Registry\<close>

definition get_releases :: handler where
  "get_releases = reading (\<lambda>v rq who s. Inr (CReleases (list_registry_releases (iy_org who) s)))"

definition post_release :: handler where
  "post_release = with_body release_value
     (\<lambda>q. rq_family q = [] \<or> rq_kind q = [] \<or> rq_version q = [] \<or> rq_digest q = [])
     ''family, kind, version, and digest are required''
     (\<lambda>q v rq who s.
        if rq_kind q \<notin> {''connector'', ''harness'', ''renderer'', ''automation''}
        then (invalid ''unsupported registry kind'', s)
        else transact fail 201 CRelease
          (\<lambda>v rq who. create_registry_release (hq_id rq) (iy_org who) (iy_id who) q (hq_now rq)) v rq who s)"

definition get_release :: handler where
  "get_release = segment_count 3 (reading (\<lambda>v rq who s.
     map_sum id CRelease (get_registry_release (iy_org who) (seg 2 rq) s)))"

definition post_transition :: handler where
  "post_transition = segment_count 4 (with_body
     (\<lambda>m. do { e \<leftarrow> int_field ''expected_version'' m; t \<leftarrow> str_field ''target_state'' m;
               r \<leftarrow> str_field ''reason'' m; Some (e, t) })
     (\<lambda>(e, t). e < 1 \<or> t = []) ''expected_version and target_state are required''
     (\<lambda>(e, t). transact fail 200 CRelease (\<lambda>v rq who.
        transition_registry_release (iy_org who) (seg 2 rq) (role_text (iy_role who)) t e (hq_now rq))))"

definition post_grant :: handler where
  "post_grant = segment_count 4 (with_body
     (\<lambda>m. do { e \<leftarrow> int_field ''expected_version'' m; cs \<leftarrow> strs_field ''capabilities'' m; Some (e, slice cs) })
     (\<lambda>(e, cs). e < 1 \<or> cs = []) ''expected_version and capabilities are required''
     (\<lambda>(e, cs). transact fail 200 CRelease (\<lambda>v rq who.
        grant_registry_capabilities (iy_org who) (role_text (iy_role who)) (seg 2 rq) cs e (hq_now rq))))"

definition post_capability_check :: handler where
  "post_capability_check = with_body
     (\<lambda>m. do { h \<leftarrow> str_field ''harness'' m; cs \<leftarrow> strs_field ''capabilities'' m; Some (h, slice cs) })
     (\<lambda>(h, cs). h = []) ''harness is required''
     (\<lambda>(h, cs). reading (\<lambda>v rq who s.
        Inr (CCapabilities (check_capabilities (sv_json_text v) (iy_org who) h cs s))))"

section \<open>Integrations, questions, runs, lists\<close>

definition get_integrations :: handler where
  "get_integrations = reading (\<lambda>v rq who s. Inr (CManifests registry_list))"

definition get_records :: handler where
  "get_records = reading (\<lambda>v rq who s.
     Inr (CRecords (list_records (iy_org who) (split_at (CHR ''/'') (api_path rq) ! 2) s)))"

definition get_gates :: handler where
  "get_gates = reading (\<lambda>v rq who s. Inr (CGates (list_gates (iy_org who) (iy_id who) s)))"

definition gate_refusal :: "server \<Rightarrow> err \<Rightarrow> reply" where
  "gate_refusal v e =
     (if e = GateNotFound then Fail 404 ''not_found'' ''gate not found''
      else if e = GateNotRespondent then Fail 403 ''forbidden'' ''not the gate respondent''
      else if e = GateInvalidResponse
      then Fail 422 ''invalid_response'' ''response does not match the requested input''
      else Fail 409 ''conflict'' ''gate has changed'')"

definition post_gate_response :: handler where
  "post_gate_response = with_body
     (\<lambda>m. do { r \<leftarrow> int_field ''revision'' m; Some (r, raw_field ''response'' m) })
     (\<lambda>_. False) ''revision and response are required''
     (\<lambda>(r, a). transact gate_refusal 200 CGate (\<lambda>v rq who.
        resolve_gate (hq_ids rq 0) (iy_org who) (seg 1 rq) (iy_id who) r a (hq_now rq)))"

definition get_gate_by_id :: handler where
  "get_gate_by_id v rq who s =
     ((case read_gate (iy_org who) (drop (length ''/gates/'') (api_path rq)) (iy_id who) s of
         Inr g \<Rightarrow> Json 200 (CGate g) | Inl _ \<Rightarrow> Fail 404 ''not_found'' ''gate not found''), s)"

definition get_runs :: handler where
  "get_runs = reading (\<lambda>v rq who s. Inr (CRuns (list_agent_runs (iy_org who) s)))"

definition get_run :: handler where
  "get_run = reading (\<lambda>v rq who s.
     map_sum id CRun (get_agent_run (iy_org who) (drop (length ''/runs/'') (api_path rq)) s))"

definition get_proposals :: handler where
  "get_proposals = reading (\<lambda>v rq who s. Inr (CProposals (list_proposals (iy_org who) s)))"

definition get_decisions :: handler where
  "get_decisions = reading (\<lambda>v rq who s.
     Inr (CDecisions (list_decisions (iy_org who) (iy_id who) (iy_role who) s)))"

definition get_events :: handler where
  "get_events = reading (\<lambda>v rq who s. Inr (CEvents (list_events (iy_org who) s)))"

definition get_receipts :: handler where
  "get_receipts = reading (\<lambda>v rq who s. Inr (CReceipts (list_receipts (iy_org who) s)))"

definition get_handoffs :: handler where
  "get_handoffs = transact fail 200 CHandoffs (\<lambda>v rq who. list_handoffs (iy_org who) (iy_id who) (hq_now rq))"

definition get_work_board :: handler where
  "get_work_board = reading (\<lambda>v rq who s. Inr (CWorkBoard (work_board (iy_org who) (iy_id who) (hq_now rq) s)))"

section \<open>Templates\<close>

definition get_templates :: handler where
  "get_templates = reading (\<lambda>v rq who s. Inr (CTemplates (list_agent_templates (iy_org who) s)))"

definition post_template :: handler where
  "post_template = with_body
     (\<lambda>m. do { n \<leftarrow> str_field ''name'' m; ve \<leftarrow> str_field ''version'' m; h \<leftarrow> str_field ''harness'' m;
               d \<leftarrow> str_field ''description'' m; cs \<leftarrow> strs_field ''capabilities'' m;
               ins \<leftarrow> str_field ''instructions'' m; Some (n, ve, h, d, slice cs, ins) })
     (\<lambda>(n, ve, h, d, cs, ins). blank n \<or> blank ve \<or> blank h) ''name, version and harness are required''
     (\<lambda>(n, ve, h, d, cs, ins). transact fail 201 CTemplate (\<lambda>v rq who.
        create_agent_template (hq_id rq) (iy_org who) (iy_id who) n ve h d cs ins (hq_now rq)))"

definition post_publish :: handler where
  "post_publish = segment_count 3 (with_body (int_field ''expected_version'')
     (\<lambda>e. e < 1) ''expected_version is required''
     (\<lambda>e. transact fail 200 CTemplate (\<lambda>v rq who.
        publish_agent_template (sv_supported v) (iy_org who) (iy_id who) (seg 1 rq) e)))"

definition post_from_template :: handler where
  "post_from_template = with_body
     (\<lambda>m. do { n \<leftarrow> str_field ''name'' m; tp \<leftarrow> str_field ''template_id'' m;
               cs \<leftarrow> strs_field ''capabilities'' m; ins \<leftarrow> str_field ''instructions'' m; Some (n, tp, cs, ins) })
     (\<lambda>(n, tp, cs, ins). blank n \<or> tp = []) ''name and template_id are required''
     (\<lambda>(n, tp, cs, ins). transact fail 201 CAgent (\<lambda>v rq who.
        create_agent_from_template (hq_id rq) (iy_org who) (iy_id who) n tp cs ins))"

section \<open>Organization structure and milestones\<close>

definition get_people :: handler where
  "get_people = reading (\<lambda>v rq who s. Inr (CPeople (list_people (iy_org who) s)))"

definition get_positions :: handler where
  "get_positions = reading (\<lambda>v rq who s. Inr (CPositions (list_positions (iy_org who) s)))"

definition post_position :: handler where
  "post_position = with_body
     (\<lambda>m. do { n \<leftarrow> str_field ''name'' m; p \<leftarrow> str_field ''parent_id'' m; Some (n, p) })
     (\<lambda>(n, p). blank n) ''a position name is required''
     (\<lambda>(n, p). transact fail 201 CPosition (\<lambda>v rq who.
        create_position (hq_id rq) (iy_org who) (iy_id who) n p (hq_now rq)))"

text \<open>An instant of the request, the clock of the process when it is left out.\<close>

definition instant_or_now :: "server \<Rightarrow> http_request \<Rightarrow> string \<Rightarrow> time option" where
  "instant_or_now v rq raw = (if raw = [] then Some (hq_clock rq) else sv_instant v raw)"

definition get_relationships :: handler where
  "get_relationships v rq who s =
     (case instant_or_now v rq (hq_query rq ''as_of'') of
        None \<Rightarrow> (invalid ''as_of must be an RFC3339 instant'', s)
      | Some t \<Rightarrow> (Json 200 (CRelationships (relationships_as_of (iy_org who) t s)), s))"

definition post_relationship :: handler where
  "post_relationship = with_body
     (\<lambda>m. do { su \<leftarrow> str_field ''subject_id'' m; k \<leftarrow> str_field ''kind'' m; ob \<leftarrow> str_field ''object_id'' m;
               a \<leftarrow> str_field ''from'' m; b \<leftarrow> str_field ''to'' m; Some (su, k, ob, a, b) })
     (\<lambda>(su, k, ob, a, b). su = [] \<or> k = [] \<or> ob = []) ''subject_id, kind and object_id are required''
     (\<lambda>(su, k, ob, a, b) v rq who s.
        case instant_or_now v rq a of
          None \<Rightarrow> (invalid ''from must be an RFC3339 instant'', s)
        | Some start \<Rightarrow>
            (case (if b = [] then Some None else map_option Some (sv_instant v b)) of
               None \<Rightarrow> (invalid ''to must be an RFC3339 instant'', s)
             | Some stop \<Rightarrow> transact fail 201 CRelationship (\<lambda>v rq who.
                 create_relationship (hq_id rq) (iy_org who) (iy_id who) su k ob start stop (hq_now rq)) v rq who s))"

definition post_relationship_end :: handler where
  "post_relationship_end v rq who s =
     (case instant_or_now v rq (lenient_str ''at'' rq) of
        None \<Rightarrow> (invalid ''at must be an RFC3339 instant'', s)
      | Some t \<Rightarrow> transact fail 200 (\<lambda>_. CStatus ''ended'')
          (\<lambda>v rq who. end_relationship (iy_org who) (iy_id who) (seg 1 rq) t) v rq who s)"

text \<open>\<^verbatim>\<open>parseDay\<close>: \<open>None\<close> refuses the request, \<open>Some None\<close> is a date that is not set.\<close>

definition parse_day :: "server \<Rightarrow> string \<Rightarrow> int option option" where
  "parse_day v raw = (if blank raw then Some None else map_option Some (sv_day v (trim_space raw)))"

definition bad_day :: reply where
  "bad_day = invalid ''dates must be YYYY-MM-DD''"

definition get_milestones :: handler where
  "get_milestones = reading (\<lambda>v rq who s. Inr (CMilestones (list_milestones (iy_org who) (seg 1 rq) s)))"

definition post_milestone :: handler where
  "post_milestone = with_body
     (\<lambda>m. do { n \<leftarrow> str_field ''name'' m; e \<leftarrow> str_field ''acceptance_evidence'' m;
               cd \<leftarrow> str_field ''committed_date'' m; fd \<leftarrow> str_field ''forecast_date'' m; Some (n, e, cd, fd) })
     (\<lambda>_. False) ''a request body is required''
     (\<lambda>(n, e, cd, fd) v rq who s.
        if blank n \<or> blank e then (invalid ''name and acceptance_evidence are required'', s)
        else case (parse_day v cd, parse_day v fd) of
          (Some committed, Some forecast) \<Rightarrow> transact fail 201 CMilestone (\<lambda>v rq who.
             create_milestone (hq_id rq) (iy_org who) (iy_id who) (seg 1 rq) n e committed forecast (hq_now rq)) v rq who s
        | _ \<Rightarrow> (bad_day, s))"

definition post_complete :: handler where
  "post_complete = with_body
     (\<lambda>m. do { e \<leftarrow> str_field ''evidence'' m; ve \<leftarrow> int_field ''version'' m; Some (e, ve) })
     (\<lambda>(e, ve). blank e) ''evidence and version are required''
     (\<lambda>(e, ve). transact fail 200 (\<lambda>_. CStatus ''met'') (\<lambda>v rq who.
        complete_milestone (iy_org who) (iy_id who) (seg 1 rq) e ve (hq_now rq)))"

text \<open>The body's decoding error is dropped here, so an unreadable body clears the forecast.\<close>

definition post_forecast :: handler where
  "post_forecast v rq who s =
     (case parse_day v (lenient_str ''forecast_date'' rq) of
        None \<Rightarrow> (bad_day, s)
      | Some d \<Rightarrow> transact fail 200 CMilestone
          (\<lambda>v rq who. set_milestone_forecast (iy_org who) (iy_id who) (seg 1 rq) d) v rq who s)"

definition post_milestone_dependency :: handler where
  "post_milestone_dependency = with_body (str_field ''parent_id'') (\<lambda>p. p = []) ''parent_id is required''
     (\<lambda>p. transact fail 201 (\<lambda>_. CStatus ''linked'')
        (\<lambda>v rq who. add_milestone_dependency (iy_org who) (seg 1 rq) p))"

section \<open>Identity administration\<close>

text \<open>\<^verbatim>\<open>requireOperator\<close>.\<close>

definition operator_only :: "handler \<Rightarrow> handler" where
  "operator_only k v rq who s =
     (if iy_org who = [] then (Fail 403 ''forbidden'' ''organization required'', s)
      else if iy_role who \<noteq> Admin
      then (Fail 403 ''forbidden'' ''identity administration requires an administrator'', s)
      else k v rq who s)"

definition wrong_api_method :: reply where
  "wrong_api_method = Fail 405 ''method_not_allowed'' ''method not allowed''"

definition handle_identity_links :: handler where
  "handle_identity_links = operator_only (\<lambda>v rq who s.
     if hq_method rq = ''GET'' then
       reading (\<lambda>v rq who s. map_sum id CLinks (list_identity_links (iy_org who) s)) v rq who s
     else if hq_method rq = ''POST'' then
       with_body
         (\<lambda>m. do { a \<leftarrow> str_field ''issuer'' m; b \<leftarrow> str_field ''subject'' m; p \<leftarrow> str_field ''principal_id'' m;
                   Some (trim_space a, trim_space b, trim_space p) })
         (\<lambda>(a, b, p). a = [] \<or> b = [] \<or> p = []) ''issuer, subject and principal_id are required''
         (\<lambda>(a, b, p). transact fail 201 (\<lambda>_. CLink a b p) (\<lambda>v rq who.
            link_identity_by_admin (hq_id rq) (iy_org who) a b p (iy_id who) (hq_now rq))) v rq who s
     else (wrong_api_method, s))"

definition handle_identity_unlink :: handler where
  "handle_identity_unlink = operator_only (\<lambda>v rq who s.
     if hq_method rq \<noteq> ''POST'' then (wrong_api_method, s)
     else
       with_body
         (\<lambda>m. do { a \<leftarrow> str_field ''issuer'' m; b \<leftarrow> str_field ''subject'' m; Some (trim_space a, trim_space b) })
         (\<lambda>(a, b). a = [] \<or> b = []) ''issuer and subject are required''
         (\<lambda>(a, b). transact fail 200 CUnlinked (\<lambda>v rq who.
            unlink_identity_by_admin (hq_id rq) (iy_org who) a b (iy_id who) (hq_now rq))) v rq who s)"

section \<open>Tasks, proposals, handoffs\<close>

definition get_task_by_id :: handler where
  "get_task_by_id = reading (\<lambda>v rq who s. map_sum id CTask (get_task (iy_org who) (seg 1 rq) s))"

definition run_refusal :: "server \<Rightarrow> err \<Rightarrow> reply" where
  "run_refusal v e =
     (if e = HarnessUnsupported
      then Fail 409 ''harness_unsupported'' ''the configured harness is unsupported by this binary''
      else if e = NoActiveHarness
      then Fail 409 ''no_active_harness'' ''an active harness release is required in the registry''
      else fail v e)"

definition post_run :: handler where
  "post_run = with_body
     (\<lambda>m. do { a \<leftarrow> str_field ''agent_id'' m; n \<leftarrow> str_field ''intent'' m; Some (a, n) })
     (\<lambda>(a, n). a = []) ''agent_id is required''
     (\<lambda>(a, n). transact run_refusal 201 CRun (\<lambda>v rq who.
        create_agent_run (sv_json_text v) (sv_supported v) (hq_id rq) (iy_org who) (seg 1 rq) (iy_id who) a n
          (hq_now rq)))"

definition post_dependency :: handler where
  "post_dependency = with_body (str_field ''parent_id'') (\<lambda>p. p = []) ''parent_id is required''
     (\<lambda>p. transact fail 201 (\<lambda>_. CStatus ''created'') (\<lambda>v rq who. add_dependency (iy_org who) (seg 1 rq) p))"

definition post_cancel :: handler where
  "post_cancel = with_body (int_field ''expected_version'') (\<lambda>_. False) ''expected_version is required''
     (\<lambda>e. transact fail 200 (\<lambda>_. CStatus ''cancelled'')
        (\<lambda>v rq who. cancel_task (iy_org who) (seg 1 rq) e (hq_now rq)))"

definition post_proposal :: handler where
  "post_proposal = with_body
     (\<lambda>m. do { sm \<leftarrow> str_field ''summary'' m; xs \<leftarrow> pointer_field operations_value ''operations'' m;
               Some (sm, slice xs) })
     (\<lambda>(sm, xs). xs = []) ''operations are required''
     (\<lambda>(sm, xs). transact fail 201 CProposal (\<lambda>v rq who.
        create_proposal (sv_digest v) (hq_ids rq) (hq_ids2 rq) (hq_id rq) (hq_now rq) (iy_org who) (seg 1 rq)
          (iy_id who) sm xs))"

definition post_handoff :: handler where
  "post_handoff = with_body
     (\<lambda>m. do { r \<leftarrow> str_field ''recipient_id'' m; ro \<leftarrow> str_field ''role'' m; sm \<leftarrow> str_field ''summary'' m;
               Some (r, ro, sm) })
     (\<lambda>(r, ro, sm). r = [] \<or> ro = []) ''recipient_id and role are required''
     (\<lambda>(r, ro, sm). transact fail 201 CHandoff (\<lambda>v rq who.
        create_handoff (iy_org who) (hq_id rq) (seg 1 rq) (iy_id who) r ro sm (hq_clock rq) (hq_now rq)))"

definition get_proposal_by_id :: handler where
  "get_proposal_by_id = reading (\<lambda>v rq who s. map_sum id CProposal (get_proposal (iy_org who) (seg 1 rq) s))"

definition post_decision :: handler where
  "post_decision = with_body
     (\<lambda>m. do { r \<leftarrow> int_field ''revision'' m; d \<leftarrow> str_field ''digest'' m; re \<leftarrow> str_field ''reason'' m;
               Some (r, d, re) })
     (\<lambda>(r, d, re). r < 1 \<or> d = []) ''revision and digest are required''
     (\<lambda>(r, d, re). transact fail 200 (\<lambda>_. CStatus ''accepted'') (\<lambda>v rq who.
        decide (hq_ids rq) (hq_id rq) (iy_org who) (seg 1 rq) (iy_id who) (seg 2 rq) r d re))"

definition get_handoff_by_id :: handler where
  "get_handoff_by_id = transact fail 200 CHandoff
     (\<lambda>v rq who. peek_handoff (iy_org who) (seg 1 rq) (iy_id who) (hq_now rq))"

definition post_accept :: handler where
  "post_accept = transact fail 200 (\<lambda>_. CStatus ''accepted'')
     (\<lambda>v rq who. accept_handoff (iy_org who) (seg 1 rq) (iy_id who) (hq_now rq))"

definition post_handoff_reply :: handler where
  "post_handoff_reply = with_body (str_field ''reason'') (\<lambda>_. False) ''a reason is required''
     (\<lambda>r v rq who s.
        if seg 2 rq = ''decline'' \<and> blank r then (invalid ''a decline reason is required'', s)
        else if seg 2 rq = ''clarify'' \<and> blank r then (invalid ''a clarification question is required'', s)
        else transact fail 200 (\<lambda>_. CStatus (seg 2 rq @ ''d'')) (\<lambda>v rq who.
          if seg 2 rq = ''decline'' then decline_handoff (iy_org who) (seg 1 rq) (iy_id who) r (hq_now rq)
          else if seg 2 rq = ''clarify'' then clarify_handoff (iy_org who) (seg 1 rq) (iy_id who) r (hq_now rq)
          else cancel_handoff (iy_org who) (seg 1 rq) (iy_id who) r (hq_now rq)) v rq who s)"

section \<open>The routes\<close>

definition at_path :: "string \<Rightarrow> string \<Rightarrow> http_request \<Rightarrow> bool" where
  "at_path m p rq \<longleftrightarrow> api_path rq = p \<and> hq_method rq = m"

definition under :: "string \<Rightarrow> string \<Rightarrow> http_request \<Rightarrow> bool" where
  "under m p rq \<longleftrightarrow> has_prefix (api_path rq) p \<and> hq_method rq = m"

definition under_ending :: "string \<Rightarrow> string \<Rightarrow> string \<Rightarrow> http_request \<Rightarrow> bool" where
  "under_ending m p e rq \<longleftrightarrow> under m p rq \<and> has_suffix (api_path rq) e"

text \<open>A resource of a collection, and something of it.\<close>

definition resource :: "string \<Rightarrow> string \<Rightarrow> http_request \<Rightarrow> bool" where
  "resource m c rq \<longleftrightarrow> length (segments rq) = 2 \<and> seg 0 rq = c \<and> hq_method rq = m"

definition part_of :: "string \<Rightarrow> string \<Rightarrow> string list \<Rightarrow> http_request \<Rightarrow> bool" where
  "part_of m c xs rq \<longleftrightarrow> length (segments rq) = 3 \<and> seg 0 rq = c \<and> seg 2 rq \<in> set xs \<and> hq_method rq = m"

text \<open>The switch of \<^verbatim>\<open>api\<close>.\<close>

definition main_routes :: "((http_request \<Rightarrow> bool) \<times> handler) list" where
  "main_routes =
     [(at_path ''GET'' ''/projects'', get_projects), (at_path ''POST'' ''/projects'', post_project),
      (at_path ''GET'' ''/tasks'', get_tasks), (at_path ''POST'' ''/tasks'', post_task),
      (at_path ''GET'' ''/agents'', get_agents), (at_path ''POST'' ''/agents'', post_agent),
      (at_path ''GET'' ''/registry/releases'', get_releases),
      (at_path ''POST'' ''/registry/releases'', post_release),
      (under ''GET'' ''/registry/releases/'', get_release),
      (under_ending ''POST'' ''/registry/releases/'' ''/transition'', post_transition),
      (under_ending ''POST'' ''/registry/releases/'' ''/grant'', post_grant),
      (at_path ''POST'' ''/capabilities/check'', post_capability_check),
      (at_path ''GET'' ''/integrations'', get_integrations),
      (under_ending ''GET'' ''/integrations/'' ''/records'', get_records),
      (at_path ''GET'' ''/gates'', get_gates),
      (under_ending ''POST'' ''/gates/'' ''/respond'', post_gate_response),
      (under ''GET'' ''/gates/'', get_gate_by_id),
      (at_path ''GET'' ''/runs'', get_runs), (under ''GET'' ''/runs/'', get_run),
      (at_path ''GET'' ''/proposals'', get_proposals), (at_path ''GET'' ''/decisions'', get_decisions),
      (at_path ''GET'' ''/events'', get_events), (at_path ''GET'' ''/handoffs'', get_handoffs),
      (at_path ''GET'' ''/work/board'', get_work_board),
      (at_path ''GET'' ''/templates'', get_templates), (at_path ''POST'' ''/templates'', post_template),
      (under_ending ''POST'' ''/templates/'' ''/publish'', post_publish),
      (at_path ''POST'' ''/agents/from-template'', post_from_template),
      (at_path ''GET'' ''/people'', get_people), (at_path ''GET'' ''/positions'', get_positions),
      (at_path ''POST'' ''/positions'', post_position),
      (at_path ''GET'' ''/relationships'', get_relationships),
      (at_path ''POST'' ''/relationships'', post_relationship),
      (\<lambda>rq. api_path rq = ''/identity/links'', handle_identity_links),
      (\<lambda>rq. api_path rq = ''/identity/links/unlink'', handle_identity_unlink),
      (at_path ''GET'' ''/receipts'', get_receipts)]"

text \<open>\<^verbatim>\<open>routeResource\<close>.\<close>

definition resource_routes :: "((http_request \<Rightarrow> bool) \<times> handler) list" where
  "resource_routes =
     [(resource ''GET'' ''tasks'', get_task_by_id), (part_of ''POST'' ''tasks'' [''runs''], post_run),
      (part_of ''POST'' ''tasks'' [''dependencies''], post_dependency),
      (part_of ''POST'' ''tasks'' [''cancel''], post_cancel),
      (part_of ''POST'' ''tasks'' [''proposals''], post_proposal),
      (part_of ''POST'' ''tasks'' [''handoffs''], post_handoff),
      (resource ''GET'' ''proposals'', get_proposal_by_id),
      (part_of ''POST'' ''proposals'' [''endorse'', ''approve'', ''reject''], post_decision),
      (part_of ''GET'' ''projects'' [''milestones''], get_milestones),
      (part_of ''POST'' ''projects'' [''milestones''], post_milestone),
      (part_of ''POST'' ''milestones'' [''complete''], post_complete),
      (part_of ''POST'' ''milestones'' [''forecast''], post_forecast),
      (part_of ''POST'' ''milestones'' [''dependencies''], post_milestone_dependency),
      (part_of ''GET'' ''agents'' [''configuration''], get_agent_configuration),
      (part_of ''GET'' ''agents'' [''board''], get_agent_board),
      (part_of ''POST'' ''relationships'' [''end''], post_relationship_end),
      (resource ''GET'' ''handoffs'', get_handoff_by_id),
      (part_of ''POST'' ''handoffs'' [''accept''], post_accept),
      (part_of ''POST'' ''handoffs'' [''decline'', ''clarify'', ''cancel''], post_handoff_reply)]"

definition routes :: "((http_request \<Rightarrow> bool) \<times> handler) list" where
  "routes = main_routes @ resource_routes"

fun first_route :: "((http_request \<Rightarrow> bool) \<times> handler) list \<Rightarrow> handler" where
  "first_route [] v rq who s = (not_found, s)"
| "first_route ((g, h) # rs) v rq who s = (if g rq then h v rq who s else first_route rs v rq who s)"

definition organization_required :: reply where
  "organization_required = Fail 403 ''forbidden'' ''organization required''"

definition csrf_failed :: reply where
  "csrf_failed = Fail 403 ''csrf_failed'' ''request could not be verified as deliberate''"

text \<open>\<^verbatim>\<open>Server.api\<close>: authenticate, demand the CSRF token from a browser, route.\<close>

definition api :: "server \<Rightarrow> http_request \<Rightarrow> db \<Rightarrow> reply \<times> db" where
  "api v rq s =
     (case authorize v rq s of
        (None, s') \<Rightarrow> (unauthenticated, s')
      | (Some (who, sess), s') \<Rightarrow>
          if (case sess of None \<Rightarrow> False
              | Some x \<Rightarrow> state_changing (hq_method rq) \<and> \<not> csrf_ok rq (se_csrf x))
          then (csrf_failed, s')
          else if api_path rq = ''/me'' then (Json 200 (CIdentity who), s')
          else if iy_org who = [] then (organization_required, s')
          else first_route routes v rq who s')"

text \<open>
  \<^verbatim>\<open>Server.Handler\<close>. The user interface (\<^verbatim>\<open>ui.go\<close>) serves files and is not modelled beyond its refusals: with a
  directory configured, a path that is not the API's is a file or the page of the application.
\<close>

definition serve :: "(http_request \<Rightarrow> reply) \<Rightarrow> server \<Rightarrow> http_request \<Rightarrow> db \<Rightarrow> reply \<times> db" where
  "serve ui v rq s =
     (let p = hq_path rq in
      if p = ''/health'' then (Json 200 (CStatus ''ok''), s)
      else if p = ''/ready'' then
        ((if sv_ping v then Json 200 (CStatus ''ready'') else Fail 503 ''not_ready'' ''database unavailable''), s)
      else if p = ''/auth/login'' then handle_login v rq s
      else if p = ''/auth/callback'' then handle_callback v rq s
      else if p = ''/auth/logout'' then handle_logout v rq s
      else if p = ''/auth/session'' then handle_session v rq s
      else if has_prefix p ''/api/v1/'' then api v rq s
      else if \<not> sv_ui v then (Plain 404 ''404 page not found'', s)
      else if has_prefix p ''/api/'' then (not_found, s)
      else if hq_method rq \<notin> {''GET'', ''HEAD''} then (wrong_api_method, s)
      else (ui rq, s))"

end
