(* ===== verification/Edge.thy ===== *)
theory Edge
  imports Api
begin

text \<open>
  What the edge guarantees: nobody acts without an active principal, a browser's state-changing request needs its
  CSRF token, and a request with a safe method changes nothing but what lapsed by itself.
\<close>

section \<open>Routing\<close>

lemma first_route_cases:
  "first_route rs v rq who s = (not_found, s) \<or>
     (\<exists>g h. (g, h) \<in> set rs \<and> g rq \<and> first_route rs v rq who s = h v rq who s)"
  by (induction rs v rq who s rule: first_route.induct) auto

text \<open>A statement about every handler, under the guards of its routes.\<close>

definition on_routes :: "(http_request \<Rightarrow> handler \<Rightarrow> bool) \<Rightarrow> bool" where
  "on_routes P \<longleftrightarrow> list_all (\<lambda>(g, h). \<forall>rq. g rq \<longrightarrow> P rq h) routes"

lemma on_routesD:
  assumes "on_routes P" "\<And>h. P rq h \<Longrightarrow> Q (snd (h v rq who s))" "Q s"
  shows "Q (snd (first_route routes v rq who s))"
  using first_route_cases[of routes v rq who s] assms by (fastforce simp: on_routes_def list_all_iff)

lemma snd_reading [simp]: "snd (reading f v rq who s) = s"
  by (simp add: reading_def)

lemma snd_transact: "snd (transact refuse code c f v rq who s) = commit (f v rq who) s"
  by (simp add: transact_def commit_def split: sum.split prod.split)

section \<open>Who is let in\<close>

text \<open>A principal the credentials of the request stand for.\<close>

definition entitled :: "server \<Rightarrow> http_request \<Rightarrow> db \<Rightarrow> principal \<Rightarrow> bool" where
  "entitled v rq s p \<longleftrightarrow>
     (let h = trim_space (hq_authorization rq); raw = trim_space (drop 7 h);
          linked = (\<lambda>issuer subject. \<exists>l\<in>set (identity_links s). il_issuer l = issuer \<and> il_subject l = subject \<and>
             il_active l \<and> il_org l = pr_org p \<and> il_principal l = pr_id p)
      in if has_prefix h bearer_prefix then
           (sv_mode v = ''local'' \<and> sv_tokens v raw = Some (pr_org p, pr_id p)) \<or>
           (sv_mode v = ''oidc'' \<and> (\<exists>verify issuer subject. sv_verify v = Some verify \<and>
              verify raw = Some (issuer, subject) \<and> linked issuer subject))
         else sv_bff v \<noteq> None \<and> (\<exists>x\<in>set (sessions s). se_hash x = token_hash v (hq_cookie rq) \<and>
           se_revoked x = None \<and> hq_now rq < se_expires x \<and> se_org x = pr_org p \<and> se_principal x = pr_id p \<and>
           linked (se_issuer x) (se_subject x)))"

lemma length_bearer [simp]: "length bearer_prefix = 7"
  by (simp add: bearer_prefix_def)

lemma principal_in_tx_ok:
  assumes "principal_in_tx org i s = Inr p"
  obtains q where "q \<in> set (principals s)" "pr_active q" "pr_org q = org" "pr_id q = i" "p = ident_of q"
  using assms by (auto simp: principal_in_tx_def dest!: row_SomeD split: option.splits)

lemma auth_bearer_entitled:
  assumes "auth_bearer v (hq_authorization rq) s = Some who"
  shows "\<exists>p\<in>set (principals s). pr_active p \<and> who = ident_of p \<and> entitled v rq s p"
proof -
  let ?h = "trim_space (hq_authorization rq)" let ?raw = "trim_space (drop 7 ?h)"
  have h: "has_prefix ?h bearer_prefix" using assms by (simp add: auth_bearer_def Let_def split: if_split_asm)
  consider (local) org i where "sv_mode v = ''local''" "sv_tokens v ?raw = Some (org, i)"
      "principal_in_tx org i s = Inr who"
    | (oidc) verify issuer subject where "sv_mode v = ''oidc''" "sv_verify v = Some verify"
      "verify ?raw = Some (issuer, subject)" "resolve_oidc_identity issuer subject s = Inr who"
    using assms h by (auto simp: auth_bearer_def Let_def resolve_identity_def
        split: if_split_asm option.splits sum.splits)
  then show ?thesis
  proof cases
    case local
    then obtain q where "q \<in> set (principals s)" "pr_active q" "pr_org q = org" "pr_id q = i" "who = ident_of q"
      using principal_in_tx_ok by blast
    then show ?thesis using local h by (auto simp: entitled_def Let_def)
  next
    case oidc
    obtain l where l: "l \<in> set (identity_links s)" "il_issuer l = issuer" "il_subject l = subject" "il_active l"
        "principal_in_tx (il_org l) (il_principal l) s = Inr who"
      using oidc(4) by (auto simp: resolve_oidc_identity_def resolve_identity_def Let_def dest!: row_SomeD
          split: if_split_asm option.splits sum.splits)
    obtain q where q: "q \<in> set (principals s)" "pr_active q" "pr_org q = il_org l" "pr_id q = il_principal l"
        "who = ident_of q" using principal_in_tx_ok[OF l(5)] by blast
    have "entitled v rq s q"
      unfolding entitled_def Let_def using h oidc(1-3) l(1-4) q(3,4) by (simp, intro bexI[of _ l]) simp_all
    then show ?thesis using q by blast
  qed
qed

lemma read_session_ok:
  assumes "read_session sha tok now s = Inr ((x, who), s')"
  obtains p l where "x \<in> set (sessions s)" "se_hash x = sha tok" "se_revoked x = None" "now < se_expires x"
    "p \<in> set (principals s)" "pr_active p" "pr_org p = se_org x" "pr_id p = se_principal x" "who = ident_of p"
    "l \<in> set (identity_links s)" "il_issuer l = se_issuer x" "il_subject l = se_subject x" "il_active l"
    "il_org l = se_org x" "il_principal l = se_principal x"
    "s' = s\<lparr>sessions := update_where (\<lambda>x. se_hash x = sha tok) (\<lambda>x. x\<lparr>se_seen := now\<rparr>) (sessions s)\<rparr>"
proof -
  obtain y l where y: "row (\<lambda>x. se_hash x = sha tok \<and> se_revoked x = None \<and> now < se_expires x) (sessions s) = Some y"
      "principal_in_tx (se_org y) (se_principal y) s = Inr who" "find_link (se_issuer y) (se_subject y) s = Some l"
      "il_active l" "il_org l = se_org y" "il_principal l = se_principal y" "x = y"
      "s' = s\<lparr>sessions := update_where (\<lambda>x. se_hash x = sha tok) (\<lambda>x. x\<lparr>se_seen := now\<rparr>) (sessions s)\<rparr>"
    using assms by (auto simp: read_session_def resolve_identity_def split: if_split_asm option.splits sum.splits)
  obtain p where p: "p \<in> set (principals s)" "pr_active p" "pr_org p = se_org y" "pr_id p = se_principal y"
      "who = ident_of p" using principal_in_tx_ok[OF y(2)] by blast
  show ?thesis
    by (rule that[of p l]) (use y p row_SomeD[OF y(1)] row_SomeD[OF y(3)] in simp_all)
qed

text \<open>The tables after the caller was identified.\<close>

definition seen :: "server \<Rightarrow> http_request \<Rightarrow> db \<Rightarrow> db" where
  "seen v rq s = s\<lparr>sessions := update_where (\<lambda>x. se_hash x = token_hash v (hq_cookie rq))
     (\<lambda>x. x\<lparr>se_seen := hq_now rq\<rparr>) (sessions s)\<rparr>"

lemma authorize_cases:
  obtains (nobody) "authorize v rq s = (None, s)"
  | (bearer) who where "authorize v rq s = (Some (who, None), s)" "has_prefix (trim_space (hq_authorization rq)) bearer_prefix"
      "\<exists>p\<in>set (principals s). pr_active p \<and> who = ident_of p \<and> entitled v rq s p"
  | (browser) who x where "authorize v rq s = (Some (who, Some x), seen v rq s)"
      "\<not> has_prefix (trim_space (hq_authorization rq)) bearer_prefix"
      "x \<in> set (sessions s)" "se_hash x = token_hash v (hq_cookie rq)"
      "\<exists>p\<in>set (principals s). pr_active p \<and> who = ident_of p \<and> entitled v rq s p"
proof (cases "has_prefix (trim_space (hq_authorization rq)) bearer_prefix")
  case True
  show thesis
  proof (cases "auth_bearer v (hq_authorization rq) s")
    case None
    then show thesis using True nobody by (simp add: authorize_def)
  next
    case (Some who)
    then show thesis using True bearer auth_bearer_entitled by (simp add: authorize_def)
  qed
next
  case False
  show thesis
  proof (cases "sv_bff v = None \<or> hq_cookie rq = []")
    case True
    then show thesis using False nobody by (simp add: authorize_def session_identity_def)
  next
    case bff: False
    show thesis
    proof (cases "read_session (token_hash v) (hq_cookie rq) (hq_now rq) s")
      case (Inl e)
      then show thesis using bff False nobody
        by (simp add: authorize_def session_identity_def with_org_def)
    next
      case (Inr r)
      obtain x who s' where r: "r = ((x, who), s')" by (metis surj_pair)
      show thesis
      proof (rule read_session_ok[OF Inr[unfolded r]])
        fix p l
        assume x: "x \<in> set (sessions s)" "se_hash x = token_hash v (hq_cookie rq)" "se_revoked x = None"
            "hq_now rq < se_expires x"
          and p: "p \<in> set (principals s)" "pr_active p" "pr_org p = se_org x" "pr_id p = se_principal x"
            "who = ident_of p"
          and l: "l \<in> set (identity_links s)" "il_issuer l = se_issuer x" "il_subject l = se_subject x" "il_active l"
            "il_org l = se_org x" "il_principal l = se_principal x"
          and s': "s' = s\<lparr>sessions := update_where (\<lambda>x. se_hash x = token_hash v (hq_cookie rq))
            (\<lambda>x. x\<lparr>se_seen := hq_now rq\<rparr>) (sessions s)\<rparr>"
        have "authorize v rq s = (Some (who, Some x), seen v rq s)"
          using bff False Inr r s'
          by (simp add: authorize_def session_identity_def with_org_def seen_def)
        moreover have "entitled v rq s p"
          using False bff x p l by (auto simp: entitled_def Let_def)
        ultimately show thesis using browser[OF _ False x(1,2)] p by blast
      qed
    qed
  qed
qed

section \<open>Requests with a safe method\<close>

text \<open>What may change under a safe method: handoffs whose time is over lapse.\<close>

definition lapses :: "time \<Rightarrow> db \<Rightarrow> db \<Rightarrow> bool" where
  "lapses now s s' \<longleftrightarrow> (\<exists>P. s' = s\<lparr>handoffs := update_where (\<lambda>h. P h \<and> handoff_due now h) (expire_handoff now) (handoffs s)\<rparr>)"

lemma lapses_refl [simp]: "lapses now s s"
  unfolding lapses_def by (rule exI[of _ "\<lambda>_. False"]) (simp add: update_where_unmatched)

lemma lapses_list [simp]: "lapses now s (commit (list_handoffs org actor now) s)"
  unfolding lapses_def by (rule exI[of _ "\<lambda>h. ho_org h = org"]) (simp add: commit_eq list_handoffs_def Let_def)

lemma lapses_peek [simp]: "lapses now s (commit (peek_handoff org i actor now) s)"
proof (rule commit_induct)
  fix x s' assume "peek_handoff org i actor now s = Inr (x, s')"
  then have "s' = expire_due_handoffs org i now s" by (auto simp: peek_handoff_def Let_def split: option.splits)
  then show "lapses now s s'" unfolding lapses_def expire_due_handoffs_def
    by (intro exI[of _ "\<lambda>h. ho_org h = org \<and> ho_id h = i"]) (simp add: conj_assoc)
qed simp

lemmas safe_handlers = get_projects_def get_tasks_def get_agents_def get_agent_configuration_def get_agent_board_def
  get_releases_def get_release_def get_integrations_def get_records_def get_gates_def 
  get_runs_def get_run_def get_proposals_def get_decisions_def get_events_def get_receipts_def get_handoffs_def
  get_work_board_def get_templates_def get_people_def get_positions_def get_milestones_def
  get_task_by_id_def get_proposal_by_id_def get_handoff_by_id_def

lemma post_changes_state [simp]:
  "at_path ''POST'' p rq \<Longrightarrow> state_changing (hq_method rq)"
  "under_ending ''POST'' p e rq \<Longrightarrow> state_changing (hq_method rq)"
  "part_of ''POST'' c xs rq \<Longrightarrow> state_changing (hq_method rq)"
  by (simp_all add: at_path_def under_ending_def under_def part_of_def state_changing_def)

lemma operator_only_cases:
  "snd (operator_only k v rq who s) = s \<or> snd (operator_only k v rq who s) = snd (k v rq who s)"
  by (simp add: operator_only_def)

lemma safe_links:
  assumes "\<not> state_changing (hq_method rq)"
  shows "snd (handle_identity_links v rq who s) = s" "snd (handle_identity_unlink v rq who s) = s"
proof -
  have m: "hq_method rq \<noteq> ''POST''" using assms by (auto simp: state_changing_def)
  show "snd (handle_identity_links v rq who s) = s" "snd (handle_identity_unlink v rq who s) = s"
    using m by (simp_all add: handle_identity_links_def handle_identity_unlink_def operator_only_def)
qed

lemma safe_routes:
  "on_routes (\<lambda>rq h. \<not> state_changing (hq_method rq) \<longrightarrow> (\<forall>v who s. lapses (hq_now rq) s (snd (h v rq who s))))"
proof -
  have "snd (segment_count n (reading f) v rq who s) = s" for n f v rq who s by (simp add: segment_count_def)
  moreover have "snd (get_gate_by_id v rq who s) = s" "snd (get_relationships v rq who s) = s" for v rq who s
    by (simp_all add: get_gate_by_id_def get_relationships_def split: option.split)
  ultimately show ?thesis
    unfolding on_routes_def routes_def main_routes_def resource_routes_def
    by (auto simp: safe_links snd_transact safe_handlers dest: post_changes_state)
qed

section \<open>An example\<close>

text \<open>The account \<open>s2\<close> of the administrator is signed in from a browser; its cookie is \<open>tok\<close>.\<close>

definition edge_bff :: bff where
  "edge_bff = \<lparr>bf_auth_url = \<lambda>a b c. [], bf_exchange = \<lambda>a b c. None, bf_ttl = 3600, bf_secure = True, bf_ui = [],
     bf_logout = []\<rparr>"

definition edge_server :: server where
  "edge_server = \<lparr>sv_mode = ''local'', sv_tokens = \<lambda>t. if t = ''key'' then Some (''o'', ''a'') else None,
     sv_verify = None, sv_bff = Some edge_bff, sv_sha = \<lambda>t. if t = ''tok'' then [1] else [2], sv_digest = \<lambda>_. ''d'',
     sv_json_text = \<lambda>_. [], sv_supported = \<lambda>_. True, sv_instant = \<lambda>_. None, sv_day = \<lambda>_. None,
     sv_text = \<lambda>_. ''error'', sv_ping = True, sv_ui = False\<rparr>"

definition edge_db :: db where
  "edge_db = steps (account_step (token_hash edge_server))
     [IBootstrap ''e1'' demo_bootstrap 1, ILink ''e2'' ''o'' ''i'' ''s2'' ''a'' ''a'' 2,
      ICreateSession ''tok'' ''o'' ''a'' ''i'' ''s2'' ''csrf'' 100 4] empty_db"

definition edge_request :: "string \<Rightarrow> string \<Rightarrow> string \<Rightarrow> http_request" where
  "edge_request m p header = \<lparr>hq_method = m, hq_path = p, hq_authorization = header, hq_cookie = ''tok'', hq_csrf = ''no'',
     hq_query = \<lambda>_. [], hq_body = Some (JObj [(''name'', JStr ''P'')]), hq_trailing = False, hq_id = ''x'',
     hq_ids = \<lambda>_. ''y'', hq_ids2 = \<lambda>_. ''z'', hq_random = \<lambda>_. [], hq_now = 5, hq_clock = 5\<rparr>"

section \<open>Properties\<close>

text \<open>
  C20. Nobody acts without authority of the database: a request to the API either gets the one answer for
  unauthenticated callers and changes nothing, or its caller acts as an active principal whom its bearer token or
  its live browser session stands for, through a link that is active now.
\<close>

theorem api_needs_principal:
  "(fst (api v rq s) = unauthenticated \<and> snd (api v rq s) = s) \<or>
   (\<exists>p\<in>set (principals s). pr_active p \<and> entitled v rq s p \<and>
      (\<exists>sess s0. authorize v rq s = (Some (ident_of p, sess), s0)))"
proof (cases rule: authorize_cases[of v rq s])
  case nobody
  then show ?thesis by (simp add: api_def)
qed blast+

text \<open>
  C21. A browser must prove intent: a request that may change state and carries no bearer token is refused, with
  nothing changed but the time its session was last seen, unless it repeats the CSRF token of a session of its
  cookie.
\<close>

theorem csrf_required:
  assumes "state_changing (hq_method rq)" "\<not> has_prefix (trim_space (hq_authorization rq)) bearer_prefix"
    "\<And>x. x \<in> set (sessions s) \<Longrightarrow> se_hash x = token_hash v (hq_cookie rq) \<Longrightarrow> trim_space (hq_csrf rq) \<noteq> se_csrf x"
  shows "fst (api v rq s) \<in> {unauthenticated, csrf_failed} \<and>
    (snd (api v rq s) = s \<or> snd (api v rq s) = s\<lparr>sessions := update_where (\<lambda>x. se_hash x = token_hash v (hq_cookie rq))
       (\<lambda>x. x\<lparr>se_seen := hq_now rq\<rparr>) (sessions s)\<rparr>)"
proof (cases rule: authorize_cases[of v rq s])
  case (browser who x)
  have "\<not> csrf_ok rq (se_csrf x)" using assms(3)[OF browser(3,4)] by (simp add: csrf_ok_def tokens_equal_iff)
  then have "api v rq s = (csrf_failed, seen v rq s)" using browser(1) assms(1) by (simp add: api_def)
  then show ?thesis by (simp add: seen_def)
qed (use assms(2) in \<open>simp_all add: api_def\<close>)

theorem csrf_required_witness:
  "fst (api edge_server (edge_request ''POST'' ''/api/v1/projects'' []) edge_db) \<in> {unauthenticated, csrf_failed} \<and>
   fst (api edge_server (edge_request ''POST'' ''/api/v1/projects'' [] \<lparr>hq_csrf := ''csrf''\<rparr>) edge_db) =
     Json 201 (CProject \<lparr>pj_id = ''x'', pj_org = ''o'', pj_name = ''P'', pj_description = [], pj_version = 1\<rparr>)"
proof
  let ?rq = "edge_request ''POST'' ''/api/v1/projects'' []"
  have "list_all (\<lambda>x. trim_space (hq_csrf ?rq) \<noteq> se_csrf x) (sessions edge_db)" by code_simp
  moreover have "state_changing (hq_method ?rq)" "\<not> has_prefix (trim_space (hq_authorization ?rq)) bearer_prefix"
    by code_simp+
  ultimately show "fst (api edge_server ?rq edge_db) \<in> {unauthenticated, csrf_failed}"
    using csrf_required[of ?rq edge_db edge_server] by (simp add: list_all_iff)
qed code_simp

text \<open>
  C22. Safe methods are safe: whoever sends a GET, HEAD or OPTIONS request to the API, it changes no row but the
  time the caller's session was last seen and handoffs whose time is over, which lapse.
\<close>

theorem safe_methods_safe:
  assumes "\<not> state_changing (hq_method rq)"
  shows "\<exists>S P. snd (api v rq s) = s\<lparr>
     sessions := update_where S (\<lambda>x. x\<lparr>se_seen := hq_now rq\<rparr>) (sessions s),
     handoffs := update_where (\<lambda>h. P h \<and> handoff_due (hq_now rq) h) (expire_handoff (hq_now rq)) (handoffs s)\<rparr>"
proof -
  obtain s0 S where s0: "snd (authorize v rq s) = s0"
      "s0 = s\<lparr>sessions := update_where S (\<lambda>x. x\<lparr>se_seen := hq_now rq\<rparr>) (sessions s)\<rparr>"
  proof (cases rule: authorize_cases[of v rq s])
    case (browser who x)
    then show thesis using that by (auto simp: seen_def)
  qed (use that[of s "\<lambda>_. False"] in \<open>auto simp: update_where_unmatched\<close>)
  have "lapses (hq_now rq) s0 (snd (first_route routes v rq who s0))" for who
    by (rule on_routesD[OF safe_routes]) (use assms in auto)
  then have "lapses (hq_now rq) s0 (snd (api v rq s))"
    using s0(1) by (auto simp: api_def split: option.split prod.split)
  then show ?thesis unfolding lapses_def s0(2) by auto
qed

theorem safe_methods_safe_witness:
  "\<exists>S P. snd (api edge_server (edge_request ''GET'' ''/api/v1/handoffs'' []) edge_db) = edge_db\<lparr>
     sessions := update_where S (\<lambda>x. x\<lparr>se_seen := 5\<rparr>) (sessions edge_db),
     handoffs := update_where (\<lambda>h. P h \<and> handoff_due 5 h) (expire_handoff 5) (handoffs edge_db)\<rparr>"
proof -
  let ?rq = "edge_request ''GET'' ''/api/v1/handoffs'' []"
  have "\<not> state_changing (hq_method ?rq)" by code_simp
  from safe_methods_safe[OF this, of edge_server edge_db] show ?thesis by (simp add: edge_request_def)
qed

end
