(* ===== verification/Calls.thy ===== *)
theory Calls
  imports Edge
begin

text \<open>
  What a request does to the database, as actions of the running program: a request of an authenticated caller
  performs at most one transaction of the store, in the organization of the caller and in the caller's name. The
  actions are those of \<open>System\<close>, \<open>Planning\<close> and \<open>Accounts\<close>, so what those theories prove of every run holds of a
  program that is driven through its API.
\<close>

section \<open>The deeds of a caller\<close>

datatype deed = Core action | Plan plan_action | Account account_action

fun perform :: "server \<Rightarrow> deed \<Rightarrow> db \<Rightarrow> db" where
  "perform v (Core a) s = store (step (sv_digest v) new_registry a \<lparr>store = s, refused_jobs = [], workers = []\<rparr>)"
| "perform v (Plan a) s = plan_step a s"
| "perform v (Account a) s = account_step (token_hash v) a s"

text \<open>
  The transactions the API runs for \<open>who\<close>. Organization and actor are the caller's, identifiers and times are those
  the process made for the request; accounts are for administrators.
\<close>

inductive may :: "server \<Rightarrow> http_request \<Rightarrow> ident \<Rightarrow> deed \<Rightarrow> bool" for v rq who where
  may_project: "may v rq who (Core (AProject (iy_org who) (hq_id rq) n d))"
| may_task: "may v rq who (Core (ATask (iy_org who) (hq_id rq) ti d (iy_id who) a p (hq_now rq)))"
| may_agent: "may v rq who (Core (AAgent (hq_id rq) (iy_org who) n h ow caps))"
| may_release: "may v rq who (Core (ARelease (hq_id rq) (iy_org who) (iy_id who) q (hq_now rq)))"
| may_transition: "may v rq who (Core (ATransition (iy_org who) i (role_text (iy_role who)) tgt e (hq_now rq)))"
| may_grant: "may v rq who (Core (AGrant (iy_org who) (role_text (iy_role who)) i caps e (hq_now rq)))"
| may_resolve: "may v rq who (Core (AResolve (hq_ids rq 0) (iy_org who) i (iy_id who) r resp (hq_now rq)))"
| may_list: "may v rq who (Core (AHandoffs (iy_org who) (iy_id who) (hq_now rq)))"
| may_peek: "may v rq who (Core (APeek (iy_org who) i (iy_id who) (hq_now rq)))"
| may_template: "may v rq who (Core (ATemplate (hq_id rq) (iy_org who) (iy_id who) n ve h d caps ins (hq_now rq)))"
| may_publish: "may v rq who (Core (APublish (sv_supported v) (iy_org who) (iy_id who) i e))"
| may_instance: "may v rq who (Core (AInstance (hq_id rq) (iy_org who) (iy_id who) n tp scope ins))"
| may_run: "may v rq who (Core (ARun (sv_json_text v) (sv_supported v) (hq_id rq) (iy_org who) t (iy_id who) a n
     (hq_now rq)))"
| may_depend: "may v rq who (Core (ADependency (iy_org who) t p))"
| may_cancel: "may v rq who (Core (ACancel (iy_org who) t e (hq_now rq)))"
| may_propose: "may v rq who (Core (APropose (hq_ids rq) (hq_ids2 rq) (hq_id rq) (hq_now rq) (iy_org who) t
     (iy_id who) sm ops))"
| may_decide: "may v rq who (Core (ADecide (hq_ids rq) (hq_id rq) (iy_org who) i (iy_id who) k r dg re))"
| may_offer: "may v rq who (Core (AOffer (iy_org who) (hq_id rq) t (iy_id who) rec ro sm (hq_clock rq) (hq_now rq)))"
| may_accept: "may v rq who (Core (AAccept (iy_org who) i (iy_id who) (hq_now rq)))"
| may_decline: "may v rq who (Core (ADecline (iy_org who) i (iy_id who) re (hq_now rq)))"
| may_clarify: "may v rq who (Core (AClarify (iy_org who) i (iy_id who) re (hq_now rq)))"
| may_withdraw: "may v rq who (Core (AWithdraw (iy_org who) i (iy_id who) re (hq_now rq)))"
| may_position: "may v rq who (Plan (PPosition (hq_id rq) (iy_org who) (iy_id who) n p (hq_now rq)))"
| may_relate: "may v rq who (Plan (PRelate (hq_id rq) (iy_org who) (iy_id who) su kind ob start stop (hq_now rq)))"
| may_end: "may v rq who (Plan (PEnd (iy_org who) (iy_id who) i ended))"
| may_milestone: "may v rq who (Plan (PMilestone (hq_id rq) (iy_org who) (iy_id who) pj n ev cd fd (hq_now rq)))"
| may_forecast: "may v rq who (Plan (PForecast (iy_org who) (iy_id who) i fd))"
| may_require: "may v rq who (Plan (PRequire (iy_org who) i p))"
| may_complete: "may v rq who (Plan (PComplete (iy_org who) (iy_id who) i ev e (hq_now rq)))"
| may_link: "iy_role who = Admin \<Longrightarrow>
     may v rq who (Account (ILink (hq_id rq) (iy_org who) iss sub p (iy_id who) (hq_now rq)))"
| may_unlink: "iy_role who = Admin \<Longrightarrow>
     may v rq who (Account (IUnlink (hq_id rq) (iy_org who) iss sub (iy_id who) (hq_now rq)))"

definition performs :: "server \<Rightarrow> http_request \<Rightarrow> ident \<Rightarrow> db \<Rightarrow> db \<Rightarrow> bool" where
  "performs v rq who s s' \<longleftrightarrow> s' = s \<or> (\<exists>d. may v rq who d \<and> s' = perform v d s)"

lemma performs_none [simp]: "performs v rq who s s"
  by (simp add: performs_def)

lemma performs_deed: "may v rq who d \<Longrightarrow> perform v d s = s' \<Longrightarrow> performs v rq who s s'"
  by (auto simp: performs_def)

lemmas performs_deeds = may_project[THEN performs_deed] may_task[THEN performs_deed] may_agent[THEN performs_deed]
  may_release[THEN performs_deed] may_transition[THEN performs_deed] may_grant[THEN performs_deed]
  may_resolve[THEN performs_deed] may_list[THEN performs_deed] may_peek[THEN performs_deed] may_template[THEN performs_deed]
  may_publish[THEN performs_deed] may_instance[THEN performs_deed] may_run[THEN performs_deed]
  may_depend[THEN performs_deed] may_cancel[THEN performs_deed] may_propose[THEN performs_deed]
  may_decide[THEN performs_deed] may_offer[THEN performs_deed] may_accept[THEN performs_deed]
  may_decline[THEN performs_deed] may_clarify[THEN performs_deed] may_withdraw[THEN performs_deed]
  may_position[THEN performs_deed] may_relate[THEN performs_deed] may_end[THEN performs_deed]
  may_milestone[THEN performs_deed] may_forecast[THEN performs_deed] may_require[THEN performs_deed]
  may_complete[THEN performs_deed] may_link[THEN performs_deed] may_unlink[THEN performs_deed]

lemmas performs_plain = performs_deeds(1-29)[unfolded perform.simps step.simps plan_step.simps sys.update_convs
    sys.select_convs, OF refl]

lemmas performs_account = performs_deeds(30,31)[unfolded perform.simps account_step.simps, OF _ refl]

section \<open>Every handler is at most one deed\<close>

fun succeeds :: "reply \<Rightarrow> bool" where
  "succeeds (Json _ _) = True"
| "succeeds _ = False"

text \<open>A handler that refuses a request has done nothing.\<close>

definition outcome :: "server \<Rightarrow> http_request \<Rightarrow> ident \<Rightarrow> db \<Rightarrow> reply \<times> db \<Rightarrow> bool" where
  "outcome v rq who s x \<longleftrightarrow> performs v rq who s (snd x) \<and> (snd x = s \<or> succeeds (fst x))"

definition acts :: "handler \<Rightarrow> bool" where
  "acts h \<longleftrightarrow> (\<forall>v rq who s. outcome v rq who s (h v rq who s))"

lemma actsD: "acts h \<Longrightarrow> outcome v rq who s (h v rq who s)"
  by (simp add: acts_def)

lemma outcome_none [simp]: "outcome v rq who s (r, s)"
  by (simp add: outcome_def)

lemma outcome_transact:
  assumes "performs v rq who s (commit (f v rq who) s)"
  shows "outcome v rq who s (transact refuse code c f v rq who s)"
  using assms by (cases "f v rq who s") (auto simp: outcome_def transact_def commit_def with_org_def)

lemma acts_reading: "acts (reading f)"
  by (simp add: acts_def reading_def)

lemma acts_transact:
  "(\<And>v rq who s. performs v rq who s (commit (f v rq who) s)) \<Longrightarrow> acts (transact refuse code c f)"
  by (simp add: acts_def outcome_transact)

lemma acts_body: "(\<And>q. acts (k q)) \<Longrightarrow> acts (with_body f bad m k)"
  by (simp add: acts_def with_body_def split: option.split)

lemma acts_count: "acts k \<Longrightarrow> acts (segment_count n k)"
  by (simp add: acts_def segment_count_def)

lemma acts_pair: "(\<And>a b. acts (f a b)) \<Longrightarrow> acts (case_prod f q)"
  by (cases q) simp

lemma acts_operator:
  "(\<And>v rq who s. iy_role who = Admin \<Longrightarrow> outcome v rq who s (k v rq who s)) \<Longrightarrow> acts (operator_only k)"
  by (simp add: acts_def operator_only_def)

lemmas acts_intros = acts_body acts_pair acts_count acts_reading acts_transact

text \<open>The handlers that are one transaction behind a body.\<close>

lemma acts_plain:
  "acts post_project" "acts post_task" "acts post_agent" "acts post_template" "acts post_publish"
  "acts post_from_template" "acts post_position" "acts post_complete" "acts post_milestone_dependency"
  "acts post_dependency" "acts post_transition" "acts post_grant" "acts post_gate_response" "acts get_handoffs"
  "acts get_handoff_by_id" "acts post_handoff" "acts post_accept" "acts post_run" "acts post_cancel"
  "acts post_proposal" "acts post_decision" "acts post_capability_check"
  unfolding post_project_def post_task_def post_agent_def post_template_def post_publish_def post_from_template_def
    post_position_def post_complete_def post_milestone_dependency_def post_dependency_def post_transition_def
    post_grant_def post_gate_response_def get_handoffs_def get_handoff_by_id_def post_handoff_def post_accept_def
    post_run_def post_cancel_def post_proposal_def post_decision_def post_capability_check_def
  by (intro acts_intros performs_plain)+

text \<open>The handlers with checks between the body and the transaction.\<close>

lemma acts_checked:
  "acts post_release" "acts post_relationship" "acts post_relationship_end" "acts post_milestone"
  "acts post_forecast" "acts post_handoff_reply" "acts get_gate_by_id" "acts get_relationships"
  by (auto simp: acts_def post_release_def post_relationship_def post_relationship_end_def post_milestone_def
      post_forecast_def post_handoff_reply_def get_gate_by_id_def get_relationships_def with_body_def
      simp del: One_nat_def intro!: outcome_transact performs_plain split: option.split prod.split)

lemma acts_identity: "acts handle_identity_links" "acts handle_identity_unlink"
  unfolding handle_identity_links_def handle_identity_unlink_def
  by (intro acts_operator, auto simp: with_body_def actsD[OF acts_reading] intro!: outcome_transact performs_account
        split: option.split prod.split)+

lemma acts_routes: "on_routes (\<lambda>_. acts)"
  unfolding on_routes_def routes_def main_routes_def resource_routes_def
  by (simp add: acts_plain[unfolded get_handoffs_def get_handoff_by_id_def] acts_plain acts_checked acts_identity
      safe_handlers acts_count acts_reading del: One_nat_def)

text \<open>The caller of the API, who is identified first.\<close>

lemma api_outcome:
  assumes "authorize v rq s = (Some (who, sess), s0)"
  shows "outcome v rq who s0 (api v rq s)"
proof -
  have "outcome v rq who s0 (first_route routes v rq who s0)"
    using first_route_cases[of routes v rq who s0] acts_routes
    by (auto simp: on_routes_def list_all_iff acts_def not_found_def)
  then show ?thesis using assms by (simp add: api_def split: option.split)
qed

lemma api_performs: "authorize v rq s = (Some (who, sess), s0) \<Longrightarrow> performs v rq who s0 (snd (api v rq s))"
  using api_outcome by (simp add: outcome_def)

section \<open>Properties\<close>

text \<open>
  C17. A request acts for its caller alone: whatever an authenticated caller sends, the API either changes nothing
  beyond the time the session was last seen, or performs exactly one transaction, which is one the caller may run: in
  the caller's organization and name, and on external accounts only for an administrator. Every answer but a success
  means that nothing was changed.
\<close>

theorem one_deed_per_request:
  assumes "authorize v rq s = (Some (who, sess), s0)"
  shows "(snd (api v rq s) = s0 \<or> (\<exists>d. may v rq who d \<and> snd (api v rq s) = perform v d s0)) \<and>
    (\<not> succeeds (fst (api v rq s)) \<longrightarrow> snd (api v rq s) = s0)"
  using api_outcome[OF assms] by (auto simp: outcome_def performs_def)

theorem one_deed_per_request_witness:
  "let rq = edge_request ''POST'' ''/api/v1/projects'' ''Bearer key'' in
   snd (api edge_server rq edge_db) = perform edge_server (Core (AProject ''o'' ''x'' ''P'' [])) edge_db \<and>
   (\<exists>d. may edge_server rq \<lparr>iy_id = ''a'', iy_org = ''o'', iy_role = Admin, iy_name = ''a''\<rparr> d \<and>
      snd (api edge_server rq edge_db) = perform edge_server d edge_db)"
proof -
  let ?rq = "edge_request ''POST'' ''/api/v1/projects'' ''Bearer key''"
  have a: "authorize edge_server ?rq edge_db =
      (Some (\<lparr>iy_id = ''a'', iy_org = ''o'', iy_role = Admin, iy_name = ''a''\<rparr>, None), edge_db)" by code_simp
  have "snd (api edge_server ?rq edge_db) = perform edge_server (Core (AProject ''o'' ''x'' ''P'' [])) edge_db"
    "snd (api edge_server ?rq edge_db) \<noteq> edge_db" by code_simp+
  then show ?thesis using one_deed_per_request[OF a] by simp
qed

end
