(* ===== verification/Tenancy.thy ===== *)
theory Tenancy
  imports Calls
begin

text \<open>
  Which tables an operation writes, and that it writes rows of its own organization only. The footprint of an
  operation is a set of tables: outside of it nothing changes, inside of it the rows of other organizations stay as
  they are, in their order. From the footprints follow that the invariants of parts that write disjoint tables hold
  together and that a request leaves the rows of other organizations alone, where every session is one of an account
  of its organization; \<open>Access\<close> shows that this is so in every history of the program.
\<close>

section \<open>Footprints\<close>

datatype table =
    TOrganizations | TPrincipals | TProjects | TTasks | TTaskDeps | TAgents | TSimRecords | TProposals | TDecisions | TEffects | TReceipts | TBusinessOps | THandoffs | TAgentRuns | TGates | TReleases | TEvents | TPositions | TRelationships | TMilestones | TMilestoneDeps | TTemplates | TIdentityLinks | TProposalJobs | TRunJobs | TSessions | TLogins

definition keeps :: "bool \<Rightarrow> ('r \<Rightarrow> id) \<Rightarrow> id \<Rightarrow> 'r list \<Rightarrow> 'r list \<Rightarrow> bool" where
  "keeps w f org xs ys \<longleftrightarrow> (if w then filter (\<lambda>r. f r \<noteq> org) ys = filter (\<lambda>r. f r \<noteq> org) xs else ys = xs)"

lemma keeps_refl [simp]: "keeps w f org xs xs"
  by (simp add: keeps_def)

lemma keeps_append [simp]: "keeps True f org xs (xs @ ys) \<longleftrightarrow> (\<forall>r\<in>set ys. f r = org)"
  by (simp add: keeps_def filter_empty_conv)

lemma keeps_update [intro!]:
  assumes "\<And>r. P r \<Longrightarrow> f r = org" "\<And>r. P r \<Longrightarrow> f (g r) = org"
  shows "keeps True f org xs (update_where P g xs)"
  unfolding keeps_def update_where_def by (induction xs) (use assms in auto)

lemma keeps_update_in:
  assumes "\<forall>r\<in>set xs. P r \<longrightarrow> f r = org \<and> f (g r) = org"
  shows "keeps True f org xs (update_where P g xs)"
  using assms unfolding keeps_def update_where_def by (induction xs) auto

lemma keeps_trans: "keeps w f org xs ys \<Longrightarrow> keeps w f org ys zs \<Longrightarrow> keeps w f org xs zs"
  by (simp add: keeps_def split: if_split_asm)

lemma keeps_others: "keeps w f org xs ys \<Longrightarrow> filter (\<lambda>r. f r \<noteq> org) ys = filter (\<lambda>r. f r \<noteq> org) xs"
  by (simp add: keeps_def split: if_split_asm)

lemma keeps_mono: "keeps w f org xs ys \<Longrightarrow> (w \<longrightarrow> w') \<Longrightarrow> keeps w' f org xs ys"
  by (auto simp: keeps_def split: if_split_asm)

text \<open>Sessions and logins are looked at separately.\<close>

definition footprint :: "table set \<Rightarrow> id \<Rightarrow> db \<Rightarrow> db \<Rightarrow> bool" where
  "footprint W org s s' \<longleftrightarrow>
     keeps (TOrganizations \<in> W) og_id org (organizations s) (organizations s') \<and>
     keeps (TPrincipals \<in> W) pr_org org (principals s) (principals s') \<and>
     keeps (TProjects \<in> W) pj_org org (projects s) (projects s') \<and>
     keeps (TTasks \<in> W) tk_org org (tasks s) (tasks s') \<and>
     keeps (TTaskDeps \<in> W) td_org org (task_deps s) (task_deps s') \<and>
     keeps (TAgents \<in> W) ag_org org (agents s) (agents s') \<and>
     keeps (TSimRecords \<in> W) sr_org org (sim_records s) (sim_records s') \<and>
     keeps (TProposals \<in> W) pp_org org (proposals s) (proposals s') \<and>
     keeps (TDecisions \<in> W) dc_org org (decisions s) (decisions s') \<and>
     keeps (TEffects \<in> W) ef_org org (effects s) (effects s') \<and>
     keeps (TReceipts \<in> W) rc_org org (receipts s) (receipts s') \<and>
     keeps (TBusinessOps \<in> W) bo_org org (business_ops s) (business_ops s') \<and>
     keeps (THandoffs \<in> W) ho_org org (handoffs s) (handoffs s') \<and>
     keeps (TAgentRuns \<in> W) ru_org org (agent_runs s) (agent_runs s') \<and>
     keeps (TGates \<in> W) gt_org org (gates s) (gates s') \<and>
     keeps (TReleases \<in> W) rr_org org (releases s) (releases s') \<and>
     keeps (TEvents \<in> W) ev_org org (events s) (events s') \<and>
     keeps (TPositions \<in> W) po_org org (positions s) (positions s') \<and>
     keeps (TRelationships \<in> W) re_org org (relationships s) (relationships s') \<and>
     keeps (TMilestones \<in> W) mi_org org (milestones s) (milestones s') \<and>
     keeps (TMilestoneDeps \<in> W) md_org org (milestone_deps s) (milestone_deps s') \<and>
     keeps (TTemplates \<in> W) at_org org (templates s) (templates s') \<and>
     keeps (TIdentityLinks \<in> W) il_org org (identity_links s) (identity_links s') \<and>
     keeps (TProposalJobs \<in> W) fst org (proposal_jobs s) (proposal_jobs s') \<and>
     keeps (TRunJobs \<in> W) fst org (run_jobs s) (run_jobs s') \<and>
     (TSessions \<in> W \<or> sessions s' = sessions s) \<and> (TLogins \<in> W \<or> logins s' = logins s)"

lemma footprint_refl [simp]: "footprint W org s s"
  by (simp add: footprint_def)

lemma footprint_trans: "footprint W org s t \<Longrightarrow> footprint W org t u \<Longrightarrow> footprint W org s u"
  unfolding footprint_def by (elim conjE, intro conjI; (erule (1) keeps_trans | fastforce))

lemma footprint_mono: "footprint W org s t \<Longrightarrow> W \<subseteq> V \<Longrightarrow> footprint V org s t"
  unfolding footprint_def by (elim conjE, intro conjI; ((erule keeps_mono, blast) | blast))

text \<open>One write.\<close>

lemma footprint_write [simp]:
  "footprint W org s (s\<lparr>organizations := xs0\<rparr>) \<longleftrightarrow> keeps (TOrganizations \<in> W) og_id org (organizations s) xs0"
  "footprint W org s (s\<lparr>principals := xs1\<rparr>) \<longleftrightarrow> keeps (TPrincipals \<in> W) pr_org org (principals s) xs1"
  "footprint W org s (s\<lparr>projects := xs2\<rparr>) \<longleftrightarrow> keeps (TProjects \<in> W) pj_org org (projects s) xs2"
  "footprint W org s (s\<lparr>tasks := xs3\<rparr>) \<longleftrightarrow> keeps (TTasks \<in> W) tk_org org (tasks s) xs3"
  "footprint W org s (s\<lparr>task_deps := xs4\<rparr>) \<longleftrightarrow> keeps (TTaskDeps \<in> W) td_org org (task_deps s) xs4"
  "footprint W org s (s\<lparr>agents := xs5\<rparr>) \<longleftrightarrow> keeps (TAgents \<in> W) ag_org org (agents s) xs5"
  "footprint W org s (s\<lparr>sim_records := xs6\<rparr>) \<longleftrightarrow> keeps (TSimRecords \<in> W) sr_org org (sim_records s) xs6"
  "footprint W org s (s\<lparr>proposals := xs7\<rparr>) \<longleftrightarrow> keeps (TProposals \<in> W) pp_org org (proposals s) xs7"
  "footprint W org s (s\<lparr>decisions := xs8\<rparr>) \<longleftrightarrow> keeps (TDecisions \<in> W) dc_org org (decisions s) xs8"
  "footprint W org s (s\<lparr>effects := xs9\<rparr>) \<longleftrightarrow> keeps (TEffects \<in> W) ef_org org (effects s) xs9"
  "footprint W org s (s\<lparr>receipts := xs10\<rparr>) \<longleftrightarrow> keeps (TReceipts \<in> W) rc_org org (receipts s) xs10"
  "footprint W org s (s\<lparr>business_ops := xs11\<rparr>) \<longleftrightarrow> keeps (TBusinessOps \<in> W) bo_org org (business_ops s) xs11"
  "footprint W org s (s\<lparr>handoffs := xs12\<rparr>) \<longleftrightarrow> keeps (THandoffs \<in> W) ho_org org (handoffs s) xs12"
  "footprint W org s (s\<lparr>agent_runs := xs13\<rparr>) \<longleftrightarrow> keeps (TAgentRuns \<in> W) ru_org org (agent_runs s) xs13"
  "footprint W org s (s\<lparr>gates := xs14\<rparr>) \<longleftrightarrow> keeps (TGates \<in> W) gt_org org (gates s) xs14"
  "footprint W org s (s\<lparr>releases := xs15\<rparr>) \<longleftrightarrow> keeps (TReleases \<in> W) rr_org org (releases s) xs15"
  "footprint W org s (s\<lparr>events := xs16\<rparr>) \<longleftrightarrow> keeps (TEvents \<in> W) ev_org org (events s) xs16"
  "footprint W org s (s\<lparr>positions := xs17\<rparr>) \<longleftrightarrow> keeps (TPositions \<in> W) po_org org (positions s) xs17"
  "footprint W org s (s\<lparr>relationships := xs18\<rparr>) \<longleftrightarrow> keeps (TRelationships \<in> W) re_org org (relationships s) xs18"
  "footprint W org s (s\<lparr>milestones := xs19\<rparr>) \<longleftrightarrow> keeps (TMilestones \<in> W) mi_org org (milestones s) xs19"
  "footprint W org s (s\<lparr>milestone_deps := xs20\<rparr>) \<longleftrightarrow> keeps (TMilestoneDeps \<in> W) md_org org (milestone_deps s) xs20"
  "footprint W org s (s\<lparr>templates := xs21\<rparr>) \<longleftrightarrow> keeps (TTemplates \<in> W) at_org org (templates s) xs21"
  "footprint W org s (s\<lparr>identity_links := xs22\<rparr>) \<longleftrightarrow> keeps (TIdentityLinks \<in> W) il_org org (identity_links s) xs22"
  "footprint W org s (s\<lparr>proposal_jobs := xs23\<rparr>) \<longleftrightarrow> keeps (TProposalJobs \<in> W) fst org (proposal_jobs s) xs23"
  "footprint W org s (s\<lparr>run_jobs := xs24\<rparr>) \<longleftrightarrow> keeps (TRunJobs \<in> W) fst org (run_jobs s) xs24"
  by (simp_all add: footprint_def)

section \<open>The footprints of the store's operations\<close>

lemma footprint_plain:
  "create_project org i n d s = Inr (x1, s') \<Longrightarrow> footprint {TProjects} org s s'"
  "create_task org i ti d ow a pj now s = Inr (x2, s') \<Longrightarrow> footprint {TTasks} org s s'"
  "add_dependency org t p s = Inr (x3, s') \<Longrightarrow> footprint {TTaskDeps} org s s'"
  "create_registry_release i org actor q now s = Inr (x4, s') \<Longrightarrow> footprint {TReleases} org s s'"
  "create_agent i org n h ow caps s = Inr (x5, s') \<Longrightarrow> footprint {TAgents} org s s'"
  "create_agent_template i org actor n ve h d caps ins now s = Inr (x6, s') \<Longrightarrow> footprint {TTemplates} org s s'"
  "publish_agent_template supported org actor i rv s = Inr (x6, s') \<Longrightarrow> footprint {TTemplates} org s s'"
  "create_agent_from_template i org actor n tpl cs ins s = Inr (x5, s') \<Longrightarrow> footprint {TAgents} org s s'"
  "create_position i org actor n parent now s = Inr (x7, s') \<Longrightarrow> footprint {TPositions} org s s'"
  "create_relationship i org actor su k ob start stop now s = Inr (x8, s') \<Longrightarrow> footprint {TRelationships} org s s'"
  "end_relationship org actor i stopped s = Inr (x3, s') \<Longrightarrow> footprint {TRelationships} org s s'"
  "create_milestone i org actor pj n ev cd fd now s = Inr (x9, s') \<Longrightarrow> footprint {TMilestones} org s s'"
  "set_milestone_forecast org actor i fd s = Inr (x9, s') \<Longrightarrow> footprint {TMilestones} org s s'"
  "add_milestone_dependency org i p s = Inr (x3, s') \<Longrightarrow> footprint {TMilestoneDeps} org s s'"
  "complete_milestone org actor i ev vn now s = Inr (x3, s') \<Longrightarrow> footprint {TMilestones} org s s'"
  by (auto simp: create_project_def create_task_def add_dependency_def create_registry_release_def create_agent_def
      create_agent_template_def publish_agent_template_def create_agent_from_template_def create_position_def
      create_relationship_def end_relationship_def create_milestone_def set_milestone_forecast_def
      add_milestone_dependency_def complete_milestone_def Let_def split: if_split_asm option.splits sum.splits)

lemma footprint_cancel:
  "cancel_task org i v now s = Inr (x, s') \<Longrightarrow> footprint {TTasks, TProposals, TGates, TAgentRuns} org s s'"
  by (auto simp: cancel_task_def Let_def footprint_def split: if_split_asm)

lemma footprint_release:
  "transition_registry_release org i role target rv now s = Inr (x, s') \<Longrightarrow> footprint {TReleases} org s s'"
  "grant_registry_capabilities org role i caps rv now s = Inr (x, s') \<Longrightarrow> footprint {TReleases} org s s'"
  by (auto simp: transition_registry_release_def grant_registry_capabilities_def Let_def activate_def enter_state_def
      dest!: row_SomeD split: if_split_asm option.splits sum.splits)

lemma footprint_run:
  "create_agent_run tx supported i org task actor agent intent now s = Inr (x, s') \<Longrightarrow>
     footprint {TAgentRuns, TRunJobs} org s s'"
  by (auto simp: create_agent_run_def Let_def enqueue_agent_run_def footprint_def
      split: if_split_asm option.splits sum.splits)

lemma footprint_expire [simp]: "footprint {THandoffs} org s (expire_due_handoffs org i now s)"
  by (auto simp: expire_due_handoffs_def expire_handoff_def)

lemma footprint_offer:
  "create_handoff org i task actor rec role sm app now s = Inr (x, s') \<Longrightarrow> footprint {THandoffs} org s s'"
  by (auto simp: create_handoff_def create_handoff_expiring_def Let_def split: if_split_asm option.splits)

lemma footprint_handoff_reads:
  "list_handoffs org actor now s = Inr (x, s') \<Longrightarrow> footprint {THandoffs} org s s'"
  "peek_handoff org i actor now s = Inr (y, s') \<Longrightarrow> footprint {THandoffs} org s s'"
  by (auto simp: list_handoffs_def peek_handoff_def expire_handoff_def Let_def split: option.splits)

lemma footprint_reply:
  assumes "reply_handoff who denied f org i actor now s = Inr (x, s')" "\<And>h. ho_org (f h) = ho_org h"
  shows "footprint {THandoffs} org s s'"
proof -
  obtain X where "s' = (expire_due_handoffs org i now s)\<lparr>handoffs := update_where (\<lambda>h. ho_org h = org \<and> ho_id h = i) f X\<rparr>"
      "X = handoffs (expire_due_handoffs org i now s)"
    using assms(1) by (auto simp: reply_handoff_def Let_def split: if_split_asm option.splits)
  then have "footprint {THandoffs} org (expire_due_handoffs org i now s) s'" using assms(2) by auto
  then show ?thesis using footprint_trans[OF footprint_expire] by blast
qed

lemma footprint_replies:
  "decline_handoff org i actor re now s = Inr (x, s') \<Longrightarrow> footprint {THandoffs} org s s'"
  "clarify_handoff org i actor re now s = Inr (x, s') \<Longrightarrow> footprint {THandoffs} org s s'"
  "cancel_handoff org i actor re now s = Inr (x, s') \<Longrightarrow> footprint {THandoffs} org s s'"
  unfolding decline_handoff_def recipient_resolve_def clarify_handoff_def cancel_handoff_def
  by (erule footprint_reply, simp)+

lemma footprint_accept:
  assumes "accept_handoff org i actor now s = Inr (x, s')"
  shows "footprint {THandoffs, TTasks} org s s'"
proof -
  let ?t = "expire_due_handoffs org i now s"
  have "footprint {THandoffs, TTasks} org ?t s'"
    using assms by (auto simp: accept_handoff_def Let_def footprint_def split: if_split_asm option.splits)
  moreover have "footprint {THandoffs, TTasks} org s ?t" by (rule footprint_mono[OF footprint_expire]) simp
  ultimately show ?thesis using footprint_trans by blast
qed

lemma footprint_event: "insert_event e s = Inr (x, s') \<Longrightarrow> ev_org e = org \<Longrightarrow> footprint {TEvents} org s s'"
  by (auto simp: insert_event_def split: if_split_asm)

lemma footprint_resolve:
  assumes "resolve_gate eid org i actor rv response now s = Inr (x, s')"
  shows "footprint {TGates, TAgentRuns, TRunJobs, TEvents} org s s'"
proof -
  let ?W = "{TGates, TAgentRuns, TRunJobs, TEvents}"
  show ?thesis using assms
  proof (cases rule: resolve_gate_cases)
    case replay
    then show ?thesis by simp
  next
    case (resolved g)
    let ?s1 = "s\<lparr>gates := update_where (\<lambda>g. gt_org g = org \<and> gt_id g = i) (answered response actor now) (gates s)\<rparr>"
    let ?s2 = "case gt_run g of None \<Rightarrow> ?s1 | Some run \<Rightarrow> resume_run org run i ?s1"
    have "footprint ?W org t (resume_run org run i t)" for t run
      by (auto simp: resume_run_def Let_def enqueue_agent_run_def waits_on_def requeue_def footprint_def)
    then have "footprint ?W org ?s1 ?s2" by (simp split: option.split)
    moreover have "footprint ?W org s ?s1" by (auto simp: answered_def)
    moreover have "footprint ?W org ?s2 s'" unfolding resolved(8) by (simp add: Let_def)
    ultimately show ?thesis using footprint_trans by blast
  qed
qed

lemma reserve_one_keeps_others:
  "reserve_one H org pid i op s = Inr (u, s') \<Longrightarrow> keeps True bo_org org (business_ops s) (business_ops s')"
  by (auto simp: reserve_one_def Let_def split: if_split_asm option.splits sum.splits)

lemma reserve_keeps_others:
  "reserve_business_operations H org pid ops s = Inr (u, s') \<Longrightarrow> keeps True bo_org org (business_ops s) (business_ops s')"
proof (induction ops arbitrary: s)
  case (Cons a ops)
  obtain op i where a: "a = (op, i)" by force
  from Cons.prems obtain w s1 where 1: "reserve_one H org pid i op s = Inr (w, s1)"
      "reserve_business_operations H org pid ops s1 = Inr (u, s')"
    by (auto simp: a split: sum.splits)
  show ?case by (rule keeps_trans[OF reserve_one_keeps_others[OF 1(1)] Cons.IH[OF 1(2)]])
qed simp

lemma footprint_propose:
  assumes "create_proposal H fo fb pid now org task actor sm ops s = Inr (p, s')"
  shows "footprint {TProposals, TBusinessOps} org s s'"
proof -
  note c = assms[unfolded create_proposal_def]
  have t: "reserve_business_operations H org pid
       (zip (assign_ids fo 0 ops) (map fb [0..<length (assign_ids fo 0 ops)]))
       (s\<lparr>proposals := proposals (supersede org task s) @ [p]\<rparr>) = Inr ((), s')"
    using c by (rule create_proposal_tx_ok)
  have p: "pp_org p = org" by (rule create_proposal_tx_ok[OF c]) simp
  have "keeps True pp_org org (proposals s) (proposals (supersede org task s))" by (auto simp: supersede_def)
  then have "keeps True pp_org org (proposals s) (proposals (supersede org task s) @ [p])"
    using keeps_trans keeps_append[of pp_org org _ "[p]"] p by fastforce
  moreover have "keeps True bo_org org (business_ops s) (business_ops s')"
    using reserve_keeps_others[OF t] by simp
  ultimately show ?thesis
    unfolding create_proposal_tables(1)[OF c, symmetric]
    by (subst create_proposal_tables(2)[OF c]) (simp add: footprint_def)
qed

lemma footprint_decide:
  assumes "decide fe i org pid actor k rv dg re s = Inr (u, s')"
  shows "footprint {TDecisions, TProposals, TBusinessOps, TEffects, TProposalJobs} org s s'"
  using assms
proof (cases rule: decide_cases)
  case (fresh a p k)
  show ?thesis
  proof (cases k)
    case Endorse
    then show ?thesis using fresh(8) by (auto simp: set_proposal_status_def decision_row_def footprint_def)
  next
    case Reject
    then show ?thesis using fresh(9)
      by (auto simp: set_proposal_status_def release_business_operations_def decision_row_def footprint_def)
  next
    case Approve
    then have ap: "approve_proposal fe org p
        (s\<lparr>decisions := decisions s @ [decision_row i org pid actor k rv dg re]\<rparr>) = Inr ((), s')" using fresh(10) by simp
    show ?thesis
    proof (rule approve_tables[OF ap])
      fix es
      assume s': "s' = s\<lparr>decisions := decisions s @ [decision_row i org pid actor k rv dg re]\<rparr>\<lparr>proposals := update_where
              (\<lambda>q. pp_org q = org \<and> pp_id q = pp_id p \<and> pp_status q = PPendingApproval)
              (\<lambda>q. q\<lparr>pp_status := PApproved\<rparr>) (proposals (s\<lparr>decisions := decisions s @ [decision_row i org pid actor k rv dg re]\<rparr>)),
            effects := effects (s\<lparr>decisions := decisions s @ [decision_row i org pid actor k rv dg re]\<rparr>) @ es,
            business_ops := update_where
              (\<lambda>b. bo_org b = org \<and> bo_proposal b = Some (pp_id p) \<and> bo_status b = BReserved)
              (\<lambda>b. b\<lparr>bo_status := BDispatching\<rparr>)
              (business_ops (s\<lparr>decisions := decisions s @ [decision_row i org pid actor k rv dg re]\<rparr>)),
            proposal_jobs := proposal_jobs (s\<lparr>decisions := decisions s @ [decision_row i org pid actor k rv dg re]\<rparr>) @
              [(org, pp_id p)]\<rparr>"
        and es: "\<forall>e\<in>set es. \<exists>op\<in>set (pp_operations p). \<exists>j. e = effect_of j org (pp_id p) op
              (s\<lparr>decisions := decisions s @ [decision_row i org pid actor k rv dg re]\<rparr>)"
      have "\<forall>e\<in>set es. ef_org e = org" using es by (auto simp: effect_of_def)
      then show ?thesis unfolding s' by (auto simp: footprint_def decision_row_def)
    qed
  qed
qed simp

lemma footprint_link:
  assumes "link_identity_by_admin eid org iss sub who actor now s = Inr (u, s')" "accounts_ok s"
  shows "footprint {TIdentityLinks, TEvents} org s s'"
proof -
  let ?W = "{TIdentityLinks, TEvents}"
  obtain t where t: "link_identity_in_tx org iss sub who actor now s = Inr ((), t)"
      "audit_tx eid org who ''identity_link.created'' actor
          [(''issuer'', JStr iss), (''subject'', JStr sub), (''principal_id'', JStr who)] t = Inr (u, s')"
    using assms(1) by (auto simp: link_identity_by_admin_def split: if_split_asm sum.splits)
  have "footprint {TEvents} org t s'" by (rule footprint_event[OF t(2)[unfolded audit_tx_def]]) simp
  then have "footprint ?W org t s'" by (rule footprint_mono) simp
  moreover have "footprint ?W org s t"
  proof (cases "find_link iss sub s")
    case None
    then show ?thesis using t(1) by (auto simp: link_identity_in_tx_def split: if_split_asm)
  next
    case (Some l)
    then have w: "il_principal l = who" "find_principal org who s \<noteq> None"
        "t = s\<lparr>identity_links := update_where (\<lambda>l. il_issuer l = iss \<and> il_subject l = sub \<and> \<not> il_active l)
                 (\<lambda>l. l\<lparr>il_active := True\<rparr>) (identity_links s)\<rparr>"
      using t(1) by (auto simp: link_identity_in_tx_def split: if_split_asm)
    have l: "l \<in> set (identity_links s)" "link_key l = (iss, sub)" using row_SomeD[OF Some] by auto
    have "has_principal (principals s) (il_org l) who"
      using assms(2) l(1) w(1) by (auto simp: accounts_ok_def)
    then obtain p where p: "p \<in> set (principals s)" "pr_org p = il_org l" "pr_id p = who"
      by (auto simp: has_principal_def exists_row_def)
    obtain q where q: "q \<in> set (principals s)" "pr_org q = org" "pr_id q = who"
      using w(2) row_SomeD by fastforce
    have "p = q" by (rule unique_key_row[OF accounts_okD(1)[OF assms(2)] p(1) q(1)]) (simp add: p q)
    then have "il_org l = org" using p(2) q(2) by simp
    moreover have "m = l" if "m \<in> set (identity_links s)" "link_key m = (iss, sub)" for m
      by (rule unique_key_row[OF accounts_okD(2)[OF assms(2)] that(1) l(1)]) (simp add: that(2) l(2))
    ultimately have org: "\<forall>m\<in>set (identity_links s). link_key m = (iss, sub) \<longrightarrow> il_org m = org" by blast
    show ?thesis unfolding w(3) using org by (simp add: keeps_update_in)
  qed
  ultimately show ?thesis using footprint_trans by blast
qed

lemma footprint_revoke: "footprint {TSessions} org s (snd (revoke_where P now s))"
  by (auto simp: revoke_where_def Let_def footprint_def)

lemma if_inl: "(if c then Inl e else x) = Inr y \<Longrightarrow> (x = Inr y \<Longrightarrow> R) \<Longrightarrow> R"
  by (simp split: if_split_asm)

lemma footprint_unlink:
  assumes "unlink_identity_by_admin eid org iss sub actor now s = Inr (n, s')"
  shows "footprint {TIdentityLinks, TSessions, TEvents} org s s'"
proof -
  let ?W = "{TIdentityLinks, TSessions, TEvents}"
  let ?s1 = "s\<lparr>identity_links := update_where
                     (\<lambda>l. il_org l = org \<and> il_issuer l = iss \<and> il_subject l = sub \<and> il_active l)
                     (\<lambda>l. l\<lparr>il_active := False\<rparr>) (identity_links s)\<rparr>"
  obtain l where l: "row (\<lambda>l. il_org l = org \<and> il_issuer l = iss \<and> il_subject l = sub \<and> il_active l) (identity_links s) = Some l"
    using assms by (auto simp: unlink_identity_by_admin_def split: if_split_asm option.splits)
  obtain p where p: "principal_in_tx org (il_principal l) s = Inr p"
    using assms l by (auto simp: unlink_identity_by_admin_def split: if_split_asm sum.splits)
  obtain m t where r: "revoke_where (\<lambda>x. se_issuer x = iss \<and> se_subject x = sub) now ?s1 = (m, t)"
    by (rule prod.exhaust)
  note u = assms[unfolded unlink_identity_by_admin_def l p Let_def option.case sum.case, unfolded r prod.case]
  let ?a = "audit_tx eid org (il_principal l) ''identity_link.revoked'' actor
                    [(''issuer'', JStr iss), (''subject'', JStr sub), (''principal_id'', JStr (il_principal l)),
                     (''sessions_revoked'', JNum (IntLit (int m)))] t"
  have "(case ?a of Inl e \<Rightarrow> Inl e | Inr (_, s3) \<Rightarrow> Inr (m, s3)) = Inr (n, s')"
    using u by (elim if_inl)
  then obtain q where "?a = Inr q" "snd q = s'"
    by (cases ?a) (simp_all only: sum.case sum.distinct sum.inject prod.inject prod.case_eq_if simp_thms)
  then have e: "?a = Inr ((), s')" by (metis prod.collapse unit_eq)
  have "footprint {TEvents} org t s'" by (rule footprint_event[OF e[unfolded audit_tx_def]]) simp
  then have "footprint ?W org t s'" by (rule footprint_mono) simp
  moreover have "footprint ?W org ?s1 t"
    by (rule footprint_mono[OF footprint_revoke[of org ?s1 "\<lambda>x. se_issuer x = iss \<and> se_subject x = sub" now, unfolded r snd_conv]]) simp
  moreover have "footprint ?W org s ?s1" by auto
  ultimately show ?thesis using footprint_trans by blast
qed

section \<open>The footprints of the deeds\<close>

lemma footprint_commit:
  assumes "\<And>x s'. f s = Inr (x, s') \<Longrightarrow> footprint W org s s'" "W \<subseteq> V"
  shows "footprint V org s (commit f s)"
  by (rule commit_induct) (simp, rule footprint_mono[OF assms])

text \<open>The tables of the tasks, proposals, runs, handoffs, templates and releases; those of the planning.\<close>

definition core_tables :: "table set" where
  "core_tables = {TProjects, TTasks, TTaskDeps, TAgents, TSimRecords, TProposals, TDecisions, TEffects, TReceipts,
     TBusinessOps, THandoffs, TAgentRuns, TGates, TReleases, TEvents, TTemplates, TProposalJobs, TRunJobs}"

definition plan_tables :: "table set" where
  "plan_tables = {TPositions, TRelationships, TMilestones, TMilestoneDeps}"

lemmas footprint_transactions = footprint_plain footprint_cancel footprint_release footprint_run footprint_offer
  footprint_handoff_reads footprint_replies footprint_accept footprint_resolve footprint_propose footprint_decide

lemma core_footprints:
  "footprint core_tables org s (commit (create_project org i n d) s)"
  "footprint core_tables org s (commit (create_task org i ti d ow a pj now) s)"
  "footprint core_tables org s (commit (add_dependency org t p) s)"
  "footprint core_tables org s (commit (create_registry_release i org actor q now) s)"
  "footprint core_tables org s (commit (create_agent i org n h ow caps) s)"
  "footprint core_tables org s (commit (create_agent_template i org actor n ve h d caps ins now) s)"
  "footprint core_tables org s (commit (publish_agent_template supported org actor i rv) s)"
  "footprint core_tables org s (commit (create_agent_from_template i org actor n tpl scope ins) s)"
  "footprint core_tables org s (commit (cancel_task org i rv now) s)"
  "footprint core_tables org s (commit (transition_registry_release org i role target rv now) s)"
  "footprint core_tables org s (commit (grant_registry_capabilities org role i caps rv now) s)"
  "footprint core_tables org s (commit (create_agent_run tx supported i org t actor agent intent now) s)"
  "footprint core_tables org s (commit (create_handoff org i t actor rec role sm app now) s)"
  "footprint core_tables org s (commit (list_handoffs org actor now) s)"
  "footprint core_tables org s (commit (peek_handoff org i actor now) s)"
  "footprint core_tables org s (commit (decline_handoff org i actor re now) s)"
  "footprint core_tables org s (commit (clarify_handoff org i actor re now) s)"
  "footprint core_tables org s (commit (cancel_handoff org i actor re now) s)"
  "footprint core_tables org s (commit (accept_handoff org i actor now) s)"
  "footprint core_tables org s (commit (resolve_gate eid org i actor rv response now) s)"
  "footprint core_tables org s (commit (create_proposal H fo fb pid now org t actor sm ops) s)"
  "footprint core_tables org s (commit (decide fe i org pid actor kind rv dg re) s)"
  by (rule footprint_commit, erule footprint_transactions, simp add: core_tables_def)+

lemma plan_footprints:
  "footprint plan_tables org s (commit (create_position i org actor n parent now) s)"
  "footprint plan_tables org s (commit (create_relationship i org actor su kind ob start stop now) s)"
  "footprint plan_tables org s (commit (end_relationship org actor i stopped) s)"
  "footprint plan_tables org s (commit (create_milestone i org actor pj n ev cd fd now) s)"
  "footprint plan_tables org s (commit (set_milestone_forecast org actor i fd) s)"
  "footprint plan_tables org s (commit (add_milestone_dependency org i p) s)"
  "footprint plan_tables org s (commit (complete_milestone org actor i ev vn now) s)"
  by (rule footprint_commit, erule footprint_transactions, simp add: plan_tables_def)+

lemma account_footprints:
  "accounts_ok s \<Longrightarrow> footprint {TIdentityLinks, TSessions, TEvents} org s
     (commit (link_identity_by_admin eid org iss sub who actor now) s)"
  "footprint {TIdentityLinks, TSessions, TEvents} org s (commit (unlink_identity_by_admin eid org iss sub actor now) s)"
  by (rule footprint_commit, erule (1) footprint_link, simp)
     (rule footprint_commit, erule footprint_unlink, simp)

text \<open>Every table but the logins may be written behind the routes.\<close>

lemma deed_footprint:
  assumes "may v rq who d" "accounts_ok s"
  shows "footprint (UNIV - {TLogins}) (iy_org who) s (perform v d s)"
proof -
  let ?F = "\<lambda>W. footprint W (iy_org who) s (perform v d s)"
  have "?F core_tables \<or> ?F plan_tables \<or> ?F {TIdentityLinks, TSessions, TEvents}"
    using assms(1) by cases (simp_all add: core_footprints plan_footprints account_footprints assms(2))
  then show ?thesis by (auto intro: footprint_mono simp: core_tables_def plan_tables_def)
qed

lemma performs_footprint:
  "performs v rq who s s' \<Longrightarrow> accounts_ok s \<Longrightarrow> footprint (UNIV - {TLogins}) (iy_org who) s s'"
  by (auto simp: performs_def deed_footprint)

section \<open>Isolation\<close>

text \<open>The tables without the rows of an organization; a login has none yet.\<close>

definition elsewhere :: "id \<Rightarrow> db \<Rightarrow> db" where
  "elsewhere org s =
     \<lparr>organizations = filter (\<lambda>r. og_id r \<noteq> org) (organizations s),
      principals = filter (\<lambda>r. pr_org r \<noteq> org) (principals s),
      projects = filter (\<lambda>r. pj_org r \<noteq> org) (projects s),
      tasks = filter (\<lambda>r. tk_org r \<noteq> org) (tasks s),
      task_deps = filter (\<lambda>r. td_org r \<noteq> org) (task_deps s),
      agents = filter (\<lambda>r. ag_org r \<noteq> org) (agents s),
      sim_records = filter (\<lambda>r. sr_org r \<noteq> org) (sim_records s),
      proposals = filter (\<lambda>r. pp_org r \<noteq> org) (proposals s),
      decisions = filter (\<lambda>r. dc_org r \<noteq> org) (decisions s),
      effects = filter (\<lambda>r. ef_org r \<noteq> org) (effects s),
      receipts = filter (\<lambda>r. rc_org r \<noteq> org) (receipts s),
      business_ops = filter (\<lambda>r. bo_org r \<noteq> org) (business_ops s),
      handoffs = filter (\<lambda>r. ho_org r \<noteq> org) (handoffs s),
      agent_runs = filter (\<lambda>r. ru_org r \<noteq> org) (agent_runs s),
      gates = filter (\<lambda>r. gt_org r \<noteq> org) (gates s),
      releases = filter (\<lambda>r. rr_org r \<noteq> org) (releases s),
      events = filter (\<lambda>r. ev_org r \<noteq> org) (events s),
      positions = filter (\<lambda>r. po_org r \<noteq> org) (positions s),
      relationships = filter (\<lambda>r. re_org r \<noteq> org) (relationships s),
      milestones = filter (\<lambda>r. mi_org r \<noteq> org) (milestones s),
      milestone_deps = filter (\<lambda>r. md_org r \<noteq> org) (milestone_deps s),
      templates = filter (\<lambda>r. at_org r \<noteq> org) (templates s),
      identity_links = filter (\<lambda>r. il_org r \<noteq> org) (identity_links s),
      sessions = filter (\<lambda>r. se_org r \<noteq> org) (sessions s), logins = logins s,
      proposal_jobs = filter (\<lambda>r. fst r \<noteq> org) (proposal_jobs s),
      run_jobs = filter (\<lambda>r. fst r \<noteq> org) (run_jobs s)\<rparr>"

lemma footprint_elsewhere:
  "footprint W org s s' \<Longrightarrow> TLogins \<notin> W \<Longrightarrow>
    filter (\<lambda>r. se_org r \<noteq> org) (sessions s') = filter (\<lambda>r. se_org r \<noteq> org) (sessions s) \<Longrightarrow>
    elsewhere org s' = elsewhere org s"
  unfolding footprint_def by (elim conjE, (drule keeps_others)+, simp add: elsewhere_def)

text \<open>
  A session is one of an account of its organization. Sessions are only opened for an account that was resolved, so
  this holds wherever the logins alone open them.
\<close>

definition sessions_linked :: "db \<Rightarrow> bool" where
  "sessions_linked s \<longleftrightarrow> (\<forall>x\<in>set (sessions s). \<exists>l\<in>set (identity_links s).
     link_key l = (se_issuer x, se_subject x) \<and> il_org l = se_org x)"

lemma session_org:
  assumes "accounts_ok s" "sessions_linked s" "l \<in> set (identity_links s)" "x \<in> set (sessions s)"
    "link_key l = (se_issuer x, se_subject x)"
  shows "se_org x = il_org l"
proof -
  obtain m where "m \<in> set (identity_links s)" "link_key m = (se_issuer x, se_subject x)" "il_org m = se_org x"
    using assms(2,4) by (auto simp: sessions_linked_def)
  then show ?thesis using unique_key_row[OF accounts_okD(2)[OF assms(1)] _ assms(3), of m] assms(5) by auto
qed

lemma unlink_sessions:
  assumes "unlink_identity_by_admin eid org iss sub actor now s = Inr (n, s')" "accounts_ok s" "sessions_linked s"
  shows "keeps True se_org org (sessions s) (sessions s')"
proof -
  obtain l E where l: "row (\<lambda>l. il_org l = org \<and> il_issuer l = iss \<and> il_subject l = sub \<and> il_active l) (identity_links s) = Some l"
    and s': "s' = s\<lparr>identity_links := update_where
             (\<lambda>l. il_org l = org \<and> il_issuer l = iss \<and> il_subject l = sub \<and> il_active l)
             (\<lambda>l. l\<lparr>il_active := False\<rparr>) (identity_links s),
           sessions := update_where (\<lambda>x. (se_issuer x = iss \<and> se_subject x = sub) \<and> se_revoked x = None)
             (\<lambda>x. x\<lparr>se_revoked := Some now\<rparr>) (sessions s), events := E\<rparr>"
    by (rule unlink_ok[OF assms(1)]) (rule that; assumption)
  have "se_org x = org" if "x \<in> set (sessions s)" "se_issuer x = iss" "se_subject x = sub" for x
    using session_org[OF assms(2,3) _ that(1), of l] row_SomeD[OF l] that(2,3) by simp
  then show ?thesis unfolding s' by (auto intro!: keeps_update_in)
qed

lemma footprint_sessions: "footprint W org s s' \<Longrightarrow> TSessions \<notin> W \<Longrightarrow> sessions s' = sessions s"
  by (simp add: footprint_def)

lemma deed_sessions:
  assumes "may v rq who d" "accounts_ok s" "sessions_linked s"
  shows "keeps True se_org (iy_org who) (sessions s) (sessions (perform v d s))"
  using assms(1)
proof cases
  case (may_link iss sub p)
  have "sessions (perform v d s) = sessions s" unfolding may_link(1) perform.simps account_step.simps
    by (rule commit_induct) (simp, rule footprint_sessions[OF footprint_link[OF _ assms(2)]], simp_all)
  then show ?thesis by simp
next
  case (may_unlink iss sub)
  show ?thesis unfolding may_unlink(1) perform.simps account_step.simps
    by (rule commit_induct) (simp, rule unlink_sessions[OF _ assms(2,3)])
qed (simp_all add: footprint_sessions[OF core_footprints(1)] core_footprints[THEN footprint_sessions]
      plan_footprints[THEN footprint_sessions] core_tables_def plan_tables_def)

lemma authorize_db:
  obtains S where "snd (authorize v rq s) = s\<lparr>sessions := update_where S (\<lambda>x. x\<lparr>se_seen := hq_now rq\<rparr>) (sessions s)\<rparr>"
proof (cases rule: authorize_cases[of v rq s])
  case (browser who x)
  then show thesis using that by (auto simp: seen_def)
qed (use that[of "\<lambda>_. False"] in \<open>auto simp: update_where_unmatched\<close>)

lemma accounts_ok_seen:
  assumes "accounts_ok s"
  shows "accounts_ok (s\<lparr>sessions := update_where S (\<lambda>x. x\<lparr>se_seen := t\<rparr>) (sessions s)\<rparr>)"
proof -
  have "map se_hash (update_where S (\<lambda>x. x\<lparr>se_seen := t\<rparr>) (sessions s)) = map se_hash (sessions s)"
    by (rule map_key_update_where) simp
  then show ?thesis using assms by (simp add: accounts_ok_def) (auto simp: update_where_def)
qed

text \<open>The caller's own session is the only one a request touches before it is handled.\<close>

lemma authorize_sessions:
  assumes "accounts_ok s" "authorize v rq s = (Some (who, sess), s0)"
  shows "keeps True se_org (iy_org who) (sessions s) (sessions s0)"
proof (cases rule: authorize_cases[of v rq s])
  case (browser who' x)
  have w: "who' = who" "s0 = seen v rq s" using assms(2) browser(1) by simp_all
  obtain p where p: "who = ident_of p" "entitled v rq s p" using browser(5) w by blast
  obtain z where z: "z \<in> set (sessions s)" "se_hash z = token_hash v (hq_cookie rq)" "se_org z = pr_org p"
    using p(2) browser(2) by (auto simp: entitled_def Let_def)
  have "se_org y = iy_org who" if "y \<in> set (sessions s)" "se_hash y = token_hash v (hq_cookie rq)" for y
    using unique_key_row[OF accounts_okD(3)[OF assms(1)] that(1) z(1)] that(2) z(2,3) p(1) by (simp add: ident_of_def)
  then show ?thesis unfolding w(2) seen_def by (auto intro!: keeps_update_in)
qed (use assms(2) in auto)

section \<open>What a request changes\<close>

text \<open>
  Whatever an authenticated caller sends to the API, every row of every organization other than its own stays as it
  is, in every table; a login, which belongs to no organization yet, is not touched at all.
\<close>

lemma api_isolated:
  assumes "accounts_ok s" "sessions_linked s" "authorize v rq s = (Some (who, sess), s0)"
  shows "elsewhere (iy_org who) (snd (api v rq s)) = elsewhere (iy_org who) s"
proof -
  let ?t = "snd (api v rq s)" and ?org = "iy_org who"
  obtain S where s0: "s0 = s\<lparr>sessions := update_where S (\<lambda>x. x\<lparr>se_seen := hq_now rq\<rparr>) (sessions s)\<rparr>"
    using authorize_db[of v rq s] assms(3) by auto
  have ok: "accounts_ok s0" unfolding s0 using assms(1) by (rule accounts_ok_seen)
  have l: "sessions_linked s0" using assms(2) unfolding s0 sessions_linked_def by (auto simp: ball_update_where)
  have e: "performs v rq who s0 ?t" by (rule api_performs[OF assms(3)])
  have "keeps True se_org ?org (sessions s0) (sessions ?t)"
    using e deed_sessions[OF _ ok l] by (auto simp: performs_def)
  from footprint_elsewhere[OF performs_footprint[OF e ok] _ keeps_others[OF this]]
  have "elsewhere ?org ?t = elsewhere ?org s0" by simp
  also have "\<dots> = elsewhere ?org s"
    using keeps_others[OF authorize_sessions[OF assms(1,3)]] by (simp add: s0 elsewhere_def)
  finally show ?thesis .
qed

end
