(* ===== verification/Platform.thy ===== *)
theory Platform
  imports Tenancy
begin

text \<open>
  The whole program: requests of any kind at its HTTP interface, the workers and the environment of \<open>System\<close>, and
  the account commands of the command line, in any order. The invariants of the proposals, runs and registry, of the
  planning and of the accounts hold in all its states together, and the rows of every table move as in \<open>System\<close>.
  The locale \<open>visits\<close> reduces what a request does to its transactions.
\<close>

datatype happening =
    Request "http_request \<Rightarrow> reply" server http_request
  | Work action
  | Manage "string \<Rightarrow> string" account_action

fun happen :: "(json \<Rightarrow> string) \<Rightarrow> registry \<Rightarrow> happening \<Rightarrow> sys \<Rightarrow> sys" where
  "happen H reg (Request ui v rq) y = y\<lparr>store := snd (serve ui v rq (store y))\<rparr>"
| "happen H reg (Work a) y = step H reg a y"
| "happen H reg (Manage sha a) y = y\<lparr>store := account_step sha a (store y)\<rparr>"

fun possible :: "happening \<Rightarrow> bool" where
  "possible (Request ui v rq) = (hq_id rq \<noteq> [])"
| "possible (Work a) = legal a"
| "possible (Manage sha a) = (case a of IElse f \<Rightarrow> False | _ \<Rightarrow> True)"

abbreviation reachable_platform :: "(json \<Rightarrow> string) \<Rightarrow> registry \<Rightarrow> sys \<Rightarrow> bool" where
  "reachable_platform H reg \<equiv> reachable init_sys possible (happen H reg)"

section \<open>What a transaction leaves alone\<close>

text \<open>The tables of the planning and of the accounts, and the principals; or of these only that none goes.\<close>

definition aside :: "db \<Rightarrow> db \<Rightarrow> bool" where
  "aside s s' \<longleftrightarrow> relationships s' = relationships s \<and> milestones s' = milestones s \<and>
     milestone_deps s' = milestone_deps s \<and> identity_links s' = identity_links s \<and> sessions s' = sessions s \<and>
     logins s' = logins s \<and> principals s' = principals s"

definition nearby :: "db \<Rightarrow> db \<Rightarrow> bool" where
  "nearby s s' \<longleftrightarrow> relationships s' = relationships s \<and> milestones s' = milestones s \<and>
     milestone_deps s' = milestone_deps s \<and> identity_links s' = identity_links s \<and> sessions s' = sessions s \<and>
     logins s' = logins s \<and> principals_keep (principals s) (principals s')"

text \<open>The tables of \<open>System\<close> and of the planning.\<close>

definition beside :: "db \<Rightarrow> db \<Rightarrow> bool" where
  "beside s s' \<longleftrightarrow> seeds s s' \<and> relationships s' = relationships s \<and> milestones s' = milestones s \<and>
     milestone_deps s' = milestone_deps s"

lemma aside_refl [simp]: "aside s s"
  by (simp add: aside_def)

lemma principals_keep_trans: "principals_keep ps qs \<Longrightarrow> principals_keep qs rs \<Longrightarrow> principals_keep ps rs"
  by (simp add: principals_keep_def)

lemma aside_trans: "aside s t \<Longrightarrow> aside t u \<Longrightarrow> aside s u"
  by (simp add: aside_def)

lemma nearby_trans: "nearby s t \<Longrightarrow> nearby t u \<Longrightarrow> nearby s u"
  unfolding nearby_def using principals_keep_trans by metis

lemma aside_nearby: "aside s s' \<Longrightarrow> nearby s s'"
  by (simp add: aside_def nearby_def)

lemma nearby_plan: "nearby s s' \<Longrightarrow> plan_inv s \<Longrightarrow> plan_inv s'"
  using plan_same[of s s'] by (simp add: nearby_def plan_good_def)

lemma nearby_accounts: "nearby s s' \<Longrightarrow> accounts_ok s \<Longrightarrow> accounts_ok s'"
  by (rule accounts_step_ok[where C = "{}" and s = s]) (simp_all add: nearby_def accounts_step_def)

lemma aside_commit: "(\<And>x s'. f s = Inr (x, s') \<Longrightarrow> aside s s') \<Longrightarrow> aside s (commit f s)"
  by (rule commit_induct) simp_all

lemma footprint_aside: "footprint core_tables org s s' \<Longrightarrow> aside s s'"
  by (simp add: footprint_def core_tables_def keeps_def aside_def)

lemma beside_refl [simp]: "beside s s"
  by (simp add: beside_def seeds_def)

lemma beside_trans: "beside s t \<Longrightarrow> beside t u \<Longrightarrow> beside s u"
  using seeds_trans[of s t u] by (simp add: beside_def)

lemma beside_commit: "(\<And>x s'. f s = Inr (x, s') \<Longrightarrow> beside s s') \<Longrightarrow> beside s (commit f s)"
  by (rule commit_induct) simp_all

lemma beside_tables [simp]:
  "beside s (s\<lparr>organizations := A\<rparr>)" "beside s (s\<lparr>principals := B\<rparr>)" "beside s (s\<lparr>events := C\<rparr>)"
  "beside s (s\<lparr>identity_links := D\<rparr>)" "beside s (s\<lparr>sessions := E\<rparr>)" "beside s (s\<lparr>logins := F\<rparr>)"
  by (simp_all add: beside_def seeds_def same_rest_def)

lemma beside_plan: "beside s s' \<Longrightarrow> plan_inv s \<Longrightarrow> plan_inv s'"
  using plan_same[of s s'] by (simp add: beside_def plan_good_def)

lemma footprint_seeds: "footprint plan_tables org s s' \<Longrightarrow> seeds s s'"
  by (simp add: footprint_def plan_tables_def keeps_def seeds_def same_rest_def)

lemma footprint_accounts: "footprint plan_tables org s s' \<Longrightarrow> accounts_ok s \<Longrightarrow> accounts_ok s'"
  by (rule accounts_step_ok[where C = "{}" and s = s])
     (simp_all add: footprint_def plan_tables_def keeps_def accounts_step_def)

lemma advance_from: "seeds s s0 \<Longrightarrow> advance s0 s' \<Longrightarrow> advance s s'"
  by (simp add: seeds_def same_rest_def advance_def core_part_def runs_part_def registry_part_def
      template_part_def handoff_part_def)

section \<open>The workers leave planning and accounts alone\<close>

lemma principals_keep_update:
  assumes "\<And>p. P p \<Longrightarrow> pr_id (f p) = pr_id p \<and> pr_org (f p) = pr_org p"
  shows "principals_keep ps (update_where P f ps)"
proof -
  have "map pr_id (update_where P f ps) = map pr_id ps" "map pr_org (update_where P f ps) = map pr_org ps"
    using assms by (simp_all add: update_where_def)
  moreover have "has_principal (update_where P f ps) org i" if "has_principal ps org i" for org i
    using that assms unfolding has_principal_def exists_row_def bex_update_where by fastforce
  ultimately show ?thesis by (simp add: principals_keep_def)
qed

lemma principals_keep_append:
  "\<not> exists_row (\<lambda>p. pr_id p = pr_id x) ps \<Longrightarrow> principals_keep ps (ps @ [x])"
  by (auto simp: principals_keep_def has_principal_def exists_row_def)

lemma aside_seeds: "aside s (put_record z s)" "aside s (seed_org i n s)" "aside s (seed_record org i g d s)"
  by (simp_all add: aside_def put_record_def seed_org_def seed_record_def)

lemma nearby_seeds: "nearby s (put_principal x s)" "nearby s (seed_principal org i n r s)"
  by (simp_all add: nearby_def put_principal_def seed_principal_def principals_keep_append)
     (auto intro!: principals_keep_update)

lemmas nearby_rows = aside_seeds[THEN aside_nearby]

lemma nearby_seed: "nearby s (seed s)"
  unfolding seed_def seed_fixture_def
  by (rule nearby_trans[OF _ nearby_rows(2)] nearby_trans[OF _ nearby_seeds(2)] nearby_trans[OF _ nearby_rows(3)])+
     (rule aside_nearby[OF aside_refl])

lemma aside_apply:
  assumes "apply_proposal H reg fresh org pid s = Inr (u, s')"
  shows "aside s s'"
  using assms
proof (cases rule: apply_proposal_cases)
  case (applied p s1 s2)
  obtain recs effs rs where "s2 = s1\<lparr>sim_records := recs, effects := effs, receipts := receipts s1 @ rs\<rparr>"
    using apply_effects_ok[OF applied(5)] by blast
  then have "aside s s2" by (simp add: applied(4) aside_def)
  moreover have "aside s2 s'"
    by (simp add: applied(6) complete_proposal_def aside_def Let_def enqueue_eligible_children_def)
  ultimately show ?thesis by (rule aside_trans)
qed (simp_all add: aside_def)

lemma aside_attention:
  assumes "mark_attention org pid s = Inr (u, s')"
  shows "aside s s'"
  using assms by (cases rule: mark_attention_cases) (simp_all add: aside_def)

lemma aside_jobs [simp]: "aside s (end_job fin org pid s)" "aside s (take_job org i s)" "aside s (retry_job w s)"
  by (simp_all add: aside_def end_job_def take_job_def retry_job_def)

lemma aside_claim: "claim_run budget org i tok now s = Inr (r, s') \<Longrightarrow> aside s s'"
  by (erule claim_run_ok) (simp add: aside_def)

lemma aside_fail: "aside s (fail_run org i tok code now s)"
  by (simp add: fail_run_def update_failure_def aside_def)

lemma aside_park:
  "park_run gid org i tok task owner initiator q now s = Inr (u, s') \<Longrightarrow> aside s s'"
  by (erule park_run_cases) (simp_all add: aside_def)

lemma aside_publish:
  assumes "publish_run H fo fb pid org i tok task owner initiator release sm ops now s = Inr (u, s')"
  shows "aside s s'"
  using assms
proof (cases rule: publish_run_cases)
  case (published r p s1)
  show ?thesis unfolding published(4)
    by (subst create_proposal_tables(2)[OF published(3)]) (simp add: aside_def)
qed (simp_all add: aside_def update_failure_def)

lemma aside_with_org: "(\<And>x t. f s = Inr (x, t) \<Longrightarrow> aside s t) \<Longrightarrow> aside s (snd (with_org f s))"
  using aside_commit[of f s] by (simp add: commit_def)

lemma aside_finish: "aside s (snd (finish_run H fo fb pid gid org tok r owner result now s))"
proof (cases result)
  case (Inl e)
  then show ?thesis by (simp add: finish_run_def aside_fail)
next
  case (Inr res)
  have park: "aside s (snd (with_org (park_run gid org i tok task ow by' q now) s))" for i task ow by' q
    by (rule aside_with_org) (rule aside_park)
  have "aside s (snd (case x of (Inl (PublishError code), s') \<Rightarrow> (Inr (), fail_run org i tok code now s') | r' \<Rightarrow> r'))"
    if "aside s (snd x)" for x i
    using that aside_trans[OF that aside_fail] by (auto split: prod.split sum.split err.split)
  from this[OF aside_with_org[OF aside_publish]] show ?thesis
    by (simp add: Inr finish_run_def Let_def aside_fail park)
qed

lemma aside_reclaim: "reclaim_in_org fe org limit now s = Inr (n, s') \<Longrightarrow> aside s s'"
  by (erule reclaim_ok) (simp add: aside_def)

lemma aside_worker: "aside (store y) (f (store y)) \<Longrightarrow> aside (store y) (store (on_worker w f ws y))"
  by (simp add: on_worker_def)

lemma aside_steps:
  "aside (store y) (store (check_step w y))" "aside (store y) (store (gather_step w now y))"
  "aside (store y) (store (finish_step H fo fb pid gid w result now y))"
proof -
  show "aside (store y) (store (check_step w y))" "aside (store y) (store (gather_step w now y))"
    by (cases w; simp add: aside_worker aside_fail split: sum.split prod.split)+
  have "aside s (case x of (Inr _, s') \<Rightarrow> s' | (Inl _, s') \<Rightarrow> retry_job u s')" if "aside s (snd x)"
    for s u and x :: "(err + unit) \<times> db"
    using that aside_trans[OF that aside_jobs(3)] by (auto split: prod.split sum.split)
  note f = this[OF aside_finish]
  show "aside (store y) (store (finish_step H fo fb pid gid w result now y))"
    by (cases w) (simp_all add: aside_worker f)
qed

text \<open>Only the environment and \<^verbatim>\<open>Seed\<close> write principals.\<close>

fun edits_people :: "action \<Rightarrow> bool" where
  "edits_people ASeed = True"
| "edits_people (APrincipal x) = True"
| "edits_people a = False"

lemma step_aside:
  assumes "\<not> edits_people a"
  shows "aside (store y) (store (step H reg a y))"
proof (cases a)
  case (AApply fe org pid fin)
  then show ?thesis using aside_trans[OF aside_apply aside_jobs(1)] by (auto split: sum.split prod.split)
next
  case (AAttention org pid fin)
  then show ?thesis using aside_trans[OF aside_attention aside_jobs(1)] by (auto split: sum.split prod.split)
next
  case (AFetch budget org i tok now)
  then show ?thesis using aside_trans[OF aside_claim aside_jobs(2)] by (auto split: sum.split prod.split)
next
  case (AReclaim fe org limit now)
  then show ?thesis using aside_commit[OF aside_reclaim] by simp
next
  case (ACrash w)
  then show ?thesis by (auto intro: aside_worker)
qed (use assms in \<open>simp_all add: footprint_aside[OF core_footprints(1)] aside_seeds aside_steps core_footprints[THEN footprint_aside]\<close>)

lemma step_nearby: "nearby (store y) (store (step H reg a y))"
proof (cases "edits_people a")
  case True
  then show ?thesis by (cases a) (simp_all add: nearby_seed nearby_seeds)
next
  case False
  then show ?thesis by (rule aside_nearby[OF step_aside])
qed

section \<open>The accounts leave the rest alone\<close>

lemma beside_audit: "audit_tx eid org agg typ actor pl s = Inr (u, s') \<Longrightarrow> beside s s'"
  using audit_frame by fastforce

lemma beside_link: "link_identity_in_tx org iss sub who by now s = Inr (u, s') \<Longrightarrow> beside s s'"
  using link_in_tx by fastforce

lemma beside_link_by_admin:
  assumes "link_identity_by_admin eid org iss sub who actor now s = Inr (u, s')"
  shows "beside s s'"
proof -
  obtain v t pl where "link_identity_in_tx org iss sub who actor now s = Inr (v, t)"
    "audit_tx eid org who ''identity_link.created'' actor pl t = Inr (u, s')"
    using assms by (auto simp: link_identity_by_admin_def split: if_split_asm sum.splits)
  then show ?thesis using beside_trans[OF beside_link beside_audit] by blast
qed

lemma beside_unlink: "unlink_identity_by_admin eid org iss sub actor now s = Inr (n, s') \<Longrightarrow> beside s s'"
  by (erule unlink_ok) (simp add: beside_def seeds_def same_rest_def)

lemma beside_bootstrap: "bootstrap_identity eid q now s = Inr (res, s') \<Longrightarrow> beside s s'"
proof (erule bootstrap_ok)
  fix oc s1 r pc s2 s3 u v o1 n1 p1 n2 i1 a1 b1 pl t1
  assume b: "ensure_organization (trim_space (bq_org q))
       (if bq_org_name q = [] then trim_space (bq_org q) else bq_org_name q) s = (oc, s1)"
    "ensure_principal (trim_space (bq_org q)) (trim_space (bq_principal q))
       (if bq_name q = [] then trim_space (bq_principal q) else bq_name q) r s1 = Inr (pc, s2)"
    "link_identity_in_tx (trim_space (bq_org q)) (trim_space (bq_issuer q)) (trim_space (bq_subject q))
       (trim_space (bq_principal q)) (trim_space (bq_actor q)) now s2 = Inr (u, s3)"
    "audit_tx eid (trim_space (bq_org q)) (trim_space (bq_principal q)) ''identity.bootstrap''
       (trim_space (bq_actor q))
       [(''org_id'', JStr (trim_space (bq_org q))), (''principal_id'', JStr (trim_space (bq_principal q))),
        (''issuer'', JStr (trim_space (bq_issuer q))), (''subject'', JStr (trim_space (bq_subject q))),
        (''org_created'', JBool oc), (''principal_created'', JBool pc)] s3 = Inr (v, s')"
  have "beside s s1" using ensure_organization_frame b(1) by (metis beside_tables(1) snd_conv)
  moreover have "beside s1 s2" using ensure_principal_keep[OF b(2)] by auto
  ultimately show "beside s s'"
    using beside_trans[OF _ beside_trans[OF beside_link[OF b(3)] beside_audit[OF b(4)]]] beside_trans by blast
qed

lemma beside_revoke: "beside s (snd (revoke_where P now s))"
  by (simp add: revoke_where_def Let_def)

lemma beside_revoke': "revoke_where P now s = (n, s') \<Longrightarrow> beside s s'"
  using beside_revoke[of s P now] by simp

lemma beside_logins:
  "create_login h ve n r ttl now s = Inr (x1, s') \<Longrightarrow> beside s s'"
  "consume_login h now s = Inr (x2, s') \<Longrightarrow> beside s s'"
  "purge_logins now s = Inr (x3, s') \<Longrightarrow> beside s s'"
  "create_session sha tok org who iss sub csrf ttl now s = Inr (x4, s') \<Longrightarrow> beside s s'"
  "read_session sha tok now s = Inr (x5, s') \<Longrightarrow> beside s s'"
  "unlink_oidc_identity org iss sub s = Inr (x6, s') \<Longrightarrow> beside s s'"
  by (auto simp: create_login_def consume_login_def purge_logins_def create_session_def read_session_def
      unlink_oidc_identity_def Let_def split: if_split_asm option.splits sum.splits)

lemma beside_revokes:
  "revoke_session sha tok now s = Inr (x1, s') \<Longrightarrow> beside s s'"
  "revoke_sessions_for_identity iss sub now s = Inr (x2, s') \<Longrightarrow> beside s s'"
  "revoke_sessions_for_principal org who now s = Inr (x3, s') \<Longrightarrow> beside s s'"
  by (auto simp: revoke_session_def revoke_sessions_for_identity_def revoke_sessions_for_principal_def
      beside_revoke intro: beside_revoke' split: if_split_asm)

lemma beside_link_oidc: "link_oidc_identity org iss sub who by now s = Inr (u, s') \<Longrightarrow> beside s s'"
  using beside_link by (auto simp: link_oidc_identity_def split: if_split_asm)

lemmas beside_accounts = beside_link_by_admin beside_unlink beside_bootstrap beside_logins beside_revokes beside_link_oidc

lemma account_beside: "possible (Manage sha a) \<Longrightarrow> beside s (account_step sha a s)"
  by (cases a) (simp_all, (rule beside_commit, erule beside_accounts)+)

section \<open>Requests\<close>

text \<open>A transaction of the accounts.\<close>

definition signs :: "db \<Rightarrow> db \<Rightarrow> bool" where
  "signs s s' \<longleftrightarrow> beside s s' \<and> (accounts_ok s \<longrightarrow> accounts_ok s')"

lemma signs_refl [simp]: "signs s s"
  by (simp add: signs_def)

lemma signs_trans: "signs s t \<Longrightarrow> signs t u \<Longrightarrow> signs s u"
  unfolding signs_def using beside_trans by blast

lemma signs_account:
  assumes "possible (Manage sha a)"
  shows "signs s (account_step sha a s)"
proof -
  have "legal_account a" using assms by (cases a) simp_all
  then show ?thesis unfolding signs_def
    using account_beside[OF assms] accounts_step_ok[OF account_step_moves] by blast
qed

lemma with_org_snd: "with_org f s = (x, t) \<Longrightarrow> t = commit f s"
  by (simp add: commit_def)

text \<open>
  What the transactions of the browser login do to the database, whatever is asked of it: a session is opened only
  for an account that was resolved. The handlers do no more than these transactions, one after the other; a request
  to the API does at most one transaction of a route after the caller is known.
\<close>

locale visits =
  fixes R :: "db \<Rightarrow> db \<Rightarrow> bool"
  assumes stays: "R s s"
    and goes_on: "R s t \<Longrightarrow> R t u \<Longrightarrow> R s u"
    and on_login: "R s (commit (create_login h ve n r ttl now) s)"
    and on_consume: "R s (commit (consume_login h now) s)"
    and on_read: "R s (commit (read_session sha tok now) s)"
    and on_revoke: "R s (commit (revoke_session sha tok now) s)"
    and on_open: "resolve_oidc_identity iss sub s = Inr p \<Longrightarrow>
      R s (commit (create_session sha tok (iy_org p) (iy_id p) iss sub csrf ttl now) s)"
begin

lemmas on_all = stays on_login on_consume on_read on_revoke on_open

lemma of_identity: "R s (snd (session_identity v rq s))"
  by (auto simp: session_identity_def on_all dest!: with_org_snd split: sum.split prod.split)

lemma of_authorize: "R s (snd (authorize v rq s))"
  using of_identity[of s v rq] by (auto simp: authorize_def stays split: option.split prod.split)

lemma of_open: "R s (snd (open_session v b rq code lt s))"
  by (auto simp: open_session_def Let_def on_all dest!: with_org_snd split: option.split sum.split prod.split)

lemma of_login: "R s (snd (handle_login v rq s))"
  by (auto simp: handle_login_def Let_def on_all dest!: with_org_snd split: option.split sum.split prod.split)

lemma of_callback: "R s (snd (handle_callback v rq s))"
  by (auto simp: handle_callback_def on_all goes_on[OF on_consume of_open] dest!: with_org_snd
      split: option.split sum.split prod.split)

lemma of_logout: "R s (snd (handle_logout v rq s))"
  by (auto simp: handle_logout_def Let_def on_all goes_on[OF on_read on_revoke]
      dest!: with_org_snd split: option.split sum.split prod.split)

lemma of_session: "R s (snd (handle_session v rq s))"
  using of_identity[of s v rq] by (auto simp: handle_session_def stays split: option.split prod.split)

lemma of_api:
  assumes "\<And>who d t. may v rq who d \<Longrightarrow> R t (perform v d t)"
  shows "R s (snd (api v rq s))"
proof (cases "fst (authorize v rq s)")
  case None
  then have "snd (api v rq s) = snd (authorize v rq s)" by (auto simp: api_def split: option.split prod.split)
  then show ?thesis by (simp add: of_authorize)
next
  case (Some x)
  obtain who sess s0 where a: "authorize v rq s = (Some (who, sess), s0)" using Some by (metis prod.collapse)
  have "R s0 (snd (api v rq s))" using api_performs[OF a] assms by (auto simp: performs_def stays)
  then show ?thesis using goes_on[OF of_authorize[of s v rq]] a by simp
qed

lemma of_serve: "R s (snd (api v rq s)) \<Longrightarrow> R s (snd (serve ui v rq s))"
  by (auto simp: serve_def Let_def stays of_login of_callback of_logout of_session)

end

interpretation signing: visits signs
proof
  show "signs s u" if "signs s t" "signs t u" for s t u using that by (rule signs_trans)
  show "signs s (commit (create_login h ve n r ttl now) s)" for s h ve n r ttl now
    using signs_account[of "\<lambda>_. []" "ICreateLogin h ve n r ttl now"] by simp
  show "signs s (commit (consume_login h now) s)" for s h now
    using signs_account[of "\<lambda>_. []" "IConsume h now"] by simp
  show "signs s (commit (read_session sha tok now) s)" for s sha tok now
    using signs_account[of sha "IRead tok now"] by simp
  show "signs s (commit (revoke_session sha tok now) s)" for s sha tok now
    using signs_account[of sha "IRevoke tok now"] by simp
  show "signs s (commit (create_session sha tok (iy_org p) (iy_id p) iss sub csrf ttl now) s)"
    for s sha tok p iss sub csrf ttl now
    using signs_account[of sha "ICreateSession tok (iy_org p) (iy_id p) iss sub csrf ttl now"] by simp
qed simp

section \<open>The invariant of the whole database\<close>

definition whole :: "db \<Rightarrow> bool" where
  "whole s \<longleftrightarrow> db_inv s \<and> plan_inv s \<and> accounts_ok s"

definition onward :: "db \<Rightarrow> db \<Rightarrow> bool" where
  "onward s s' \<longleftrightarrow> advance s s' \<and> plan_inv s' \<and> accounts_ok s'"

lemma wholeD:
  assumes "whole s"
  shows "db_inv s" "plan_inv s" "accounts_ok s"
  using assms by (simp_all add: whole_def)

lemma onward_refl: "whole s \<Longrightarrow> onward s s"
  by (simp add: whole_def onward_def advance_refl)

lemma onward_whole: "onward s s' \<Longrightarrow> whole s'"
  unfolding whole_def onward_def using advanceD(1) by blast

lemma onward_signs: "whole s \<Longrightarrow> signs s s' \<Longrightarrow> onward s s'"
  using beside_plan[of s s'] advance_seeds[of s s'] by (simp add: whole_def onward_def signs_def beside_def)

lemma onward_from: "signs s t \<Longrightarrow> onward t u \<Longrightarrow> onward s u"
  using advance_from[of s t u] by (simp add: onward_def signs_def beside_def)

lemma onward_core:
  assumes "whole s" "legal a"
  shows "onward s (perform v (Core a) s)"
proof -
  let ?y = "\<lparr>store = s, refused_jobs = [], workers = []\<rparr>"
  have "sys_inv ?y" using wholeD(1)[OF assms(1)] by (simp add: sys_inv_def)
  then show ?thesis
    using step_advance[of ?y a "sv_digest v" new_registry] step_nearby[of ?y "sv_digest v" new_registry a] assms
      nearby_plan nearby_accounts by (fastforce simp: onward_def dest: wholeD)
qed

lemma onward_plan:
  assumes "whole s" "footprint plan_tables org s (perform v (Plan a) s)"
  shows "onward s (perform v (Plan a) s)"
  using plan_good_step[OF wholeD(2)[OF assms(1)], of a] advance_seeds[OF footprint_seeds[OF assms(2)] wholeD(1)[OF assms(1)]]
    footprint_accounts[OF assms(2) wholeD(3)[OF assms(1)]] by (simp add: onward_def plan_good_def)

lemma onward_deed:
  assumes "may v rq who d" "whole s" "hq_id rq \<noteq> []"
  shows "onward s (perform v d s)"
proof (cases d)
  case (Core a)
  have "legal a" using assms(1) unfolding Core by cases (simp_all add: assms(3))
  then show ?thesis unfolding Core by (rule onward_core[OF assms(2)])
next
  case (Plan a)
  have "footprint plan_tables (iy_org who) s (perform v (Plan a) s)"
    using assms(1) unfolding Plan by cases (simp_all add: plan_footprints)
  then show ?thesis unfolding Plan by (rule onward_plan[OF assms(2)])
next
  case (Account a)
  have "possible (Manage (token_hash v) a)" using assms(1) unfolding Account by cases simp_all
  from onward_signs[OF assms(2) signs_account[OF this]] show ?thesis by (simp add: Account)
qed

lemma onward_api:
  assumes "whole s" "hq_id rq \<noteq> []"
  shows "onward s (snd (api v rq s))"
proof (cases "fst (authorize v rq s)")
  case None
  then have "snd (api v rq s) = snd (authorize v rq s)" by (auto simp: api_def split: option.split prod.split)
  then show ?thesis using onward_signs[OF assms(1) signing.of_authorize] by simp
next
  case (Some x)
  obtain who sess s0 where a: "authorize v rq s = (Some (who, sess), s0)" using Some by (metis prod.collapse)
  then have i: "signs s s0" using signing.of_authorize[of s v rq] by simp
  then have w: "whole s0" by (rule onward_whole[OF onward_signs[OF assms(1)]])
  have "onward s0 (snd (api v rq s))"
    using api_performs[OF a] onward_deed[OF _ w assms(2)] onward_refl[OF w] by (auto simp: performs_def)
  then show ?thesis by (rule onward_from[OF i])
qed

lemma onward_serve:
  assumes "whole s" "hq_id rq \<noteq> []"
  shows "onward s (snd (serve ui v rq s))"
  using onward_api[OF assms] onward_refl[OF assms(1)] signing.of_login signing.of_callback signing.of_logout signing.of_session
  by (auto simp: serve_def Let_def intro: onward_signs[OF assms(1)])

section \<open>Every happening keeps the invariant\<close>

definition platform_inv :: "sys \<Rightarrow> bool" where
  "platform_inv y \<longleftrightarrow> sys_inv y \<and> whole (store y)"

lemma platform_invD:
  assumes "platform_inv y"
  shows "sys_inv y" "whole (store y)"
  using assms by (simp_all add: platform_inv_def)

lemma work_onward:
  assumes "platform_inv y" "legal a"
  shows "onward (store y) (store (step H reg a y))"
  unfolding onward_def using platform_invD[OF assms(1)] step_advance[OF _ assms(2)]
    nearby_plan[OF step_nearby] nearby_accounts[OF step_nearby] by (blast dest: wholeD)

lemma happen_onward:
  assumes "platform_inv y" "possible e"
  shows "onward (store y) (store (happen H reg e y))"
proof (cases e)
  case (Request ui v rq)
  then show ?thesis using onward_serve[OF platform_invD(2)[OF assms(1)]] assms(2) by simp
next
  case (Work a)
  then show ?thesis using work_onward[OF assms(1)] assms(2) by simp
next
  case (Manage sha a)
  then show ?thesis using onward_signs[OF platform_invD(2)[OF assms(1)] signs_account] assms(2) by simp
qed

lemma happen_advance:
  "platform_inv y \<Longrightarrow> possible e \<Longrightarrow> advance (store y) (store (happen H reg e y))"
  using happen_onward by (simp add: onward_def)

lemma happen_inv:
  assumes "platform_inv y" "possible e"
  shows "platform_inv (happen H reg e y)"
proof -
  note o = happen_onward[OF assms, of H reg]
  have "good_step y (happen H reg e y)"
  proof (cases e)
    case (Work a)
    then show ?thesis using good_any_step[OF platform_invD(1)[OF assms(1)]] assms(2) by simp
  qed (use o in \<open>simp_all add: good_step_def onward_def\<close>)
  then show ?thesis using good_inv[OF platform_invD(1)[OF assms(1)]] onward_whole[OF o]
    by (simp add: platform_inv_def)
qed

lemma platform_init: "platform_inv init_sys"
proof -
  have "accounts_ok empty_db" by (simp add: accounts_ok_def empty_db_def)
  then show ?thesis
    using sys_init plan_init sys_invD(1)[OF sys_init] by (simp add: platform_inv_def whole_def init_sys_def)
qed

interpretation platform: invariant_system init_sys possible "happen H reg" platform_inv for H reg
  by unfold_locales (rule platform_init, rule happen_inv)

lemma platform_db: "reachable_platform H reg y \<Longrightarrow> db_inv (store y)"
  using platform.reachable_inv platform_invD(2) wholeD(1) by blast

text \<open>The system without requests is a part of the platform.\<close>

lemma reachable_work: "reachable_sys H reg y \<Longrightarrow> reachable_platform H reg y"
proof (induction rule: reachable.induct)
  case (reach_step y a)
  then have "reachable_platform H reg (happen H reg (Work a) y)" by (intro reachable.reach_step) simp_all
  then show ?case by simp
qed (rule reachable.reach_init)

lemma steps_work: "steps (happen H reg) (map Work as) y = steps (step H reg) as y"
  by (induction as arbitrary: y) simp_all

section \<open>The lives of the rows\<close>

interpretation proposal_life: lifecycle init_sys possible "happen H reg" platform_inv
    "\<lambda>y. proposals (store y)" proposal_move proposal_born proposal_final for H reg
  by unfold_locales
     ((rule advanceD[OF happen_advance], assumption, assumption) | simp add: proposal_move_def init_sys_def empty_db_def)+

interpretation run_life: lifecycle init_sys possible "happen H reg" platform_inv
    "\<lambda>y. agent_runs (store y)" run_move run_born run_final for H reg
  by unfold_locales
     ((rule advanceD[OF happen_advance], assumption, assumption) | simp add: run_move_def init_sys_def empty_db_def)+

interpretation gate_life: lifecycle init_sys possible "happen H reg" platform_inv
    "\<lambda>y. gates (store y)" gate_move gate_born gate_final for H reg
  by unfold_locales
     ((rule advanceD[OF happen_advance], assumption, assumption) | simp add: gate_move_def init_sys_def empty_db_def)+

interpretation handoff_life: lifecycle init_sys possible "happen H reg" platform_inv
    "\<lambda>y. handoffs (store y)" handoff_move handoff_born handoff_final for H reg
  by unfold_locales
     ((rule advanceD[OF happen_advance], assumption, assumption) | simp add: handoff_move_def init_sys_def empty_db_def)+

definition template_final :: "agent_template \<Rightarrow> bool" where
  "template_final t \<longleftrightarrow> at_status t = ''published''"

interpretation release_life: lifecycle init_sys possible "happen H reg" platform_inv
    "\<lambda>y. releases (store y)" release_move release_born "\<lambda>_. False" for H reg
  by unfold_locales
     ((rule advanceD[OF happen_advance], assumption, assumption) | simp add: init_sys_def empty_db_def)+

interpretation template_life: lifecycle init_sys possible "happen H reg" platform_inv
    "\<lambda>y. templates (store y)" template_move "\<lambda>t. at_status t = ''draft''" template_final for H reg
  by unfold_locales
     ((rule advanceD[OF happen_advance], assumption, assumption) |
       simp add: template_move_def template_final_def init_sys_def empty_db_def)+

section \<open>Properties\<close>

text \<open>
  C18. The parts hold together: whatever requests, workers and commands did and in whatever order, at the same time
  no task and no milestone waits for itself, everybody has at most one manager at any instant, an external account
  has one link, and a link or a session belongs to a principal of its organization.
\<close>

theorem parts_hold_together:
  assumes "reachable_platform H reg y"
  shows "acyclic (set (dep_edges org (store y))) \<and> acyclic (set (md_edges org (store y))) \<and>
    single_valued (reports_at org t (store y)) \<and> distinct (map link_key (identity_links (store y))) \<and>
    (\<forall>l\<in>set (identity_links (store y)). has_principal (principals (store y)) (il_org l) (il_principal l)) \<and>
    (\<forall>x\<in>set (sessions (store y)). has_principal (principals (store y)) (se_org x) (se_principal x))"
proof -
  note w = wholeD[OF platform_invD(2)[OF platform.reachable_inv[OF assms]]]
  note p = plan_invD[OF w(2)]
  have "acyclic (set (dep_edges org (store y)))" "acyclic (set (md_edges org (store y)))"
    using core_invD(7)[OF db_invD(1)[OF w(1)]] p(3) by (simp_all add: graph_ok_def milestones_ok_def)
  moreover have "single_valued (reports_at org t (store y))"
    unfolding single_valued_def using reports_single[OF p(1)] by blast
  ultimately show ?thesis using w(3) unfolding accounts_ok_def by blast
qed

text \<open>A bootstrapped organization whose administrator adds a project over HTTP and signs out.\<close>

definition demo_served :: sys where
  "demo_served = steps (happen (sv_digest edge_server) new_registry)
     [Manage (token_hash edge_server) (IBootstrap ''e1'' demo_bootstrap 1),
      Manage (token_hash edge_server) (ICreateSession ''tok'' ''o'' ''a'' ''i'' ''s1'' ''csrf'' 100 4),
      Request (\<lambda>_. not_found) edge_server (edge_request ''POST'' ''/api/v1/projects'' ''Bearer key''),
      Request (\<lambda>_. not_found) edge_server (edge_request ''POST'' ''/auth/logout'' [] \<lparr>hq_csrf := ''csrf''\<rparr>)] init_sys"

lemma reachable_served: "reachable_platform (sv_digest edge_server) new_registry demo_served"
  unfolding demo_served_def by (rule reachable_run[OF reachable.reach_init]) (simp add: edge_request_def)

theorem parts_hold_together_witness:
  "let s = store demo_served; x = hd (sessions s) in
     map pj_name (projects s) = [''P''] \<and> sessions s = [x] \<and> se_revoked x = Some 5 \<and>
     has_principal (principals s) (se_org x) (se_principal x) \<and> distinct (map link_key (identity_links s))"
proof -
  let ?x = "hd (sessions (store demo_served))"
  have "map pj_name (projects (store demo_served)) = [''P'']" "sessions (store demo_served) = [?x]"
    "se_revoked ?x = Some 5" by code_simp+
  then show ?thesis using parts_hold_together[OF reachable_served] unfolding Let_def by (metis list.set_intros(1))
qed

end
