(* ===== verification/Access.thy ===== *)
theory Access
  imports Platform
begin

text \<open>
  Two promises of the access rules, over the histories of the whole program: a caller reaches no row of another
  organization, and an administrator who can sign in is not locked out.
\<close>

section \<open>Sessions are of linked accounts\<close>

text \<open>
  What is served: \<^verbatim>\<open>CreateSession\<close> is called by the callback alone (\<^verbatim>\<open>BFF.handleCallback\<close>), as part of a request, after
  it resolved the account.
\<close>

fun served :: "happening \<Rightarrow> bool" where
  "served (Manage sha (ICreateSession tok org who iss sub csrf ttl now)) = False"
| "served e = possible e"

abbreviation reachable_served :: "(json \<Rightarrow> string) \<Rightarrow> registry \<Rightarrow> sys \<Rightarrow> bool" where
  "reachable_served H reg \<equiv> reachable init_sys served (happen H reg)"

lemma served_possible: "served e \<Longrightarrow> possible e"
  by (cases e rule: served.cases) simp_all

definition session_key :: "session \<Rightarrow> string \<times> string \<times> id" where
  "session_key x = (se_issuer x, se_subject x, se_org x)"

text \<open>No session is opened, and a link stays with its organization.\<close>

definition binds :: "db \<Rightarrow> db \<Rightarrow> bool" where
  "binds s s' \<longleftrightarrow> (sessions_linked s \<longrightarrow> sessions_linked s')"

lemma binds_refl [simp]: "binds s s"
  by (simp add: binds_def)

lemma binds_trans: "binds s t \<Longrightarrow> binds t u \<Longrightarrow> binds s u"
  by (simp add: binds_def)

definition link_place :: "identity_link \<Rightarrow> string \<times> string \<times> id" where
  "link_place l = (il_issuer l, il_subject l, il_org l)"

lemma sessions_linked_keys:
  "sessions_linked s \<longleftrightarrow> set (map session_key (sessions s)) \<subseteq> set (map link_place (identity_links s))"
proof -
  have "(link_key l = (se_issuer x, se_subject x) \<and> il_org l = se_org x) \<longleftrightarrow> session_key x = link_place l" for l x
    by (auto simp: session_key_def link_place_def)
  then show ?thesis by (simp add: sessions_linked_def image_subset_iff image_iff)
qed

lemma link_move_place: "link_move l m \<Longrightarrow> link_place m = link_place l"
  unfolding link_move_def link_place_def by (erule ssubst) simp

lemma link_moves_place: "list_all2 link_move L u \<Longrightarrow> map link_place u = map link_place L"
  by (induction rule: list_all2_induct) (simp_all add: link_move_place)

lemma binds_keep:
  assumes "map session_key (sessions s') = map session_key (sessions s)"
    "grows link_move B (identity_links s) (identity_links s')"
  shows "binds s s'"
proof -
  obtain u v where "identity_links s' = u @ v" "list_all2 link_move (identity_links s) u"
    using assms(2) by (auto simp: grows_def)
  then have "set (map link_place (identity_links s)) \<subseteq> set (map link_place (identity_links s'))"
    using link_moves_place by (metis map_append set_append sup_ge1)
  then show ?thesis unfolding binds_def sessions_linked_keys assms(1) by blast
qed

lemma binds_same: "sessions s' = sessions s \<Longrightarrow> identity_links s' = identity_links s \<Longrightarrow> binds s s'"
  by (simp add: binds_def sessions_linked_def)

lemma session_keys_update [simp]:
  "map session_key (update_where P (\<lambda>x. x\<lparr>se_seen := t\<rparr>) X) = map session_key X"
  "map session_key (update_where P (\<lambda>x. x\<lparr>se_revoked := r\<rparr>) X) = map session_key X"
  by (rule map_key_update_where; simp add: session_key_def)+

lemma revoke_keys: "map session_key (sessions (snd (revoke_where P now s))) = map session_key (sessions s)"
  by (simp add: revoke_where_def Let_def)

lemma revoke_keys': "revoke_where P now s = (n, s') \<Longrightarrow> map session_key (sessions s') = map session_key (sessions s)"
  using revoke_keys[of P now s] by simp

lemma keys_commit:
  "(\<And>x s'. f s = Inr (x, s') \<Longrightarrow> map session_key (sessions s') = map session_key (sessions s)) \<Longrightarrow>
   map session_key (sessions (commit f s)) = map session_key (sessions s)"
  by (rule commit_induct) simp_all

lemma link_session_keys:
  "link_identity_in_tx org iss sub who by now s = Inr (u, s') \<Longrightarrow> sessions s' = sessions s"
  "audit_tx eid org agg typ actor pl s = Inr (v, s') \<Longrightarrow> sessions s' = sessions s"
  "ensure_principal org i nm r s = Inr (b, s') \<Longrightarrow> sessions s' = sessions s"
  "ensure_organization org nm s = (c, s') \<Longrightarrow> sessions s' = sessions s"
  by (auto dest!: link_in_tx audit_frame ensure_principal_keep simp: ensure_organization_def split: if_split_asm)

lemma bootstrap_session_keys: "bootstrap_identity eid q now s = Inr (x, s') \<Longrightarrow> sessions s' = sessions s"
  by (erule bootstrap_ok) (auto dest!: link_session_keys)

lemma link_by_admin_session_keys:
  "link_identity_by_admin eid org iss sub who actor now s = Inr (x, s') \<Longrightarrow> sessions s' = sessions s"
  by (auto simp: link_identity_by_admin_def dest!: link_session_keys(1,2) split: if_split_asm sum.splits)

lemma unlink_session_keys:
  "unlink_identity_by_admin eid org iss sub actor now s = Inr (n, s') \<Longrightarrow>
   map session_key (sessions s') = map session_key (sessions s)"
  by (erule unlink_ok) simp

lemma account_session_keys:
  assumes "served (Manage sha a)"
  shows "map session_key (sessions (account_step sha a s)) = map session_key (sessions s)"
  using assms
  by (cases a)
     (auto intro!: keys_commit intro: unlink_session_keys arg_cong[OF bootstrap_session_keys] arg_cong[OF link_by_admin_session_keys]
       revoke_keys revoke_keys' arg_cong[OF link_session_keys(1)]
       simp: revoke_session_def revoke_sessions_for_identity_def revoke_sessions_for_principal_def create_login_def
         consume_login_def purge_logins_def read_session_def link_oidc_identity_def unlink_oidc_identity_def Let_def
       split: if_split_asm option.splits sum.splits)

lemma account_binds:
  assumes "served (Manage sha a)"
  shows "binds s (account_step sha a s)"
proof -
  have "legal_account a" using assms by (cases a) simp_all
  from account_step_moves[OF this]
  have "grows link_move (\<lambda>l. il_active l \<and> has_principal (principals (account_step sha a s)) (il_org l) (il_principal l))
      (identity_links s) (identity_links (account_step sha a s))"
    by (simp add: accounts_step_def links_step_def)
  then show ?thesis by (rule binds_keep[OF account_session_keys[OF assms]])
qed

lemma open_binds:
  assumes "resolve_oidc_identity iss sub s = Inr p"
  shows "binds s (commit (create_session sha tok (iy_org p) (iy_id p) iss sub csrf ttl now) s)"
proof (rule commit_induct)
  fix x s' assume c: "create_session sha tok (iy_org p) (iy_id p) iss sub csrf ttl now s = Inr (x, s')"
  obtain l where "l \<in> set (identity_links s)" "link_key l = (iss, sub)" "il_org l = iy_org p"
    using assms resolve_identity_key
    by (fastforce simp: resolve_oidc_identity_def Let_def dest: row_SomeD split: if_split_asm option.splits sum.splits)
  moreover obtain X where "s' = s\<lparr>sessions := sessions s @ [X]\<rparr>" "session_key X = (iss, sub, iy_org p)"
    using c by (auto simp: create_session_def session_key_def split: if_split_asm)
  ultimately show "binds s s'"
    by (auto simp: binds_def sessions_linked_keys link_place_def image_iff)
qed simp

interpretation binding: visits binds
proof
  show "binds s u" if "binds s t" "binds t u" for s t u using that by (rule binds_trans)
  show "binds s (commit (create_login h ve n r ttl now) s)" for s h ve n r ttl now
    using account_binds[of "\<lambda>_. []" "ICreateLogin h ve n r ttl now"] by simp
  show "binds s (commit (consume_login h now) s)" for s h now
    using account_binds[of "\<lambda>_. []" "IConsume h now"] by simp
  show "binds s (commit (read_session sha tok now) s)" for s sha tok now
    using account_binds[of sha "IRead tok now"] by simp
  show "binds s (commit (revoke_session sha tok now) s)" for s sha tok now
    using account_binds[of sha "IRevoke tok now"] by simp
qed (simp_all add: open_binds)

text \<open>Behind the routes only the two account operations of an administrator touch principals, links or sessions.\<close>

definition same_people :: "db \<Rightarrow> db \<Rightarrow> bool" where
  "same_people s s' \<longleftrightarrow> principals s' = principals s \<and> identity_links s' = identity_links s \<and>
     sessions s' = sessions s \<and> logins s' = logins s"

lemma footprint_people:
  "footprint core_tables org s s' \<Longrightarrow> same_people s s'" "footprint plan_tables org s s' \<Longrightarrow> same_people s s'"
  by (simp_all add: footprint_def core_tables_def plan_tables_def keeps_def same_people_def)

lemma deed_people:
  assumes "may v rq who d"
  shows "(\<exists>a. d = Account a \<and> served (Manage (token_hash v) a) \<and> administered a) \<or> same_people s (perform v d s)"
  using assms
  by cases (simp_all add: footprint_people(1)[OF core_footprints(1)] core_footprints[THEN footprint_people(1)]
      plan_footprints[THEN footprint_people(2)])

lemma deed_binds:
  assumes "may v rq who d"
  shows "binds s (perform v d s)"
  using deed_people[OF assms, of s] account_binds[of "token_hash v" _ s] by (auto simp: same_people_def intro: binds_same)

section \<open>Isolation\<close>

definition served_inv :: "sys \<Rightarrow> bool" where
  "served_inv y \<longleftrightarrow> platform_inv y \<and> sessions_linked (store y)"

lemma happen_binds:
  assumes "served e"
  shows "binds (store y) (store (happen H reg e y))"
proof (cases e)
  case (Request ui v rq)
  then show ?thesis using binding.of_serve[OF binding.of_api[OF deed_binds]] by simp
next
  case (Work a)
  then show ?thesis using step_nearby[of y H reg a] by (simp add: nearby_def binds_same)
next
  case (Manage sha a)
  then show ?thesis using account_binds assms by simp
qed

interpretation serving: invariant_system init_sys served "happen H reg" served_inv for H reg
proof
  show "served_inv init_sys"
    using platform_init by (simp add: served_inv_def sessions_linked_def init_sys_def empty_db_def)
  show "served_inv (happen H reg e y)" if "served_inv y" "served e" for e y
    using that happen_inv[OF _ served_possible] happen_binds[of e y H reg] by (simp add: served_inv_def binds_def)
qed

text \<open>
  C19. Isolation: whatever an authenticated caller sends to the API, in any state the program reaches when it is
  served (sessions are opened by the callback), every row of every other organization stays as it is, in every
  table - sessions, accounts, jobs and events included - and so does every login transaction, which belongs to no
  organization yet.
\<close>

theorem tenant_isolation:
  assumes "reachable_served H reg y" "authorize v rq (store y) = (Some (who, sess), s0)"
  shows "elsewhere (iy_org who) (snd (api v rq (store y))) = elsewhere (iy_org who) (store y)"
proof -
  have "served_inv y" by (rule serving.reachable_inv[OF assms(1)])
  then show ?thesis
    using wholeD(3)[OF platform_invD(2)] api_isolated[OF _ _ assms(2)] by (simp add: served_inv_def)
qed

text \<open>Two bootstrapped organizations; the administrator of the second one signs in with a browser.\<close>

definition shared_server :: server where
  "shared_server = edge_server\<lparr>sv_bff := Some (edge_bff\<lparr>bf_exchange := (\<lambda>_ _ _. Some (''i'', ''s9''))\<rparr>)\<rparr>"

definition shared_sys :: sys where
  "shared_sys = steps (happen (sv_digest shared_server) new_registry)
     [Manage (token_hash shared_server) (IBootstrap ''e1'' demo_bootstrap 1),
      Manage (token_hash shared_server)
        (IBootstrap ''e2'' (demo_bootstrap\<lparr>bq_org := ''p'', bq_principal := ''b'', bq_subject := ''s9''\<rparr>) 2),
      Request (\<lambda>_. not_found) shared_server (edge_request ''GET'' ''/auth/login'' []
        \<lparr>hq_random := (\<lambda>_. [0])\<rparr>),
      Request (\<lambda>_. not_found) shared_server (edge_request ''GET'' ''/auth/callback'' []
        \<lparr>hq_query := (\<lambda>k. if k = ''error'' then [] else ''x''), hq_random := (\<lambda>_. [0])\<rparr>)] init_sys"

lemma reachable_shared: "reachable_served (sv_digest shared_server) new_registry shared_sys"
  unfolding shared_sys_def by (rule reachable_run[OF reachable.reach_init]) (simp add: edge_request_def)

theorem tenant_isolation_witness:
  "let s = store shared_sys; t = snd (api shared_server (edge_request ''POST'' ''/api/v1/projects'' ''Bearer key'') s)
   in map pj_org (projects t) = [''o''] \<and> map se_org (sessions (elsewhere ''o'' s)) = [''p''] \<and>
      elsewhere ''o'' t = elsewhere ''o'' s"
proof -
  let ?rq = "edge_request ''POST'' ''/api/v1/projects'' ''Bearer key''" and ?s = "store shared_sys"
  let ?who = "\<lparr>iy_id = ''a'', iy_org = ''o'', iy_role = Admin, iy_name = ''a''\<rparr>"
  have "map pj_org (projects (snd (api shared_server ?rq ?s))) = [''o'']"
    "map se_org (sessions (elsewhere ''o'' ?s)) = [''p'']" by code_simp+
  moreover have a: "authorize shared_server ?rq ?s = (Some (?who, None), ?s)" by code_simp
  have "elsewhere ''o'' (snd (api shared_server ?rq ?s)) = elsewhere ''o'' ?s"
    using tenant_isolation[OF reachable_shared a] by simp
  ultimately show ?thesis by (simp add: Let_def)
qed

section \<open>Administrators keep access\<close>

definition keeps_access :: "db \<Rightarrow> db \<Rightarrow> bool" where
  "keeps_access s s' \<longleftrightarrow> (accounts_ok s \<longrightarrow> accounts_ok s' \<and> access_kept s s')"

lemma account_keeps_access:
  assumes "administered a"
  shows "keeps_access s (account_step sha a s)"
proof -
  have "legal_account a" using assms by (cases a) simp_all
  then show ?thesis
    unfolding keeps_access_def using accounts_step_ok[OF account_step_moves] administered_access[OF _ assms] by blast
qed

interpretation admitting: visits keeps_access
proof
  show "keeps_access s u" if "keeps_access s t" "keeps_access t u" for s t u
    using that access_trans by (auto simp: keeps_access_def)
  show "keeps_access s (commit (create_login h ve n r ttl now) s)" for s h ve n r ttl now
    using account_keeps_access[of "ICreateLogin h ve n r ttl now"] by simp
  show "keeps_access s (commit (consume_login h now) s)" for s h now
    using account_keeps_access[of "IConsume h now"] by simp
  show "keeps_access s (commit (read_session sha tok now) s)" for s sha tok now
    using account_keeps_access[of "IRead tok now" s sha] by simp
  show "keeps_access s (commit (revoke_session sha tok now) s)" for s sha tok now
    using account_keeps_access[of "IRevoke tok now" s sha] by simp
  show "keeps_access s (commit (create_session sha tok (iy_org p) (iy_id p) iss sub csrf ttl now) s)"
    for s sha tok p iss sub csrf ttl now
    using account_keeps_access[of "ICreateSession tok (iy_org p) (iy_id p) iss sub csrf ttl now" s sha] by simp
qed (simp add: keeps_access_def)

lemma same_people_access: "same_people s s' \<Longrightarrow> keeps_access s s'"
  by (simp add: same_people_def keeps_access_def accounts_ok_def access_same)

lemma deed_access:
  assumes "may v rq who d"
  shows "keeps_access s (perform v d s)"
  using deed_people[OF assms, of s] account_keeps_access[of _ s "token_hash v"] by (auto intro: same_people_access)

lemma request_access: "keeps_access s (snd (serve ui v rq s))"
  by (rule admitting.of_serve[OF admitting.of_api[OF deed_access]])

text \<open>The accounts of an administrator are not touched by the other steps of the program.\<close>

lemma work_links: "identity_links (store (step H reg a y)) = identity_links (store y)"
  using step_nearby[of y H reg a] by (simp add: nearby_def)

lemma work_people: "\<not> edits_people a \<Longrightarrow> principals (store (step H reg a y)) = principals (store y)"
  using step_aside[of a y H reg] by (simp add: aside_def)

fun edits :: "happening \<Rightarrow> bool" where
  "edits (Work a) = edits_people a"
| "edits e = False"

fun unlinks_raw :: "happening \<Rightarrow> bool" where
  "unlinks_raw (Manage sha (IUnlinkOidc org iss sub)) = True"
| "unlinks_raw e = False"

text \<open>
  C38. An administrator who is active and has an active account is not locked out: no request, no worker and no
  account command takes its last account, deactivates it or changes its role. Two things can. The raw
  \<^verbatim>\<open>UnlinkOIDCIdentity\<close>, which only the tests call, has no guard, so it is excluded; and whoever edits the table of
  principals by hand or runs the seed can change a role, so after these the role is not promised, the account still
  is.
\<close>

theorem admin_keeps_access:
  assumes "reachable_platform H reg y" "possible e" "\<not> unlinks_raw e"
    and "active_admin org i (store y)" "active_account org i (store y)"
  shows "active_account org i (store (happen H reg e y)) \<and>
    (edits e \<or> active_admin org i (store (happen H reg e y)))"
proof -
  have ok: "accounts_ok (store y)" using platform.reachable_inv[OF assms(1)] platform_invD(2) wholeD(3) by blast
  have k: "access_kept (store y) (store (happen H reg e y))" if "\<not> edits e"
  proof (cases e)
    case (Request ui v rq)
    then show ?thesis using request_access ok by (simp add: keeps_access_def)
  next
    case (Work a)
    then show ?thesis using that by (simp add: access_same work_links work_people)
  next
    case (Manage sha a)
    moreover have "administered a" using assms(2,3) Manage by (cases a) simp_all
    ultimately show ?thesis by (simp add: administered_access[OF ok])
  qed
  show ?thesis
  proof (cases "edits e")
    case True
    then obtain a where "e = Work a" by (cases e) simp_all
    then show ?thesis using True assms(5) by (simp add: active_account_def work_links)
  next
    case False
    then show ?thesis using k[OF False] assms(4,5) by (simp add: access_kept_def)
  qed
qed

text \<open>An administrator asks to unlink the one account it has.\<close>

definition last_unlink :: happening where
  "last_unlink = Request (\<lambda>_. not_found) shared_server (edge_request ''POST'' ''/api/v1/identity/links/unlink'' ''Bearer key''
     \<lparr>hq_body := Some (JObj [(''issuer'', JStr ''i''), (''subject'', JStr ''s1'')])\<rparr>)"

theorem admin_keeps_access_witness:
  "let y = happen (sv_digest shared_server) new_registry last_unlink shared_sys
   in active_account ''o'' ''a'' (store y) \<and> active_admin ''o'' ''a'' (store y)"
proof -
  have "active_admin ''o'' ''a'' (store shared_sys)" "active_account ''o'' ''a'' (store shared_sys)" by code_simp+
  moreover have "reachable_platform (sv_digest shared_server) new_registry shared_sys"
    unfolding shared_sys_def by (rule reachable_run[OF reachable.reach_init]) (simp add: edge_request_def)
  ultimately show ?thesis
    using admin_keeps_access[of "sv_digest shared_server" new_registry shared_sys last_unlink "''o''" "''a''"]
    by (simp add: last_unlink_def edge_request_def Let_def del: happen.simps)
qed

end
