(* ===== verification/Replay.thy ===== *)
theory Replay
  imports Gates
begin

text \<open>
  A repeated answer to a question: \<^verbatim>\<open>jsonEqual\<close> of \<^verbatim>\<open>internal/store/gates.go\<close> is equality of documents as values,
  with the numbers read as float64s, and \<^verbatim>\<open>ResolveGate\<close> accepts exactly these answers again.
\<close>

section \<open>Equality of documents, by their structure\<close>

text \<open>
  What two documents have in common when they are the same value: neither the order of the keys of an object nor
  an entry that a later one replaces matters. \<open>num\<close> is the value of a number literal.
\<close>

declare option.rel_cong [fundef_cong]

lemma size_entry:
  assumes "map_of (rev kvs) k = Some v"
  shows "size v \<le> size_list (size_prod (\<lambda>_. 0) size) kvs"
proof -
  have "(k, v) \<in> set kvs" using map_of_SomeD[OF assms] by simp
  then show ?thesis by (rule size_list_estimation') simp
qed

function same_value :: "(jnum \<Rightarrow> 'n) \<Rightarrow> json \<Rightarrow> json \<Rightarrow> bool" where
  "same_value num JNull b = (b = JNull)"
| "same_value num (JBool x) b = (b = JBool x)"
| "same_value num (JNum m) b = (case b of JNum n \<Rightarrow> num m = num n | _ \<Rightarrow> False)"
| "same_value num (JStr x) b = (b = JStr x)"
| "same_value num (JArr xs) b = (case b of JArr ys \<Rightarrow> list_all2 (same_value num) xs ys | _ \<Rightarrow> False)"
| "same_value num (JObj kvs) b =
     (case b of
        JObj kws \<Rightarrow> set (map fst kvs) = set (map fst kws) \<and>
          (\<forall>k\<in>set (map fst kvs). rel_option (same_value num) (map_of (rev kvs) k) (map_of (rev kws) k))
      | _ \<Rightarrow> False)"
  by pat_completeness auto

termination
  by (relation "measure (\<lambda>(num, a, b). size a)") (auto simp: less_Suc_eq_le intro: size_entry size_list_estimation')

section \<open>Go maps\<close>

lemma map_of_last_entries: "map_of (last_entries kvs) = map_of (rev kvs)"
proof -
  have "map_of (fold (\<lambda>(k, v). AList.update k v) kvs m) = map_of m ++ map_of (rev kvs)" for m
    by (induction kvs arbitrary: m) (auto simp: AList.update_conv' map_add_def fun_eq_iff split: option.split)
  from this[of "[]"] show ?thesis by (simp add: last_entries_def)
qed

lemma distinct_last_entries: "distinct (map fst (last_entries kvs))"
proof -
  have "distinct (map fst (fold (\<lambda>(k, v). AList.update k v) kvs m))" if "distinct (map fst m)" for m
    using that by (induction kvs arbitrary: m) (auto simp: AList.distinct_update)
  from this[of "[]"] show ?thesis by (simp add: last_entries_def)
qed

lemma as_go_map_eq: "as_go_map a = as_go_map b \<longleftrightarrow> map_of (rev a) = map_of (rev b)"
proof
  assume "as_go_map a = as_go_map b"
  then have "mset (last_entries a) = mset (last_entries b)" unfolding as_go_map_def by (metis mset_sort)
  then show "map_of (rev a) = map_of (rev b)"
    using distinct_last_entries map_of_last_entries by (metis map_of_eqI mset_eq_setD map_of_inject_set set_mset_mset)
next
  assume "map_of (rev a) = map_of (rev b)"
  then have "set (last_entries a) = set (last_entries b)"
    using map_of_inject_set[OF distinct_last_entries distinct_last_entries] map_of_last_entries by metis
  then have "mset (last_entries a) = mset (last_entries b)"
    using distinct_last_entries set_eq_iff_mset_eq_distinct by (metis distinct_map)
  then have "sort_key fst (last_entries a) = sort_key fst (last_entries b)"
    by (intro sort_key_inj_key_eq) (use distinct_last_entries[of a] in \<open>simp_all add: distinct_map\<close>)
  then show "as_go_map a = as_go_map b" by (simp add: as_go_map_def)
qed

text \<open>Every entry of an object is decoded by itself.\<close>

lemma decode_entries_all:
  assumes "those (map (\<lambda>kv. map_option (Pair (fst kv)) (decode (snd kv))) kvs) = Some vs"
  shows "map fst vs = map fst kvs \<and> map_of (rev vs) k = Option.bind (map_of (rev kvs) k) decode \<and>
    (\<forall>kv\<in>set kvs. decode (snd kv) \<noteq> None)"
  using assms
proof (induction kvs arbitrary: vs)
  case (Cons kv kvs)
  obtain v ws where w: "decode (snd kv) = Some v" "those (map (\<lambda>kv. map_option (Pair (fst kv)) (decode (snd kv))) kvs) = Some ws"
      "vs = (fst kv, v) # ws" using Cons.prems by (auto split: option.splits)
  note IH = Cons.IH[OF w(2)]
  have d: "decode x \<noteq> None" if "map_of (rev kvs) k = Some x" for x
    using map_of_SomeD[OF that] IH by (metis set_rev snd_conv)
  have "map_of (rev vs) k = Option.bind (map_of (rev (kv # kvs)) k) decode"
    using IH w(1) d by (cases "map_of (rev kvs) k"; cases kv) (auto simp: w(3) map_add_def)
  then show ?case using IH w(1) by (simp add: w(3))
qed simp

lemmas decode_entries = decode_entries_all[THEN conjunct1] decode_entries_all[THEN conjunct2, THEN conjunct1]
  decode_entries_all[THEN conjunct2, THEN conjunct2]

lemma map_of_rev_None: "map_of (rev kvs) k = None \<longleftrightarrow> k \<notin> set (map fst kvs)"
  by (simp add: map_of_eq_None_iff)

lemma decode_same:
  assumes "decode a = Some x" "decode b = Some y"
  shows "x = y \<longleftrightarrow> same_value f64 a b"
  using assms
proof (induction a arbitrary: b x y)
  case (JArr xs)
  note IH = JArr.IH and prems = JArr.prems
  show ?case
  proof (cases b)
    case (JArr ys)
    obtain us vs where u: "those (map decode xs) = Some us" "x = VArr us" and v: "those (map decode ys) = Some vs" "y = VArr vs"
      using prems JArr by auto
    have "us = vs \<longleftrightarrow> list_all2 (same_value f64) xs ys" using IH u(1) v(1)
    proof (induction xs arbitrary: us ys vs)
      case Nil
      then show ?case by (cases ys) (auto split: option.splits)
    next
      case (Cons z zs)
      show ?case
      proof (cases ys)
        case Nil
        then show ?thesis using Cons.prems by (auto split: option.splits)
      next
        case ys: (Cons w ws)
        obtain p ps q qs where d: "decode z = Some p" "those (map decode zs) = Some ps" "us = p # ps"
            "decode w = Some q" "those (map decode ws) = Some qs" "vs = q # qs"
          using Cons.prems(2,3) by (auto simp: ys split: option.splits)
        have "p = q \<longleftrightarrow> same_value f64 z w" by (rule Cons.prems(1)[OF _ d(1,4)]) simp
        moreover have "ps = qs \<longleftrightarrow> list_all2 (same_value f64) zs ws"
          by (rule Cons.IH[OF Cons.prems(1) d(2,5)]) simp_all
        ultimately show ?thesis by (simp add: ys d(3,6))
      qed
    qed
    then show ?thesis using u v JArr by simp
  qed (use JArr in auto)
next
  case (JObj kvs)
  note IH = JObj.IH and prems = JObj.prems
  show ?case
  proof (cases b)
    case (JObj kws)
    let ?d = "\<lambda>kvs. those (map (\<lambda>kv. map_option (Pair (fst kv)) (decode (snd kv))) kvs)"
    obtain us vs where u: "?d kvs = Some us" "x = VObj (as_go_map us)" and v: "?d kws = Some vs" "y = VObj (as_go_map vs)"
      using prems JObj by auto
    note du = decode_entries[OF u(1)] and dv = decode_entries[OF v(1)]
    have one: "Option.bind (map_of (rev kvs) k) decode = Option.bind (map_of (rev kws) k) decode \<longleftrightarrow>
        rel_option (same_value f64) (map_of (rev kvs) k) (map_of (rev kws) k)" for k
    proof (cases "map_of (rev kvs) k")
      case None
      then show ?thesis using dv(3) map_of_SomeD[of "rev kws" k]
        by (cases "map_of (rev kws) k") force+
    next
      case (Some a)
      then have a: "(k, a) \<in> set kvs" using map_of_SomeD[of "rev kvs" k a] by simp
      then obtain p where p: "decode a = Some p" using du(3) by force
      show ?thesis
      proof (cases "map_of (rev kws) k")
        case (Some c)
        then have "(k, c) \<in> set kws" using map_of_SomeD[of "rev kws" k c] by simp
        then obtain q where "decode c = Some q" using dv(3) by force
        then show ?thesis using IH[OF a _ p] \<open>map_of (rev kvs) k = Some a\<close> Some p by simp
      qed (use Some p in simp)
    qed
    have "as_go_map us = as_go_map vs \<longleftrightarrow> (\<forall>k. rel_option (same_value f64) (map_of (rev kvs) k) (map_of (rev kws) k))"
      unfolding as_go_map_eq fun_eq_iff du(2) dv(2) one ..
    also have "\<dots> \<longleftrightarrow> set (map fst kvs) = set (map fst kws) \<and>
        (\<forall>k\<in>set (map fst kvs). rel_option (same_value f64) (map_of (rev kvs) k) (map_of (rev kws) k))" (is "?L = ?R")
    proof
      assume l: ?L
      have "k \<in> set (map fst kvs) \<longleftrightarrow> k \<in> set (map fst kws)" for k
        using l[rule_format, of k] map_of_rev_None[of kvs k] map_of_rev_None[of kws k]
        by (cases "map_of (rev kvs) k"; cases "map_of (rev kws) k") auto
      then show ?R using l by blast
    next
      assume r: ?R
      show ?L
      proof
        fix k
        show "rel_option (same_value f64) (map_of (rev kvs) k) (map_of (rev kws) k)"
        proof (cases "k \<in> set (map fst kvs)")
          case False
          then show ?thesis using r map_of_rev_None[of kvs k] map_of_rev_None[of kws k] by simp
        qed (use r in blast)
      qed
    qed
    finally show ?thesis using u v JObj by simp
  qed (use JObj in auto)
next
  case JNull
  then show ?case by (cases b) auto
next
  case (JBool u)
  then show ?case by (cases b) auto
next
  case (JNum n)
  then show ?case by (cases b) auto
next
  case (JStr u)
  then show ?case by (cases b) auto
qed

text \<open>Numbers of a document: decoding fails on one that is too large for a float64.\<close>

fun all_numbers :: "(jnum \<Rightarrow> bool) \<Rightarrow> json \<Rightarrow> bool" where
  "all_numbers P (JNum n) = P n"
| "all_numbers P (JArr xs) = list_all (all_numbers P) xs"
| "all_numbers P (JObj kvs) = list_all (\<lambda>kv. all_numbers P (snd kv)) kvs"
| "all_numbers P _ = True"

abbreviation readable :: "json \<Rightarrow> bool" where
  "readable \<equiv> all_numbers (\<lambda>n. f64 n \<noteq> None)"

abbreviation exact :: "json \<Rightarrow> bool" where
  "exact \<equiv> all_numbers (\<lambda>n. f64 n = Some (num_rat n))"

lemma those_map: "those (map f xs) \<noteq> None \<longleftrightarrow> (\<forall>x\<in>set xs. f x \<noteq> None)"
  by (induction xs) (auto split: option.splits)

lemma decode_readable: "decode a \<noteq> None \<longleftrightarrow> readable a"
proof (induction a)
  case (JArr xs)
  have "decode (JArr xs) \<noteq> None \<longleftrightarrow> (\<forall>x\<in>set xs. decode x \<noteq> None)"
    using those_map[of decode xs] by simp
  also have "\<dots> \<longleftrightarrow> (\<forall>x\<in>set xs. readable x)" using JArr by blast
  finally show ?case by (simp add: list_all_iff)
next
  case (JObj kvs)
  have "decode (JObj kvs) \<noteq> None \<longleftrightarrow> (\<forall>kv\<in>set kvs. decode (snd kv) \<noteq> None)"
    using those_map[of "\<lambda>kv. map_option (Pair (fst kv)) (decode (snd kv))" kvs] by simp
  also have "\<dots> \<longleftrightarrow> (\<forall>kv\<in>set kvs. readable (snd kv))"
    by (intro ball_cong refl JObj) (auto intro: snds.intros)
  finally show ?case by (simp add: list_all_iff)
qed simp_all

lemma json_equal_iff: "json_equal (Some a) (Some b) \<longleftrightarrow> readable a \<and> readable b \<and> same_value f64 a b"
proof (cases "decode a = None \<or> decode b = None")
  case True
  then show ?thesis using decode_readable[of a] decode_readable[of b] by (auto simp: json_equal_def)
next
  case False
  then obtain x y where d: "decode a = Some x" "decode b = Some y" by auto
  have "json_equal (Some a) (Some b) \<longleftrightarrow> x = y" by (simp add: json_equal_def d)
  then show ?thesis using decode_same[OF d] decode_readable[of a] decode_readable[of b] d by simp
qed

text \<open>Where every number is a float64, rounding makes no difference: the values themselves are compared.\<close>

lemma all_numbers_mono: "all_numbers P a \<Longrightarrow> (\<And>n. P n \<Longrightarrow> Q n) \<Longrightarrow> all_numbers Q a"
  by (induction a) (auto simp: list_all_iff intro: snds.intros)

lemma exact_readable: "exact a \<Longrightarrow> readable a"
  by (erule all_numbers_mono) simp

lemma same_exact: "exact a \<Longrightarrow> exact b \<Longrightarrow> same_value f64 a b \<longleftrightarrow> same_value num_rat a b"
proof (induction a arbitrary: b)
  case (JNum n)
  then show ?case by (cases b) auto
next
  case (JArr xs)
  note IH = JArr.IH and prems = JArr.prems
  show ?case
  proof (cases b)
    case (JArr ys)
    have "list_all2 (same_value f64) xs ys = list_all2 (same_value num_rat) xs ys"
      by (rule list.rel_cong[OF refl refl]) (use IH prems JArr in \<open>simp add: list_all_iff\<close>)
    then show ?thesis by (simp add: JArr)
  qed simp_all
next
  case (JObj kvs)
  note IH = JObj.IH and prems = JObj.prems
  show ?case
  proof (cases b)
    case (JObj kws)
    have "rel_option (same_value f64) (map_of (rev kvs) k) (map_of (rev kws) k) =
        rel_option (same_value num_rat) (map_of (rev kvs) k) (map_of (rev kws) k)" for k
    proof (rule option.rel_cong[OF refl refl])
      fix v w assume "v \<in> set_option (map_of (rev kvs) k)" "w \<in> set_option (map_of (rev kws) k)"
      then have m: "(k, v) \<in> set kvs" "(k, w) \<in> set kws"
        using map_of_SomeD[of "rev kvs" k v] map_of_SomeD[of "rev kws" k w] by simp_all
      then have "exact v" "exact w" using prems JObj by (auto simp: list_all_iff)
      then show "same_value f64 v w = same_value num_rat v w" using IH[OF m(1)] by simp
    qed
    then show ?thesis by (simp add: JObj)
  qed simp_all
qed simp_all

section \<open>Properties\<close>

text \<open>
  C30. A gate is resolved once: after a successful resolution a repetition by the respondent succeeds and changes
  nothing exactly when its answer has the recorded one's structure and contents, with the numbers rounded to
  float64s; neither the order of keys nor an entry that a later one of its key replaces matters. Where all numbers
  are float64s, as integers up to \<open>2 ^ 53\<close> are, this is equality of the values themselves. Every other repetition is
  refused as already resolved.
\<close>

theorem resolve_gate_once:
  assumes "resolve_gate eid org i actor rv response now s = Inr (g, s')"
  shows "case (gt_response g, r) of
      (Some a, Some b) \<Rightarrow>
        resolve_gate eid' org i actor rv' r now' s' =
          (if readable a \<and> readable b \<and> same_value f64 a b then Inr (g, s') else Inl GateAlreadyResolved) \<and>
        (exact a \<and> exact b \<longrightarrow>
           (resolve_gate eid' org i actor rv' r now' s' = Inr (g, s') \<longleftrightarrow> same_value num_rat a b))
    | _ \<Rightarrow> resolve_gate eid' org i actor rv' r now' s' = Inl GateAlreadyResolved"
proof -
  have e: "resolve_gate eid' org i actor rv' r now' s' =
      (if json_equal (gt_response g) r then Inr (g, s') else Inl GateAlreadyResolved)"
    by (rule resolve_replays) (use resolve_gate_find[OF assms] in simp_all)
  show ?thesis
  proof (cases "gt_response g = None \<or> r = None")
    case True
    then have "\<not> json_equal (gt_response g) r" by (auto simp: json_equal_def split: option.split)
    then show ?thesis using True e by (auto split: option.split)
  next
    case False
    then obtain a b where "gt_response g = Some a" "r = Some b" by auto
    then show ?thesis using e same_exact[of a b] exact_readable by (simp add: json_equal_iff)
  qed
qed

definition demo_reply :: jmap where
  "demo_reply = [(''to'', JStr ''x''), (''cc'', JArr [JStr ''z''])]"

definition demo_gate_db :: db where
  "demo_gate_db = empty_db\<lparr>
     principals := [\<lparr>pr_id = ''a'', pr_org = ''o'', pr_name = ''A'', pr_role = Requester, pr_active = True\<rparr>],
     gates := [\<lparr>gt_id = ''g'', gt_org = ''o'', gt_task = ''t'', gt_run = None, gt_kind = ''clarification'',
       gt_prompt = [], gt_schema = JObj [], gt_revision = 1, gt_status = GPending, gt_respondent = ''a'',
       gt_response = None, gt_responded_by = None, gt_responded_at = None, gt_created_by = ''a'',
       gt_created = 1, gt_version = 1\<rparr>]\<rparr>"

theorem resolve_gate_once_witness:
  "let again = (\<lambda>r. case resolve_gate ''e'' ''o'' ''g'' ''a'' 1 (Some (JObj demo_reply)) 2 demo_gate_db of
       Inl _ \<Rightarrow> None
     | Inr (g, s) \<Rightarrow> Some (resolve_gate ''f'' ''o'' ''g'' ''a'' 1 r 3 s = Inr (g, s),
                          resolve_gate ''f'' ''o'' ''g'' ''a'' 1 r 3 s = Inl GateAlreadyResolved))
   in again (Some (JObj (rev demo_reply))) = Some (True, False) \<and>
      again (Some (JObj [(''to'', JStr ''y'')])) = Some (False, True)"
proof -
  let ?r = "resolve_gate ''e'' ''o'' ''g'' ''a'' 1 (Some (JObj demo_reply)) 2 demo_gate_db"
  have ok: "isl ?r = False" by code_simp
  then obtain g s where gs: "?r = Inr (g, s)" by (cases ?r) auto
  have "(case ?r of Inl _ \<Rightarrow> None | Inr (g, s) \<Rightarrow> Some (gt_response g)) = Some (Some (JObj demo_reply))"
    by code_simp
  then have g: "gt_response g = Some (JObj demo_reply)" by (simp add: gs)
  have e: "same_value f64 (JObj demo_reply) (JObj (rev demo_reply))" "readable (JObj demo_reply)"
    "\<not> same_value f64 (JObj demo_reply) (JObj [(''to'', JStr ''y'')])"
    by (auto simp: demo_reply_def)
  then have "readable (JObj (rev demo_reply))" by simp
  then show ?thesis
    using resolve_gate_once[OF gs, where r = "Some (JObj (rev demo_reply))" and eid' = "''f''" and rv' = 1 and now' = 3] e
      resolve_gate_once[OF gs, where r = "Some (JObj [(''to'', JStr ''y'')])" and eid' = "''f''" and rv' = 1 and now' = 3]
    by (simp add: gs g Let_def)
qed

text \<open>
  Replays are compared after rounding to float64, so an unconstrained gate (or a number field)
  accepts a different integer beyond \<open>2 ^ 53\<close> as a repetition of the recorded answer: the caller is
  told it succeeded although the number recorded is another one.
\<close>

lemma replay_confuses_large_numbers:
  "\<exists>a b. a \<noteq> b \<and>
     validate_gate_response (JObj []) (Some (JObj [(''n'', JNum (IntLit a))])) = Inr () \<and>
     json_equal (Some (JObj [(''n'', JNum (IntLit a))])) (Some (JObj [(''n'', JNum (IntLit b))]))"
proof (intro exI conjI)
  show "(2 ^ 53 :: int) \<noteq> 2 ^ 53 + 1" by simp
  show "json_equal (Some (JObj [(''n'', JNum (IntLit (2 ^ 53)))]))
      (Some (JObj [(''n'', JNum (IntLit (2 ^ 53 + 1)))]))"
    using f64_pow53(1) f64_above_pow53 by (simp add: json_equal_def)
qed (simp add: validate_gate_response_def)


end
