(* ===== verification/Sweep.thy ===== *)
theory Sweep
  imports Recovery
begin

text \<open>
  The recovery sweep does not starve an organization: passes that follow the cursor of
  \<^verbatim>\<open>reclaimSweep\<close> (\<^verbatim>\<open>internal/store/recovery.go\<close>) examine every organization of the directory within
  one walk.
\<close>

text \<open>The cursor and the database after some passes; the n-th pass runs at the time \<open>now n\<close>.\<close>

fun sweep_passes :: "(nat \<Rightarrow> id \<Rightarrow> nat \<Rightarrow> id) \<Rightarrow> (nat \<Rightarrow> time) \<Rightarrow> nat \<Rightarrow> string \<times> db \<Rightarrow> string \<times> db" where
  "sweep_passes fe now 0 cs = cs"
| "sweep_passes fe now (Suc n) cs =
     (let (c, s) = sweep_passes fe now n cs in snd (reclaim_sweep (fe n) (now n) c s))"

definition examined :: "string \<times> db \<Rightarrow> id list" where
  "examined cs = fst (orgs_after (fst cs) (int sweep_batch) (snd cs))"

lemma insert_event_orgs: "insert_event e s = Inr (u, s') \<Longrightarrow> organizations s' = organizations s"
  by (auto simp: insert_event_def split: if_split_asm)

lemma announce_orgs: "announce fe n org ids s = Inr (u, s') \<Longrightarrow> organizations s' = organizations s"
  by (induction fe n org ids s rule: announce.induct)
     (auto simp: enqueue_agent_run_def split: sum.splits dest!: insert_event_orgs)

lemma sweep_orgs_orgs: "organizations (snd (sweep_orgs fe now orgs s)) = organizations s"
proof (induction fe now orgs s rule: sweep_orgs.induct)
  case (2 fe now org orgs s)
  obtain r s1 where r: "with_org (reclaim_in_org (fe org) org max_recover_per_org now) s = (r, s1)"
    by (rule prod.exhaust)
  then have "organizations s1 = organizations s"
    by (auto simp: with_org_def reclaim_in_org_def Let_def split: sum.splits prod.splits dest!: announce_orgs)
  then show ?case using 2 by (cases r) (auto simp: r Let_def split_beta)
qed simp

lemma reclaim_sweep_eq:
  "snd (reclaim_sweep fe now c s) =
     (let (orgs, wrapped) = orgs_after c (int sweep_batch) s
      in (if wrapped \<or> orgs = [] then [] else last orgs, snd (sweep_orgs fe now orgs s)))"
  by (simp add: reclaim_sweep_def Let_def split_beta)

lemma filter_above:
  assumes "sorted ys" "distinct ys" "j < length (ys :: 'a :: linorder list)"
  shows "filter (\<lambda>x. x > ys ! j) ys = drop (Suc j) ys"
proof -
  have "filter (\<lambda>x. x > ys ! j) (take (Suc j) ys) = []"
    using assms(3)
    by (auto simp: filter_empty_conv in_set_conv_nth not_less less_Suc_eq_le sorted_nth_mono[OF assms(1)])
  moreover have "\<forall>x\<in>set (drop (Suc j) ys). x > ys ! j"
  proof
    fix x assume "x \<in> set (drop (Suc j) ys)"
    then obtain k where k: "Suc j + k < length ys" "x = ys ! (Suc j + k)"
      unfolding in_set_conv_nth by (metis add.commute length_drop less_diff_conv nth_drop Suc_leI assms(3))
    then have "ys ! j \<le> x" using assms(1) by (auto intro: sorted_nth_mono)
    moreover have "ys ! j \<noteq> x" using assms(2,3) k by (simp add: nth_eq_iff_index_eq)
    ultimately show "x > ys ! j" by simp
  qed
  ultimately show ?thesis
    using filter_append[of "\<lambda>x. x > ys ! j" "take (Suc j) ys" "drop (Suc j) ys"] by simp
qed

text \<open>The directory in the order of the walk; \<open>[]\<close> is below every other identifier.\<close>

definition directory :: "db \<Rightarrow> id list" where
  "directory s = sort (filter (\<lambda>i. i > []) (map og_id (organizations s)))"

lemma Nil_less: "c < x \<Longrightarrow> [] < (x :: string)"
  by (cases x) (simp_all add: not_less_Nil Nil_less_Cons)

lemma page_directory:
  "fst (orgs_after c (int sweep_batch) s) = take sweep_batch (filter (\<lambda>i. i > c) (directory s))"
  "snd (orgs_after c (int sweep_batch) s) \<longleftrightarrow>
     length (filter (\<lambda>i. i > c) (directory s)) < sweep_batch"
proof -
  have "filter (\<lambda>i. i > c) (map og_id (organizations s)) =
      filter (\<lambda>i. i > c) (filter (\<lambda>i. i > []) (map og_id (organizations s)))"
    using Nil_less by (auto intro!: filter_cong)
  then have "sort (filter (\<lambda>i. i > c) (map og_id (organizations s))) = filter (\<lambda>i. i > c) (directory s)"
    by (simp add: directory_def filter_sort)
  then show "fst (orgs_after c (int sweep_batch) s) = take sweep_batch (filter (\<lambda>i. i > c) (directory s))"
    "snd (orgs_after c (int sweep_batch) s) \<longleftrightarrow> length (filter (\<lambda>i. i > c) (directory s)) < sweep_batch"
    by (auto simp: orgs_after_def Let_def sweep_batch_def min_def)
qed

text \<open>The cursor of the k-th pass, as long as the walk has not come to its end.\<close>

lemma walk:
  assumes "distinct (map og_id (organizations s0))" "k * sweep_batch \<le> length (directory s0)"
  shows "organizations (snd (sweep_passes fe now k ([], s0))) = organizations s0 \<and>
    filter (\<lambda>i. i > fst (sweep_passes fe now k ([], s0))) (directory s0) =
      drop (k * sweep_batch) (directory s0)"
  using assms(2)
proof (induction k)
  case 0
  show ?case by (auto simp: directory_def filter_id_conv)
next
  case (Suc k)
  let ?ys = "directory s0" and ?b = sweep_batch
  obtain c s where cs: "sweep_passes fe now k ([], s0) = (c, s)" by (rule prod.exhaust)
  have le: "Suc k * ?b \<le> length ?ys" by (rule Suc.prems)
  then have IH: "organizations s = organizations s0" "filter (\<lambda>i. i > c) ?ys = drop (k * ?b) ?ys"
    using Suc.IH cs by auto
  have d: "directory s = ?ys" by (simp add: directory_def IH(1))
  have page: "fst (orgs_after c (int ?b) s) = take ?b (drop (k * ?b) ?ys)"
    "\<not> snd (orgs_after c (int ?b) s)"
    using page_directory[of c s] le by (auto simp: d IH(2))
  have b: "0 < ?b" by (simp add: sweep_batch_def)
  have ne: "take ?b (drop (k * ?b) ?ys) \<noteq> []" using le b by auto
  have last: "last (take ?b (drop (k * ?b) ?ys)) = ?ys ! (k * ?b + (?b - 1))"
  proof -
    have "length (take ?b (drop (k * ?b) ?ys)) = ?b" using le by simp
    then show ?thesis using ne b le by (simp add: last_conv_nth)
  qed
  have step: "sweep_passes fe now (Suc k) ([], s0) =
      (?ys ! (k * ?b + (?b - 1)), snd (sweep_orgs (fe k) (now k) (take ?b (drop (k * ?b) ?ys)) s))"
    using page ne last by (simp add: cs reclaim_sweep_eq split_beta Let_def)
  have "distinct ?ys" "sorted ?ys" using assms(1) by (simp_all add: directory_def distinct_filter)
  moreover have "k * ?b + (?b - 1) < length ?ys" "Suc (k * ?b + (?b - 1)) = Suc k * ?b" using le b by auto
  ultimately show ?case using filter_above[of ?ys "k * ?b + (?b - 1)"] unfolding step
    by (simp add: sweep_orgs_orgs IH(1) add.commute)
qed

text \<open>
  C31. The sweep examines every organization: starting from the empty cursor, an organization is on
  the page of one of the first n/50 + 1 passes, where n is the size of the directory, whatever the
  passes before recovered.
\<close>

theorem sweep_examines_all:
  assumes "distinct (map og_id (organizations s0))" "o1 \<in> set (organizations s0)" "og_id o1 \<noteq> []"
  shows "\<exists>k \<le> length (organizations s0) div 50. og_id o1 \<in> set (examined (sweep_passes fe now k ([], s0)))"
proof -
  let ?ys = "directory s0" and ?b = sweep_batch
  have "[] < og_id o1" using assms(3) by (cases "og_id o1") simp_all
  then have "og_id o1 \<in> set ?ys" using assms(2) by (auto simp: directory_def)
  then obtain j where j: "j < length ?ys" "?ys ! j = og_id o1" by (auto simp: in_set_conv_nth)
  let ?k = "j div ?b"
  have b: "0 < ?b" "?b = 50" by (simp_all add: sweep_batch_def)
  have le: "?k * ?b \<le> length ?ys" using j(1) by (meson div_times_less_eq_dividend le_trans less_imp_le)
  obtain c s where cs: "sweep_passes fe now ?k ([], s0) = (c, s)" by (rule prod.exhaust)
  note w = walk[OF assms(1) le, of fe now, unfolded cs fst_conv snd_conv]
  have "examined (c, s) = take ?b (drop (?k * ?b) ?ys)"
    using page_directory(1)[of c s] w by (simp add: examined_def directory_def)
  moreover have "og_id o1 \<in> set (take ?b (drop (?k * ?b) ?ys))"
  proof -
    have m: "j = ?k * ?b + j mod ?b" "j mod ?b < ?b" using b(1) by simp_all
    then have "take ?b (drop (?k * ?b) ?ys) ! (j mod ?b) = og_id o1" using j le by simp
    moreover have "j mod ?b < length (take ?b (drop (?k * ?b) ?ys))"
      using m j(1) unfolding length_take length_drop by (metis add.commute less_diff_conv min_less_iff_conj)
    ultimately show ?thesis by (metis nth_mem)
  qed
  moreover have "?k \<le> length (organizations s0) div 50"
  proof -
    have "length ?ys \<le> length (organizations s0)" by (simp add: directory_def length_filter_le[THEN le_trans])
    then have "j \<le> length (organizations s0)" using j(1) by simp
    then show ?thesis unfolding b(2) by (rule div_le_mono)
  qed
  ultimately show ?thesis using cs by auto
qed

theorem sweep_examines_all_witness:
  "''o'' \<in> set (examined ([], empty_db\<lparr>organizations := [\<lparr>og_id = ''o'', og_name = []\<rparr>]\<rparr>))"
proof -
  let ?s = "empty_db\<lparr>organizations := [\<lparr>og_id = ''o'', og_name = []\<rparr>]\<rparr>"
  have "\<exists>k \<le> length (organizations ?s) div 50. og_id \<lparr>og_id = ''o'', og_name = []\<rparr> \<in>
      set (examined (sweep_passes (\<lambda>_ _ _. []) (\<lambda>_. 0) k ([], ?s)))"
    by (rule sweep_examines_all) simp_all
  then show ?thesis by simp
qed

end
