(* ===== verification/Config.thy ===== *)
theory Config
  imports Edge
begin

text \<open>
  The configuration of the process, \<^verbatim>\<open>internal/platform/config.go\<close>, and the policy around the identity provider,
  \<^verbatim>\<open>oidc.go\<close> and \<^verbatim>\<open>oauth.go\<close>: which issuers, algorithms and tokens are acceptable. \<open>env\<close> is \<^verbatim>\<open>os.Getenv\<close>,
  empty for a variable that is not set, and \<open>parse_url\<close> is \<^verbatim>\<open>net/url.Parse\<close>. The library \<^verbatim>\<open>go-oidc\<close> is a parameter:
  \<open>lib issuer audience algs raw\<close> is the ID token it read from \<open>raw\<close> and found signed by that issuer with one
  of these algorithms, for that audience and not expired.
\<close>

section \<open>Issuers, algorithms, tokens\<close>

record url =
  ul_scheme :: string
  ul_host :: string
  ul_hostname :: string

record id_token =
  it_issuer :: string
  it_subject :: string
  it_issued :: "time option"
  it_nonce :: "string option"

type_synonym token_library = "string \<Rightarrow> string \<Rightarrow> string list \<Rightarrow> string \<Rightarrow> id_token option"

record oidc_config =
  oc_issuer :: string
  oc_audience :: string
  oc_max_age :: time
  oc_insecure :: bool
  oc_algs :: "string list"
  oc_access_id :: string
  oc_access_secret :: string

definition default_algs :: "string list" where
  "default_algs = [''ES384'']"

definition algs :: "string list \<Rightarrow> string list" where
  "algs allowed = (if allowed = [] then default_algs else allowed)"

definition known_algs :: "string list" where
  "known_algs = [''ES256'', ''ES384'', ''ES512'', ''RS256'', ''RS384'', ''RS512'', ''PS256'', ''PS384'', ''PS512'', ''EdDSA'']"

definition validate_algs :: "string list \<Rightarrow> string + unit" where
  "validate_algs as =
     (case List.find (\<lambda>a. a \<notin> set known_algs) as of
        Some a \<Rightarrow> Inl (''unsupported signing algorithm '' @ a)
      | None \<Rightarrow> Inr ())"

definition check_issuer_scheme :: "(string \<Rightarrow> url option) \<Rightarrow> string \<Rightarrow> bool \<Rightarrow> string + unit" where
  "check_issuer_scheme parse_url issuer allow_insecure =
     (case parse_url issuer of
        None \<Rightarrow> Inl ''OIDC issuer is not a valid absolute URL''
      | Some u \<Rightarrow>
          if ul_host u = [] then Inl ''OIDC issuer is not a valid absolute URL''
          else if ul_scheme u = ''https'' then Inr ()
          else if allow_insecure \<and> ul_hostname u \<in> {''localhost'', ''127.0.0.1'', ''::1''} then Inr ()
          else Inl ''OIDC issuer must use https (http is permitted only for a loopback issuer during tests)'')"

definition one_hour :: time where
  "one_hour = 3600 * 1000000"

definition two_minutes :: time where
  "two_minutes = 120 * 1000000"

text \<open>\<^verbatim>\<open>NewOIDCVerifier\<close>: the verifier is its normalized configuration.\<close>

definition new_oidc_verifier :: "(string \<Rightarrow> url option) \<Rightarrow> oidc_config \<Rightarrow> string + oidc_config" where
  "new_oidc_verifier parse_url c =
     (let c = c\<lparr>oc_issuer := trim_space (oc_issuer c), oc_audience := trim_space (oc_audience c)\<rparr>
      in if oc_issuer c = [] then Inl ''OIDC issuer is required''
         else if oc_audience c = [] then Inl ''OIDC audience is required''
         else
          (let c = (if oc_max_age c \<le> 0 then c\<lparr>oc_max_age := one_hour\<rparr> else c)
           in case check_issuer_scheme parse_url (oc_issuer c) (oc_insecure c) of
                Inl e \<Rightarrow> Inl e
              | Inr _ \<Rightarrow> (case validate_algs (oc_algs c) of Inl e \<Rightarrow> Inl e | Inr _ \<Rightarrow> Inr c)))"

text \<open>The bounds on the time a token was issued; a token without one is refused.\<close>

definition issue_time_ok :: "time \<Rightarrow> time \<Rightarrow> id_token \<Rightarrow> bool" where
  "issue_time_ok max_age now tok =
     (case it_issued tok of
        None \<Rightarrow> False
      | Some t \<Rightarrow> \<not> now + two_minutes < t \<and> \<not> t + max_age < now)"

text \<open>\<^verbatim>\<open>Verify\<close>; of the claims the kernel reads the issuer and the subject.\<close>

definition verify_token :: "token_library \<Rightarrow> oidc_config \<Rightarrow> time \<Rightarrow> string \<Rightarrow> (string \<times> string) option" where
  "verify_token lib c now raw =
     (case lib (oc_issuer c) (oc_audience c) (algs (oc_algs c)) (trim_space raw) of
        None \<Rightarrow> None
      | Some tok \<Rightarrow> if issue_time_ok (oc_max_age c) now tok then Some (it_issuer tok, it_subject tok) else None)"

section \<open>The browser client\<close>

record oauth_config =
  oa_issuer :: string
  oa_client_id :: string
  oa_client_secret :: string
  oa_redirect :: string
  oa_scopes :: "string list"
  oa_insecure :: bool
  oa_algs :: "string list"
  oa_access_id :: string
  oa_access_secret :: string
  oa_session_ttl :: time

text \<open>\<^verbatim>\<open>NewOAuthClient\<close>; \<open>discover\<close> tells whether the issuer answered with its metadata.\<close>

definition new_oauth_client ::
    "(string \<Rightarrow> url option) \<Rightarrow> (string \<Rightarrow> bool) \<Rightarrow> oauth_config \<Rightarrow> string + oauth_config" where
  "new_oauth_client parse_url discover c =
     (let c = c\<lparr>oa_issuer := trim_space (oa_issuer c)\<rparr>
      in if oa_issuer c = [] then Inl ''OIDC issuer is required''
         else if trim_space (oa_client_id c) = [] then Inl ''OIDC client id is required (the ID token audience)''
         else if trim_space (oa_client_secret c) = []
         then Inl ''OIDC client secret is required for a confidential client''
         else if \<not> has_prefix (oa_redirect c) ''http://'' \<and> \<not> has_prefix (oa_redirect c) ''https://''
         then Inl ''OIDC redirect URL must be absolute''
         else (case check_issuer_scheme parse_url (oa_issuer c) (oa_insecure c) of
             Inl e \<Rightarrow> Inl e
           | Inr _ \<Rightarrow> (case validate_algs (oa_algs c) of
               Inl e \<Rightarrow> Inl e
             | Inr _ \<Rightarrow>
                (let c = (if oa_session_ttl c \<le> 0 then c\<lparr>oa_session_ttl := 12 * one_hour\<rparr> else c);
                     c = (if oa_scopes c = [] then c\<lparr>oa_scopes := [''openid'', ''profile'', ''email'']\<rparr> else c)
                 in if discover (oa_issuer c) then Inr c else Inl ''discovering the issuer''))))"

text \<open>
  \<^verbatim>\<open>Exchange\<close>. \<open>redeem code verifier\<close> is the answer of the token endpoint: \<open>None\<close> if it refused,
  \<open>Some []\<close> if there is no ID token in it.
\<close>

definition exchange_code ::
    "token_library \<Rightarrow> (string \<Rightarrow> string \<Rightarrow> string option) \<Rightarrow> oauth_config \<Rightarrow> time \<Rightarrow> string \<Rightarrow> string \<Rightarrow> string \<Rightarrow>
     string + (string \<times> string)" where
  "exchange_code lib redeem c now code verifier expected =
     (if code = [] then Inl ''authorization code is required''
      else case validate_pkce_verifier verifier of
        Inl e \<Rightarrow> Inl (''code verifier: '' @ e)
      | Inr _ \<Rightarrow> (case redeem code verifier of
          None \<Rightarrow> Inl ''code exchange failed''
        | Some raw \<Rightarrow>
            if raw = [] then Inl ''the token response contained no id_token''
            else (case lib (oa_issuer c) (oa_client_id c) (algs (oa_algs c)) raw of
                None \<Rightarrow> Inl ''the id token could not be verified''
              | Some tok \<Rightarrow> (case it_nonce tok of
                  None \<Rightarrow> Inl ''the id token claims could not be read''
                | Some nonce \<Rightarrow>
                    if expected = [] \<or> \<not> tokens_equal nonce expected
                    then Inl ''the id token does not match this login''
                    else if \<not> issue_time_ok one_hour now tok
                    then Inl ''the id token's issue time is not acceptable''
                    else Inr (it_issuer tok, it_subject tok)))))"

text \<open>The headers \<^verbatim>\<open>accessTransport\<close> adds to every request to the provider.\<close>

definition access_headers :: "string \<Rightarrow> string \<Rightarrow> (string \<times> string) list" where
  "access_headers i secret =
     (if i \<noteq> [] \<and> secret \<noteq> [] then [(''CF-Access-Client-Id'', i), (''CF-Access-Client-Secret'', secret)] else [])"

text \<open>What \<^verbatim>\<open>AuthCodeURL\<close> adds to the authorization request.\<close>

definition auth_code_params :: "string \<Rightarrow> string \<Rightarrow> (string \<times> string) list" where
  "auth_code_params nonce challenge =
     [(''nonce'', nonce), (''code_challenge'', challenge), (''code_challenge_method'', ''S256'')]"

text \<open>
  \<^verbatim>\<open>LogoutURL\<close>. \<open>with_redirect\<close> parses the endpoint and sets the query parameter, if there is one to set; empty means
  that the provider has no such endpoint.
\<close>

definition logout_url :: "(string \<Rightarrow> string \<Rightarrow> string option) \<Rightarrow> string option \<Rightarrow> string \<Rightarrow> string" where
  "logout_url with_redirect end_session redirect =
     (case end_session of
        None \<Rightarrow> []
      | Some e \<Rightarrow> if e = [] then [] else (case with_redirect e redirect of None \<Rightarrow> [] | Some u \<Rightarrow> u))"

section \<open>Loading the configuration\<close>

record browser_config =
  br_client_id :: string
  br_client_secret :: string
  br_redirect :: string
  br_ui :: string
  br_post_logout :: string
  br_access_id :: string
  br_access_secret :: string
  br_secure :: bool
  br_insecure :: bool
  br_algs :: "string list"

record config =
  cf_mode :: string
  cf_tokens :: "string \<Rightarrow> ident option"
  cf_database :: string
  cf_address :: string
  cf_oidc :: oidc_config
  cf_browser :: browser_config
  cf_ui_dir :: string

definition browser_enabled :: "browser_config \<Rightarrow> bool" where
  "browser_enabled b \<longleftrightarrow> br_client_id b \<noteq> [] \<and> br_client_secret b \<noteq> [] \<and> br_redirect b \<noteq> []"

definition browser_oauth :: "browser_config \<Rightarrow> string \<Rightarrow> oauth_config" where
  "browser_oauth b issuer =
     \<lparr>oa_issuer = issuer, oa_client_id = br_client_id b, oa_client_secret = br_client_secret b,
      oa_redirect = br_redirect b, oa_scopes = [], oa_insecure = br_insecure b, oa_algs = br_algs b,
      oa_access_id = br_access_id b, oa_access_secret = br_access_secret b, oa_session_ttl = 0\<rparr>"

definition no_oidc :: oidc_config where
  "no_oidc = \<lparr>oc_issuer = [], oc_audience = [], oc_max_age = 0, oc_insecure = False, oc_algs = [],
     oc_access_id = [], oc_access_secret = []\<rparr>"

definition no_browser :: browser_config where
  "no_browser = \<lparr>br_client_id = [], br_client_secret = [], br_redirect = [], br_ui = [], br_post_logout = [],
     br_access_id = [], br_access_secret = [], br_secure = False, br_insecure = False, br_algs = []\<rparr>"

text \<open>\<^verbatim>\<open>cookieSecureFromEnv\<close>: secure unless explicitly refused.\<close>

definition cookie_secure :: "(string \<Rightarrow> string) \<Rightarrow> bool" where
  "cookie_secure env \<longleftrightarrow> to_lower (trim_space (env ''WORKFORCE_COOKIE_SECURE'')) \<notin> {''false'', ''0'', ''no''}"

definition trim_right_slashes :: "string \<Rightarrow> string" where
  "trim_right_slashes t = rev (dropWhile (\<lambda>c. c = CHR ''/'') (rev t))"

definition oidc_from_env :: "(string \<Rightarrow> string) \<Rightarrow> oidc_config" where
  "oidc_from_env env =
     no_oidc\<lparr>oc_issuer := trim_space (env ''WORKFORCE_OIDC_ISSUER''),
             oc_audience := trim_space (env ''WORKFORCE_OIDC_AUDIENCE''),
             oc_access_id := trim_space (env ''WORKFORCE_LOGTO_CF_ACCESS_CLIENT_ID''),
             oc_access_secret := trim_space (env ''WORKFORCE_LOGTO_CF_ACCESS_CLIENT_SECRET'')\<rparr>"

definition browser_from_env :: "(string \<Rightarrow> string) \<Rightarrow> browser_config" where
  "browser_from_env env =
     \<lparr>br_client_id = trim_space (env ''WORKFORCE_OIDC_CLIENT_ID''),
      br_client_secret = trim_space (env ''WORKFORCE_OIDC_CLIENT_SECRET''),
      br_redirect = trim_space (env ''WORKFORCE_OIDC_REDIRECT_URL''),
      br_ui = trim_right_slashes (trim_space (env ''WORKFORCE_UI_ORIGIN'')),
      br_post_logout = trim_space (env ''WORKFORCE_OIDC_POST_LOGOUT_URL''),
      br_access_id = trim_space (env ''WORKFORCE_LOGTO_CF_ACCESS_CLIENT_ID''),
      br_access_secret = trim_space (env ''WORKFORCE_LOGTO_CF_ACCESS_CLIENT_SECRET''),
      br_secure = cookie_secure env, br_insecure = False, br_algs = []\<rparr>"

text \<open>\<^verbatim>\<open>strings.SplitN (entry, "=", 2)\<close>: \<open>None\<close> without the separator.\<close>

definition split_first :: "char \<Rightarrow> string \<Rightarrow> (string \<times> string) option" where
  "split_first d s =
     (if d \<in> set s then Some (takeWhile (\<lambda>c. c \<noteq> d) s, tl (dropWhile (\<lambda>c. c \<noteq> d) s)) else None)"

definition local_entry :: "string \<Rightarrow> string + (string \<times> ident)" where
  "local_entry entry =
     (case split_first (CHR ''='') entry of
        None \<Rightarrow> Inl ''LOCAL_AUTH_TOKENS entries must be token=org:id:role[:name]''
      | Some (token, who) \<Rightarrow>
          if token = [] then Inl ''LOCAL_AUTH_TOKENS entries must be token=org:id:role[:name]''
          else (case split_at (CHR '':'') who of
              org # i # r # _ \<Rightarrow>
                if org = [] \<or> i = [] then Inl ''invalid local identity''
                else (case role_of r of
                    None \<Rightarrow> Inl ''invalid local role''
                  | Some role \<Rightarrow> Inr (token, \<lparr>iy_id = i, iy_org = org, iy_role = role, iy_name = i\<rparr>))
            | _ \<Rightarrow> Inl ''invalid local identity''))"

fun local_tokens :: "string list \<Rightarrow> (string \<Rightarrow> ident option) \<Rightarrow> string + (string \<Rightarrow> ident option)" where
  "local_tokens [] m = Inr m"
| "local_tokens (e # es) m =
     (case local_entry e of
        Inl x \<Rightarrow> Inl x
      | Inr (token, who) \<Rightarrow>
          if m token \<noteq> None then Inl ''duplicate local token'' else local_tokens es (m(token := Some who)))"

definition production :: "(string \<Rightarrow> string) \<Rightarrow> bool" where
  "production env \<longleftrightarrow> to_lower (trim_space (env ''APP_ENV'')) = ''production''"

text \<open>The part of \<^verbatim>\<open>LoadConfig\<close> for the mode \<open>oidc\<close>.\<close>

definition load_oidc :: "(string \<Rightarrow> url option) \<Rightarrow> (string \<Rightarrow> string) \<Rightarrow> config \<Rightarrow> string + config" where
  "load_oidc parse_url env c =
     (case new_oidc_verifier parse_url (oidc_from_env env) of
        Inl e \<Rightarrow> Inl (''AUTH_MODE=oidc: '' @ e)
      | Inr _ \<Rightarrow>
         (let b = browser_from_env env
          in if br_ui b \<noteq> [] \<and> \<not> has_prefix (br_ui b) ''http://'' \<and> \<not> has_prefix (br_ui b) ''https://''
             then Inl ''WORKFORCE_UI_ORIGIN must be an absolute http(s) origin''
             else if production env \<and> has_prefix (br_ui b) ''http://''
             then Inl ''production requires an https WORKFORCE_UI_ORIGIN''
             else if production env \<and> \<not> br_secure b
             then Inl ''production requires secure session cookies; set WORKFORCE_COOKIE_SECURE=true''
             else Inr (c\<lparr>cf_oidc := oidc_from_env env, cf_browser := b\<rparr>)))"

definition load_local :: "(string \<Rightarrow> string) \<Rightarrow> config \<Rightarrow> string + config" where
  "load_local env c =
     (let raw = trim_space (env ''LOCAL_AUTH_TOKENS'')
      in if raw = [] then Inl ''LOCAL_AUTH_TOKENS is required in local mode''
         else (case local_tokens (split_at (CHR '','') raw) Map.empty of
             Inl e \<Rightarrow> Inl e
           | Inr m \<Rightarrow> Inr (c\<lparr>cf_tokens := m\<rparr>)))"

text \<open>\<^verbatim>\<open>%q\<close> is the mode between quotation marks, as it prints a mode of plain characters.\<close>

definition load_config :: "(string \<Rightarrow> url option) \<Rightarrow> (string \<Rightarrow> string) \<Rightarrow> string + config" where
  "load_config parse_url env =
     (let mode = to_lower (trim_space (env ''AUTH_MODE''))
      in if mode = [] then Inl ''AUTH_MODE must be explicitly set; configure OIDC for non-local deployments''
         else if production env \<and> mode \<noteq> ''oidc''
         then Inl ''production refuses local authentication; configure AUTH_MODE=oidc''
         else if mode \<noteq> ''local'' \<and> mode \<noteq> ''oidc'' then Inl (''unsupported AUTH_MODE '' @ [CHR 0x22] @ mode @ [CHR 0x22])
         else
          (let c = \<lparr>cf_mode = mode, cf_tokens = Map.empty, cf_database = env ''DATABASE_URL'',
                    cf_address = (if env ''HTTP_ADDR'' = [] then '':8080'' else env ''HTTP_ADDR''),
                    cf_oidc = no_oidc, cf_browser = no_browser,
                    cf_ui_dir = trim_space (env ''WORKFORCE_UI_DIR'')\<rparr>
           in if mode = ''oidc'' then load_oidc parse_url env c else load_local env c))"

section \<open>Assembling the server\<close>

text \<open>
  \<^verbatim>\<open>api.New\<close>. The provider is a parameter: whether discovery succeeds, the answer of its token endpoint, the
  address of its authorization endpoint with parameters, and its end-session endpoint. \<open>v0\<close> carries what does not depend on the configuration; \<open>now\<close> is the
  clock when a token is checked.
\<close>

record provider =
  pv_discover :: "string \<Rightarrow> bool"
  pv_redeem :: "oauth_config \<Rightarrow> string \<Rightarrow> string \<Rightarrow> string option"
  pv_auth_url :: "oauth_config \<Rightarrow> string \<Rightarrow> (string \<times> string) list \<Rightarrow> string"
  pv_end_session :: "string option"
  pv_with_redirect :: "string \<Rightarrow> string \<Rightarrow> string option"

definition browser_login ::
    "(string \<Rightarrow> url option) \<Rightarrow> token_library \<Rightarrow> provider \<Rightarrow> config \<Rightarrow> time \<Rightarrow> bff option" where
  "browser_login parse_url lib pv c now =
     (if \<not> browser_enabled (cf_browser c) then None
      else case new_oauth_client parse_url (pv_discover pv) (browser_oauth (cf_browser c) (oc_issuer (cf_oidc c))) of
        Inl _ \<Rightarrow> None
      | Inr oa \<Rightarrow> Some
          \<lparr>bf_auth_url = (\<lambda>state nonce challenge. pv_auth_url pv oa state (auth_code_params nonce challenge)),
           bf_exchange = (\<lambda>code verifier nonce.
             case exchange_code lib (pv_redeem pv oa) oa now code verifier nonce of Inl _ \<Rightarrow> None | Inr x \<Rightarrow> Some x),
           bf_ttl = oa_session_ttl oa div 1000000, bf_secure = br_secure (cf_browser c),
           bf_ui = br_ui (cf_browser c), bf_logout = logout_url (pv_with_redirect pv) (pv_end_session pv) (br_post_logout (cf_browser c))\<rparr>)"

definition new_server ::
    "(string \<Rightarrow> url option) \<Rightarrow> token_library \<Rightarrow> provider \<Rightarrow> server \<Rightarrow> config \<Rightarrow> time \<Rightarrow> server" where
  "new_server parse_url lib pv v0 c now =
     v0\<lparr>sv_mode := cf_mode c,
        sv_tokens := (\<lambda>t. map_option (\<lambda>i. (iy_org i, iy_id i)) (cf_tokens c t)),
        sv_verify := (if cf_mode c \<noteq> ''oidc'' then None
          else case new_oidc_verifier parse_url (cf_oidc c) of
            Inl _ \<Rightarrow> None | Inr oc \<Rightarrow> Some (verify_token lib oc now)),
        sv_bff := (if cf_mode c \<noteq> ''oidc'' then None else browser_login parse_url lib pv c now),
        sv_ui := cf_ui_dir c \<noteq> []\<rparr>"

section \<open>What a loaded configuration guarantees\<close>

lemma load_configE:
  assumes "load_config parse_url env = Inr c"
  obtains (oidc) oc where "cf_mode c = ''oidc''" "cf_tokens c = Map.empty" "cf_oidc c = oidc_from_env env"
      "cf_browser c = browser_from_env env" "new_oidc_verifier parse_url (oidc_from_env env) = Inr oc"
      "production env \<Longrightarrow> br_secure (browser_from_env env) \<and> \<not> has_prefix (br_ui (browser_from_env env)) ''http://''"
      "br_ui (browser_from_env env) \<noteq> [] \<Longrightarrow> has_prefix (br_ui (browser_from_env env)) ''http://'' \<or>
         has_prefix (br_ui (browser_from_env env)) ''https://''"
  | (local) m where "cf_mode c = ''local''" "\<not> production env" "cf_tokens c = m"
      "local_tokens (split_at (CHR '','') (trim_space (env ''LOCAL_AUTH_TOKENS''))) Map.empty = Inr m"
  using assms
  by (auto simp: load_config_def load_oidc_def load_local_def Let_def split: if_split_asm sum.splits)

lemma new_oidc_verifierE:
  assumes "new_oidc_verifier parse_url c = Inr oc"
  obtains u where "oc_issuer oc = trim_space (oc_issuer c)" "oc_audience oc = trim_space (oc_audience c)"
    "oc_issuer oc \<noteq> []" "oc_audience oc \<noteq> []" "oc_algs oc = oc_algs c" "oc_insecure oc = oc_insecure c"
    "oc_max_age oc = (if oc_max_age c \<le> 0 then one_hour else oc_max_age c)"
    "parse_url (oc_issuer oc) = Some u" "ul_host u \<noteq> []" "\<not> oc_insecure c \<Longrightarrow> ul_scheme u = ''https''"
  using assms
  by (auto simp: new_oidc_verifier_def Let_def check_issuer_scheme_def split: if_split_asm sum.splits option.splits)

text \<open>The tokens of the mode \<open>local\<close> are the entries, no more and no less.\<close>

lemma local_tokens_exact:
  "local_tokens es m = Inr m' \<Longrightarrow> m' t = Some i \<longleftrightarrow> m t = Some i \<or> (\<exists>e\<in>set es. local_entry e = Inr (t, i))"
proof (induction es m rule: local_tokens.induct)
  case (2 e es m)
  obtain token who where e: "local_entry e = Inr (token, who)" "m token = None"
      "local_tokens es (m(token := Some who)) = Inr m'"
    using "2.prems" by (auto split: sum.splits if_split_asm)
  show ?case using "2.IH"[OF e(1) refl _ e(3)] e by (auto split: if_split_asm)
qed simp

end
