(* ===== verification/Login.thy ===== *)
theory Login
  imports Config Tenancy
begin

text \<open>
  Signing in, end to end: the configuration the process loaded, the server assembled from it, the provider's
  answers, the login transaction and the session. A production server lets in only accounts the provider vouched
  for and its cookies are secure; a session is opened only for the browser login it belongs to; and a login that
  goes well ends with a cookie the API accepts.
\<close>

section \<open>Trimming\<close>

lemma dropWhile_trimmed: "s \<noteq> [] \<Longrightarrow> \<not> P (hd s) \<Longrightarrow> dropWhile P s = s"
  by (cases s) auto

lemma trim_space_idem [simp]: "trim_space (trim_space s) = trim_space s"
proof (cases "trim_space s = []")
  case False
  define a where "a = dropWhile is_space s"
  define d where "d = dropWhile is_space (rev a)"
  have t: "trim_space s = rev d" by (simp add: trim_space_def a_def d_def)
  obtain p where "rev a = p @ d" using takeWhile_dropWhile_id[of is_space "rev a"] unfolding d_def by metis
  then have e: "a = rev d @ rev p" by (metis rev_append rev_rev_ident)
  have ne: "rev d \<noteq> []" using False t by simp
  then have h: "a \<noteq> []" "hd a = hd (rev d)" by (simp_all add: e)
  have "\<not> is_space (hd a)" using hd_dropWhile[of is_space s] h(1) unfolding a_def by blast
  then have "dropWhile is_space (rev d) = rev d" using ne h(2) by (intro dropWhile_trimmed) simp_all
  then have "trim_space (rev d) = rev (dropWhile is_space d)" by (simp add: trim_space_def)
  then show ?thesis unfolding t by (simp add: d_def dropWhile_idem)
qed (simp add: trim_space_def[of "[]"])

section \<open>Bearer tokens in production\<close>

lemma issue_time_okE:
  assumes "issue_time_ok a now tok"
  obtains t where "it_issued tok = Some t" "t \<le> now + two_minutes" "now \<le> t + a"
  using assms by (auto simp: issue_time_ok_def not_less split: option.splits)

lemma verify_tokenE:
  assumes "verify_token lib oc now raw = Some (iss, sub)"
  obtains tok t where "lib (oc_issuer oc) (oc_audience oc) (algs (oc_algs oc)) (trim_space raw) = Some tok"
    "iss = it_issuer tok" "sub = it_subject tok" "it_issued tok = Some t" "t \<le> now + two_minutes"
    "now \<le> t + oc_max_age oc"
  using assms by (auto simp: verify_token_def elim: issue_time_okE split: option.splits if_split_asm)

lemma auth_bearer_oidc:
  assumes "auth_bearer v header s = Some who" "sv_mode v = ''oidc''"
  obtains verify iss sub where "sv_verify v = Some verify" "verify (trim_space (drop 7 (trim_space header))) = Some (iss, sub)"
    "resolve_oidc_identity iss sub s = Inr who"
  using assms by (auto simp: auth_bearer_def Let_def split: if_split_asm option.splits sum.splits)

text \<open>
  C25. In production a bearer token lets nobody in unless the provider vouched for it: the issuer is reached over
  https, the library found the token signed by it with the pinned algorithm and for the configured audience, it
  was issued within the last hour (two minutes ahead at most), and its account resolves to the caller.
\<close>

theorem production_bearer:
  assumes "load_config parse_url env = Inr c" "production env"
    "auth_bearer (new_server parse_url lib pv v0 c now) header s = Some who"
  shows "\<exists>u tok t. parse_url (trim_space (env ''WORKFORCE_OIDC_ISSUER'')) = Some u \<and> ul_scheme u = ''https'' \<and>
    lib (trim_space (env ''WORKFORCE_OIDC_ISSUER'')) (trim_space (env ''WORKFORCE_OIDC_AUDIENCE'')) [''ES384'']
      (trim_space (drop 7 (trim_space header))) = Some tok \<and>
    it_issued tok = Some t \<and> t \<le> now + two_minutes \<and> now \<le> t + one_hour \<and>
    resolve_oidc_identity (it_issuer tok) (it_subject tok) s = Inr who"
using assms(1)
proof (cases rule: load_configE)
  case (oidc oc0)
  let ?v = "new_server parse_url lib pv v0 c now"
  have "sv_mode ?v = ''oidc''" using oidc(1) by (simp add: new_server_def)
  then obtain verify iss sub where v: "sv_verify ?v = Some verify"
      "verify (trim_space (drop 7 (trim_space header))) = Some (iss, sub)" "resolve_oidc_identity iss sub s = Inr who"
    using auth_bearer_oidc[OF assms(3)] by blast
  obtain oc where oc: "new_oidc_verifier parse_url (oidc_from_env env) = Inr oc" "verify = verify_token lib oc now"
    using v(1) oidc(1,3) by (auto simp: new_server_def split: sum.splits)
  obtain u where u: "parse_url (oc_issuer oc) = Some u" "ul_scheme u = ''https''"
      "oc_issuer oc = trim_space (env ''WORKFORCE_OIDC_ISSUER'')"
      "oc_audience oc = trim_space (env ''WORKFORCE_OIDC_AUDIENCE'')" "oc_algs oc = []" "oc_max_age oc = one_hour"
    by (rule new_oidc_verifierE[OF oc(1)]) (auto simp: oidc_from_env_def no_oidc_def)
  obtain tok t where "lib (oc_issuer oc) (oc_audience oc) (algs (oc_algs oc))
        (trim_space (trim_space (drop 7 (trim_space header)))) = Some tok"
      "iss = it_issuer tok" "sub = it_subject tok" "it_issued tok = Some t" "t \<le> now + two_minutes"
      "now \<le> t + oc_max_age oc"
    using v(2) unfolding oc(2) by (rule verify_tokenE)
  then show ?thesis using u v(3) by (auto simp: algs_def default_algs_def)
next
  case (local m)
  then show ?thesis using assms(2) by simp
qed

section \<open>Cookies\<close>

fun cookies_of :: "reply \<Rightarrow> cookie list" where
  "cookies_of (Found cs _) = cs"
| "cookies_of (WithCookies cs _) = cs"
| "cookies_of _ = []"

lemma no_cookies [simp]:
  "cookies_of (fail v e) = []" "cookies_of (invalid m) = []" "cookies_of not_found = []"
  "cookies_of unauthenticated = []" "cookies_of csrf_failed = []" "cookies_of organization_required = []"
  "cookies_of wrong_api_method = []" "cookies_of wrong_method = []" "cookies_of auth_error = []"
  "cookies_of (auth_redirect_error b code) = []" "cookies_of bad_day = []" "cookies_of (run_refusal v e) = []"
  "cookies_of (gate_refusal v e) = []"
  by (simp_all add: fail_def invalid_def not_found_def unauthenticated_def csrf_failed_def
      organization_required_def wrong_api_method_def wrong_method_def auth_error_def auth_redirect_error_def bad_day_def
      run_refusal_def gate_refusal_def)

definition bare :: "handler \<Rightarrow> bool" where
  "bare h \<longleftrightarrow> (\<forall>v rq who s. cookies_of (fst (h v rq who s)) = [])"

lemma bare_reading [simp]: "bare (reading f)"
  by (simp add: bare_def reading_def split: sum.split)

lemma bare_transact: "(\<And>v e. cookies_of (refuse v e) = []) \<Longrightarrow> bare (transact refuse code c f)"
  by (simp add: bare_def transact_def split: sum.split prod.split)

lemma bare_transacts [simp]:
  "bare (transact fail code c f)" "bare (transact run_refusal code c f)" "bare (transact gate_refusal code c f)"
  by (simp_all add: bare_transact)

lemma bareD: "bare h \<Longrightarrow> cookies_of (fst (h v rq who s)) = []"
  by (simp add: bare_def)

lemma transact_cookies:
  "cookies_of (fst (transact fail code c f v rq who s)) = []"
  by (rule bareD[OF bare_transacts(1)])

lemma bare_body: "(\<And>q. bare (k q)) \<Longrightarrow> bare (with_body f bad m k)"
  by (simp add: bare_def with_body_def split: option.split)

lemma bare_pair: "(\<And>a b. bare (f a b)) \<Longrightarrow> bare (case_prod f q)"
  by (cases q) simp

lemma bare_count: "bare k \<Longrightarrow> bare (segment_count n k)"
  by (simp add: bare_def segment_count_def)

lemma bare_operator: "bare k \<Longrightarrow> bare (operator_only k)"
  by (simp add: bare_def operator_only_def)

lemmas bare_intros = bare_body bare_pair bare_count bare_reading bare_transacts

lemma bare_plain:
  "bare post_project" "bare post_task" "bare post_agent" "bare post_template" "bare post_publish"
  "bare post_from_template" "bare post_position" "bare post_complete" "bare post_milestone_dependency"
  "bare post_dependency" "bare post_transition" "bare post_grant" "bare post_gate_response" "bare post_handoff"
  "bare post_accept" "bare post_run" "bare post_cancel" "bare post_proposal" "bare post_decision"
  "bare post_capability_check"
  unfolding post_project_def post_task_def post_agent_def post_template_def post_publish_def post_from_template_def
    post_position_def post_complete_def post_milestone_dependency_def post_dependency_def post_transition_def
    post_grant_def post_gate_response_def post_handoff_def post_accept_def post_run_def post_cancel_def
    post_proposal_def post_decision_def post_capability_check_def
  by (intro bare_intros)+

lemma bare_checked:
  "bare post_release" "bare post_relationship" "bare post_relationship_end" "bare post_milestone"
  "bare post_forecast" "bare post_handoff_reply" "bare get_gate_by_id" "bare get_relationships"
  by (auto simp: bare_def transact_cookies post_release_def post_relationship_def post_relationship_end_def post_milestone_def
        post_forecast_def post_handoff_reply_def get_gate_by_id_def get_relationships_def with_body_def
        split: option.split sum.split prod.split)

lemma bare_identity: "bare handle_identity_links" "bare handle_identity_unlink"
proof -
  have "bare (with_body f bad m (\<lambda>(a, b, p). transact fail 201 (\<lambda>_. CLink a b p)
      (\<lambda>v rq who. link_identity_by_admin (hq_id rq) (iy_org who) a b p (iy_id who) (hq_now rq))))" for f bad m
    by (intro bare_intros)
  from bareD[OF this] show "bare handle_identity_links"
    unfolding handle_identity_links_def by (intro bare_operator) (simp add: bare_def bareD[OF bare_reading])
  have "bare (with_body f bad m (\<lambda>(a, b). transact fail 200 CUnlinked
      (\<lambda>v rq who. unlink_identity_by_admin (hq_id rq) (iy_org who) a b (iy_id who) (hq_now rq))))" for f bad m
    by (intro bare_intros)
  from bareD[OF this] show "bare handle_identity_unlink"
    unfolding handle_identity_unlink_def by (intro bare_operator) (simp add: bare_def)
qed

lemma bare_routes: "on_routes (\<lambda>_. bare)"
  unfolding on_routes_def routes_def main_routes_def resource_routes_def
  by (simp add: bare_plain bare_checked bare_identity safe_handlers bare_count)

lemma api_bare: "cookies_of (fst (api v rq s)) = []"
proof -
  have "cookies_of (fst (first_route routes v rq who s0)) = []" for who s0
    using first_route_cases[of routes v rq who s0] bare_routes by (auto simp: on_routes_def list_all_iff bare_def)
  then show ?thesis by (simp add: api_def split: option.split prod.split)
qed

lemma serve_cookies:
  assumes "ck \<in> set (cookies_of (fst (serve ui v rq s)))" "cookies_of (ui rq) = []"
  shows "\<exists>b. sv_bff v = Some b \<and> ck_secure ck = bf_secure b \<and> (ck_name ck = session_cookie_name \<longrightarrow> ck_http_only ck)"
proof -
  have n: "''workforce_csrf'' \<noteq> session_cookie_name" by (simp add: session_cookie_name_def)
  have "ck \<in> set (cookies_of (fst (handle_login v rq s))) \<Longrightarrow> ?thesis"
    "ck \<in> set (cookies_of (fst (handle_callback v rq s))) \<Longrightarrow> ?thesis"
    "ck \<in> set (cookies_of (fst (handle_logout v rq s))) \<Longrightarrow> ?thesis"
    "ck \<in> set (cookies_of (fst (handle_session v rq s))) \<Longrightarrow> ?thesis"
    by (auto simp: handle_login_def handle_callback_def open_session_def handle_logout_def handle_session_def Let_def
        session_cookie_def csrf_cookie_def n split: option.splits if_split_asm prod.splits sum.splits)
  then show ?thesis using assms(1) by (simp add: serve_def Let_def api_bare assms(2) split: if_split_asm)
qed

text \<open>
  C26. Cookies are safe in production: whatever the request, every cookie the server sets is marked secure, and
  the session cookie is out of reach of scripts.
\<close>

theorem production_cookies:
  assumes "load_config parse_url env = Inr c" "production env" "cookies_of (ui rq) = []"
    "ck \<in> set (cookies_of (fst (serve ui (new_server parse_url lib pv v0 c now) rq s)))"
  shows "ck_secure ck \<and> (ck_name ck = session_cookie_name \<longrightarrow> ck_http_only ck)"
  using assms(1)
proof (cases rule: load_configE)
  case (oidc oc)
  obtain b where b: "sv_bff (new_server parse_url lib pv v0 c now) = Some b" "ck_secure ck = bf_secure b"
      "ck_name ck = session_cookie_name \<longrightarrow> ck_http_only ck"
    using serve_cookies[OF assms(4,3)] by blast
  have "bf_secure b = br_secure (browser_from_env env)"
    using b(1) oidc(1,4) by (auto simp: new_server_def browser_login_def split: if_split_asm sum.splits)
  then show ?thesis using oidc(6)[OF assms(2)] b by simp
next
  case (local m)
  then show ?thesis using assms(2) by simp
qed

section \<open>A session belongs to one login\<close>

lemma exchange_codeE:
  assumes "exchange_code lib redeem c now code verifier expected = Inr (iss, sub)"
  obtains raw tok t where "redeem code verifier = Some raw" "lib (oa_issuer c) (oa_client_id c) (algs (oa_algs c)) raw = Some tok"
    "it_nonce tok = Some expected" "expected \<noteq> []" "it_issued tok = Some t" "t \<le> now + two_minutes"
    "now \<le> t + one_hour" "iss = it_issuer tok" "sub = it_subject tok"
  using assms
  by (auto simp: exchange_code_def tokens_equal_iff elim: issue_time_okE split: if_split_asm option.splits sum.splits)

lemma new_oauth_clientE:
  assumes "new_oauth_client parse_url discover c = Inr oa"
  obtains "oa_issuer oa = trim_space (oa_issuer c)" "oa_client_id oa = oa_client_id c" "oa_algs oa = oa_algs c"
    "oa_session_ttl oa = (if oa_session_ttl c \<le> 0 then 12 * one_hour else oa_session_ttl c)"
  using assms by (auto simp: new_oauth_client_def Let_def split: if_split_asm sum.splits)

lemma resolve_same:
  assumes "identity_links s' = identity_links s" "principals s' = principals s"
  shows "resolve_oidc_identity iss sub s' = resolve_oidc_identity iss sub s"
  unfolding resolve_oidc_identity_def resolve_identity_def principal_in_tx_def assms ..

lemma consume_loginE:
  assumes "consume_login h now s = Inr (lt, s')"
  obtains "lt \<in> set (logins s)" "usable_login h now lt"
    "s' = s\<lparr>logins := update_where (usable_login h now) (\<lambda>x. x\<lparr>lt_consumed := Some now\<rparr>) (logins s)\<rparr>"
  using assms by (auto simp: consume_login_def dest: row_SomeD split: option.splits)

lemma consumed_unusable:
  "consume_login h now s = Inr (lt, s') \<Longrightarrow> x \<in> set (logins s') \<Longrightarrow> \<not> usable_login h now x"
  by (erule consume_loginE) (auto simp: update_where_def usable_login_def)

lemma create_sessionE:
  assumes "create_session sha token org who iss sub csrf ttl now s = Inr (raw, s')"
  obtains x where "raw = token" "sessions s' = sessions s @ [x]" "se_hash x = sha token" "se_org x = org"
    "se_principal x = who" "se_issuer x = iss" "se_subject x = sub" "se_csrf x = csrf" "se_expires x = now + ttl"
    "se_revoked x = None" "logins s' = logins s"
  using assms by (auto simp: create_session_def split: if_split_asm)

text \<open>The one way through \<open>open_session\<close> that adds a session.\<close>

lemma open_sessionE:
  assumes "open_session v b rq code lt s = (r, s')" "sessions s' \<noteq> sessions s"
  obtains iss sub p x where "bf_exchange b code (lt_verifier lt) (lt_nonce lt) = Some (iss, sub)"
    "resolve_oidc_identity iss sub s = Inr p" "sessions s' = sessions s @ [x]" "se_org x = iy_org p"
    "se_principal x = iy_id p" "se_issuer x = iss" "se_subject x = sub" "logins s' = logins s"
proof -
  obtain iss sub where e: "bf_exchange b code (lt_verifier lt) (lt_nonce lt) = Some (iss, sub)"
    using assms by (auto simp: open_session_def split: option.splits)
  obtain p where p: "resolve_oidc_identity iss sub s = Inr p" "iy_org p \<noteq> []"
    using assms e by (auto simp: open_session_def split: sum.splits if_split_asm)
  let ?c = "create_session (token_hash v) (new_opaque_token (hq_random rq 1)) (iy_org p) (iy_id p) iss sub
      (new_opaque_token (hq_random rq 0)) (bf_ttl b * 1000000) (hq_now rq) s"
  obtain raw t where c: "?c = Inr (raw, t)"
    using assms e p by (auto simp: open_session_def with_org_def Let_def split: sum.splits)
  have "s' = t" using assms e p c by (simp add: open_session_def with_org_def Let_def)
  then show thesis using create_sessionE[OF c] that[OF e p(1)] by blast
qed

text \<open>
  C23. A session is opened only for the browser that started the login: if a callback adds a session, there was
  an unused, unexpired login of its state, which is spent now; the provider redeemed the code for that login's
  verifier; the ID token is the library's, for this client, with the nonce of that login and not older than an
  hour; and the session is the one of the account the token names.
\<close>

theorem sign_in_bound:
  assumes "load_config parse_url env = Inr c"
    "handle_callback (new_server parse_url lib pv v0 c now) rq s = (r, s')" "sessions s' \<noteq> sessions s"
  shows "\<exists>lt\<in>set (logins s). \<exists>oa raw tok t p x.
    usable_login (token_hash v0 (hq_query rq ''state'')) (hq_now rq) lt \<and>
    (\<forall>l\<in>set (logins s'). \<not> usable_login (token_hash v0 (hq_query rq ''state'')) (hq_now rq) l) \<and>
    pv_redeem pv oa (hq_query rq ''code'') (lt_verifier lt) = Some raw \<and>
    lib (trim_space (env ''WORKFORCE_OIDC_ISSUER'')) (trim_space (env ''WORKFORCE_OIDC_CLIENT_ID'')) [''ES384''] raw = Some tok \<and>
    it_nonce tok = Some (lt_nonce lt) \<and> it_issued tok = Some t \<and> t \<le> now + two_minutes \<and> now \<le> t + one_hour \<and>
    resolve_oidc_identity (it_issuer tok) (it_subject tok) s = Inr p \<and> sessions s' = sessions s @ [x] \<and>
    se_org x = iy_org p \<and> se_principal x = iy_id p \<and> se_issuer x = it_issuer tok \<and> se_subject x = it_subject tok"
proof -
  let ?v = "new_server parse_url lib pv v0 c now" and ?h = "token_hash v0 (hq_query rq ''state'')"
  have sha: "sv_sha ?v = sv_sha v0" by (simp add: new_server_def)
  obtain b where b: "sv_bff ?v = Some b" using assms(2,3) by (auto simp: handle_callback_def split: option.splits)
  then have oidc: "cf_mode c = ''oidc''" by (auto simp: new_server_def split: if_split_asm)
  have env: "cf_oidc c = oidc_from_env env" "cf_browser c = browser_from_env env"
    using assms(1) oidc by (auto elim: load_configE)
  obtain oa where oa: "oa_issuer oa = trim_space (env ''WORKFORCE_OIDC_ISSUER'')"
      "oa_client_id oa = trim_space (env ''WORKFORCE_OIDC_CLIENT_ID'')" "oa_algs oa = []"
      "bf_exchange b = (\<lambda>code verifier nonce. case exchange_code lib (pv_redeem pv oa) oa now code verifier nonce of
         Inl _ \<Rightarrow> None | Inr x \<Rightarrow> Some x)"
    using b oidc
    by (auto simp: new_server_def browser_login_def env browser_oauth_def browser_from_env_def oidc_from_env_def
        elim!: new_oauth_clientE split: if_split_asm sum.splits)
  obtain lt s1 where l: "consume_login ?h (hq_now rq) s = Inr (lt, s1)"
    using assms(2,3) b
    by (auto simp: handle_callback_def with_org_def sha split: if_split_asm sum.splits prod.splits)
  have o: "open_session ?v b rq (hq_query rq ''code'') lt s1 = (r, s')"
    using assms(2,3) b l by (auto simp: handle_callback_def with_org_def sha split: if_split_asm)
  have s1: "lt \<in> set (logins s)" "usable_login ?h (hq_now rq) lt" "sessions s1 = sessions s"
      "\<And>iss sub. resolve_oidc_identity iss sub s1 = resolve_oidc_identity iss sub s"
    using l by (auto elim!: consume_loginE intro: resolve_same)
  obtain iss sub p x where x: "bf_exchange b (hq_query rq ''code'') (lt_verifier lt) (lt_nonce lt) = Some (iss, sub)"
      "resolve_oidc_identity iss sub s1 = Inr p" "sessions s' = sessions s1 @ [x]" "se_org x = iy_org p"
      "se_principal x = iy_id p" "se_issuer x = iss" "se_subject x = sub" "logins s' = logins s1"
    by (rule open_sessionE[OF o]) (use assms(3) s1(3) in auto)
  have "exchange_code lib (pv_redeem pv oa) oa now (hq_query rq ''code'') (lt_verifier lt) (lt_nonce lt) = Inr (iss, sub)"
    using x(1) by (auto simp: oa(4) split: sum.splits)
  then obtain raw tok t where "pv_redeem pv oa (hq_query rq ''code'') (lt_verifier lt) = Some raw"
      "lib (oa_issuer oa) (oa_client_id oa) (algs (oa_algs oa)) raw = Some tok" "it_nonce tok = Some (lt_nonce lt)"
      "it_issued tok = Some t" "t \<le> now + two_minutes" "now \<le> t + one_hour" "iss = it_issuer tok" "sub = it_subject tok"
    by (rule exchange_codeE)
  then show ?thesis
    using s1 x consumed_unusable[OF l] oa(1-3) by (intro bexI[OF _ s1(1)] exI conjI) (auto simp: algs_def default_algs_def)
qed

section \<open>A login that goes well\<close>

lemma resolve_oidc_okE:
  assumes "resolve_oidc_identity iss sub s = Inr p"
  obtains l q where "l \<in> set (identity_links s)" "il_issuer l = iss" "il_subject l = sub" "il_active l"
    "iss \<noteq> []" "sub \<noteq> []" "principal_in_tx (il_org l) (il_principal l) s = Inr p"
    "q \<in> set (principals s)" "pr_org q = il_org l" "pr_id q = il_principal l" "p = ident_of q"
proof -
  obtain l where l: "l \<in> set (identity_links s)" "il_issuer l = iss" "il_subject l = sub" "il_active l"
      "iss \<noteq> []" "sub \<noteq> []" "principal_in_tx (il_org l) (il_principal l) s = Inr p"
    using assms
    by (auto simp: resolve_oidc_identity_def resolve_identity_def Let_def dest!: row_SomeD
        split: if_split_asm option.splits sum.splits)
  show thesis by (rule principal_in_tx_ok[OF l(7)]) (rule that[OF l])
qed

lemma read_new_session:
  assumes "accounts_ok s" "resolve_oidc_identity iss sub s = Inr p" "tok \<noteq> []" "t < se_expires x"
    "sessions s' = sessions s @ [x]" "identity_links s' = identity_links s" "principals s' = principals s"
    "se_hash x = sha tok" "se_org x = iy_org p" "se_principal x = iy_id p" "se_issuer x = iss" "se_subject x = sub"
    "se_revoked x = None" "\<forall>y\<in>set (sessions s). se_hash y \<noteq> sha tok"
  shows "\<exists>s''. read_session sha tok t s' = Inr ((x, p), s'')"
proof -
  obtain l q where l: "l \<in> set (identity_links s)" "il_issuer l = iss" "il_subject l = sub" "il_active l"
      "principal_in_tx (il_org l) (il_principal l) s = Inr p" "pr_org q = il_org l" "pr_id q = il_principal l" "p = ident_of q"
    using assms(2) by (rule resolve_oidc_okE)
  have "find_link iss sub s = Some l"
    by (rule row_unique[OF accounts_okD(2)[OF assms(1)] l(1)]) (use l in auto)
  moreover have "row (\<lambda>x. se_hash x = sha tok \<and> se_revoked x = None \<and> t < se_expires x) (sessions s') = Some x"
  proof -
    have "row (\<lambda>x. se_hash x = sha tok \<and> se_revoked x = None \<and> t < se_expires x) (sessions s) = None"
      using assms(14) by (simp add: row_None_iff)
    then show ?thesis using assms(4,5,8,13) by (simp add: row_append)
  qed
  ultimately show ?thesis
    using assms l by (simp add: read_session_def resolve_identity_def principal_in_tx_def ident_of_def)
qed

lemma handle_login_found:
  assumes "sv_bff v = Some b" "handle_login v rq s = (Found cs loc, s')"
  shows "\<exists>lt. lt \<in> set (logins s') \<and> lt_hash lt = token_hash v (new_opaque_token (hq_random rq 0)) \<and>
    lt_verifier lt = new_pkce_verifier (hq_random rq 2) \<and> lt_nonce lt = new_opaque_token (hq_random rq 1) \<and>
    lt_consumed lt = None \<and> lt_expires lt = hq_now rq + login_ttl"
  using assms
  by (auto simp: handle_login_def create_login_def with_org_def Let_def auth_error_def wrong_method_def
      split: if_split_asm sum.splits prod.splits)

lemma consume_login_ok:
  assumes "accounts_ok s" "lt \<in> set (logins s)" "lt_consumed lt = None" "now < lt_expires lt"
  shows "consume_login (lt_hash lt) now s = Inr (lt, s\<lparr>logins := update_where (usable_login (lt_hash lt) now)
    (\<lambda>x. x\<lparr>lt_consumed := Some now\<rparr>) (logins s)\<rparr>)"
proof -
  have "row (usable_login (lt_hash lt) now) (logins s) = Some lt"
    by (rule row_unique[where k = lt_hash]) (use assms in \<open>auto simp: accounts_ok_def usable_login_def\<close>)
  then show ?thesis by (simp add: consume_login_def)
qed

text \<open>
  C24. A login round trip: when a login was started, other transactions may pass as long as its row stays, and the
  provider then answers for an account that resolves to a principal, the callback sends the browser on with
  a session cookie that the API accepts as that principal until the session expires, with the CSRF token it
  was given; repeating the callback is refused.
\<close>

theorem login_roundtrip:
  assumes bff: "sv_bff v = Some b" "0 < bf_ttl b"
    and start: "handle_login v rq1 s = (Found cs loc, s1)"
    and later: "accounts_ok s2" "set (logins s1) \<subseteq> set (logins s2)" "hq_now rq2 < hq_now rq1 + login_ttl"
    and callback: "hq_method rq2 = ''GET''" "hq_query rq2 ''error'' = []" "hq_query rq2 ''code'' \<noteq> []"
      "hq_query rq2 ''state'' = new_opaque_token (hq_random rq1 0)" "new_opaque_token (hq_random rq1 0) \<noteq> []"
    and provider: "bf_exchange b (hq_query rq2 ''code'') (new_pkce_verifier (hq_random rq1 2))
      (new_opaque_token (hq_random rq1 1)) = Some (iss, sub)" "resolve_oidc_identity iss sub s2 = Inr p"
      "iy_org p \<noteq> []" "iy_id p \<noteq> []"
    and tokens: "csrf = new_opaque_token (hq_random rq2 0)" "tok = new_opaque_token (hq_random rq2 1)"
      "csrf \<noteq> []" "tok \<noteq> []" "\<forall>y\<in>set (sessions s2). se_hash y \<noteq> token_hash v tok"
  shows "\<exists>cks target s3. handle_callback v rq2 s2 = (Found cks target, s3) \<and>
    session_cookie b tok (bf_ttl b) \<in> set cks \<and>
    (\<forall>rq3. hq_cookie rq3 = tok \<and> \<not> has_prefix (trim_space (hq_authorization rq3)) bearer_prefix \<and>
       hq_now rq3 < hq_now rq2 + bf_ttl b * 1000000 \<longrightarrow>
       (\<exists>x. fst (authorize v rq3 s3) = Some (p, Some x) \<and> se_csrf x = csrf)) \<and>
    handle_callback v rq2 s3 = (auth_redirect_error b ''login_expired'', s3)"
proof -
  obtain lt where lt: "lt \<in> set (logins s2)" "lt_hash lt = token_hash v (hq_query rq2 ''state'')"
      "lt_verifier lt = new_pkce_verifier (hq_random rq1 2)" "lt_nonce lt = new_opaque_token (hq_random rq1 1)"
      "lt_consumed lt = None" "hq_now rq2 < lt_expires lt"
    using handle_login_found[OF bff(1) start] later(2,3) callback(4) by fastforce
  let ?h = "token_hash v (hq_query rq2 ''state'')"
  define t where "t = s2\<lparr>logins := update_where (usable_login ?h (hq_now rq2))
    (\<lambda>x. x\<lparr>lt_consumed := Some (hq_now rq2)\<rparr>) (logins s2)\<rparr>"
  have c: "consume_login ?h (hq_now rq2) s2 = Inr (lt, t)"
    using consume_login_ok[OF later(1) lt(1,5,6)] by (simp add: lt(2) t_def)
  have r: "resolve_oidc_identity iss sub t = Inr p"
    using provider(2) by (subst resolve_same[of t s2]) (simp_all add: t_def)
  obtain l q where l: "iss \<noteq> []" "sub \<noteq> []" "q \<in> set (principals s2)" "pr_org q = iy_org p" "pr_id q = iy_id p"
    using provider(2) by (rule resolve_oidc_okE) (auto simp: ident_of_def)
  define x where "x = \<lparr>se_hash = token_hash v tok, se_org = iy_org p, se_principal = iy_id p, se_issuer = iss,
    se_subject = sub, se_csrf = csrf, se_expires = hq_now rq2 + bf_ttl b * 1000000, se_seen = hq_now rq2,
    se_revoked = None\<rparr>"
  define s3 where "s3 = t\<lparr>sessions := sessions t @ [x]\<rparr>"
  have "find_principal (iy_org p) (iy_id p) t \<noteq> None"
    using l(3-5) by (auto simp: row_None_iff t_def)
  moreover have "\<not> exists_row (\<lambda>y. se_hash y = token_hash v tok) (sessions t)"
    using tokens(5) by (auto simp: exists_row_def t_def)
  ultimately have n: "create_session (token_hash v) tok (iy_org p) (iy_id p) iss sub csrf (bf_ttl b * 1000000) (hq_now rq2) t =
      Inr (tok, s3)"
    using provider(3,4) l(1,2) tokens(3) bff(2) by (simp add: create_session_def s3_def x_def)
  have cb: "handle_callback v rq2 s2 = (Found [session_cookie b tok (bf_ttl b), csrf_cookie b csrf (bf_ttl b)]
      (redirect_target b (safe_return_to (lt_return lt))), s3)"
    using bff(1) callback c r n provider(1,3) lt(3,4)
    by (simp add: handle_callback_def open_session_def with_org_def tokens(1,2))
  have api: "\<exists>x. fst (authorize v rq3 s3) = Some (p, Some x) \<and> se_csrf x = csrf"
    if rq3: "hq_cookie rq3 = tok" "\<not> has_prefix (trim_space (hq_authorization rq3)) bearer_prefix"
      "hq_now rq3 < hq_now rq2 + bf_ttl b * 1000000" for rq3
  proof -
    have "\<exists>s4. read_session (token_hash v) tok (hq_now rq3) s3 = Inr ((x, p), s4)"
      by (rule read_new_session[OF later(1) provider(2) tokens(4)])
         (use rq3(3) tokens(5) in \<open>simp_all add: s3_def t_def x_def\<close>)
    then obtain s4 where "read_session (token_hash v) tok (hq_now rq3) s3 = Inr ((x, p), s4)" ..
    then have "fst (authorize v rq3 s3) = Some (p, Some x)"
      using rq3(1,2) bff(1) tokens(4) by (simp add: authorize_def session_identity_def with_org_def)
    then show ?thesis by (simp add: x_def)
  qed
  have "row (usable_login ?h (hq_now rq2)) (logins s3) = None"
    using consumed_unusable[OF c] by (simp add: s3_def row_None_iff)
  then have "consume_login ?h (hq_now rq2) s3 = Inl LoginUnusable" by (simp add: consume_login_def)
  then have "handle_callback v rq2 s3 = (auth_redirect_error b ''login_expired'', s3)"
    using bff(1) callback by (simp add: handle_callback_def with_org_def)
  then show ?thesis using cb api by fastforce
qed

section \<open>An example\<close>

definition demo_env :: "string \<Rightarrow> string" where
  "demo_env k =
     (case map_of [(''AUTH_MODE'', '' OIDC''), (''APP_ENV'', ''production''), (''WORKFORCE_OIDC_ISSUER'', ''https://i''),
        (''WORKFORCE_OIDC_AUDIENCE'', ''api''), (''WORKFORCE_OIDC_CLIENT_ID'', ''web''),
        (''WORKFORCE_OIDC_CLIENT_SECRET'', ''x''), (''WORKFORCE_OIDC_REDIRECT_URL'', ''https://w/auth/callback''),
        (''WORKFORCE_UI_ORIGIN'', ''https://w/'')] k of None \<Rightarrow> [] | Some x \<Rightarrow> x)"

definition demo_url :: "string \<Rightarrow> url option" where
  "demo_url t = (if t = ''https://i'' then Some \<lparr>ul_scheme = ''https'', ul_host = ''i'', ul_hostname = ''i''\<rparr> else None)"

text \<open>The provider's tokens: the raw text is the subject, issued at 4 with the nonce \<open>n\<close>.\<close>

definition demo_lib :: token_library where
  "demo_lib issuer audience as raw =
     (if issuer = ''https://i'' \<and> audience \<in> {''api'', ''web''} \<and> as = [''ES384'']
      then Some \<lparr>it_issuer = ''i'', it_subject = raw, it_issued = Some 4, it_nonce = Some ''n''\<rparr> else None)"

definition demo_provider :: provider where
  "demo_provider = \<lparr>pv_discover = \<lambda>_. True, pv_redeem = \<lambda>_ code _. if code = ''c'' then Some ''s2'' else None,
     pv_auth_url = \<lambda>_ _ _. ''https://i/auth'', pv_end_session = None, pv_with_redirect = \<lambda>_ _. None\<rparr>"

definition demo_config :: config where
  "demo_config = projr (load_config demo_url demo_env)"

lemma demo_config_loads: "load_config demo_url demo_env = Inr demo_config"
proof -
  have "\<not> (case load_config demo_url demo_env of Inl _ \<Rightarrow> True | Inr _ \<Rightarrow> False)" by code_simp
  then show ?thesis by (auto simp: demo_config_def split: sum.splits)
qed

lemma demo_production: "production demo_env"
  by code_simp

definition demo_server :: server where
  "demo_server = new_server demo_url demo_lib demo_provider edge_server demo_config 5"

text \<open>The example of \<open>Edge\<close> with a pending login of the state \<open>st\<close>.\<close>

definition login_db :: db where
  "login_db = edge_db\<lparr>logins := [\<lparr>lt_hash = token_hash edge_server ''st'', lt_verifier = replicate 43 CHR ''a'', lt_nonce = ''n'',
     lt_return = ''/'', lt_expires = 600, lt_consumed = None\<rparr>]\<rparr>"

definition callback_request :: "string \<Rightarrow> http_request" where
  "callback_request state = (edge_request ''GET'' ''/auth/callback'' [])\<lparr>hq_query := (\<lambda>k. if k = ''state'' then state
     else if k = ''code'' then ''c'' else []), hq_random := (\<lambda>n. [of_nat n])\<rparr>"

theorem production_bearer_witness:
  "\<exists>u. demo_url ''https://i'' = Some u \<and> ul_scheme u = ''https''"
proof -
  have "auth_bearer (new_server demo_url demo_lib demo_provider edge_server demo_config 5) ''Bearer s2'' edge_db =
      Some \<lparr>iy_id = ''a'', iy_org = ''o'', iy_role = Admin, iy_name = ''a''\<rparr>" by code_simp
  from production_bearer[OF demo_config_loads demo_production this]
  have "\<exists>u. demo_url (trim_space (demo_env ''WORKFORCE_OIDC_ISSUER'')) = Some u \<and> ul_scheme u = ''https''" by blast
  moreover have "trim_space (demo_env ''WORKFORCE_OIDC_ISSUER'') = ''https://i''" by code_simp
  ultimately show ?thesis by simp
qed

theorem production_cookies_witness:
  "ck_secure (hd (cookies_of (fst (serve (\<lambda>_. Plain 200 []) demo_server (callback_request ''st'') login_db))))"
proof -
  let ?cs = "cookies_of (fst (serve (\<lambda>_. Plain 200 []) demo_server (callback_request ''st'') login_db))"
  have "?cs \<noteq> []" by code_simp
  then have "hd ?cs \<in> set ?cs" by simp
  from production_cookies[OF demo_config_loads demo_production _ this[unfolded demo_server_def]]
  show ?thesis unfolding demo_server_def by simp
qed

theorem sign_in_bound_witness:
  "\<exists>lt\<in>set (logins login_db). lt_nonce lt = ''n'' \<and>
     (\<forall>l\<in>set (logins (snd (handle_callback demo_server (callback_request ''st'') login_db))).
        \<not> usable_login (token_hash edge_server ''st'') 5 l)"
proof -
  let ?rs = "handle_callback demo_server (callback_request ''st'') login_db"
  have n: "sessions (snd ?rs) \<noteq> sessions login_db" by code_simp
  have e: "handle_callback (new_server demo_url demo_lib demo_provider edge_server demo_config 5) (callback_request ''st'')
      login_db = (fst ?rs, snd ?rs)" by (simp add: demo_server_def)
  have q: "hq_query (callback_request ''st'') ''state'' = ''st''" "hq_now (callback_request ''st'') = 5" by code_simp+
  obtain lt where "lt \<in> set (logins login_db)"
      "\<forall>l\<in>set (logins (snd ?rs)). \<not> usable_login (token_hash edge_server ''st'') 5 l"
    using sign_in_bound[OF demo_config_loads e n] unfolding q by blast
  moreover have "\<forall>lt\<in>set (logins login_db). lt_nonce lt = ''n''" by (simp add: login_db_def)
  ultimately show ?thesis by blast
qed

definition login_bff :: bff where
  "login_bff = edge_bff\<lparr>bf_exchange := (\<lambda>_ _ _. Some (''i'', ''s2''))\<rparr>"

definition login_server :: server where
  "login_server = edge_server\<lparr>sv_bff := Some login_bff\<rparr>"

definition login_started :: db where
  "login_started = snd (handle_login login_server (callback_request []) edge_db)"

theorem login_roundtrip_witness:
  "\<exists>cks target s3. handle_callback login_server (callback_request (new_opaque_token [0])) login_started = (Found cks target, s3) \<and>
     session_cookie login_bff (new_opaque_token [1]) 3600 \<in> set cks"
proof -
  let ?rq1 = "callback_request []" and ?rq2 = "callback_request (new_opaque_token [0])"
  have r: "hq_random (callback_request x) n = [of_nat n]" "hq_method (callback_request x) = ''GET''"
      "hq_query (callback_request x) ''error'' = []" "hq_query (callback_request x) ''code'' = ''c''"
      "hq_query (callback_request x) ''state'' = x" "hq_now (callback_request x) = 5" for x n
    by (simp_all add: callback_request_def edge_request_def)
  have bff: "sv_bff login_server = Some login_bff" "bf_ttl login_bff = 3600"
      "bf_exchange login_bff = (\<lambda>_ _ _. Some (''i'', ''s2''))"
    by (simp_all add: login_server_def login_bff_def edge_bff_def)
  have start: "handle_login login_server ?rq1 edge_db = (Found [] [], login_started)" by code_simp
  have ok: "accounts_ok login_started" by code_simp
  have p: "resolve_oidc_identity ''i'' ''s2'' login_started =
      Inr \<lparr>iy_id = ''a'', iy_org = ''o'', iy_role = Admin, iy_name = ''a''\<rparr>" by code_simp
  have "list_all (\<lambda>y. se_hash y \<noteq> token_hash login_server (new_opaque_token [1])) (sessions login_started)" by code_simp
  then have f: "\<forall>y\<in>set (sessions login_started). se_hash y \<noteq> token_hash login_server (new_opaque_token (hq_random ?rq2 1))"
    by (simp add: list_all_iff r(1))
  have ne: "new_opaque_token [0] \<noteq> []" "new_opaque_token [1] \<noteq> []" by code_simp+
  have "\<exists>cks target s3. handle_callback login_server ?rq2 login_started = (Found cks target, s3) \<and>
      session_cookie login_bff (new_opaque_token (hq_random ?rq2 1)) (bf_ttl login_bff) \<in> set cks"
    using login_roundtrip[OF bff(1) _ start ok _ _ _ _ _ _ _ _ p _ _ refl refl _ _ f]
    by (simp add: r bff(2,3) ne login_ttl_def) blast
  then show ?thesis by (simp add: r(1) bff(2))
qed

end
