(* ===== verification/Migrate.thy ===== *)
theory Migrate
  imports Prelude
begin

text \<open>
  The runner of the schema migrations, \<^verbatim>\<open>internal/store/migrations.go\<close>. The session holds an advisory lock, so one run
  at a time. A file is its version and its text, in the sorted order of \<^verbatim>\<open>filepath.Glob\<close>; the table
  \<^verbatim>\<open>workforce_migrations\<close> maps versions to checksums, \<open>Some None\<close> being a row without one. What the SQL of a file does
  to the rest of the database is the parameter \<open>exec\<close>, \<open>None\<close> when it fails; \<open>river\<close> stands for the migrations of the
  job queue. Every file is a transaction of its own, so an error keeps what the files before it did.
\<close>

record 'd migrated =
  mg_table :: "string \<Rightarrow> string option option"
  mg_schema :: 'd

datatype migrate_error = LacksChecksum string | ChecksumMismatch string | MigrationFailed string | RiverFailed

record migrate_flags =
  mf_adopt :: bool
  mf_repair :: bool

definition migrate_file ::
    "(string \<Rightarrow> string) \<Rightarrow> (string \<Rightarrow> 'd \<Rightarrow> 'd option) \<Rightarrow> migrate_flags \<Rightarrow> string \<times> string \<Rightarrow> 'd migrated \<Rightarrow>
     migrate_error + 'd migrated" where
  "migrate_file sha exec fl file s =
     (let (version, body) = file; sum = sha body; recorded = s\<lparr>mg_table := (mg_table s)(version := Some (Some sum))\<rparr>
      in case mg_table s version of
           Some None \<Rightarrow> if mf_adopt fl then Inr recorded else Inl (LacksChecksum version)
         | Some (Some stored) \<Rightarrow>
             if stored = sum then Inr s
             else if mf_repair fl then Inr recorded
             else Inl (ChecksumMismatch version)
         | None \<Rightarrow> (case exec body (mg_schema s) of
             None \<Rightarrow> Inl (MigrationFailed version)
           | Some d \<Rightarrow> Inr (recorded\<lparr>mg_schema := d\<rparr>)))"

fun migrate_files ::
    "(string \<Rightarrow> string) \<Rightarrow> (string \<Rightarrow> 'd \<Rightarrow> 'd option) \<Rightarrow> migrate_flags \<Rightarrow> (string \<times> string) list \<Rightarrow> 'd migrated \<Rightarrow>
     migrate_error option \<times> 'd migrated" where
  "migrate_files sha exec fl [] s = (None, s)"
| "migrate_files sha exec fl (f # fs) s =
     (case migrate_file sha exec fl f s of
        Inl e \<Rightarrow> (Some e, s)
      | Inr s' \<Rightarrow> migrate_files sha exec fl fs s')"

definition migrate ::
    "(string \<Rightarrow> string) \<Rightarrow> (string \<Rightarrow> 'd \<Rightarrow> 'd option) \<Rightarrow> ('d \<Rightarrow> 'd option) \<Rightarrow> migrate_flags \<Rightarrow> (string \<times> string) list \<Rightarrow>
     'd migrated \<Rightarrow> migrate_error option \<times> 'd migrated" where
  "migrate sha exec river fl fs s =
     (case migrate_files sha exec fl fs s of
        (Some e, s') \<Rightarrow> (Some e, s')
      | (None, s') \<Rightarrow> (case river (mg_schema s') of
          None \<Rightarrow> (Some RiverFailed, s')
        | Some d \<Rightarrow> (None, s'\<lparr>mg_schema := d\<rparr>)))"

section \<open>What a run does\<close>

text \<open>The reference: the texts of the files that are not in the table, run in order.\<close>

fun run_all :: "(string \<Rightarrow> 'd \<Rightarrow> 'd option) \<Rightarrow> string list \<Rightarrow> 'd \<Rightarrow> 'd option" where
  "run_all exec [] d = Some d"
| "run_all exec (b # bs) d = (case exec b d of None \<Rightarrow> None | Some d' \<Rightarrow> run_all exec bs d')"

definition pending :: "('v \<Rightarrow> 'c option) \<Rightarrow> ('v \<times> 'b) list \<Rightarrow> 'b list" where
  "pending m fs = map snd (filter (\<lambda>f. m (fst f) = None) fs)"

lemma migrate_file_cases:
  assumes "migrate_file sha exec fl (v, b) s = Inr s'"
  obtains (new) d where "mg_table s v = None" "exec b (mg_schema s) = Some d"
      "s' = s\<lparr>mg_table := (mg_table s)(v := Some (Some (sha b))), mg_schema := d\<rparr>"
  | (known) c where "mg_table s v = Some c" "s' = s\<lparr>mg_table := (mg_table s)(v := Some (Some (sha b)))\<rparr>"
  using assms by (auto simp: migrate_file_def Let_def fun_upd_idem split: option.splits if_split_asm)

lemma pending_upd: "v \<notin> fst ` set fs \<Longrightarrow> pending (m(v := Some c)) fs = pending m fs"
  unfolding pending_def by (intro arg_cong[where f = "map snd"] filter_cong) auto

definition recording :: "(string \<Rightarrow> string) \<Rightarrow> (string \<times> string) list \<Rightarrow> (string \<Rightarrow> string option option) \<Rightarrow> string \<Rightarrow> string option option" where
  "recording sha fs m = (\<lambda>v. case map_of fs v of None \<Rightarrow> m v | Some b \<Rightarrow> Some (Some (sha b)))"

lemma recording_Cons:
  "v \<notin> fst ` set fs \<Longrightarrow> recording sha fs (m(v := Some (Some (sha b)))) = recording sha ((v, b) # fs) m"
  by (auto simp: recording_def fun_eq_iff map_of_eq_None_iff[symmetric] split: option.split)

lemma migrate_files_ok:
  assumes "migrate_files sha exec fl fs s = (None, s')" "distinct (map fst fs)"
  shows "mg_table s' = recording sha fs (mg_table s) \<and>
    run_all exec (pending (mg_table s) fs) (mg_schema s) = Some (mg_schema s')"
  using assms
proof (induction fs arbitrary: s)
  case Nil
  then show ?case by (simp add: recording_def pending_def)
next
  case (Cons f fs)
  obtain v b where f: "f = (v, b)" by force
  obtain t where t: "migrate_file sha exec fl (v, b) s = Inr t" "migrate_files sha exec fl fs t = (None, s')"
    using Cons.prems(1) by (auto simp: f split: sum.splits)
  have v: "v \<notin> fst ` set fs" "distinct (map fst fs)" using Cons.prems(2) by (simp_all add: f)
  note IH = Cons.IH[OF t(2) v(2)]
  have m: "mg_table t = (mg_table s)(v := Some (Some (sha b)))"
    using t(1) by (cases rule: migrate_file_cases) simp_all
  have "run_all exec (pending (mg_table s) (f # fs)) (mg_schema s) =
      run_all exec (pending ((mg_table s)(v := Some (Some (sha b)))) fs) (mg_schema t)"
    using t(1) by (cases rule: migrate_file_cases) (simp_all add: pending_upd[OF v(1)], simp_all add: pending_def f)
  then show ?case using IH unfolding m recording_Cons[OF v(1)] f by simp
qed

lemma migrate_files_recorded:
  "\<forall>(v, b)\<in>set fs. mg_table s v = Some (Some (sha b)) \<Longrightarrow> migrate_files sha exec fl fs s = (None, s)"
  by (induction fs) (auto simp: migrate_file_def Let_def)

text \<open>
  C28. A successful run of the migrations executes the files the database has not recorded, each once and in the
  order of their names, and records the checksum of every file; run again with the same files, under whatever
  flags, it executes none of them.
\<close>

theorem migrations_run_once:
  assumes "migrate sha exec river fl fs s = (None, s')" "distinct (map fst fs)"
  shows "Option.bind (run_all exec (pending (mg_table s) fs) (mg_schema s)) river = Some (mg_schema s') \<and>
    mg_table s' = recording sha fs (mg_table s) \<and>
    (\<forall>exec' fl'. migrate_files sha exec' fl' fs s' = (None, s'))"
proof -
  obtain t d where t: "migrate_files sha exec fl fs s = (None, t)" "river (mg_schema t) = Some d"
      "s' = t\<lparr>mg_schema := d\<rparr>"
    using assms(1) by (auto simp: migrate_def split: prod.splits option.splits)
  note ok = migrate_files_ok[OF t(1) assms(2)]
  have "\<forall>(v, b)\<in>set fs. mg_table s' v = Some (Some (sha b))"
    using assms(2) by (auto simp: t(3) ok recording_def)
  then show ?thesis using t ok by (simp add: migrate_files_recorded)
qed

text \<open>
  An applied migration that changed is refused: if a file's recorded checksum is not the one of its text and
  repairing was not asked for, the run fails with that file or one before it, and neither its text nor that of
  any later file is executed.
\<close>

lemma changed_migration_refused:
  assumes "mg_table s v = Some (Some c)" "c \<noteq> sha b" "\<not> mf_repair fl" "distinct (map fst (fs @ (v, b) # gs))"
  shows "\<exists>e s'. migrate sha exec river fl (fs @ (v, b) # gs) s = (Some e, s') \<and>
    snd (migrate_files sha exec fl fs s) = s'"
proof -
  have "\<exists>e s'. migrate_files sha exec fl (fs @ (v, b) # gs) s = (Some e, s') \<and> snd (migrate_files sha exec fl fs s) = s'"
    using assms(1,4)
  proof (induction fs arbitrary: s)
    case Nil
    then show ?case using assms(2,3) by (simp add: migrate_file_def Let_def)
  next
    case (Cons f fs)
    obtain w x where f: "f = (w, x)" by force
    show ?case
    proof (cases "migrate_file sha exec fl (w, x) s")
      case (Inr t)
      then have "mg_table t v = mg_table s v"
        using Cons.prems(2) by (auto simp: f elim!: migrate_file_cases)
      then show ?thesis using Cons.IH[of t] Cons.prems Inr by (simp add: f)
    qed (simp add: f)
  qed
  then show ?thesis by (auto simp: migrate_def)
qed

section \<open>An example\<close>

definition demo_migrated :: "string list migrated" where
  "demo_migrated = \<lparr>mg_table = Map.empty(''001'' \<mapsto> Some ''a''), mg_schema = [''a'']\<rparr>"

theorem migrations_run_once_witness:
  "Option.bind (run_all (\<lambda>b d. Some (d @ [b])) (pending (mg_table demo_migrated) [(''001'', ''a''), (''002'', ''b'')])
      (mg_schema demo_migrated)) (\<lambda>d. Some (d @ [''river''])) = Some [''a'', ''b'', ''river'']"
proof -
  let ?m = "migrate id (\<lambda>b d. Some (d @ [b])) (\<lambda>d. Some (d @ [''river''])) \<lparr>mf_adopt = False, mf_repair = False\<rparr>
    [(''001'', ''a''), (''002'', ''b'')] demo_migrated"
  have "?m = (None, snd ?m)" "mg_schema (snd ?m) = [''a'', ''b'', ''river'']"
    by (simp_all add: migrate_def migrate_file_def demo_migrated_def)
  then show ?thesis
    using migrations_run_once[of id "\<lambda>b d. Some (d @ [b])" "\<lambda>d. Some (d @ [''river''])"
        "\<lparr>mf_adopt = False, mf_repair = False\<rparr>" "[(''001'', ''a''), (''002'', ''b'')]" demo_migrated "snd ?m"] by simp
qed

lemma changed_migration_refused_witness:
  "\<exists>e s'. migrate id (\<lambda>b d. Some (d @ [b])) Some \<lparr>mf_adopt = True, mf_repair = False\<rparr>
     ([] @ (''001'', ''changed'') # [(''002'', ''b'')]) demo_migrated = (Some e, s')"
proof -
  have "mg_table demo_migrated ''001'' = Some (Some ''a'')" by (simp add: demo_migrated_def)
  from changed_migration_refused[OF this, where b = "''changed''" and sha = id and fl = "\<lparr>mf_adopt = True, mf_repair = False\<rparr>"
      and fs = "[]" and gs = "[(''002'', ''b'')]"] show ?thesis by fastforce
qed

end
