(* ===== verification/Ui.thy ===== *)
theory Ui
  imports Api
begin

text \<open>
  The files of the user interface, \<^verbatim>\<open>internal/api/ui.go\<close>: which file of the configured directory answers a
  request. \<open>stat\<close> is the file system; what \<^verbatim>\<open>http.ServeFile\<close> does with the chosen file is not modelled.
\<close>

datatype ui_answer = Served string | Refused reply | NotBuilt

text \<open>\<^verbatim>\<open>path.Clean\<close> of the request's path, joined to the directory by \<^verbatim>\<open>filepath.Join\<close>, which cleans again.\<close>

definition ui_file :: "string \<Rightarrow> string \<Rightarrow> string" where
  "ui_file dir p = clean_path (dir @ ''/'' @ clean_path (''/'' @ p))"

definition serve_ui :: "(string \<Rightarrow> file_info option) \<Rightarrow> string \<Rightarrow> http_request \<Rightarrow> ui_answer" where
  "serve_ui stat dir rq =
     (if has_prefix (hq_path rq) ''/api/'' then Refused not_found
      else if hq_method rq \<notin> {''GET'', ''HEAD''} then Refused wrong_api_method
      else if dir = [] then NotBuilt
      else
       (let full = ui_file dir (hq_path rq); base = clean_path dir
        in if full \<noteq> base \<and> \<not> has_prefix full (base @ ''/'') then Refused not_found
           else if (case stat full of None \<Rightarrow> False | Some f \<Rightarrow> \<not> fi_dir f) then Served full
           else
            (let index = clean_path (base @ ''/'' @ ''index.html'')
             in if stat index = None then NotBuilt else Served index)))"

section \<open>Cleaned paths\<close>

lemma split_at_nonempty [simp]: "split_at d s \<noteq> []"
  by (induction s) (auto split: list.splits)

lemma split_at_append: "split_at d (a @ d # b) = split_at d a @ split_at d b"
  by (induction a) (auto split: list.splits)

lemma split_at_plain: "d \<notin> set a \<Longrightarrow> split_at d a = [a]"
  by (induction a) auto

lemma split_at_parts: "x \<in> set (split_at d s) \<Longrightarrow> d \<notin> set x"
  by (induction s arbitrary: x) (auto split: list.splits if_split_asm)

text \<open>A name of a file: nothing a cleaned path would drop or resolve.\<close>

definition file_name :: "string \<Rightarrow> bool" where
  "file_name x \<longleftrightarrow> x \<noteq> [] \<and> x \<noteq> ''.'' \<and> x \<noteq> ''..'' \<and> CHR ''/'' \<notin> set x"

definition below :: "string list \<Rightarrow> string" where
  "below xs = concat (map (\<lambda>x. CHR ''/'' # x) xs)"

lemma split_at_join: "xs \<noteq> [] \<Longrightarrow> \<forall>x\<in>set xs. d \<notin> set x \<Longrightarrow> split_at d (join [d] xs) = xs"
proof (induction xs)
  case (Cons x xs)
  then show ?case by (cases xs) (simp_all add: split_at_plain split_at_append)
qed simp

lemma join_below: "xs \<noteq> [] \<Longrightarrow> join ''/'' (xs @ ys) = join ''/'' xs @ below ys"
proof (induction xs)
  case (Cons x xs)
  have "join ''/'' (x # ys) = x @ below ys" for x
    by (induction ys arbitrary: x) (simp_all add: below_def)
  then show ?case using Cons by (cases xs) simp_all
qed simp

abbreviation clean_stack :: "bool \<Rightarrow> string \<Rightarrow> string list" where
  "clean_stack rooted p \<equiv> fold (clean_step rooted) (split_at CHR ''/'' p) []"

lemma clean_names: "\<forall>x\<in>set xs. file_name x \<Longrightarrow> fold (clean_step r) xs st = rev xs @ st"
  by (induction xs arbitrary: st) (auto simp: clean_step_def file_name_def)

text \<open>A cleaned path is names, below some \<open>..\<close> if it is relative.\<close>

definition cleaned :: "bool \<Rightarrow> string list \<Rightarrow> bool" where
  "cleaned rooted st \<longleftrightarrow> (\<exists>n xs. st = xs @ replicate n ''..'' \<and> (\<forall>x\<in>set xs. file_name x) \<and> (rooted \<longrightarrow> n = 0))"

lemma cleaned_parts: "cleaned r st \<Longrightarrow> x \<in> set st \<Longrightarrow> x \<noteq> [] \<and> CHR ''/'' \<notin> set x"
  unfolding cleaned_def file_name_def by (elim exE conjE, hypsubst, unfold set_append, erule UnE) (blast, simp split: if_split_asm)

lemma cleaned_step:
  assumes "cleaned r st" "CHR ''/'' \<notin> set x"
  shows "cleaned r (clean_step r x st)"
proof -
  obtain n xs where st: "st = xs @ replicate n ''..''" "\<forall>x\<in>set xs. file_name x" "r \<longrightarrow> n = 0"
    using assms(1) by (auto simp: cleaned_def)
  consider "x = [] \<or> x = ''.''" | "x = ''..''" "xs = []" | y ys where "x = ''..''" "xs = y # ys" | "file_name x"
    using assms(2) by (cases xs) (auto simp: file_name_def)
  then show ?thesis
  proof cases
    case 2
    have "clean_step r x st = (if r then [] else replicate (Suc n) ''..'')"
      using 2 st(1,3) by (cases n) (auto simp: clean_step_def)
    then show ?thesis unfolding cleaned_def by (intro exI[of _ "if r then 0 else Suc n"] exI[of _ "[]"]) simp
  next
    case 3
    then have "clean_step r x st = ys @ replicate n ''..''" using st by (simp add: clean_step_def file_name_def)
    then show ?thesis using st 3 unfolding cleaned_def by (intro exI[of _ n] exI[of _ ys]) simp
  next
    case 4
    then have "clean_step r x st = (x # xs) @ replicate n ''..''" using st by (simp add: clean_step_def file_name_def)
    then show ?thesis using st 4 unfolding cleaned_def by (intro exI[of _ n] exI[of _ "x # xs"]) simp
  qed (use assms(1) in \<open>auto simp: clean_step_def\<close>)
qed

lemma cleaned_fold: "cleaned r st \<Longrightarrow> \<forall>x\<in>set xs. CHR ''/'' \<notin> set x \<Longrightarrow> cleaned r (fold (clean_step r) xs st)"
  by (induction xs arbitrary: st) (auto intro: cleaned_step)

lemma cleaned_stack: "cleaned r (clean_stack r p)"
  by (rule cleaned_fold) (auto simp: cleaned_def dest: split_at_parts)

lemma fold_parents: "fold (clean_step False) (replicate n ''..'') (replicate m ''..'') = replicate (n + m) ''..''"
proof (induction n arbitrary: m)
  case (Suc n)
  have "clean_step False ''..'' (replicate m ''..'') = replicate (Suc m) ''..''"
    by (cases m) (simp_all add: clean_step_def)
  then show ?case using Suc[of "Suc m"] by simp
qed simp

lemma cleaned_again: "cleaned r st \<Longrightarrow> fold (clean_step r) (rev st) [] = st"
proof -
  assume "cleaned r st"
  then obtain n xs where st: "st = xs @ replicate n ''..''" "\<forall>x\<in>set xs. file_name x" "r \<longrightarrow> n = 0"
    by (auto simp: cleaned_def)
  have "fold (clean_step r) (replicate n ''..'') [] = replicate n ''..''"
    using fold_parents[of n 0] st(3) by (cases r) auto
  then show ?thesis by (simp add: st(1) clean_names st(2))
qed

text \<open>A directory whose cleaned path has a name or a \<open>..\<close> in it.\<close>

abbreviation proper_dir :: "string \<Rightarrow> bool" where
  "proper_dir dir \<equiv> clean_path dir \<noteq> ''/'' \<and> clean_path dir \<noteq> ''.''"

lemma clean_path_below:
  assumes "proper_dir dir" "\<forall>x\<in>set xs. file_name x" "clean_stack (has_prefix dir ''/'') p =
      rev xs @ clean_stack (has_prefix dir ''/'') dir" "has_prefix p ''/'' = has_prefix dir ''/''"
  shows "clean_path p = clean_path dir @ below xs"
proof -
  let ?st = "clean_stack (has_prefix dir ''/'') dir"
  have "?st \<noteq> []" using assms(1) by (auto simp: clean_path_def Let_def split: if_split_asm)
  then have "join ''/'' (rev (rev xs @ ?st)) = join ''/'' (rev ?st) @ below xs" by (simp add: join_below)
  then show ?thesis using assms(1) unfolding clean_path_def Let_def assms(4) assms(3) by (auto split: if_split_asm)
qed

lemma clean_absolute:
  obtains xs where "\<forall>x\<in>set xs. file_name x" "clean_path (CHR ''/'' # p) = ''/'' @ join ''/'' xs"
proof -
  have r: "has_prefix (CHR ''/'' # p) ''/''" by (simp add: has_prefix_def)
  have "cleaned True (clean_stack True (CHR ''/'' # p))" by (rule cleaned_stack)
  then have "\<forall>x\<in>set (clean_stack True (CHR ''/'' # p)). file_name x" by (auto simp: cleaned_def)
  then show thesis using that[of "rev (clean_stack True (CHR ''/'' # p))"]
    by (simp only: clean_path_def Let_def r if_True set_rev)
qed

lemma split_names:
  assumes "\<forall>x\<in>set xs. file_name x"
  shows "fold (clean_step r) (split_at CHR ''/'' (join ''/'' xs)) st = rev xs @ st"
proof (cases "xs = []")
  case True
  then show ?thesis by (simp add: clean_step_def)
next
  case False
  then have "split_at CHR ''/'' (join [CHR ''/''] xs) = xs" using assms by (intro split_at_join) (auto simp: file_name_def)
  then show ?thesis using clean_names[OF assms] by simp
qed

lemma has_prefix_slash: "dir \<noteq> [] \<Longrightarrow> has_prefix (dir @ q) ''/'' = has_prefix dir ''/''"
  by (cases dir) (simp_all add: has_prefix_def)

lemma ui_file_below:
  assumes "proper_dir dir" "dir \<noteq> []"
  shows "\<exists>xs. (\<forall>x\<in>set xs. file_name x) \<and> ui_file dir p = clean_path dir @ below xs"
proof -
  obtain xs where xs: "\<forall>x\<in>set xs. file_name x" "clean_path (CHR ''/'' # p) = ''/'' @ join ''/'' xs"
    by (rule clean_absolute)
  let ?r = "has_prefix dir ''/''" and ?q = "dir @ ''/'' @ clean_path (''/'' @ p)"
  have "?q = dir @ CHR ''/'' # [] @ CHR ''/'' # join ''/'' xs" by (simp add: xs(2))
  then have "split_at CHR ''/'' ?q = split_at CHR ''/'' dir @ [[]] @ split_at CHR ''/'' (join ''/'' xs)"
    by (metis split_at.simps(1) split_at_append)
  then have "clean_stack ?r ?q = rev xs @ clean_stack ?r dir"
    by (simp add: split_names[OF xs(1)]) (simp add: clean_step_def)
  then have "clean_path ?q = clean_path dir @ below xs"
    by (rule clean_path_below[OF assms(1) xs(1) _ has_prefix_slash[OF assms(2)]])
  then show ?thesis using xs(1) by (auto simp: ui_file_def)
qed

lemma index_below:
  assumes "proper_dir dir" "dir \<noteq> []"
  shows "clean_path (clean_path dir @ ''/'' @ ''index.html'') = clean_path dir @ below [''index.html'']"
proof -
  let ?b = "clean_path dir"
  define r where "r = has_prefix dir ''/''"
  define st where "st = clean_stack r dir"
  have c: "cleaned r st" unfolding st_def by (rule cleaned_stack)
  have b: "?b = (if r then ''/'' @ join ''/'' (rev st) else if join ''/'' (rev st) = [] then ''.'' else join ''/'' (rev st))"
    by (simp add: clean_path_def Let_def r_def st_def)
  have ne: "st \<noteq> []" using assms(1) by (auto simp: b split: if_split_asm)
  then obtain y ys where y: "rev st = y # ys" by (cases "rev st") auto
  have "y \<in> set st" using y by (metis list.set_intros(1) set_rev)
  then have "y \<noteq> [] \<and> CHR ''/'' \<notin> set y" by (rule cleaned_parts[OF c])
  then obtain a l where a: "y = a # l" "a \<noteq> CHR ''/''" by (cases y) auto
  have "join ''/'' (y # ys) = y @ below ys" using join_below[of "[y]" ys] by simp
  then have j: "join ''/'' (rev st) = a # l @ below ys" by (simp only: y a(1) append_Cons)
  have hd: "join ''/'' (rev st) \<noteq> []" "\<not> has_prefix (join ''/'' (rev st)) ''/''"
    unfolding j using a(2) by (simp_all add: has_prefix_def)
  have "split_at CHR ''/'' (join [CHR ''/''] (rev st)) = rev st"
    by (rule split_at_join) (use ne cleaned_parts[OF c] in auto)
  then have s: "split_at CHR ''/'' ?b = (if r then [[]] else []) @ rev st" using hd(1) by (simp add: b)
  have p: "has_prefix ?b ''/'' = r" "?b \<noteq> []" using hd by (auto simp: b has_prefix_def)
  have "clean_stack r ?b = st" using cleaned_again[OF c] by (cases r) (simp_all add: s clean_step_def)
  moreover have "clean_stack r (?b @ CHR ''/'' # ''index.html'') = rev [''index.html''] @ clean_stack r ?b"
    by (simp only: split_at_append fold_append o_apply) (simp add: clean_step_def)
  ultimately have "clean_stack r (?b @ ''/'' @ ''index.html'') = rev [''index.html''] @ clean_stack r dir"
    by (simp add: st_def)
  then show ?thesis
    using clean_path_below[OF assms(1), of "[''index.html'']" "?b @ ''/'' @ ''index.html''"] p has_prefix_slash[OF p(2)]
    by (simp add: file_name_def r_def)
qed

text \<open>No cleaned path starts with two slashes or with \<open>./\<close>, so below these two directories the guard lets nothing pass.\<close>

lemma clean_path_start: "\<not> has_prefix (clean_path q) ''//''" "\<not> has_prefix (clean_path q) ''./''"
proof -
  define r where "r = has_prefix q ''/''"
  define st where "st = clean_stack r q"
  have c: "cleaned r st" unfolding st_def by (rule cleaned_stack)
  have b: "clean_path q = (if r then ''/'' @ join ''/'' (rev st) else if join ''/'' (rev st) = [] then ''.'' else join ''/'' (rev st))"
    by (simp add: clean_path_def Let_def r_def st_def)
  have "\<not> has_prefix (join ''/'' (rev st)) ''/'' \<and> \<not> has_prefix (join ''/'' (rev st)) ''./''"
  proof (cases "rev st")
    case (Cons y ys)
    then have "y \<in> set st" by (metis list.set_intros(1) set_rev)
    then have y: "y \<noteq> []" "y \<noteq> ''.''" "CHR ''/'' \<notin> set y"
      using c cleaned_parts[OF c] by (auto simp: cleaned_def file_name_def split: if_split_asm)
    have "join ''/'' (y # ys) = y @ below ys" using join_below[of "[y]" ys] by simp
    moreover obtain a l where "y = a # l" "a \<noteq> CHR ''/''" "a = CHR ''.'' \<longrightarrow> (\<exists>d m. l = d # m \<and> d \<noteq> CHR ''/'')"
      using y by (cases y; cases "tl y") auto
    ultimately show ?thesis unfolding Cons by (auto simp: has_prefix_def)
  qed (simp add: has_prefix_def)
  then show "\<not> has_prefix (clean_path q) ''//''" "\<not> has_prefix (clean_path q) ''./''"
    unfolding b by (cases "join ''/'' (rev st)"; auto simp: has_prefix_def split: if_split_asm)+
qed

lemma improper_served:
  assumes "\<not> proper_dir dir" "serve_ui stat dir rq = Served f"
  shows "f \<in> {''/'', ''/index.html'', ''.'', ''index.html''}"
proof -
  have "clean_path (''/'' @ ''/'' @ ''index.html'') = ''/index.html''" "clean_path (''.'' @ ''/'' @ ''index.html'') = ''index.html''"
    by code_simp+
  moreover have "\<not> has_prefix (ui_file dir (hq_path rq)) (clean_path dir @ ''/'')"
    using assms(1) clean_path_start[of "dir @ ''/'' @ clean_path (''/'' @ hq_path rq)"] by (auto simp: ui_file_def)
  ultimately show ?thesis
    using assms by (auto simp: serve_ui_def Let_def split: if_split_asm)
qed

text \<open>
  C27. The interface is confined to its directory. If the cleaned path of the configured directory is neither
  \<open>.\<close> nor \<open>/\<close>, then for any request path, \<open>..\<close> and escapes included, a file that is served lies below it along plain
  file names, and the answer \<open>404\<close> is given for the paths below \<open>/api/\<close> alone, so the second guard, on the prefix of the
  joined path, never refuses a request. For the two other directories that guard refuses every file: nothing is
  served but the directory's own path and its \<open>index.html\<close>.
\<close>

theorem ui_confined:
  "(proper_dir dir \<longrightarrow>
      (serve_ui stat dir rq = Served f \<longrightarrow> (\<exists>xs. (\<forall>x\<in>set xs. file_name x) \<and> f = clean_path dir @ below xs)) \<and>
      (serve_ui stat dir rq = Refused not_found \<longleftrightarrow> has_prefix (hq_path rq) ''/api/'')) \<and>
   (\<not> proper_dir dir \<longrightarrow> serve_ui stat dir rq = Served f \<longrightarrow> f \<in> {''/'', ''/index.html'', ''.'', ''index.html''})"
proof (intro conjI impI)
  assume p: "proper_dir dir"
  then have ne: "dir \<noteq> []" by (auto simp: clean_path_def has_prefix_def clean_step_def)
  obtain xs where xs: "\<forall>x\<in>set xs. file_name x" "ui_file dir (hq_path rq) = clean_path dir @ below xs"
    using ui_file_below[OF p ne] by blast
  have g: "ui_file dir (hq_path rq) = clean_path dir \<or> has_prefix (ui_file dir (hq_path rq)) (clean_path dir @ ''/'')"
    unfolding xs(2) by (cases xs) (auto simp: below_def has_prefix_def)
  have i: "file_name ''index.html''" by (simp add: file_name_def)
  show "\<exists>xs. (\<forall>x\<in>set xs. file_name x) \<and> f = clean_path dir @ below xs" if "serve_ui stat dir rq = Served f"
  proof -
    have "f = clean_path dir @ below xs \<or> f = clean_path dir @ below [''index.html'']"
      using that xs(2) index_below[OF p ne] by (auto simp: serve_ui_def Let_def split: if_split_asm)
    then show ?thesis using xs(1) i by (metis list.set(1,2) singletonD list.set_intros(1) empty_iff insert_iff)
  qed
  show "serve_ui stat dir rq = Refused not_found \<longleftrightarrow> has_prefix (hq_path rq) ''/api/''"
    using g ne by (auto simp: serve_ui_def Let_def not_found_def wrong_api_method_def split: if_split_asm)
qed (rule improper_served)

text \<open>A directory that cleans to the current one is refused file by file: its joined paths have no prefix.\<close>

lemma current_dir_refused:
  "serve_ui (\<lambda>_. Some \<lparr>fi_dir = False, fi_exec = False\<rparr>) ''.'' (rq\<lparr>hq_path := ''/app.js'', hq_method := ''GET''\<rparr>) =
     Refused not_found"
  by (simp add: serve_ui_def) code_simp

theorem ui_confined_witness:
  "\<exists>xs. (\<forall>x\<in>set xs. file_name x) \<and> ''/srv/ui/etc/passwd'' = clean_path ''/srv/./ui/'' @ below xs"
proof -
  let ?rq = "\<lparr>hq_method = ''GET'', hq_path = ''/a/../../../etc//passwd'', hq_authorization = [], hq_cookie = [], hq_csrf = [],
     hq_query = \<lambda>_. [], hq_body = None, hq_trailing = False, hq_id = [], hq_ids = \<lambda>_. [], hq_ids2 = \<lambda>_. [],
     hq_random = \<lambda>_. [], hq_now = 0, hq_clock = 0\<rparr>"
  let ?stat = "\<lambda>_. Some \<lparr>fi_dir = False, fi_exec = False\<rparr>"
  have "proper_dir ''/srv/./ui/''" by code_simp
  moreover have "serve_ui ?stat ''/srv/./ui/'' ?rq = Served ''/srv/ui/etc/passwd''" by code_simp
  ultimately show ?thesis using ui_confined[of "''/srv/./ui/''" ?stat ?rq "''/srv/ui/etc/passwd''"] by blast
qed

end
