(* ===== verification/Spec2Isabelle.thy ===== *)
theory Spec2Isabelle
  imports Demo Access Replay Sweep Login Migrate Ui
begin

text \<open>
  A model of the workforce platform, a Go program in which people and agents propose changes to business records, a
  creator endorses, somebody else approves, and an executor applies what was approved.

  \<^bold>\<open>The program and the model.\<close> All state is in PostgreSQL. The record \<open>db\<close> of the theory \<open>Schema\<close> has one list of rows
  per table, in insertion order; a row is a record with the columns the code reads. Every exported operation of
  \<^verbatim>\<open>internal/store\<close> is a definition \<open>... \<Rightarrow> db \<Rightarrow> err + ('a \<times> db)\<close> that carries the whole transaction with its guards in
  the order of the code; a constraint the database would refuse is \<open>Inl Constraint\<close>. \<open>with_org\<close> and \<open>commit\<close>
  (\<open>Prelude\<close>) are \<^verbatim>\<open>Store.WithOrg\<close>: an error rolls everything back. Row level security is the filter on the
  organization in every read and write. The store takes an advisory lock per organization, so a transaction is one
  atomic step. Identifiers, tokens, the clock, digests (\<open>H\<close>, \<open>sha\<close>) and the connector registry are arguments.

  \<^bold>\<open>Vocabulary.\<close> \<open>Prelude\<close> has rows, updates, transactions and strings; \<open>Json\<close> has JSON documents with exact numbers and
  their float64 reading; \<open>Graph\<close> the recursive reachability query of the cycle checks; \<open>Transition\<close> reachable states and
  the locales \<open>invariant_system\<close> and \<open>lifecycle\<close>, which \<open>System\<close>, \<open>Planning\<close>,
  \<open>Accounts\<close> and \<open>Platform\<close> interpret on their steps.

  \<^bold>\<open>Proposals and effects.\<close> \<open>Connectors\<close> (\<^verbatim>\<open>internal/connectors\<close>) validates and prepares operations; \<open>BusinessOps\<close> reserves
  business keys (\<^verbatim>\<open>business_operations.go\<close>); \<open>Tasks\<close>, \<open>Proposals\<close>, \<open>Execution\<close> and \<open>Handoffs\<close> are \<^verbatim>\<open>store.go\<close> and
  \<^verbatim>\<open>handoffs.go\<close>. \<open>Authorization\<close>, \<open>Duplicates\<close>, \<open>Effects\<close> and \<open>Wakeup\<close> prove what their transactions keep, \<open>CoreInv\<close>
  collects it.

  \<^bold>\<open>Agents.\<close> \<open>Registry\<close> and \<open>Capabilities\<close> (\<^verbatim>\<open>registry.go\<close>, \<^verbatim>\<open>capabilities.go\<close>, \<^verbatim>\<open>agents.go\<close>, \<^verbatim>\<open>templates.go\<close>) say what an agent may
  do; \<open>AgentRuns\<close>, \<open>Gates\<close> and \<open>Recovery\<close> (\<^verbatim>\<open>agent_runs.go\<close>, \<^verbatim>\<open>gates.go\<close>, \<^verbatim>\<open>recovery.go\<close>) are the life of a run with its
  lease, its questions and its recovery (\<open>Replay\<close> says which repeated answer is the same answer); \<open>Simulator\<close> and \<open>Cli\<close> (\<^verbatim>\<open>internal/runner\<close>) are the runners. \<open>RunSafety\<close> and
  \<open>RunLife\<close> prove what transactions keep of runs and gates, \<open>Sweep\<close> that recovery reaches every organization.

  \<^bold>\<open>The running program.\<close> \<open>Advance\<close> puts the invariants together per transaction, \<open>System\<close> has the step function: one
  action is one transaction of a request, an executor or a worker between whose transactions the others interleave.
  \<open>Demo\<close> is a small organization on which the hypotheses of the properties are met. \<open>Platform\<close> adds the HTTP interface:
  one event is a request to \<^verbatim>\<open>Server.Handler\<close> (of the API, a login, a logout), an action of \<open>System\<close> or an account command.
  The properties of this theory hold in every state reachable by such events in any order, and with them the invariants
  of the planning and of the accounts; requests are assumed to get a fresh identifier that is not empty. What the
  handlers of the browser login do to the database is proved once in the locale \<open>visits\<close>, over the transactions they
  are made of, and used three times by interpretation.

  \<^bold>\<open>Planning and boards.\<close> \<open>Organization\<close>, \<open>Milestones\<close> and \<open>Boards\<close> model \<^verbatim>\<open>organization.go\<close>, \<^verbatim>\<open>milestones.go\<close>,
  \<^verbatim>\<open>workboard.go\<close> and \<^verbatim>\<open>agentboard.go\<close>; \<open>Planning\<close> runs them as a system of its own in which every other transaction is
  one action that leaves their tables alone, which \<open>Platform\<close> shows of every other transaction.

  \<^bold>\<open>Accounts and the edge.\<close> \<open>Identity\<close> (\<^verbatim>\<open>identity_admin.go\<close>, \<^verbatim>\<open>oidc_identity.go\<close>, \<^verbatim>\<open>sessions.go\<close>) has links, logins and sessions,
  \<open>Accounts\<close> their system; \<open>Tokens\<close> is \<^verbatim>\<open>platform/tokens.go\<close>. \<open>Http\<close> and \<open>Api\<close> are \<^verbatim>\<open>internal/api\<close>: every route with its
  guard, its body, its checks and its answer; the route list has the order of the code. \<open>Edge\<close>,
  \<open>Calls\<close> and \<open>Tenancy\<close> prove properties of every route: who is let in, CSRF, safe methods, that a request is at most one
  transaction, in its caller's name, and which tables and rows its transaction writes. \<open>Access\<close> draws the conclusions
  over all histories of the program: no row of another organization changes, and an administrator is not locked out.
  \<open>Config\<close> (\<^verbatim>\<open>config.go\<close>, \<^verbatim>\<open>oidc.go\<close>, \<^verbatim>\<open>oauth.go\<close>, \<^verbatim>\<open>api.New\<close>) loads the configuration and assembles the server, \<open>Login\<close> proves the browser login end to end, \<open>Ui\<close> and \<open>Migrate\<close> are \<^verbatim>\<open>ui.go\<close> and \<^verbatim>\<open>migrations.go\<close>.

  \<^bold>\<open>Termination and bounds.\<close> No definition uses fuel except where the code bounds a walk: the management chain stops
  at depth 64, a harness reply is unwrapped at most \<open>max_unwrap_depth\<close> times. The reachability loop terminates because
  each turn adds a node of the table or shortens the work list. Counters of the store are \<open>int\<close>: they grow by one per
  transaction and stay far below 2 ^ 63; bytes of tokens are 8-bit words.

  \<^bold>\<open>Parameters.\<close> \<open>txt\<close> is JSON text, \<open>duration\<close> and the two time parsers are those of Go, \<open>parse_url\<close> is \<^verbatim>\<open>net/url\<close>, \<open>lib\<close>
  is the token verification of \<^verbatim>\<open>go-oidc\<close>, \<open>provider\<close> the answers of the identity provider, \<open>stat\<close> the file system,
  \<open>exec\<close> and \<open>river\<close> the effect of migrations. Theorems hold for all of them unless a hypothesis is stated.

  \<^bold>\<open>Not modelled.\<close> The network, the connection pool, SQL text and the River queue beyond its jobs; the processes a
  harness runs in (their output, exit and timeout are arguments); JSON encoding of responses; \<^verbatim>\<open>http.ServeFile\<close>; the
  flags of \<^verbatim>\<open>cmd/workforce\<close>, which only call modelled operations; \<^verbatim>\<open>internal/testdb\<close>; the web interface, which is not Go.
  Two actions of different organizations commute in the code; here they are interleaved in one sequence.
\<close>

text \<open>
  C1. Separation of duty: in every reachable state an approved, done or parked proposal carries an
  endorsement by its creator and an approval by a different principal, both of exactly its
  revision and digest.
\<close>

theorem separation_of_duty:
  assumes "reachable_platform H reg y" "p \<in> set (proposals (store y))"
    "pp_status p \<in> {PApproved, PDone, PNeedsAttention}"
  shows "(\<exists>d\<in>set (decisions (store y)). dc_org d = pp_org p \<and> dc_proposal d = pp_id p \<and>
            dc_kind d = Endorse \<and> dc_actor d = pp_created_by p \<and>
            dc_revision d = pp_revision p \<and> dc_digest d = pp_digest p) \<and>
         (\<exists>d\<in>set (decisions (store y)). dc_org d = pp_org p \<and> dc_proposal d = pp_id p \<and>
            dc_kind d = Approve \<and> dc_actor d \<noteq> pp_created_by p \<and>
            dc_revision d = pp_revision p \<and> dc_digest d = pp_digest p)"
proof -
  have "sod_at p (decisions (store y))"
    using core_invD(3)[OF db_invD(1)[OF platform_db[OF assms(1)]]] assms(2) by (simp add: separation_def)
  then have "endorsed p (decisions (store y))" "approved_by_other p (decisions (store y))"
    using assms(3) by (auto simp: sod_at_def)
  then show ?thesis unfolding decided_def by blast
qed

theorem separation_of_duty_witness:
  "let p = hd (proposals (store demo_approved)) in
     pp_status p = PApproved \<and>
     (\<exists>d\<in>set (decisions (store demo_approved)). dc_kind d = Approve \<and> dc_actor d \<noteq> pp_created_by p)"
proof -
  let ?p = "hd (proposals (store demo_approved))"
  have p: "?p \<in> set (proposals (store demo_approved))" "pp_status ?p = PApproved" by code_simp+
  show ?thesis using separation_of_duty[OF reachable_work[OF reachable_approved] p(1)] p(2) by auto
qed

text \<open>
  C2. One real operation, one live proposal: two live (pending, approved, parked or done) proposals
  of an organization never contain operations with the same integration, action and business key,
  and within one proposal the keys are distinct.
\<close>

theorem business_key_exclusive:
  assumes "reachable_platform H reg y" "p \<in> set (proposals (store y))" "q \<in> set (proposals (store y))"
    "pp_status p \<notin> {PRejected, PSuperseded}" "pp_status q \<notin> {PRejected, PSuperseded}"
    "op1 \<in> set (pp_operations p)" "op2 \<in> set (pp_operations q)"
    "key_of (pp_org p) op1 = key_of (pp_org q) op2"
  shows "p = q \<and> op1 = op2"
proof (rule live_keys_disjoint)
  show "keys_held (store y)" "proposal_ids (store y)"
    using core_invD[OF db_invD(1)[OF platform_db[OF assms(1)]]] by simp_all
  show "key_status (pp_status p) \<noteq> None" "key_status (pp_status q) \<noteq> None"
    using assms(4,5) by (cases "pp_status p"; simp; cases "pp_status q"; simp)+
qed (use assms in simp_all)

theorem business_key_exclusive_witness:
  "let p = hd (proposals (store demo_done)); x = demo_op ''op1'' ''K1'' in
     p \<in> set (proposals (store demo_done)) \<and> pp_status p = PDone \<and> x \<in> set (pp_operations p) \<and>
     (p = p \<and> x = x)"
proof -
  let ?p = "hd (proposals (store demo_done))" and ?x = "demo_op ''op1'' ''K1''"
  have p: "?p \<in> set (proposals (store demo_done))" "pp_status ?p = PDone" "?x \<in> set (pp_operations ?p)"
    by code_simp+
  have "?p = ?p \<and> ?x = ?x"
    by (rule business_key_exclusive[OF reachable_work[OF reachable_done] p(1) p(1) _ _ p(3) p(3)]) (use p(2) in simp_all)
  with p show ?thesis by simp
qed

text \<open>
  C3. No effect without authority: every effect belongs to a proposal of its organization that its creator
  endorsed and somebody else approved, and carries target, version and payload of one of the operations those
  decisions were about; no two effects stand for the same operation of the real world.
\<close>

theorem effects_authorized:
  assumes "reachable_platform H reg y" "e \<in> set (effects (store y))"
  shows "(\<exists>p\<in>set (proposals (store y)). pp_org p = ef_org e \<and> pp_id p = ef_proposal e \<and>
        endorsed p (decisions (store y)) \<and> approved_by_other p (decisions (store y)) \<and>
        (\<exists>op\<in>set (pp_operations p). ef_operation e = op_id op \<and> ef_integration e = op_integration op \<and>
           ef_action e = op_action op \<and> ef_target e = op_target op \<and> ef_expected e = op_version op \<and>
           ef_payload e = Some (raw_json (op_payload op)))) \<and>
      (\<forall>e'\<in>set (effects (store y)). ef_bop e' = ef_bop e \<longrightarrow> e' = e)"
proof
  have ok: "effects_ok (store y)" using core_invD(5)[OF db_invD(1)[OF platform_db[OF assms(1)]]] .
  then have "effect_ok e (store y)" using assms(2) by (simp add: effects_ok_def)
  then show "\<exists>p\<in>set (proposals (store y)). pp_org p = ef_org e \<and> pp_id p = ef_proposal e \<and>
        endorsed p (decisions (store y)) \<and> approved_by_other p (decisions (store y)) \<and>
        (\<exists>op\<in>set (pp_operations p). ef_operation e = op_id op \<and> ef_integration e = op_integration op \<and>
           ef_action e = op_action op \<and> ef_target e = op_target op \<and> ef_expected e = op_version op \<and>
           ef_payload e = Some (raw_json (op_payload op)))"
    unfolding effect_ok_def effect_for_def by blast
  show "\<forall>e'\<in>set (effects (store y)). ef_bop e' = ef_bop e \<longrightarrow> e' = e"
    using ok assms(2) unique_key_row[of ef_bop "effects (store y)"] by (auto simp: effects_ok_def)
qed

theorem effects_authorized_witness:
  "let e = hd (effects (store demo_done)) in ef_state e = EVerified \<and>
     (\<exists>p\<in>set (proposals (store demo_done)). pp_id p = ef_proposal e \<and>
        approved_by_other p (decisions (store demo_done)))"
proof -
  let ?e = "hd (effects (store demo_done))"
  have e: "?e \<in> set (effects (store demo_done))" "ef_state ?e = EVerified" by code_simp+
  show ?thesis using effects_authorized[OF reachable_work[OF reachable_done] e(1)] e(2) by auto
qed

text \<open>
  C4. Receipts are exact: the effects with a receipt are the verified ones, each has one receipt, and an effect
  is verified exactly when its proposal is done, so a done proposal is one whose every effect was read back.
\<close>

theorem receipts_exact:
  assumes "reachable_platform H reg y" "e \<in> set (effects (store y))"
  shows "(ef_state e = EVerified \<longleftrightarrow> (\<exists>!c. c \<in> set (receipts (store y)) \<and> rc_effect c = ef_id e)) \<and>
    (\<exists>p\<in>set (proposals (store y)). pp_org p = ef_org e \<and> pp_id p = ef_proposal e \<and>
       (ef_state e = EVerified \<longleftrightarrow> pp_status p = PDone))"
proof
  note c = core_invD[OF db_invD(1)[OF platform_db[OF assms(1)]]]
  have r: "distinct (map rc_effect (receipts (store y)))"
      "rc_effect ` set (receipts (store y)) = verified_ids (effects (store y))"
    using c(6) by (simp_all add: receipts_ok_def)
  have "ef_id e \<in> verified_ids (effects (store y)) \<longleftrightarrow> ef_state e = EVerified"
    using c(5) assms(2) unique_key_row[of ef_id "effects (store y)" e]
    by (auto simp: verified_ids_def effects_ok_def)
  then have "ef_state e = EVerified \<longleftrightarrow> (\<exists>c\<in>set (receipts (store y)). rc_effect c = ef_id e)"
    unfolding r(2)[symmetric] by force
  then show "ef_state e = EVerified \<longleftrightarrow> (\<exists>!c. c \<in> set (receipts (store y)) \<and> rc_effect c = ef_id e)"
    using unique_key_row[OF r(1)] by metis
  have "effect_ok e (store y)" using c(5) assms(2) by (simp add: effects_ok_def)
  then show "\<exists>p\<in>set (proposals (store y)). pp_org p = ef_org e \<and> pp_id p = ef_proposal e \<and>
       (ef_state e = EVerified \<longleftrightarrow> pp_status p = PDone)"
    unfolding effect_ok_def effect_status_def by force
qed

theorem receipts_exact_witness:
  "let e = hd (effects (store demo_done)) in
     \<exists>!c. c \<in> set (receipts (store demo_done)) \<and> rc_effect c = ef_id e"
proof -
  let ?e = "hd (effects (store demo_done))"
  have e: "?e \<in> set (effects (store demo_done))" "ef_state ?e = EVerified" by code_simp+
  show ?thesis using receipts_exact[OF reachable_work[OF reachable_done] e(1)] e(2) by (simp add: Let_def)
qed

text \<open>
  C5. A proposal only moves along the state machine of its life: whatever the platform does, it stays in the
  table with its content, creator, revision and digest, its status follows the edges of \<open>proposal_edge\<close>, and once
  it is rejected, superseded, done or parked it does not change at all.
\<close>

theorem proposal_lifecycle:
  assumes "reachable_platform H reg y" "list_all possible as" "p \<in> set (proposals (store y))"
  shows "\<exists>q\<in>set (proposals (store (steps (happen H reg) as y))).
     q = p\<lparr>pp_status := pp_status q, pp_failure := pp_failure q\<rparr> \<and>
     proposal_edge\<^sup>*\<^sup>* (pp_status p) (pp_status q) \<and>
     (pp_status p \<in> {PRejected, PSuperseded, PDone, PNeedsAttention} \<longrightarrow> q = p)"
proof -
  obtain q where q: "q \<in> set (proposals (store (steps (happen H reg) as y)))" "proposal_move\<^sup>*\<^sup>* p q"
    using proposal_life.rows_run[OF platform.reachable_inv[OF assms(1)] assms(2,3)] by blast
  from q(2) have "q = p\<lparr>pp_status := pp_status q, pp_failure := pp_failure q\<rparr> \<and>
     proposal_edge\<^sup>*\<^sup>* (pp_status p) (pp_status q) \<and> (proposal_final p \<longrightarrow> q = p)"
  proof (induction rule: rtranclp_induct)
    case (step u v)
    have v: "v = u\<lparr>pp_status := pp_status v, pp_failure := pp_failure v\<rparr>"
        "proposal_edge (pp_status u) (pp_status v)" "proposal_final u \<longrightarrow> v = u"
      using step.hyps(2) by (simp_all add: proposal_move_def)
    have u: "u = p\<lparr>pp_status := pp_status u, pp_failure := pp_failure u\<rparr>" using step.IH by blast
    have "v = p\<lparr>pp_status := pp_status v, pp_failure := pp_failure v\<rparr>" by (subst v(1), subst u) simp
    then show ?case using step.IH v(2,3) by (blast intro: rtranclp.rtrancl_into_rtrancl)
  qed simp
  with q(1) show ?thesis by (auto simp: proposal_final_def)
qed

theorem proposal_lifecycle_witness:
  "\<exists>q\<in>set (proposals (store (steps (happen demo_hash new_registry) (map Work [AApply (nth_id ''rc'') ''o'' ''p'' True, ACancel ''o'' ''t'' 1 9]) demo_done))).
     q = hd (proposals (store demo_done))"
proof -
  let ?p = "hd (proposals (store demo_done))"
  have p: "?p \<in> set (proposals (store demo_done))" "pp_status ?p = PDone" by code_simp+
  show ?thesis
    using proposal_lifecycle[OF reachable_work[OF reachable_done] _ p(1),
        of "map Work [AApply (nth_id ''rc'') ''o'' ''p'' True, ACancel ''o'' ''t'' 1 9]"] p(2) by force
qed

text \<open>
  C7. Fencing: a worker whose lease was taken over, or whose run was cancelled or finished meanwhile, changes
  nothing with whatever its runner returned; its only trace is that it is gone.
\<close>

theorem stale_worker_harmless:
  assumes "reachable_platform H reg y" "Ready org tok r owner req \<in> set (workers y)"
    "q \<in> set (agent_runs (store y))" "ru_id q = ru_id r" "ru_token q \<noteq> tok"
  shows "step H reg (AFinish fo fb pid gid (Ready org tok r owner req) result now) y =
     y\<lparr>workers := remove1 (Ready org tok r owner req) (workers y)\<rparr>"
proof -
  have "row (holder org (ru_id r) tok) (agent_runs (store y)) = None"
  proof (rule ccontr)
    assume "row (holder org (ru_id r) tok) (agent_runs (store y)) \<noteq> None"
    then obtain x where x: "row (holder org (ru_id r) tok) (agent_runs (store y)) = Some x" by blast
    have "x = q"
      by (rule run_unique[OF runs_okD(1)[OF db_invD(2)[OF platform_db[OF assms(1)]]] _ assms(3)])
         (use row_SomeD[OF x] assms(4) in simp_all)
    then show False using row_SomeD[OF x] assms(5) by simp
  qed
  then show ?thesis using assms(2) finish_run_fenced by (simp add: on_worker_def)
qed

text \<open>The claimed worker asks for its request, then a second worker takes over the expired lease.\<close>

definition demo_taken_over :: sys where
  "demo_taken_over = steps demo_step
     [AReclaim (nth_id ''ev'') ''o'' 10 900000000, AFetch (\<lambda>_. 30) ''o'' ''run'' ''tok2'' 900000001] demo_ready"

lemma reachable_taken_over: "reachable_sys demo_hash new_registry demo_taken_over"
  unfolding demo_taken_over_def by (rule reachable_run[OF reachable_ready]) simp

fun ready_claim :: "worker \<Rightarrow> (id \<times> string \<times> id) option" where
  "ready_claim (Ready org tok r owner req) = Some (org, tok, ru_id r)"
| "ready_claim w = None"

lemma ready_claimD:
  assumes "ready_claim w = Some (org, tok, i)"
  obtains r owner req where "w = Ready org tok r owner req" "ru_id r = i"
  using assms by (cases w) auto

theorem stale_worker_harmless_witness:
  "let y = demo_taken_over; w = last (workers y) in
     step demo_hash new_registry (AFinish (nth_id ''op'') (nth_id ''b'') ''pr'' ''g'' w (Inr demo_work) 900000002) y =
       y\<lparr>workers := remove1 w (workers y)\<rparr>"
proof -
  let ?q = "hd (agent_runs (store demo_taken_over))"
  obtain r owner req where w: "last (workers demo_taken_over) = Ready ''o'' ''tok'' r owner req" "ru_id r = ''run''"
    by (rule ready_claimD[of "last (workers demo_taken_over)" "''o''" "''tok''" "''run''"]) code_simp
  have m: "Ready ''o'' ''tok'' r owner req \<in> set (workers demo_taken_over)"
    unfolding w(1)[symmetric] by (rule last_in_set) code_simp
  have q: "?q \<in> set (agent_runs (store demo_taken_over))" "ru_id ?q = ''run''" "ru_token ?q = ''tok2''"
    by code_simp+
  show ?thesis unfolding Let_def w(1)
    by (rule stale_worker_harmless[OF reachable_work[OF reachable_taken_over] m q(1)]) (use q w(2) in simp_all)
qed

text \<open>
  C8. One run, one proposal: two proposals that an agent run of an organization produced are the same if the run
  is, and the run ended with success and names exactly that proposal as its outcome.
\<close>

theorem one_proposal_per_run:
  assumes "reachable_platform H reg y" "p \<in> set (proposals (store y))" "pp_origin_run p \<noteq> []"
  shows "\<exists>r\<in>set (agent_runs (store y)). ru_org r = pp_org p \<and> ru_id r = pp_origin_run p \<and>
     ru_status r = RSucceeded \<and> ru_proposal r = Some (pp_id p) \<and>
     (\<forall>q\<in>set (proposals (store y)). pp_origin_run q = pp_origin_run p \<longrightarrow> q = p)"
proof -
  note d = platform_db[OF assms(1)]
  note runs = runs_okD[OF db_invD(2)[OF d]]
  have out: "\<exists>r\<in>set (agent_runs (store y)). outcome_of r q"
    if "q \<in> set (proposals (store y))" "pp_origin_run q \<noteq> []" for q
    using runs(6) that by (simp add: origin_ok_def)
  obtain r where r: "r \<in> set (agent_runs (store y))" "outcome_of r p" using out[OF assms(2,3)] by blast
  have "q = p" if q: "q \<in> set (proposals (store y))" "pp_origin_run q = pp_origin_run p" for q
  proof -
    obtain u where u: "u \<in> set (agent_runs (store y))" "outcome_of u q"
      using out[OF q(1)] q(2) assms(3) by auto
    have "u = r" by (rule run_unique[OF runs(1) u(1) r(1)]) (use u(2) r(2) q(2) in \<open>simp add: outcome_of_def\<close>)
    then have "pp_id q = pp_id p" using u(2) r(2) by (simp add: outcome_of_def)
    then show "q = p"
      using core_invD(1)[OF db_invD(1)[OF d]] q(1) assms(2) unique_key_row[of pp_id "proposals (store y)"]
      by (simp add: proposal_ids_def)
  qed
  then show ?thesis using r by (auto simp: outcome_of_def intro!: bexI[of _ r])
qed

theorem one_proposal_per_run_witness:
  "\<exists>r\<in>set (agent_runs (store demo_published)). ru_id r = ''run'' \<and> ru_status r = RSucceeded"
proof -
  let ?p = "last (proposals (store demo_published))"
  have p: "?p \<in> set (proposals (store demo_published))" "pp_origin_run ?p = ''run''" by code_simp+
  show ?thesis using one_proposal_per_run[OF reachable_work[OF reachable_published] p(1)] p(2) by auto
qed

text \<open>
  C6. No lost wake-up: an approved proposal whose task is open and whose prerequisites are all done has a job in
  the executor's queue, whatever order approvals, new dependencies, completions and cancellations came in.
\<close>

theorem no_lost_wakeup:
  assumes "reachable_platform H reg y" "p \<in> set (proposals (store y))" "pp_status p = PApproved"
    "t \<in> set (tasks (store y))" "tk_org t = pp_org p" "tk_id t = pp_task p"
    "tk_status t \<noteq> TDone" "tk_status t \<noteq> TCancelled" "\<not> undone_parent (pp_org p) (pp_task p) (store y)"
  shows "(pp_org p, pp_id p) \<in> set (proposal_jobs (store y))"
proof -
  have "ready p (store y)" unfolding ready_def live_task_def using assms(3-9) by blast
  then show ?thesis
    using core_invD(8)[OF db_invD(1)[OF platform_db[OF assms(1)]]] assms(2) by (simp add: wakeup_def)
qed

theorem no_lost_wakeup_witness:
  "(''o'', ''p'') \<in> set (proposal_jobs (store demo_approved))"
proof -
  let ?p = "hd (proposals (store demo_approved))" and ?t = "hd (tasks (store demo_approved))"
  have h: "?p \<in> set (proposals (store demo_approved))" "pp_status ?p = PApproved"
    "?t \<in> set (tasks (store demo_approved))" "tk_org ?t = pp_org ?p" "tk_id ?t = pp_task ?p"
    "tk_status ?t \<noteq> TDone" "tk_status ?t \<noteq> TCancelled"
    "\<not> undone_parent (pp_org ?p) (pp_task ?p) (store demo_approved)" "pp_org ?p = ''o''" "pp_id ?p = ''p''"
    by code_simp+
  show ?thesis using no_lost_wakeup[OF reachable_work[OF reachable_approved] h(1-8)] h(9,10) by simp
qed

text \<open>
  C9. Every open agent run has somebody to move it on: a queued run has a job, a running one is held under a
  token, and a waiting one waits for exactly one pending question, which is about its own task.
\<close>

theorem open_run_attended:
  assumes "reachable_platform H reg y" "r \<in> set (agent_runs (store y))"
  shows "(ru_status r = RQueued \<longrightarrow> (ru_org r, ru_id r) \<in> set (run_jobs (store y))) \<and>
    (ru_status r = RRunning \<longleftrightarrow> ru_token r \<noteq> []) \<and>
    (ru_status r = RWaiting \<longrightarrow>
       (\<exists>g\<in>set (gates (store y)). ru_gate r = Some (gt_id g) \<and> gt_task g = ru_task r \<and> pending_for (ru_org r) (ru_id r) g \<and>
          (\<forall>h\<in>set (gates (store y)). pending_for (ru_org r) (ru_id r) h \<longrightarrow> h = g)))"
proof (intro conjI impI)
  note runs = runs_okD[OF db_invD(2)[OF platform_db[OF assms(1)]]]
  show "ru_status r = RRunning \<longleftrightarrow> ru_token r \<noteq> []" using runs(5) assms(2) by (simp add: tokens_ok_def)
  show "(ru_org r, ru_id r) \<in> set (run_jobs (store y))" if "ru_status r = RQueued"
    using runs(4) assms(2) that by (simp add: queued_ok_def)
  assume "ru_status r = RWaiting"
  then obtain g where g: "g \<in> set (gates (store y))" "asks r g"
    using runs(3) assms(2) by (auto simp: waiting_ok_def)
  obtain u where u: "u \<in> set (agent_runs (store y))" "ru_id u = ru_id r" "ru_task u = gt_task g"
    using gate_tasksD[OF runs(2) g(1)] g(2) by (auto simp: asks_def)
  have "u = r" by (rule run_unique[OF runs(1) u(1) assms(2) u(2)])
  then have "gt_task g = ru_task r" using u(3) by simp
  moreover have "h = g" if "h \<in> set (gates (store y))" "pending_for (ru_org r) (ru_id r) h" for h
  proof -
    have "one_pending (gates (store y))" using runs(2) by (simp add: gates_ok_def)
    moreover have "gt_org g = ru_org r" "gt_run g = Some (ru_id r)" "gt_status g = GPending"
      using g(2) by (simp_all add: asks_def)
    moreover have "gt_org h = ru_org r" "gt_run h = Some (ru_id r)" "gt_status h = GPending"
      using that(2) by (simp_all add: pending_for_def)
    ultimately show ?thesis using that(1) g(1) unfolding one_pending_def by (metis option.distinct(1))
  qed
  ultimately show "\<exists>g\<in>set (gates (store y)). ru_gate r = Some (gt_id g) \<and> gt_task g = ru_task r \<and>
      pending_for (ru_org r) (ru_id r) g \<and>
      (\<forall>h\<in>set (gates (store y)). pending_for (ru_org r) (ru_id r) h \<longrightarrow> h = g)"
    using g unfolding asks_def pending_for_def by blast
qed

theorem open_run_attended_witness:
  "\<exists>g\<in>set (gates (store demo_parked)). pending_for ''o'' ''run'' g \<and> gt_task g = ''u''"
proof -
  let ?r = "hd (agent_runs (store demo_parked))"
  have r: "?r \<in> set (agent_runs (store demo_parked))" "ru_status ?r = RWaiting" "ru_org ?r = ''o''"
    "ru_id ?r = ''run''" "ru_task ?r = ''u''" by code_simp+
  show ?thesis using open_run_attended[OF reachable_work[OF reachable_parked] r(1)] r(2-5) by auto
qed

text \<open>
  C10. The cycle check is exact: between two tasks of an organization a dependency is refused just when the parent
  already depends, over any number of steps, on the child or is the child, and otherwise it is added.
\<close>

theorem dependency_check_exact:
  assumes "find_task org t s \<noteq> None" "find_task org p s \<noteq> None"
  shows "(add_dependency org t p s = Inl (Msg ''dependency cycle'') \<longleftrightarrow> (p, t) \<in> (set (dep_edges org s))\<^sup>*) \<and>
    ((p, t) \<notin> (set (dep_edges org s))\<^sup>* \<longrightarrow>
       (\<exists>s'. add_dependency org t p s = Inr ((), s') \<and>
          set (dep_edges org s') = insert (t, p) (set (dep_edges org s))))"
proof -
  have r: "(p, t) \<in> (set (dep_edges org s))\<^sup>* \<longleftrightarrow> t = p \<or> t \<in> set (reach (dep_edges org s) p)"
    by (auto simp: set_reach rtrancl_eq_or_trancl)
  have e: "\<exists>s'. add_dependency org t p s = Inr ((), s')"
    if "t \<noteq> p" "t \<notin> set (reach (dep_edges org s) p)"
    using assms that by (simp add: add_dependency_def)
  have "add_dependency org t p s = Inl (Msg ''dependency cycle'')"
    if "t = p \<or> t \<in> set (reach (dep_edges org s) p)"
    using assms that by (auto simp: add_dependency_def)
  then show ?thesis unfolding r using e task_graph.add_edges by fastforce
qed

theorem dependency_check_exact_witness:
  "add_dependency ''o'' ''u'' ''t'' (store demo_offered) = Inl (Msg ''dependency cycle'')"
proof -
  have f: "find_task ''o'' ''u'' (store demo_offered) \<noteq> None" "find_task ''o'' ''t'' (store demo_offered) \<noteq> None"
    by code_simp+
  have "(''t'', ''u'') \<in> set (dep_edges ''o'' (store demo_offered))" by code_simp
  then show ?thesis using dependency_check_exact[OF f] by blast
qed

text \<open>
  C14. Ownership does not wander without end: at any time at most five ownership handoffs of a task were accepted,
  counting also those that were offered concurrently.
\<close>

theorem ownership_hops_bounded:
  assumes "reachable_platform H reg y"
  shows "length (filter (\<lambda>h. ho_org h = org \<and> ho_task h = task \<and> ho_role h = ''owner'' \<and> ho_state h = HAccepted)
     (handoffs (store y))) \<le> 5"
proof -
  have "hops_ok (store y)" using platform_db[OF assms] by (simp add: db_inv_def side_inv_def)
  then show ?thesis by (simp add: hops_ok_def accepted_owner_hops_def max_handoff_hops_def)
qed

definition demo_taken :: sys where
  "demo_taken = demo_step (AAccept ''o'' ''ho'' ''a'' 6) demo_offered"

lemma reachable_taken: "reachable_sys demo_hash new_registry demo_taken"
  unfolding demo_taken_def by (rule reachable.reach_step[OF reachable_offered]) simp

theorem ownership_hops_bounded_witness:
  "let n = length (filter (\<lambda>h. ho_org h = ''o'' \<and> ho_task h = ''t'' \<and> ho_role h = ''owner'' \<and> ho_state h = HAccepted)
     (handoffs (store demo_taken))) in n \<le> 5 \<and> n = 1"
proof -
  have "length (filter (\<lambda>h. ho_org h = ''o'' \<and> ho_task h = ''t'' \<and> ho_role h = ''owner'' \<and> ho_state h = HAccepted)
     (handoffs (store demo_taken))) = 1" by code_simp
  then show ?thesis using ownership_hops_bounded[OF reachable_work[OF reachable_taken], of "''o''" "''t''"] by simp
qed

text \<open>
  C12. What is closed stays closed: an agent run that succeeded, failed or was cancelled, a question that was
  answered or withdrawn and a handoff that was accepted, declined, cancelled or lapsed are never changed again.
\<close>

theorem closed_rows_stay:
  assumes "reachable_platform H reg y" "list_all possible as"
  shows "(\<forall>r\<in>set (agent_runs (store y)). ru_status r \<in> {RSucceeded, RFailed, RCancelled} \<longrightarrow>
            r \<in> set (agent_runs (store (steps (happen H reg) as y)))) \<and>
    (\<forall>g\<in>set (gates (store y)). gt_status g \<noteq> GPending \<longrightarrow> g \<in> set (gates (store (steps (happen H reg) as y)))) \<and>
    (\<forall>h\<in>set (handoffs (store y)). ho_state h \<in> {HAccepted, HDeclined, HExpired, HCancelled} \<longrightarrow>
            h \<in> set (handoffs (store (steps (happen H reg) as y))))"
proof -
  note i = platform.reachable_inv[OF assms(1)]
  show ?thesis
    using run_life.final_run[OF i assms(2)] gate_life.final_run[OF i assms(2)] handoff_life.final_run[OF i assms(2)]
    unfolding run_final_def gate_final_def handoff_final_def by blast
qed

theorem closed_rows_stay_witness:
  "hd (agent_runs (store demo_published)) \<in>
     set (agent_runs (store (steps (happen demo_hash new_registry) (map Work [ACancel ''o'' ''u'' 1 20]) demo_published)))"
proof -
  let ?r = "hd (agent_runs (store demo_published))"
  have r: "?r \<in> set (agent_runs (store demo_published))" "ru_status ?r = RSucceeded" by code_simp+
  have "list_all possible (map Work [ACancel ''o'' ''u'' 1 20])" by simp
  from closed_rows_stay[OF reachable_work[OF reachable_published] this, THEN conjunct1, rule_format, OF r(1)] r(2)
  show ?thesis by simp
qed

text \<open>
  C13. An answer is authentic: an answered question was answered by its respondent, with an answer that its schema
  accepts, and its schema is one the platform accepts.
\<close>

theorem answers_authentic:
  assumes "reachable_platform H reg y" "g \<in> set (gates (store y))" "gt_status g = GResolved"
  shows "gt_responded_by g = Some (gt_respondent g) \<and> validate_gate_response (gt_schema g) (gt_response g) = Inr () \<and>
     validate_gate_schema (Some (gt_schema g)) = Inr ()"
proof -
  let ?P = "\<lambda>g. validate_gate_schema (Some (gt_schema g)) = Inr () \<and> (gt_status g = GResolved \<longrightarrow>
     gt_responded_by g = Some (gt_respondent g) \<and> validate_gate_response (gt_schema g) (gt_response g) = Inr ())"
  have "\<forall>g\<in>set (gates (store y)). ?P g"
  proof (rule gate_life.rows_all[OF assms(1)])
    fix g h assume m: "gate_move g h" and p: "?P g"
    have h: "h = g\<lparr>gt_status := gt_status h, gt_response := gt_response h, gt_responded_by := gt_responded_by h,
        gt_responded_at := gt_responded_at h, gt_version := gt_version h\<rparr>" using m unfolding gate_move_def by blast
    have s: "gt_schema h = gt_schema g" "gt_respondent h = gt_respondent g" by (subst h, simp)+
    show "?P h"
    proof (cases "gt_status g = GResolved")
      case True
      then have "h = g" using m by (simp add: gate_move_def gate_final_def)
      then show ?thesis using p by simp
    next
      case False
      then show ?thesis using m p by (simp add: gate_move_def s)
    qed
  qed (simp add: gate_born_def)
  then show ?thesis using assms(2,3) by blast
qed

definition demo_answered :: sys where
  "demo_answered = demo_step (AResolve ''e9'' ''o'' ''g'' ''r'' 1 (Some (JObj [])) 12) demo_parked"

lemma reachable_answered: "reachable_sys demo_hash new_registry demo_answered"
  unfolding demo_answered_def by (rule reachable.reach_step[OF reachable_parked]) simp

theorem answers_authentic_witness:
  "gt_responded_by (hd (gates (store demo_answered))) = Some ''r''"
proof -
  let ?g = "hd (gates (store demo_answered))"
  have g: "?g \<in> set (gates (store demo_answered))" "gt_status ?g = GResolved" "gt_respondent ?g = ''r''" by code_simp+
  show ?thesis using answers_authentic[OF reachable_work[OF reachable_answered] g(1,2)] g(3) by simp
qed

text \<open>
  C15. Registry releases: an organization has at most one active release of a family, and an active release was
  granted everything it requested.
\<close>

theorem active_release_sound:
  assumes "reachable_platform H reg y" "r \<in> set (releases (store y))" "rr_state r = ''active''"
  shows "set (rr_requested r) \<subseteq> set (rr_granted r) \<and>
    (\<forall>q\<in>set (releases (store y)). rr_org q = rr_org r \<longrightarrow> rr_family q = rr_family r \<longrightarrow> rr_state q = ''active'' \<longrightarrow> q = r)"
proof
  let ?P = "\<lambda>r. rr_state r = ''active'' \<longrightarrow> set (rr_requested r) \<subseteq> set (rr_granted r)"
  have "\<forall>r\<in>set (releases (store y)). ?P r"
  proof (rule release_life.rows_all[OF assms(1)])
    fix r q assume m: "release_move r q" and p: "?P r"
    show "?P q"
    proof (cases "q = r")
      case False
      then have q: "q = r\<lparr>rr_state := rr_state q, rr_revision := rr_revision r + 1, rr_updated := rr_updated q,
            rr_granted := rr_granted q\<rparr>" "set (rr_granted r) \<subseteq> set (rr_granted q)"
          "rr_state q = ''active'' \<Longrightarrow> rr_state r \<noteq> ''active'' \<Longrightarrow> set (rr_requested r) \<subseteq> set (rr_granted q)"
        using m unfolding release_move_def by blast+
      have "rr_requested q = rr_requested r" by (subst q(1)) simp
      then show ?thesis using p q(2,3) by (cases "rr_state r = ''active''") auto
    qed (use p in simp)
  qed (simp add: release_born_def)
  then show "set (rr_requested r) \<subseteq> set (rr_granted r)" using assms(2,3) by blast
  have "one_active (releases (store y))"
    using platform_db[OF assms(1)] by (simp add: db_inv_def side_inv_def registry_ok_def)
  then show "\<forall>q\<in>set (releases (store y)). rr_org q = rr_org r \<longrightarrow> rr_family q = rr_family r \<longrightarrow>
      rr_state q = ''active'' \<longrightarrow> q = r"
    unfolding one_active_def using assms(2,3) by blast
qed

theorem active_release_sound_witness:
  "set (rr_requested (hd (releases (store demo_admitted)))) \<subseteq> set (rr_granted (hd (releases (store demo_admitted))))"
proof -
  let ?r = "hd (releases (store demo_admitted))"
  have r: "?r \<in> set (releases (store demo_admitted))" "rr_state ?r = ''active''" by code_simp+
  show ?thesis using active_release_sound[OF reachable_work[OF reachable_admitted] r] by simp
qed

text \<open>
  Revocation is for good and grants are never taken back: whatever happens later, a release stays in the
  registry with what identifies it, its grants only grow and a revoked one stays revoked.
\<close>

lemma release_history:
  assumes "reachable_platform H reg y" "list_all possible as" "r \<in> set (releases (store y))"
  shows "\<exists>q\<in>set (releases (store (steps (happen H reg) as y))).
     rr_id q = rr_id r \<and> rr_org q = rr_org r \<and> rr_family q = rr_family r \<and> rr_digest q = rr_digest r \<and>
     rr_requested q = rr_requested r \<and> set (rr_granted r) \<subseteq> set (rr_granted q) \<and>
     (rr_state r = ''revoked'' \<longrightarrow> rr_state q = ''revoked'')"
proof -
  obtain q where q: "q \<in> set (releases (store (steps (happen H reg) as y)))" "release_move\<^sup>*\<^sup>* r q"
    using release_life.rows_run[OF platform.reachable_inv[OF assms(1)] assms(2,3)] by blast
  let ?R = "\<lambda>r q. rr_id q = rr_id r \<and> rr_org q = rr_org r \<and> rr_family q = rr_family r \<and> rr_digest q = rr_digest r \<and>
     rr_requested q = rr_requested r \<and> set (rr_granted r) \<subseteq> set (rr_granted q) \<and>
     (rr_state r = ''revoked'' \<longrightarrow> rr_state q = ''revoked'')"
  have one: "?R u v" if m: "release_move u v" for u v
  proof (cases "v = u")
    case False
    then have v: "v = u\<lparr>rr_state := rr_state v, rr_revision := rr_revision u + 1, rr_updated := rr_updated v,
          rr_granted := rr_granted v\<rparr>" "set (rr_granted u) \<subseteq> set (rr_granted v)"
        "rr_state v = rr_state u \<or> can_transition (rr_state u) (rr_state v)"
      using m unfolding release_move_def by blast+
    have "rr_id v = rr_id u" "rr_org v = rr_org u" "rr_family v = rr_family u" "rr_digest v = rr_digest u"
      "rr_requested v = rr_requested u" by (subst v(1), simp)+
    then show ?thesis using v(2,3) by auto
  qed simp
  from q(2) have "?R r q"
  proof (induction rule: rtranclp_induct)
    case (step u v)
    show ?case using step.IH one[OF step.hyps(2)] by (auto dest: subsetD)
  qed simp
  then show ?thesis using q(1) by blast
qed

lemma release_history_witness:
  "\<exists>q\<in>set (releases (store (steps (happen demo_hash new_registry) (map Work [ATransition ''o'' ''h'' ''admin'' ''revoked'' 5 30]) demo_admitted))).
     rr_id q = ''h'' \<and> set (rr_granted (hd (releases (store demo_admitted)))) \<subseteq> set (rr_granted q)"
proof -
  let ?r = "hd (releases (store demo_admitted))"
  have r: "?r \<in> set (releases (store demo_admitted))" "rr_id ?r = ''h''" by code_simp+
  have "list_all possible (map Work [ATransition ''o'' ''h'' ''admin'' ''revoked'' 5 30])" by simp
  from release_history[OF reachable_work[OF reachable_admitted] this r(1)] show ?thesis unfolding r(2) by blast
qed

text \<open>
  C16. Admission: a run is admitted only on an open task, by its owner or an active administrator, for an agent all
  of whose capabilities the newest active release of its harness was granted, with a runner the platform has; and
  then it is queued with a job.
\<close>

theorem admission_checked:
  assumes "reachable_platform H reg y" "s = store y"
    "create_agent_run txt supported i org task actor agent intent now s = Inr (r, s')"
  shows "\<exists>a rel t. find_agent org agent s = Some a \<and> active_harness txt org (ag_harness a) s = Some rel \<and>
     rr_state rel = ''active'' \<and> set (ag_capabilities a) \<subseteq> set (rr_granted rel) \<and> supported (ru_runner r) \<and>
     ru_release r = rr_id rel \<and> find_task org task s = Some t \<and> \<not> terminal_task (tk_status t) \<and>
     (tk_owner t = actor \<or> (\<exists>p. find_principal org actor s = Some p \<and> pr_active p \<and> pr_role p = Admin)) \<and>
     ru_status r = RQueued \<and> r \<in> set (agent_runs s') \<and> (org, i) \<in> set (run_jobs s')"
proof -
  obtain a rel t where a: "find_agent org agent s = Some a" "active_harness txt org (ag_harness a) s = Some rel"
      "admission_missing org agent (rr_id rel) s = Inr []" "find_task org task s = Some t"
      "supported (release_runner txt rel)" "\<not> terminal_task (tk_status t)"
      "tk_owner t = actor \<or> (\<exists>p. find_principal org actor s = Some p \<and> pr_active p \<and> pr_role p = Admin)"
      "ru_runner r = release_runner txt rel" "ru_release r = rr_id rel" "ru_status r = RQueued"
      "s' = enqueue_agent_run org i (s\<lparr>agent_runs := agent_runs s @ [r]\<rparr>)"
    using assms(3) unfolding create_agent_run_def Let_def
    by (auto split: option.splits if_split_asm sum.splits)
  note h = active_harness_SomeD(1,2)[OF a(2)]
  obtain rel' where rel': "find_release org (rr_id rel) s = Some rel'"
      "set (ag_capabilities a) \<subseteq> set (rr_granted rel')" using a(1,3) by (auto simp: admission_ok)
  have "distinct (map (\<lambda>r. (rr_org r, rr_id r)) (releases s))"
    using platform_db[OF assms(1)] unfolding assms(2)
    by (simp add: db_inv_def side_inv_def registry_ok_def release_keys_def)
  then have "rel' = rel"
    by (rule unique_key_row) (use row_SomeD[OF rel'(1)] h in \<open>simp_all add: harness_release_def\<close>)
  then have "rr_state rel = ''active'' \<and> set (ag_capabilities a) \<subseteq> set (rr_granted rel)"
    using rel'(2) h(2) by (simp add: harness_release_def)
  moreover have "r \<in> set (agent_runs s') \<and> (org, i) \<in> set (run_jobs s')"
    unfolding a(11) by (simp add: enqueue_agent_run_def)
  ultimately show ?thesis using a(1,2,4-10) by auto
qed

definition demo_agent :: sys where
  "demo_agent = steps demo_step (take 6 demo_admission) demo_start"

lemma reachable_agent: "reachable_sys demo_hash new_registry demo_agent"
  unfolding demo_agent_def by (rule reachable_run[OF reachable_start]) (simp add: demo_admission_def)

theorem admission_checked_witness:
  "\<exists>r s'. create_agent_run (\<lambda>_. []) (\<lambda>h. h = ''simulator'') ''run'' ''o'' ''u'' ''r'' ''ag'' ''work'' 8 (store demo_agent) =
     Inr (r, s') \<and> ru_status r = RQueued \<and> (''o'', ''run'') \<in> set (run_jobs s')"
proof -
  have "\<not> Option.is_none (case create_agent_run (\<lambda>_. []) (\<lambda>h. h = ''simulator'') ''run'' ''o'' ''u'' ''r'' ''ag'' ''work'' 8
      (store demo_agent) of Inl _ \<Rightarrow> None | Inr _ \<Rightarrow> Some ())" by code_simp
  then obtain r s' where c: "create_agent_run (\<lambda>_. []) (\<lambda>h. h = ''simulator'') ''run'' ''o'' ''u'' ''r'' ''ag'' ''work'' 8
      (store demo_agent) = Inr (r, s')" by (auto split: sum.splits)
  then show ?thesis using admission_checked[OF reachable_work[OF reachable_agent] refl c] by blast
qed

text \<open>
  C11. An agent made from a template stays within it: its template exists in its organization, is published (so its
  content is frozen), has the version the agent names, and the agent's harness is the template's and its
  capabilities are among the template's; and the template stays as it is, whatever the platform does afterwards.
\<close>

theorem agents_pinned:
  assumes "reachable_platform H reg y" "a \<in> set (agents (store y))" "ag_template a = Some i"
  shows "\<exists>t\<in>set (templates (store y)). at_id t = i \<and> at_org t = ag_org a \<and> at_status t = ''published'' \<and>
     ag_template_version a = Some (at_version t) \<and> ag_harness a = at_harness t \<and>
     set (ag_capabilities a) \<subseteq> set (at_capabilities t) \<and>
     (\<forall>es. list_all possible es \<longrightarrow> t \<in> set (templates (store (steps (happen H reg) es y))))"
proof -
  have "templates_ok (store y)" using platform_db[OF assms(1)] by (simp add: db_inv_def side_inv_def)
  then obtain t where t: "t \<in> set (templates (store y))" "pinned a t"
    using assms(2,3) unfolding templates_ok_def by fastforce
  then have "template_final t" by (simp add: pinned_def template_final_def)
  then have "t \<in> set (templates (store (steps (happen H reg) es y)))" if "list_all possible es" for es
    using template_life.final_run[OF platform.reachable_inv[OF assms(1)] that t(1)] by simp
  then show ?thesis using t assms(3) by (auto simp: pinned_def intro!: bexI[of _ t])
qed

definition demo_pinned :: sys where
  "demo_pinned = steps demo_step
     [APrincipal \<lparr>pr_id = ''ad'', pr_org = ''o'', pr_name = ''Ad'', pr_role = Admin, pr_active = True\<rparr>,
      ATemplate ''tp'' ''o'' ''ad'' ''T'' ''1'' ''simulator'' '''' [''read_records''] '''' 9,
      APublish (\<lambda>h. h = ''simulator'') ''o'' ''ad'' ''tp'' 1,
      AInstance ''ag2'' ''o'' ''ad'' ''A2'' ''tp'' None ''''] demo_agent"

lemma reachable_pinned: "reachable_sys demo_hash new_registry demo_pinned"
  unfolding demo_pinned_def by (rule reachable_run[OF reachable_agent]) simp

theorem agents_pinned_witness:
  "\<exists>t\<in>set (templates (store demo_pinned)). at_id t = ''tp'' \<and> at_status t = ''published'' \<and>
     set (ag_capabilities (last (agents (store demo_pinned)))) \<subseteq> set (at_capabilities t)"
proof -
  let ?a = "last (agents (store demo_pinned))"
  have a: "?a \<in> set (agents (store demo_pinned))" "ag_template ?a = Some ''tp''" by code_simp+
  show ?thesis using agents_pinned[OF reachable_work[OF reachable_pinned] a] by blast
qed

text \<open>
  Cancelling closes everything: after a task was cancelled no proposal of it is open, no question of it pends
  and no run of it is open, so by the other properties none of them comes back to life.
\<close>

lemma cancel_closes_all:
  assumes "cancel_task org i v now s = Inr (x, s')"
  shows "(\<exists>t\<in>set (tasks s'). tk_org t = org \<and> tk_id t = i \<and> tk_status t = TCancelled \<and> tk_version t = v + 1) \<and>
    (\<forall>p\<in>set (proposals s'). pp_org p = org \<longrightarrow> pp_task p = i \<longrightarrow>
       pp_status p \<in> {PRejected, PSuperseded, PDone, PNeedsAttention}) \<and>
    (\<forall>g\<in>set (gates s'). gt_org g = org \<longrightarrow> gt_task g = i \<longrightarrow> gt_status g \<noteq> GPending) \<and>
    (\<forall>r\<in>set (agent_runs s'). ru_org r = org \<longrightarrow> ru_task r = i \<longrightarrow> ru_status r \<in> {RSucceeded, RFailed, RCancelled})"
proof -
  note c = cancel_task_closes[OF assms]
  have p: "st \<in> {PRejected, PSuperseded, PDone, PNeedsAttention} \<longleftrightarrow> \<not> open_proposal st" for st by (cases st) simp_all
  have r: "st \<in> {RSucceeded, RFailed, RCancelled} \<longleftrightarrow> \<not> open_run st" for st by (cases st) simp_all
  show ?thesis unfolding p r using c by simp
qed

lemma cancel_closes_all_witness:
  "\<exists>x s'. cancel_task ''o'' ''u'' 1 12 (store demo_parked) = Inr (x, s') \<and>
     (\<forall>g\<in>set (gates s'). gt_org g = ''o'' \<longrightarrow> gt_task g = ''u'' \<longrightarrow> gt_status g \<noteq> GPending)"
proof -
  have "\<not> Option.is_none (case cancel_task ''o'' ''u'' 1 12 (store demo_parked) of Inl _ \<Rightarrow> None | Inr _ \<Rightarrow> Some ())"
    by code_simp
  then obtain x s' where c: "cancel_task ''o'' ''u'' 1 12 (store demo_parked) = Inr (x, s')" by (auto split: sum.splits)
  then show ?thesis using cancel_closes_all[OF c] by blast
qed

text \<open>
  C34. A person's board, in any state of the platform: the tasks on it are exactly the open ones of the organization
  (neither done nor cancelled) that the person owns, executes or holds an open, unexpired offer of, each once and the
  oldest first; an item is accountable if the person owns the task, otherwise executing if they execute it, otherwise
  an offer; and it names the oldest prerequisite that is not done, or none if there is none.
\<close>

theorem work_board_exact:
  assumes "reachable_platform H reg y"
  shows "let s = store y; b = work_board org actor now s in
    distinct (map wb_task b) \<and> sorted (map wb_created b) \<and>
    wb_task ` set b = {tk_id t | t. t \<in> set (tasks s) \<and> tk_org t = org \<and> tk_status t \<notin> {TDone, TCancelled} \<and>
      (tk_owner t = actor \<or> tk_assignee t = Some actor \<or>
       (\<exists>h\<in>set (handoffs s). ho_org h = org \<and> ho_task h = tk_id t \<and> ho_recipient h = actor \<and>
          ho_state h \<in> {HOffered, HClarification} \<and> (\<forall>e. ho_expires h = Some e \<longrightarrow> now < e)))} \<and>
    (\<forall>x\<in>set b. \<forall>t\<in>set (tasks s). wb_task x = tk_id t \<longrightarrow>
      wb_title x = tk_title t \<and> wb_status x = tk_status t \<and> wb_version x = tk_version t \<and>
      wb_created x = tk_created t \<and>
      (tk_owner t = actor \<longrightarrow> wb_relevance x = Accountable) \<and>
      (tk_owner t \<noteq> actor \<and> tk_assignee t = Some actor \<longrightarrow> wb_relevance x = Executing) \<and>
      (tk_owner t \<noteq> actor \<and> tk_assignee t \<noteq> Some actor \<longrightarrow> wb_relevance x = HandoffOffered) \<and>
      (case wb_blocker x of
         None \<Rightarrow> \<forall>p. \<not> holds_up s t p
       | Some (i, ti, ow) \<Rightarrow> \<exists>p. holds_up s t p \<and> tk_id p = i \<and> tk_title p = ti \<and> tk_owner p = ow \<and>
           (\<forall>q. holds_up s t q \<longrightarrow> tk_created p \<le> tk_created q)))"
  unfolding Let_def
proof (intro conjI ballI impI)
  let ?s = "store y" and ?b = "work_board org actor now (store y)"
  have ids: "distinct (map tk_id (tasks ?s))"
    using core_invD(2)[OF db_invD(1)[OF platform_db[OF assms]]] by (simp add: tasks_ok_def)
  note rows = work_board_rows[OF ids]
  show "distinct (map wb_task ?b)" "sorted (map wb_created ?b)" by (rule rows)+
  have on: "on_board org actor now ?s t \<longleftrightarrow> tk_org t = org \<and> tk_status t \<notin> {TDone, TCancelled} \<and>
      (tk_owner t = actor \<or> tk_assignee t = Some actor \<or>
       (\<exists>h\<in>set (handoffs ?s). ho_org h = org \<and> ho_task h = tk_id t \<and> ho_recipient h = actor \<and>
          ho_state h \<in> {HOffered, HClarification} \<and> (\<forall>e. ho_expires h = Some e \<longrightarrow> now < e)))" for t
    by (auto simp: on_board_def offered_to_def exists_row_def split: option.splits)
  show "wb_task ` set ?b = {tk_id t | t. t \<in> set (tasks ?s) \<and> tk_org t = org \<and> tk_status t \<notin> {TDone, TCancelled} \<and>
      (tk_owner t = actor \<or> tk_assignee t = Some actor \<or>
       (\<exists>h\<in>set (handoffs ?s). ho_org h = org \<and> ho_task h = tk_id t \<and> ho_recipient h = actor \<and>
          ho_state h \<in> {HOffered, HClarification} \<and> (\<forall>e. ho_expires h = Some e \<longrightarrow> now < e)))}"
    unfolding on[symmetric]
  proof -
    have "set ?b = board_item_of actor ?s ` {t \<in> set (tasks ?s). on_board org actor now ?s t}" using rows(3) by blast
    then have "wb_task ` set ?b = tk_id ` {t \<in> set (tasks ?s). on_board org actor now ?s t}"
      by (simp add: image_image board_item_shows)
    then show "wb_task ` set ?b = {tk_id t | t. t \<in> set (tasks ?s) \<and> on_board org actor now ?s t}" by blast
  qed
  fix x t assume x: "x \<in> set ?b" and t: "t \<in> set (tasks ?s)" "wb_task x = tk_id t"
  obtain u where u: "u \<in> set (tasks ?s)" "x = board_item_of actor ?s u" using x rows(3) by blast
  have "u = t" by (rule unique_key_row[OF ids u(1) t(1)]) (use t(2) u(2) in \<open>simp add: board_item_shows\<close>)
  note x = u(2)[unfolded this]
  show "wb_title x = tk_title t" "wb_status x = tk_status t" "wb_version x = tk_version t" "wb_created x = tk_created t"
    by (simp_all add: x board_item_shows)
  show "wb_relevance x = Accountable" if "tk_owner t = actor" using that by (simp add: x board_item_shows relevance_of_def)
  show "wb_relevance x = Executing" if "tk_owner t \<noteq> actor \<and> tk_assignee t = Some actor"
    using that by (simp add: x board_item_shows relevance_of_def)
  show "wb_relevance x = HandoffOffered" if "tk_owner t \<noteq> actor \<and> tk_assignee t \<noteq> Some actor"
    using that by (simp add: x board_item_shows relevance_of_def)
  show "case wb_blocker x of None \<Rightarrow> \<forall>p. \<not> holds_up ?s t p
       | Some (i, ti, ow) \<Rightarrow> \<exists>p. holds_up ?s t p \<and> tk_id p = i \<and> tk_title p = ti \<and> tk_owner p = ow \<and>
           (\<forall>q. holds_up ?s t q \<longrightarrow> tk_created p \<le> tk_created q)"
    unfolding x by (rule board_item_shows(7))
qed

theorem work_board_exact_witness:
  "let b = work_board ''o'' ''a'' 6 (store demo_offered) in
     distinct (map wb_task b) \<and> map wb_relevance b = [HandoffOffered] \<and> map wb_blocker b = [Some (''u'', ''U'', ''r'')]"
proof -
  have "map wb_relevance (work_board ''o'' ''a'' 6 (store demo_offered)) = [HandoffOffered]"
    "map wb_blocker (work_board ''o'' ''a'' 6 (store demo_offered)) = [Some (''u'', ''U'', ''r'')]" by code_simp+
  then show ?thesis
    using work_board_exact[OF reachable_work[OF reachable_offered], of "''o''" "''a''" 6] by (simp add: Let_def)
qed

text \<open>
  An agent's board: its open runs are partitioned into running, queued and parked, it is active
  exactly if one is running, and the question every parked run waits for is among its open gates.
\<close>

lemma agent_board_exact:
  assumes "reachable_platform H reg y" "agent_board org i (store y) = Inr v"
  shows "set (ab_running v) \<union> set (ab_queued v) \<union> set (ab_parked v) =
      {r \<in> set (agent_runs (store y)). ru_org r = org \<and> ru_agent r = i \<and> open_run (ru_status r)} \<and>
    set (ab_running v) \<inter> set (ab_parked v) = {} \<and> set (ab_queued v) \<inter> set (ab_parked v) = {} \<and>
    (ab_active v \<longleftrightarrow> (\<exists>r\<in>set (agent_runs (store y)). ru_org r = org \<and> ru_agent r = i \<and> ru_status r = RRunning)) \<and>
    (\<forall>r\<in>set (ab_parked v). \<exists>g\<in>set (ab_gates v). asks r g)"
proof -
  let ?s = "store y"
  have v: "ab_running v = runs_in org i RRunning ?s" "ab_queued v = runs_in org i RQueued ?s"
    "ab_parked v = runs_in org i RWaiting ?s" "ab_active v = (runs_in org i RRunning ?s \<noteq> [])"
    "ab_gates v = sort_key gt_created (filter (\<lambda>g. gt_org g = org \<and> gt_status g = GPending \<and>
       exists_row (\<lambda>r. ru_org r = gt_org g \<and> gt_run g = Some (ru_id r) \<and> ru_agent r = i) (agent_runs ?s)) (gates ?s))"
    using assms(2) by (auto simp: agent_board_def Let_def split: option.splits)
  have w: "waiting_ok ?s" using runs_okD(3)[OF db_invD(2)[OF platform_db[OF assms(1)]]] .
  have "\<exists>g\<in>set (ab_gates v). asks r g" if "r \<in> set (ab_parked v)" for r
  proof -
    have r: "r \<in> set (agent_runs ?s)" "ru_org r = org" "ru_agent r = i" "ru_status r = RWaiting"
      using that by (auto simp: v set_runs_in)
    then obtain g where g: "g \<in> set (gates ?s)" "asks r g" using w unfolding waiting_ok_def by blast
    have "exists_row (\<lambda>r. ru_org r = gt_org g \<and> gt_run g = Some (ru_id r) \<and> ru_agent r = i) (agent_runs ?s)"
      unfolding exists_row_def using g(2) r by (intro bexI[OF _ r(1)]) (simp add: asks_def)
    then have "g \<in> set (ab_gates v)" using g r by (simp add: v asks_def)
    then show ?thesis using g(2) by blast
  qed
  moreover have "ab_active v \<longleftrightarrow> set (runs_in org i RRunning ?s) \<noteq> {}" by (simp add: v)
  ultimately show ?thesis by (auto simp: v set_runs_in)
qed

lemma agent_board_exact_witness:
  "\<exists>v. agent_board ''o'' ''ag'' (store demo_parked) = Inr v \<and> \<not> ab_active v \<and> ab_parked v \<noteq> [] \<and>
     (\<forall>r\<in>set (ab_parked v). \<exists>g\<in>set (ab_gates v). asks r g)"
proof -
  let ?b = "agent_board ''o'' ''ag'' (store demo_parked)"
  have "(case ?b of Inl _ \<Rightarrow> None | Inr v \<Rightarrow> Some (ab_active v, ab_parked v = [])) = Some (False, False)"
    by code_simp
  then obtain v where v: "?b = Inr v" "\<not> ab_active v" "ab_parked v \<noteq> []" by (auto split: sum.splits)
  show ?thesis using agent_board_exact[OF reachable_work[OF reachable_parked] v(1)] v by blast
qed

end
